(* ===== verification/Prelude.thy ===== *)
theory Prelude
  imports Main "HOL-Library.Word" "HOL-Library.Multiset"
begin

unbundle bit_operations_syntax

text \<open>
  The shared ground of the development: the names of the machine integer types, the
  rule collections the component proofs draw on, and the generic facts on words, options
  and lists that several components need. Nothing here models code of the fabric.

  Conventions. \<open>std::uint8_t\<close>, \<open>uint16_t\<close>, \<open>uint32_t\<close> and \<open>uint64_t\<close> are words of that
  width, with the wrap-around of C++ unsigned arithmetic. \<open>std::size_t\<close> values that count
  the elements of a container are \<open>nat\<close>. A \<open>std::vector\<close> or \<open>std::deque\<close> is a list, a
  \<open>std::byte\<close> is an 8-bit word.
\<close>

section \<open>Machine integers\<close>

type_synonym u8 = "8 word"
type_synonym u16 = "16 word"
type_synonym u32 = "32 word"
type_synonym u64 = "64 word"

named_theorems try_simps \<open>how an early return threads through a chain of checks\<close>
named_theorems codec_simps \<open>round trips of the encoders\<close>
named_theorems flag_simps \<open>evaluation of flag words\<close>

section \<open>Words without overflow\<close>

lemma unat_mult_no_overflow:
  fixes a b :: "'a::len word"
  assumes "unat a * unat b < 2 ^ LENGTH('a)"
  shows "unat (a * b) = unat a * unat b"
  using assms by (simp add: unat_word_ariths)

lemma unat_add_no_overflow:
  fixes a b :: "'a::len word"
  assumes "unat a + unat b < 2 ^ LENGTH('a)"
  shows "unat (a + b) = unat a + unat b"
  using assms by (simp add: unat_word_ariths)

lemma unat_drop_bit: "unat (drop_bit n (w :: 'a::len word)) = unat w div 2 ^ n"
proof -
  have "unat (drop_bit n w) = drop_bit n (unat w)" by (rule unat_drop_bit_eq)
  also have "\<dots> = unat w div 2 ^ n" by (rule drop_bit_eq_div)
  finally show ?thesis .
qed

lemma unat_u32_to_u64 [simp]: "unat (ucast (w :: u32) :: u64) = unat w"
  by (simp add: unsigned_ucast_eq take_bit_nat_eq_self_iff order_less_trans [OF unsigned_less])

lemma u32_to_u64_le_iff [simp]: "((ucast (a :: u32) :: u64) \<le> ucast b) = (a \<le> b)"
  by (simp add: word_le_nat_alt)

lemma u32_to_u64_less_iff [simp]: "((ucast (a :: u32) :: u64) < ucast b) = (a < b)"
  by (simp add: word_less_nat_alt)

lemma unat_u64_to_u32:
  "unat (w :: u64) < 2 ^ 32 \<Longrightarrow> unat (ucast w :: u32) = unat w"
  by (simp add: unsigned_ucast_eq take_bit_nat_eq_self_iff)

lemma unat_u8_bound: "unat (b :: u8) < 256"
  using unsigned_less [of b, where ?'a = nat] by simp

lemma unat_u32_bound: "unat (w :: u32) < 4294967296"
  using unsigned_less [of w, where ?'a = nat] by simp

lemma unat_u64_bound: "unat (w :: u64) < 18446744073709551616"
  using unsigned_less [of w, where ?'a = nat] by simp

lemma u64_max_minus: "unat (-1 - (b :: u64)) = 18446744073709551615 - unat b"
proof -
  have "unat (-1 - b) = unat (-1 :: u64) - unat b"
    by (rule unat_sub) simp
  then show ?thesis by (simp add: unsigned_minus_1_eq_mask mask_eq_exp_minus_1)
qed

section \<open>Division that rounds to nearest\<close>

text \<open>
  The fixed point conversions all compute \<open>(x + d div 2) div d\<close>. The result is the
  nearest integer to \<open>x / d\<close>, halves rounding up.
\<close>

lemma round_div_bounds:
  fixes x d :: nat
  assumes "0 < d"
  defines "q \<equiv> (x + d div 2) div d"
  shows "2 * x \<le> 2 * q * d + d" and "2 * q * d \<le> 2 * x + d"
proof -
  have q: "q * d \<le> x + d div 2" "x + d div 2 < q * d + d"
    using dividend_less_div_times [OF assms(1), of "x + d div 2"]
    by (simp_all add: q_def add.commute)
  have h: "2 * (d div 2) \<le> d" "d \<le> 2 * (d div 2) + 1" by simp_all
  from q(1) h(1) show "2 * q * d \<le> 2 * x + d" by simp
  from q(2) h(2) show "2 * x \<le> 2 * q * d + d" by simp
qed

lemma round_div_unique:
  fixes x d k :: nat
  assumes "0 < d" and "2 * k * d \<le> 2 * x + d" and "2 * x + d < 2 * k * d + 2 * d"
  shows "(x + d div 2) div d = k"
proof (rule div_nat_eqI)
  have e: "2 * (d div 2) \<le> d" "d \<le> 2 * (d div 2) + 1" by simp_all
  show "d * k \<le> x + d div 2"
  proof (cases "even d")
    case True
    then have "2 * (d div 2) = d" by simp
    with assms(2) show ?thesis by (simp add: mult.commute)
  next
    case False
    then have d: "d = 2 * (d div 2) + 1" by simp
    have "2 * (d * k) \<le> 2 * x + 2 * (d div 2) + 1"
      using assms(2) d by (metis add.assoc mult.assoc mult.commute)
    then show ?thesis by linarith
  qed
  show "x + d div 2 < d * Suc k"
    using assms(3) e by (simp add: mult.commute)
qed

section \<open>Lists\<close>

lemma find_Some_iff_split:
  "List.find P xs = Some x \<Longrightarrow> x \<in> set xs \<and> P x"
  by (auto simp: find_Some_iff)

lemma distinct_map_filterI: "distinct (map f xs) \<Longrightarrow> distinct (map f (filter P xs))"
  by (induction xs) auto

lemma length_filter_less_eq [simp]: "length (filter P xs) \<le> length xs"
  by (rule length_filter_le)

lemma sum_list_filter_split:
  "sum_list (map f xs) = sum_list (map f (filter P xs)) + sum_list (map (f :: _ \<Rightarrow> nat) (filter (\<lambda>x. \<not> P x) xs))"
  by (induction xs) auto

end
