(* ===== verification/Status.thy ===== *)
theory Status
  imports Prelude
begin

text \<open>
  Status codes and result plumbing: \<open>include/backpressure/core/status.hpp\<close>.

  An \<open>ErrorCode\<close> enumerator is a constructor. A \<open>Status\<close> object is a record with the
  code, the numeric detail and the context string, which the constructor cuts to 96 bytes;
  a \<open>Result<T>\<close> is \<open>Status + 'a\<close>, \<open>Inl\<close> carrying the failing status. The macros
  \<open>BPFAB_TRY\<close> and \<open>BPFAB_TRY_DECL\<close> are the two bind operators at the end, with the
  rewrite rules that let a chain of checks be read off an \<open>Ok\<close> result.
\<close>

section \<open>Error codes\<close>

datatype ErrorCode =
  Ok
| InvalidArgument
| MalformedInput
| TruncatedInput
| OversizedInput
| IntegrityMismatch
| Overflow
| OutOfRange
| NotFound
| Duplicate
| Conflict
| CycleDetected
| StaleGeneration
| StaleEpoch
| StaleIncarnation
| Expired
| Fenced
| Unauthorized
| UnknownPressure
| BudgetExhausted
| LimitExceeded
| NotReady
| Cancelled
| ShuttingDown
| IoError
| VersionMismatch
| Ambiguous
| RevalidationRequired
| Unsupported
| Internal
| ErrorCode_Count

fun errorcode_to_string :: "ErrorCode \<Rightarrow> string" where
  "errorcode_to_string Ok = ''Ok''"
| "errorcode_to_string InvalidArgument = ''InvalidArgument''"
| "errorcode_to_string MalformedInput = ''MalformedInput''"
| "errorcode_to_string TruncatedInput = ''TruncatedInput''"
| "errorcode_to_string OversizedInput = ''OversizedInput''"
| "errorcode_to_string IntegrityMismatch = ''IntegrityMismatch''"
| "errorcode_to_string Overflow = ''Overflow''"
| "errorcode_to_string OutOfRange = ''OutOfRange''"
| "errorcode_to_string NotFound = ''NotFound''"
| "errorcode_to_string Duplicate = ''Duplicate''"
| "errorcode_to_string Conflict = ''Conflict''"
| "errorcode_to_string CycleDetected = ''CycleDetected''"
| "errorcode_to_string StaleGeneration = ''StaleGeneration''"
| "errorcode_to_string StaleEpoch = ''StaleEpoch''"
| "errorcode_to_string StaleIncarnation = ''StaleIncarnation''"
| "errorcode_to_string Expired = ''Expired''"
| "errorcode_to_string Fenced = ''Fenced''"
| "errorcode_to_string Unauthorized = ''Unauthorized''"
| "errorcode_to_string UnknownPressure = ''UnknownPressure''"
| "errorcode_to_string BudgetExhausted = ''BudgetExhausted''"
| "errorcode_to_string LimitExceeded = ''LimitExceeded''"
| "errorcode_to_string NotReady = ''NotReady''"
| "errorcode_to_string Cancelled = ''Cancelled''"
| "errorcode_to_string ShuttingDown = ''ShuttingDown''"
| "errorcode_to_string IoError = ''IoError''"
| "errorcode_to_string VersionMismatch = ''VersionMismatch''"
| "errorcode_to_string Ambiguous = ''Ambiguous''"
| "errorcode_to_string RevalidationRequired = ''RevalidationRequired''"
| "errorcode_to_string Unsupported = ''Unsupported''"
| "errorcode_to_string Internal = ''Internal''"
| "errorcode_to_string ErrorCode_Count = ''UnknownErrorCode''"

text \<open>The enumerators' underlying \<open>uint16_t\<close> values, which the fingerprints absorb.\<close>

fun errorcode_value :: "ErrorCode \<Rightarrow> u16" where
  "errorcode_value Ok = 0"
| "errorcode_value InvalidArgument = 1"
| "errorcode_value MalformedInput = 2"
| "errorcode_value TruncatedInput = 3"
| "errorcode_value OversizedInput = 4"
| "errorcode_value IntegrityMismatch = 5"
| "errorcode_value Overflow = 6"
| "errorcode_value OutOfRange = 7"
| "errorcode_value NotFound = 8"
| "errorcode_value Duplicate = 9"
| "errorcode_value Conflict = 10"
| "errorcode_value CycleDetected = 11"
| "errorcode_value StaleGeneration = 12"
| "errorcode_value StaleEpoch = 13"
| "errorcode_value StaleIncarnation = 14"
| "errorcode_value Expired = 15"
| "errorcode_value Fenced = 16"
| "errorcode_value Unauthorized = 17"
| "errorcode_value UnknownPressure = 18"
| "errorcode_value BudgetExhausted = 19"
| "errorcode_value LimitExceeded = 20"
| "errorcode_value NotReady = 21"
| "errorcode_value Cancelled = 22"
| "errorcode_value ShuttingDown = 23"
| "errorcode_value IoError = 24"
| "errorcode_value VersionMismatch = 25"
| "errorcode_value Ambiguous = 26"
| "errorcode_value RevalidationRequired = 27"
| "errorcode_value Unsupported = 28"
| "errorcode_value Internal = 29"
| "errorcode_value ErrorCode_Count = 30"

definition is_staleness :: "ErrorCode \<Rightarrow> bool" where
  "is_staleness code \<longleftrightarrow>
     code = StaleGeneration \<or> code = StaleEpoch \<or> code = StaleIncarnation \<or> code = Expired"

section \<open>Status objects\<close>

definition kStatusContextBytes :: nat where
  "kStatusContextBytes = 96"

record Status =
  st_code :: ErrorCode
  st_detail :: u64
  st_context :: string

definition status_success :: Status where
  "status_success = \<lparr>st_code = Ok, st_detail = 0, st_context = []\<rparr>"

definition status_error :: "ErrorCode \<Rightarrow> string \<Rightarrow> u64 \<Rightarrow> Status" where
  "status_error code context detail =
     \<lparr>st_code = code, st_detail = detail, st_context = take kStatusContextBytes context\<rparr>"

definition status_ok :: "Status \<Rightarrow> bool" where
  "status_ok s \<longleftrightarrow> st_code s = Ok"

definition with_context :: "Status \<Rightarrow> string \<Rightarrow> Status" where
  "with_context s extra = (if extra = [] then s else status_error (st_code s) extra (st_detail s))"

definition status_eq :: "Status \<Rightarrow> Status \<Rightarrow> bool" where
  "status_eq a b \<longleftrightarrow> st_code a = st_code b"

lemma status_ok_success [simp]: "status_ok status_success"
  by (simp add: status_ok_def status_success_def)

lemma st_code_error [simp]: "st_code (status_error c ctx d) = c"
  by (simp add: status_error_def)

lemma status_ok_error [simp]: "status_ok (status_error c ctx d) \<longleftrightarrow> c = Ok"
  by (simp add: status_ok_def)

lemma st_code_success [simp]: "st_code status_success = Ok"
  by (simp add: status_success_def)

lemma status_error_not_success: "c \<noteq> Ok \<Longrightarrow> status_error c ctx d \<noteq> status_success"
  by (metis st_code_error st_code_success)

section \<open>Results\<close>

type_synonym 'a result = "Status + 'a"

definition ok_result :: "'a \<Rightarrow> 'a result" where
  "ok_result v = Inr v"

definition fail :: "ErrorCode \<Rightarrow> string \<Rightarrow> u64 \<Rightarrow> 'a result" where
  "fail code context detail = Inl (status_error code context detail)"

definition result_ok :: "'a result \<Rightarrow> bool" where
  "result_ok r = (case r of Inl _ \<Rightarrow> False | Inr _ \<Rightarrow> True)"

definition result_status :: "'a result \<Rightarrow> Status" where
  "result_status r = (case r of Inl s \<Rightarrow> s | Inr _ \<Rightarrow> status_success)"

definition value_or :: "'a result \<Rightarrow> 'a \<Rightarrow> 'a" where
  "value_or r fallback = (case r of Inl _ \<Rightarrow> fallback | Inr v \<Rightarrow> v)"

text \<open>
  \<open>BPFAB_TRY(expr); rest\<close> in a function that returns a \<open>Status\<close>, and
  \<open>BPFAB_TRY_DECL(type, name, expr); rest\<close> in one that returns a \<open>Result\<close>.
\<close>

definition bpfab_try :: "Status \<Rightarrow> Status \<Rightarrow> Status" where
  "bpfab_try s rest = (if status_ok s then rest else s)"

definition bpfab_try_decl :: "'a result \<Rightarrow> ('a \<Rightarrow> 'b result) \<Rightarrow> 'b result" where
  "bpfab_try_decl r k = (case r of Inl s \<Rightarrow> Inl s | Inr v \<Rightarrow> k v)"

definition bpfab_try_result :: "Status \<Rightarrow> 'a result \<Rightarrow> 'a result" where
  "bpfab_try_result s rest = (if status_ok s then rest else Inl s)"

lemma fail_not_Inr [simp]: "fail c ctx d \<noteq> Inr v" "Inr v \<noteq> fail c ctx d"
  by (simp_all add: fail_def)

lemma fail_inject [simp]: "fail c ctx d = Inl s \<longleftrightarrow> s = status_error c ctx d"
  by (auto simp: fail_def)

lemma bpfab_try_ok [try_simps]: "status_ok (bpfab_try s rest) \<longleftrightarrow> status_ok s \<and> status_ok rest"
  by (simp add: bpfab_try_def)

lemma bpfab_try_decl_simps [simp]:
  "bpfab_try_decl (Inr v) k = k v"
  "bpfab_try_decl (Inl s) k = Inl s"
  "bpfab_try_decl (fail c ctx d) k = fail c ctx d"
  by (simp_all add: bpfab_try_decl_def fail_def)

lemma bpfab_try_decl_Inr [try_simps]:
  "bpfab_try_decl r k = Inr v \<longleftrightarrow> (\<exists>u. r = Inr u \<and> k u = Inr v)"
  by (cases r) (simp_all add: bpfab_try_decl_def)

lemma bpfab_try_result_Inr [try_simps]:
  "bpfab_try_result s rest = Inr v \<longleftrightarrow> status_ok s \<and> rest = Inr v"
  by (auto simp: bpfab_try_result_def)

text \<open>
  A validation function is a cascade of guards, each returning an error. Its result is
  success exactly when no guard fires.
\<close>

lemma guard_ok [try_simps]:
  "c \<noteq> Ok \<Longrightarrow> status_ok (if g then status_error c ctx d else rest) \<longleftrightarrow> \<not> g \<and> status_ok rest"
  by simp

end
