(* ===== verification/Checked.thy ===== *)
theory Checked
  imports Status
begin

text \<open>
  Checked integer arithmetic: \<open>include/backpressure/core/checked.hpp\<close>.

  Every function of the header is here. \<open>max_of<T>()\<close> is the all-ones word. The lemmas
  show that the helpers are exact: an \<open>Ok\<close> result is the mathematical one, and the error
  is returned exactly when that result is not representable.
\<close>

section \<open>Unsigned 64-bit primitives\<close>

definition max_of_u64 :: u64 where
  "max_of_u64 = -1"

definition add_overflows_u64 :: "u64 \<Rightarrow> u64 \<Rightarrow> bool" where
  "add_overflows_u64 a b \<longleftrightarrow> a > max_of_u64 - b"

definition mul_overflows_u64 :: "u64 \<Rightarrow> u64 \<Rightarrow> bool" where
  "mul_overflows_u64 a b = (if a = 0 \<or> b = 0 then False else a > max_of_u64 div b)"

definition add_u64 :: "u64 \<Rightarrow> u64 \<Rightarrow> string \<Rightarrow> u64 result" where
  "add_u64 a b what = (if add_overflows_u64 a b then fail Overflow what a else Inr (a + b))"

definition sub_u64 :: "u64 \<Rightarrow> u64 \<Rightarrow> string \<Rightarrow> u64 result" where
  "sub_u64 a b what = (if b > a then fail Overflow what a else Inr (a - b))"

definition mul_u64 :: "u64 \<Rightarrow> u64 \<Rightarrow> string \<Rightarrow> u64 result" where
  "mul_u64 a b what = (if mul_overflows_u64 a b then fail Overflow what a else Inr (a * b))"

definition div_u64 :: "u64 \<Rightarrow> u64 \<Rightarrow> string \<Rightarrow> u64 result" where
  "div_u64 a b what = (if b = 0 then fail InvalidArgument what a else Inr (a div b))"

definition add_sat_u64 :: "u64 \<Rightarrow> u64 \<Rightarrow> u64 \<Rightarrow> u64" where
  "add_sat_u64 a b ceiling =
     (if add_overflows_u64 a b then ceiling
      else let sum = a + b in if sum > ceiling then ceiling else sum)"

definition mul_sat_u64 :: "u64 \<Rightarrow> u64 \<Rightarrow> u64 \<Rightarrow> u64" where
  "mul_sat_u64 a b ceiling =
     (if mul_overflows_u64 a b then ceiling
      else let product = a * b in if product > ceiling then ceiling else product)"

section \<open>Narrowing\<close>

definition to_u8 :: "u64 \<Rightarrow> string \<Rightarrow> u8 result" where
  "to_u8 v what = (if v > 0xFF then fail OutOfRange what v else Inr (ucast v))"

definition to_u16 :: "u64 \<Rightarrow> string \<Rightarrow> u16 result" where
  "to_u16 v what = (if v > 0xFFFF then fail OutOfRange what v else Inr (ucast v))"

definition to_u32 :: "u64 \<Rightarrow> string \<Rightarrow> u32 result" where
  "to_u32 v what = (if v > 0xFFFFFFFF then fail OutOfRange what v else Inr (ucast v))"

definition from_i64 :: "u64 \<Rightarrow> string \<Rightarrow> u64 result" where
  \<comment> \<open>the argument is an \<open>int64_t\<close>: the word read in two's complement\<close>
  "from_i64 v what = (if sint v < 0 then fail OutOfRange what v else Inr v)"

section \<open>32-bit guarded operations\<close>

definition add_u32 :: "u32 \<Rightarrow> u32 \<Rightarrow> string \<Rightarrow> u32 result" where
  "add_u32 a b what = (let sum = (ucast a :: u64) + ucast b in to_u32 sum what)"

definition mul_u32 :: "u32 \<Rightarrow> u32 \<Rightarrow> string \<Rightarrow> u32 result" where
  "mul_u32 a b what = (let product = (ucast a :: u64) * ucast b in to_u32 product what)"

section \<open>Exactness\<close>

lemma add_overflows_u64_iff:
  "add_overflows_u64 a b \<longleftrightarrow> unat a + unat b \<ge> 2 ^ 64"
  using unat_u64_bound [of b]
  by (auto simp: add_overflows_u64_def max_of_u64_def word_less_nat_alt u64_max_minus)

lemma mul_overflows_u64_iff:
  "mul_overflows_u64 a b \<longleftrightarrow> unat a * unat b \<ge> 2 ^ 64"
proof (cases "a = 0 \<or> b = 0")
  case True
  then show ?thesis by (auto simp: mul_overflows_u64_def)
next
  case False
  then have b: "0 < unat b" by (simp add: unat_gt_0)
  have "mul_overflows_u64 a b \<longleftrightarrow> 18446744073709551615 div unat b < unat a"
    using False by (simp add: mul_overflows_u64_def max_of_u64_def word_less_nat_alt
        unat_div_distrib unsigned_minus_1_eq_mask mask_eq_exp_minus_1)
  also have "\<dots> \<longleftrightarrow> 18446744073709551615 < unat a * unat b"
    using b by (rule div_less_iff_less_mult)
  finally show ?thesis by auto
qed

text \<open>One statement for a checked operation: the result is exact, or it does not fit.\<close>

definition exact_u64 :: "u64 result \<Rightarrow> nat \<Rightarrow> bool" where
  "exact_u64 r n \<longleftrightarrow>
     (case r of Inr v \<Rightarrow> unat v = n | Inl s \<Rightarrow> n \<ge> 2 ^ 64 \<and> st_code s = Overflow)"

definition exact_u32 :: "u32 result \<Rightarrow> nat \<Rightarrow> bool" where
  "exact_u32 r n \<longleftrightarrow>
     (case r of Inr v \<Rightarrow> unat v = n | Inl s \<Rightarrow> n \<ge> 2 ^ 32 \<and> st_code s = OutOfRange)"

lemma add_u64_exact: "exact_u64 (add_u64 a b what) (unat a + unat b)"
  by (auto simp: exact_u64_def add_u64_def fail_def add_overflows_u64_iff unat_add_no_overflow)

lemma mul_u64_exact: "exact_u64 (mul_u64 a b what) (unat a * unat b)"
  by (auto simp: exact_u64_def mul_u64_def fail_def mul_overflows_u64_iff unat_mult_no_overflow)

lemma sub_u64_exact:
  "sub_u64 a b what = (if unat a < unat b then fail Overflow what a else Inr (a - b))"
  "unat b \<le> unat a \<Longrightarrow> unat (a - b) = unat a - unat b"
  by (auto simp: sub_u64_def word_less_nat_alt word_le_nat_alt unat_sub)

lemma to_u32_exact: "exact_u32 (to_u32 v what) (unat v)"
  by (auto simp: exact_u32_def to_u32_def fail_def word_less_nat_alt unat_u64_to_u32)

lemma unat_u32_sum: "unat ((ucast (a :: u32) :: u64) + ucast (b :: u32)) = unat a + unat b"
  using unat_u32_bound [of a] unat_u32_bound [of b] by (subst unat_add_no_overflow) simp_all

lemma unat_u32_product: "unat ((ucast (a :: u32) :: u64) * ucast (b :: u32)) = unat a * unat b"
proof (subst unat_mult_no_overflow)
  have "unat a * unat b \<le> 4294967295 * 4294967295"
    using unat_u32_bound [of a] unat_u32_bound [of b] by (intro mult_le_mono) simp_all
  then show "unat (ucast a :: u64) * unat (ucast b :: u64) < 2 ^ LENGTH(64)" by simp
qed simp

lemma add_u32_exact: "exact_u32 (add_u32 a b what) (unat a + unat b)"
  using to_u32_exact [of "ucast a + ucast b" what] by (simp add: add_u32_def unat_u32_sum)

lemma mul_u32_exact: "exact_u32 (mul_u32 a b what) (unat a * unat b)"
  using to_u32_exact [of "ucast a * ucast b" what] by (simp add: mul_u32_def unat_u32_product)

lemma add_sat_u64_exact: "unat (add_sat_u64 a b ceiling) = min (unat a + unat b) (unat ceiling)"
  using unat_u64_bound [of ceiling]
  by (auto simp: add_sat_u64_def add_overflows_u64_iff Let_def word_less_nat_alt unat_add_no_overflow)

lemma mul_sat_u64_exact: "unat (mul_sat_u64 a b ceiling) = min (unat a * unat b) (unat ceiling)"
  using unat_u64_bound [of ceiling]
  by (auto simp: mul_sat_u64_def mul_overflows_u64_iff Let_def word_less_nat_alt unat_mult_no_overflow)

end
