(* ===== verification/Bytes.thy ===== *)
theory Bytes
  imports Prelude
begin

text \<open>
  Little-endian integers as byte sequences. The same two loops occur in
  \<open>src/core/byteio.cpp\<close> (\<open>ByteWriter::u16/u32/u64\<close> and the readers),
  \<open>src/core/digest.cpp\<close> (\<open>update_u16/u32/u64\<close> and the word assembly of
  \<open>DigestBuilder::update\<close>), \<open>src/store/journal.cpp\<close> and \<open>src/ipc/frame.cpp\<close>
  (\<open>put_u16/u32/u64\<close>, \<open>get_u16/u32/u64\<close>). They are stated once, for any width.
\<close>

section \<open>The two loops\<close>

text \<open>\<open>for i in 0 .. n-1: push_back((v >> 8*i) & 0xFF)\<close>\<close>

definition le_encode :: "nat \<Rightarrow> 'a::len word \<Rightarrow> u8 list" where
  "le_encode n v = map (\<lambda>i. ucast (drop_bit (8 * i) v AND 0xFF)) [0..<n]"

text \<open>\<open>for i: v |= (T)data[i] << 8*i\<close>, from index \<open>k\<close> on.\<close>

fun le_gather :: "nat \<Rightarrow> u8 list \<Rightarrow> 'a::len word \<Rightarrow> 'a word" where
  "le_gather k [] v = v"
| "le_gather k (b # bs) v = le_gather (Suc k) bs (v OR push_bit (8 * k) (ucast b))"

definition le_decode :: "u8 list \<Rightarrow> 'a::len word" where
  "le_decode bs = le_gather 0 bs 0"

section \<open>Round trips\<close>

lemma length_le_encode [simp]: "length (le_encode n v) = n"
  by (simp add: le_encode_def)

lemma bit_le_encode:
  "i < n \<Longrightarrow> bit (le_encode n v ! i) k \<longleftrightarrow> k < 8 \<and> bit (v :: 'a::len word) (8 * i + k)"
  by (auto simp: le_encode_def bit_ucast_iff bit_and_iff bit_drop_bit_eq bit_numeral_word_iff
      bit_0_eq ac_simps dest: bit_imp_le_length)
    (auto simp: numeral_eq_Suc less_Suc_eq)

lemma bit_le_gather:
  assumes "m < LENGTH('a)"
  shows "bit (le_gather k bs v :: 'a::len word) m \<longleftrightarrow>
     bit v m \<or> (8 * k \<le> m \<and> m < 8 * (k + length bs) \<and> bit (bs ! (m div 8 - k)) (m mod 8))"
  using assms
proof (induction bs arbitrary: k v)
  case Nil
  then show ?case by auto
next
  case (Cons b bs)
  have here: "bit (push_bit (8 * k) (ucast b) :: 'a word) m \<longleftrightarrow> 8 * k \<le> m \<and> bit b (m - 8 * k)"
    using Cons.prems by (auto simp: bit_push_bit_iff bit_ucast_iff)
  have now: "8 * k \<le> m \<and> bit b (m - 8 * k) \<longleftrightarrow> m div 8 = k \<and> bit b (m mod 8)"
  proof (cases "8 * k \<le> m \<and> m < 8 * k + 8")
    case True
    then have "m div 8 = k" by (metis div_nat_eqI mult_Suc_right add.commute)
    moreover from this have "m mod 8 = m - 8 * k" by (simp add: minus_mult_div_eq_mod [symmetric])
    ultimately show ?thesis using True by simp
  next
    case False
    then have "\<not> (8 * k \<le> m \<and> bit b (m - 8 * k))"
      using bit_imp_le_length [of b "m - 8 * k"] by auto
    moreover from False have "m div 8 \<noteq> k" by auto
    ultimately show ?thesis by blast
  qed
  have split: "(8 * k \<le> m \<and> m < 8 * (k + length (b # bs)) \<and> bit ((b # bs) ! (m div 8 - k)) (m mod 8))
    \<longleftrightarrow> (m div 8 = k \<and> bit b (m mod 8)) \<or>
        (8 * Suc k \<le> m \<and> m < 8 * (Suc k + length bs) \<and> bit (bs ! (m div 8 - Suc k)) (m mod 8))"
  proof (cases "m div 8 = k")
    case True
    then show ?thesis by auto
  next
    case False
    then have "8 * k \<le> m \<longleftrightarrow> 8 * Suc k \<le> m" by auto
    moreover have "8 * Suc k \<le> m \<Longrightarrow> m div 8 - k = Suc (m div 8 - Suc k)" by auto
    ultimately show ?thesis using False by auto
  qed
  show ?case
    by (simp only: le_gather.simps Cons.IH [OF Cons.prems] bit_or_iff here now split) blast
qed

lemma bit_le_decode:
  "bit (le_decode bs :: 'a::len word) m \<longleftrightarrow>
     m < LENGTH('a) \<and> m < 8 * length bs \<and> bit (bs ! (m div 8)) (m mod 8)"
proof (cases "m < LENGTH('a)")
  case True
  then show ?thesis by (simp add: le_decode_def bit_le_gather)
next
  case False
  then show ?thesis by (auto dest: bit_imp_le_length)
qed

lemma le_decode_encode [codec_simps]:
  fixes v :: "'a::len word"
  assumes "LENGTH('a) = 8 * n"
  shows "le_decode (le_encode n v) = v"
proof (rule bit_word_eqI)
  fix m assume m: "m < LENGTH('a)"
  then have "m div 8 < n" using assms by auto
  then have "bit (le_encode n v ! (m div 8)) (m mod 8) \<longleftrightarrow> bit v m"
    by (simp add: bit_le_encode)
  with m assms show "bit (le_decode (le_encode n v) :: 'a word) m \<longleftrightarrow> bit v m"
    by (simp add: bit_le_decode)
qed

lemma le_encode_decode:
  assumes "LENGTH('a) = 8 * n" and "length bs = n"
  shows "le_encode n (le_decode bs :: 'a::len word) = bs"
proof (rule nth_equalityI)
  show "length (le_encode n (le_decode bs :: 'a word)) = length bs" using assms by simp
  fix i assume "i < length (le_encode n (le_decode bs :: 'a word))"
  then have i: "i < n" by simp
  show "le_encode n (le_decode bs :: 'a word) ! i = bs ! i"
  proof (rule bit_word_eqI)
    fix k assume "k < LENGTH(8)"
    with i assms show "bit (le_encode n (le_decode bs :: 'a word) ! i) k \<longleftrightarrow> bit (bs ! i) k"
      by (simp add: bit_le_encode bit_le_decode)
  qed
qed

lemma le_encode_inject:
  fixes v w :: "'a::len word"
  assumes "LENGTH('a) = 8 * n"
  shows "le_encode n v = le_encode n w \<longleftrightarrow> v = w"
  by (metis assms le_decode_encode)

end
