(* ===== verification/Digest.thy ===== *)
theory Digest
  imports Bytes
begin

text \<open>
  Deterministic digests and integrity checks: \<open>include/backpressure/core/digest.hpp\<close> and
  \<open>src/core/digest.cpp\<close>.

  A \<open>DigestBuilder\<close> is a record of its three words; each \<open>update_*\<close> method is a
  function that returns the updated builder, so a method that feeds many fields is
  \<open>feed\<close> over the list of its updates in the order of the calls. The lemmas show that a
  finished digest is never the reserved zero, that the table-driven CRC-32 is the bitwise
  one and composes over concatenation, that it detects every change confined to one byte,
  and that the hexadecimal rendering is injective.
\<close>

section \<open>128-bit digests\<close>

record Digest128 =
  dg_hi :: u64
  dg_lo :: u64

definition digest_zero :: Digest128 where
  "digest_zero = \<lparr>dg_hi = 0, dg_lo = 0\<rparr>"

definition digest_is_zero :: "Digest128 \<Rightarrow> bool" where
  "digest_is_zero d \<longleftrightarrow> dg_hi d = 0 \<and> dg_lo d = 0"

definition fold64 :: "Digest128 \<Rightarrow> u64" where
  "fold64 d =
     dg_hi d XOR (dg_lo d + 0x9E3779B97F4A7C15 + push_bit 6 (dg_hi d) + drop_bit 2 (dg_hi d))"

section \<open>Incremental construction\<close>

definition mix64 :: "u64 \<Rightarrow> u64" where
  "mix64 z0 =
     (let z1 = (z0 XOR drop_bit 30 z0) * 0xBF58476D1CE4E5B9;
          z2 = (z1 XOR drop_bit 27 z1) * 0x94D049BB133111EB
      in z2 XOR drop_bit 31 z2)"

record DigestBuilder =
  h1 :: u64
  h2 :: u64
  db_len :: u64

definition digest_builder :: DigestBuilder where
  "digest_builder = \<lparr>h1 = 0x243F6A8885A308D3, h2 = 0x13198A2E03707344, db_len = 0\<rparr>"

definition mix_word :: "u64 \<Rightarrow> DigestBuilder \<Rightarrow> DigestBuilder" where
  "mix_word w b =
     (let a1 = mix64 (h1 b XOR (w + 0x9E3779B97F4A7C15));
          a2 = mix64 (h2 b + w + 0x165667B19E3779F9)
      in b\<lparr>h1 := a1 XOR drop_bit 29 a2, h2 := a2 XOR push_bit 17 a1\<rparr>)"

text \<open>
  The loop over the bytes: full groups of eight are mixed as one little-endian word, a
  shorter tail is mixed and followed by a word that commits to its length.
\<close>

function mix_bytes :: "u8 list \<Rightarrow> DigestBuilder \<Rightarrow> DigestBuilder" where
  "mix_bytes bytes b =
     (if 8 \<le> length bytes then mix_bytes (drop 8 bytes) (mix_word (le_decode (take 8 bytes)) b)
      else if bytes = [] then b
      else mix_word (0xFF00000000000000 OR of_nat (length bytes)) (mix_word (le_decode bytes) b))"
  by pat_completeness auto
termination
  by (relation "measure (\<lambda>(bytes, b). length bytes)") auto

declare mix_bytes.simps [simp del]

definition update :: "u8 list \<Rightarrow> DigestBuilder \<Rightarrow> DigestBuilder" where
  "update bytes b = (let b' = mix_bytes bytes b in b'\<lparr>db_len := db_len b' + of_nat (length bytes)\<rparr>)"

definition update_u8 :: "u8 \<Rightarrow> DigestBuilder \<Rightarrow> DigestBuilder" where
  "update_u8 v b = update [v] b"

definition update_u16 :: "u16 \<Rightarrow> DigestBuilder \<Rightarrow> DigestBuilder" where
  "update_u16 v b = update (le_encode 2 v) b"

definition update_u32 :: "u32 \<Rightarrow> DigestBuilder \<Rightarrow> DigestBuilder" where
  "update_u32 v b = update (le_encode 4 v) b"

definition update_u64 :: "u64 \<Rightarrow> DigestBuilder \<Rightarrow> DigestBuilder" where
  "update_u64 v b = update (le_encode 8 v) b"

definition update_bool :: "bool \<Rightarrow> DigestBuilder \<Rightarrow> DigestBuilder" where
  "update_bool v b = update_u8 (if v then 1 else 0) b"

definition update_digest :: "Digest128 \<Rightarrow> DigestBuilder \<Rightarrow> DigestBuilder" where
  "update_digest v b = update_u64 (dg_lo v) (update_u64 (dg_hi v) b)"

definition domain :: "u8 \<Rightarrow> DigestBuilder \<Rightarrow> DigestBuilder" where
  "domain tag b = mix_word (0x00FF000000000000 OR ucast tag) b"

definition feed :: "(DigestBuilder \<Rightarrow> DigestBuilder) list \<Rightarrow> DigestBuilder \<Rightarrow> DigestBuilder" where
  "feed updates b = fold (\<lambda>f. f) updates b"

definition finish :: "DigestBuilder \<Rightarrow> Digest128" where
  "finish b =
     (let copy = domain 0x5A (update_u64 (db_len b) b);
          d = \<lparr>dg_hi = mix64 (h1 copy XOR (h2 copy + 0x9E3779B97F4A7C15)),
               dg_lo = mix64 (h2 copy XOR (h1 copy + 0x165667B19E3779F9))\<rparr>
      in if digest_is_zero d then d\<lparr>dg_lo := 1\<rparr> else d)"

definition digest_of :: "u8 list \<Rightarrow> Digest128" where
  "digest_of bytes = finish (update bytes (domain 0x01 digest_builder))"

definition derive_digest :: "Digest128 \<Rightarrow> u8 \<Rightarrow> Digest128" where
  "derive_digest parent tag =
     finish (feed [domain 0x02, update_digest parent, update_u8 tag] digest_builder)"

section \<open>CRC-32\<close>

definition crc32_shift :: "u32 \<Rightarrow> u32" where
  "crc32_shift c = (if c AND 1 \<noteq> 0 then 0xEDB88320 XOR drop_bit 1 c else drop_bit 1 c)"

definition crc32_table :: "u32 list" where
  "crc32_table = map (\<lambda>i. (crc32_shift ^^ 8) (of_nat i)) [0..<256]"

definition crc32_step :: "u32 \<Rightarrow> u8 \<Rightarrow> u32" where
  "crc32_step crc b =
     (let idx = (ucast ((crc XOR ucast b) AND 0xFF) :: u8)
      in crc32_table ! unat idx XOR drop_bit 8 crc)"

definition crc32_update :: "u32 \<Rightarrow> u8 list \<Rightarrow> u32" where
  "crc32_update seed bytes = NOT (foldl crc32_step (NOT seed) bytes)"

definition crc32 :: "u8 list \<Rightarrow> u32" where
  "crc32 bytes = crc32_update 0 bytes"

section \<open>Hexadecimal rendering\<close>

definition kHexDigits :: string where
  "kHexDigits = ''0123456789abcdef''"

definition hex_part :: "u64 \<Rightarrow> string" where
  "hex_part p = map (\<lambda>nib. kHexDigits ! unat (drop_bit (4 * nib) p AND 0xF)) (rev [0..<16])"

definition to_hex :: "Digest128 \<Rightarrow> string" where
  "to_hex d = hex_part (dg_hi d) @ hex_part (dg_lo d)"


section \<open>Digests are never the reserved zero\<close>

lemma finish_not_zero [simp]: "\<not> digest_is_zero (finish b)"
  by (simp add: finish_def Let_def digest_is_zero_def)

lemma finish_neq_zero [simp]: "finish b \<noteq> digest_zero"
  using finish_not_zero [of b] by (auto simp: digest_is_zero_def digest_zero_def)

section \<open>The table-driven CRC is the bitwise one\<close>

text \<open>The CRC as the standard states it: eight shift-and-reduce steps per byte, no table.\<close>

definition crc32_bitwise_step :: "u32 \<Rightarrow> u8 \<Rightarrow> u32" where
  "crc32_bitwise_step crc b = (crc32_shift ^^ 8) (crc XOR ucast b)"

definition crc32_bitwise :: "u32 \<Rightarrow> u8 list \<Rightarrow> u32" where
  "crc32_bitwise seed bytes = NOT (foldl crc32_bitwise_step (NOT seed) bytes)"

lemma and_1_nonzero_iff: "(c :: u32) AND 1 \<noteq> 0 \<longleftrightarrow> bit c 0"
  by (metis and_one_eq bit_0 odd_iff_mod_2_eq_one zero_neq_one not_mod_2_eq_1_eq_0 even_iff_mod_2_eq_zero)

lemma crc32_shift_alt: "crc32_shift c = drop_bit 1 c XOR (if bit c 0 then 0xEDB88320 else 0)"
  by (simp add: crc32_shift_def and_1_nonzero_iff xor.commute)

lemma crc32_shift_xor: "crc32_shift (x XOR y) = crc32_shift x XOR crc32_shift y"
  by (auto simp: crc32_shift_alt bit_xor_iff drop_bit_xor ac_simps)

lemma crc32_shift_pow_xor: "(crc32_shift ^^ n) (x XOR y) = (crc32_shift ^^ n) x XOR (crc32_shift ^^ n) y"
  by (induction n) (simp_all add: crc32_shift_xor)

lemma crc32_shift_pow_clear:
  "\<forall>i<n. \<not> bit y i \<Longrightarrow> (crc32_shift ^^ n) y = drop_bit n y"
proof (induction n)
  case (Suc n)
  then have "(crc32_shift ^^ n) y = drop_bit n y" by simp
  moreover have "\<not> bit (drop_bit n y) 0" using Suc.prems by (simp add: bit_drop_bit_eq)
  then have "crc32_shift (drop_bit n y) = drop_bit (Suc n) y"
    by (simp only: crc32_shift_alt if_False xor.right_neutral drop_bit_drop_bit) simp
  ultimately show ?case by (simp only: funpow.simps o_apply)
qed simp

lemma and_0xFF_u32: "(x :: u32) AND 0xFF = take_bit 8 x"
  by (simp add: take_bit_eq_mask mask_eq_exp_minus_1)

lemma crc32_low_byte:
  "(crc32_shift ^^ 8) x = (crc32_shift ^^ 8) (take_bit 8 x) XOR drop_bit 8 x"
proof -
  let ?y = "x XOR take_bit 8 x"
  have x: "x = take_bit 8 x XOR ?y"
    by (rule bit_word_eqI) (auto simp: bit_xor_iff)
  have "(crc32_shift ^^ 8) ?y = drop_bit 8 ?y"
    by (rule crc32_shift_pow_clear) (simp add: bit_xor_iff bit_take_bit_iff)
  also have "\<dots> = drop_bit 8 x"
    by (rule bit_word_eqI) (auto simp: bit_drop_bit_eq bit_xor_iff bit_take_bit_iff)
  finally show ?thesis using x crc32_shift_pow_xor by metis
qed

lemma crc32_table_nth: "crc32_table ! unat (i :: u8) = (crc32_shift ^^ 8) (ucast i)"
proof -
  have "(of_nat (unat i) :: u32) = ucast i"
    using unat_u8_bound [of i]
    by (simp add: word_unat_eq_iff unsigned_ucast_eq take_bit_nat_eq_self_iff unat_of_nat)
  then show ?thesis using unat_u8_bound [of i] by (simp only: crc32_table_def nth_map length_upt nth_upt) simp
qed

lemma ucast_u8_low_byte: "(ucast (ucast (take_bit 8 w :: u32) :: u8) :: u32) = take_bit 8 w"
  by (rule bit_word_eqI) (auto simp: bit_ucast_iff bit_take_bit_iff)

lemma crc32_step_bitwise: "crc32_step crc b = crc32_bitwise_step crc b"
proof -
  let ?x = "crc XOR ucast b"
  have "drop_bit 8 ?x = drop_bit 8 crc"
    by (rule bit_word_eqI) (auto simp: bit_drop_bit_eq bit_xor_iff bit_ucast_iff dest: bit_imp_le_length)
  then show ?thesis
    by (simp only: crc32_step_def crc32_bitwise_step_def Let_def crc32_table_nth and_0xFF_u32
        ucast_u8_low_byte crc32_low_byte [of ?x])
qed

lemma crc32_update_bitwise: "crc32_update seed bytes = crc32_bitwise seed bytes"
proof -
  have "crc32_step = crc32_bitwise_step" by (intro ext) (rule crc32_step_bitwise)
  then show ?thesis by (simp add: crc32_update_def crc32_bitwise_def)
qed

lemma crc32_update_append: "crc32_update seed (xs @ ys) = crc32_update (crc32_update seed xs) ys"
  by (simp add: crc32_update_def)

section \<open>Error detection\<close>

lemma crc32_shift_eq_0: "crc32_shift c = 0 \<Longrightarrow> c = 0"
proof -
  assume z: "crc32_shift c = 0"
  have "\<not> bit c 0"
  proof
    assume "bit c 0"
    then have "bit (crc32_shift c) 31"
      by (auto simp: crc32_shift_alt bit_xor_iff bit_drop_bit_eq dest: bit_imp_le_length)
    with z show False by simp
  qed
  with z have d: "drop_bit 1 c = 0" by (simp add: crc32_shift_alt)
  show "c = 0"
  proof (rule bit_word_eqI)
    fix n
    have "bit (drop_bit 1 c) (n - 1) \<longleftrightarrow> False" using d by simp
    then show "bit c n \<longleftrightarrow> bit 0 n"
      using \<open>\<not> bit c 0\<close> by (cases n) (auto simp: bit_drop_bit_eq)
  qed
qed

lemma xor_eq_0_iff_eq: "(a XOR b = 0) = ((a :: 'a::len word) = b)"
  by (metis xor.assoc xor.right_neutral xor_self_eq)

lemma crc32_shift_inj: "crc32_shift x = crc32_shift y \<longleftrightarrow> x = y"
  by (metis crc32_shift_eq_0 crc32_shift_xor xor_eq_0_iff_eq)

lemma crc32_shift_pow_inj: "(crc32_shift ^^ n) x = (crc32_shift ^^ n) y \<longleftrightarrow> x = y"
  by (induction n) (simp_all add: crc32_shift_inj)

lemma xor_right_cancel: "(a XOR c = b XOR c) = ((a :: 'a::len word) = b)"
  by (metis xor.assoc xor.right_neutral xor_self_eq)

lemma xor_left_cancel: "(c XOR a = c XOR b) = ((a :: 'a::len word) = b)"
  by (metis xor.commute xor_right_cancel)

lemma ucast_u8_u32_inj: "((ucast (a :: u8) :: u32) = ucast b) = (a = b)"
proof
  assume "(ucast a :: u32) = ucast b"
  then have *: "bit (ucast a :: u32) n = bit (ucast b :: u32) n" for n by simp
  show "a = b"
  proof (rule bit_word_eqI)
    fix n assume "n < LENGTH(8)"
    then show "bit a n = bit b n" using * [of n] by (simp add: bit_ucast_iff)
  qed
qed simp

lemma crc32_step_inj_state: "crc32_step c b = crc32_step c' b \<longleftrightarrow> c = c'"
  by (simp add: crc32_step_bitwise crc32_bitwise_step_def crc32_shift_pow_inj xor_right_cancel)

lemma crc32_step_inj_byte: "crc32_step c b = crc32_step c b' \<longleftrightarrow> b = b'"
  by (simp add: crc32_step_bitwise crc32_bitwise_step_def crc32_shift_pow_inj xor_left_cancel
      ucast_u8_u32_inj)

lemma crc32_foldl_inj: "foldl crc32_step c bs = foldl crc32_step c' bs \<longleftrightarrow> c = c'"
  by (induction bs arbitrary: c c') (simp_all add: crc32_step_inj_state)

lemma not_word_inject: "(NOT a = NOT b) = ((a :: 'a::len word) = b)"
  by (metis bit.double_compl)

lemma crc32_one_byte:
  "crc32_update seed (xs @ b # ys) = crc32_update seed (xs @ b' # ys) \<longleftrightarrow> b = b'"
  by (simp add: crc32_update_def crc32_foldl_inj crc32_step_inj_byte not_word_inject)

section \<open>The rendering determines the digest\<close>

lemma and_0xF_u64: "(x :: u64) AND 0xF = take_bit 4 x"
  by (simp add: take_bit_eq_mask mask_eq_exp_minus_1)

lemma hex_nibble_inj:
  fixes a b :: u64
  assumes "kHexDigits ! unat (take_bit 4 a) = kHexDigits ! unat (take_bit 4 b)"
  shows "take_bit 4 a = take_bit 4 b"
proof -
  have lt: "unat (take_bit 4 w) < 16" for w :: u64
    using take_bit_nat_less_exp [of 4 "unat w"] by (simp add: unsigned_take_bit_eq)
  have "distinct kHexDigits" by (simp add: kHexDigits_def)
  moreover have "length kHexDigits = 16" by (simp add: kHexDigits_def)
  ultimately have "unat (take_bit 4 a) = unat (take_bit 4 b)"
    using assms lt [of a] lt [of b] by (simp add: nth_eq_iff_index_eq)
  then show ?thesis by (simp only: word_unat_eq_iff)
qed

lemma hex_part_inj: "hex_part p = hex_part q \<longleftrightarrow> p = q"
proof
  assume eq: "hex_part p = hex_part q"
  show "p = q"
  proof (rule bit_word_eqI)
    fix n :: nat assume n: "n < LENGTH(64)"
    then have "n div 4 \<in> set (rev [0..<16])" by auto
    with eq have "kHexDigits ! unat (take_bit 4 (drop_bit (4 * (n div 4)) p))
        = kHexDigits ! unat (take_bit 4 (drop_bit (4 * (n div 4)) q))"
      by (simp only: hex_part_def and_0xF_u64 map_eq_conv)
    then have "take_bit 4 (drop_bit (4 * (n div 4)) p) = take_bit 4 (drop_bit (4 * (n div 4)) q)"
      by (rule hex_nibble_inj)
    then have "bit (take_bit 4 (drop_bit (4 * (n div 4)) p)) (n mod 4)
        = bit (take_bit 4 (drop_bit (4 * (n div 4)) q)) (n mod 4)" by simp
    then show "bit p n = bit q n" by (simp add: bit_take_bit_iff bit_drop_bit_eq)
  qed
qed simp

lemma length_hex_part [simp]: "length (hex_part p) = 16"
  by (simp add: hex_part_def)

lemma to_hex_inj: "to_hex a = to_hex b \<longleftrightarrow> a = b"
  by (auto simp: to_hex_def hex_part_inj)

end
