(* ===== verification/ByteIO.thy ===== *)
theory ByteIO
  imports Checked Digest
begin

text \<open>
  Bounded binary encoding: \<open>include/backpressure/core/byteio.hpp\<close> and
  \<open>src/core/byteio.cpp\<close>.

  A \<open>ByteWriter\<close> is its buffer and its bound, a \<open>ByteReader\<close> the bytes it views and its
  offset. A method returns its status or result together with the new state. A body that
  chains calls with \<open>BPFAB_TRY\<close> is written with \<open>then_write\<close>, \<open>writes\<close> and \<open>then_read\<close>,
  which stop at the first failure and keep what was done before it, as the macros do.

  The locale \<open>byte_codec\<close> is the contract between one writer method and the reader method
  that inverts it; it is interpreted for every pair of methods, and a sequence of fields is
  again a codec.
\<close>

section \<open>The writer\<close>

record ByteWriter =
  wr_buffer :: "u8 list"
  wr_max :: nat

definition byte_writer :: "nat \<Rightarrow> ByteWriter" where
  "byte_writer max_bytes = \<lparr>wr_buffer = [], wr_max = max_bytes\<rparr>"

definition wr_remaining :: "ByteWriter \<Rightarrow> nat" where
  "wr_remaining w = wr_max w - length (wr_buffer w)"

definition wr_reserve :: "nat \<Rightarrow> ByteWriter \<Rightarrow> Status" where
  "wr_reserve n w =
     (if n > wr_remaining w then status_error OversizedInput ''writer capacity'' (of_nat n)
      else status_success)"

definition wr_append :: "u8 list \<Rightarrow> ByteWriter \<Rightarrow> ByteWriter" where
  "wr_append bs w = w\<lparr>wr_buffer := wr_buffer w @ bs\<rparr>"

text \<open>\<open>BPFAB_TRY(first); return second;\<close> on a writer.\<close>

definition then_write ::
  "(ByteWriter \<Rightarrow> Status \<times> ByteWriter) \<Rightarrow> (ByteWriter \<Rightarrow> Status \<times> ByteWriter) \<Rightarrow> ByteWriter \<Rightarrow> Status \<times> ByteWriter"
  where
  "then_write f g w = (let (s, w') = f w in if status_ok s then g w' else (s, w'))"

fun writes :: "(ByteWriter \<Rightarrow> Status \<times> ByteWriter) list \<Rightarrow> ByteWriter \<Rightarrow> Status \<times> ByteWriter" where
  "writes [] w = (status_success, w)"
| "writes (f # fs) w = then_write f (writes fs) w"

definition wr_bytes :: "u8 list \<Rightarrow> ByteWriter \<Rightarrow> Status \<times> ByteWriter" where
  "wr_bytes v w =
     (let s = wr_reserve (length v) w
      in if status_ok s then (status_success, wr_append v w) else (s, w))"

definition wr_u8 :: "u8 \<Rightarrow> ByteWriter \<Rightarrow> Status \<times> ByteWriter" where
  "wr_u8 v w =
     (let s = wr_reserve 1 w
      in if status_ok s then (status_success, wr_append [v] w) else (s, w))"

definition wr_u16 :: "u16 \<Rightarrow> ByteWriter \<Rightarrow> Status \<times> ByteWriter" where
  "wr_u16 v w =
     (let s = wr_reserve 2 w
      in if status_ok s then
           (status_success, wr_append [ucast (drop_bit 8 v AND 0xFF)] (wr_append [ucast (v AND 0xFF)] w))
         else (s, w))"

definition wr_u32 :: "u32 \<Rightarrow> ByteWriter \<Rightarrow> Status \<times> ByteWriter" where
  "wr_u32 v w =
     (let s = wr_reserve 4 w
      in if status_ok s then (status_success, wr_append (le_encode 4 v) w) else (s, w))"

definition wr_u64 :: "u64 \<Rightarrow> ByteWriter \<Rightarrow> Status \<times> ByteWriter" where
  "wr_u64 v w =
     (let s = wr_reserve 8 w
      in if status_ok s then (status_success, wr_append (le_encode 8 v) w) else (s, w))"

text \<open>An \<open>int64_t\<close> is its two's complement word, so the casts are the identity on it.\<close>

definition wr_i64 :: "u64 \<Rightarrow> ByteWriter \<Rightarrow> Status \<times> ByteWriter" where
  "wr_i64 v w = wr_u64 v w"

definition wr_boolean :: "bool \<Rightarrow> ByteWriter \<Rightarrow> Status \<times> ByteWriter" where
  "wr_boolean v w = wr_u8 (if v then 1 else 0) w"

definition wr_digest :: "Digest128 \<Rightarrow> ByteWriter \<Rightarrow> Status \<times> ByteWriter" where
  "wr_digest v w = then_write (wr_u64 (dg_hi v)) (wr_u64 (dg_lo v)) w"

definition wr_bytes_prefixed :: "u8 list \<Rightarrow> ByteWriter \<Rightarrow> Status \<times> ByteWriter" where
  "wr_bytes_prefixed v w =
     (case to_u32 (of_nat (length v)) ''bytes length'' of
        Inl s \<Rightarrow> (s, w)
      | Inr len \<Rightarrow> then_write (wr_u32 len) (wr_bytes v) w)"

definition as_bytes :: "string \<Rightarrow> u8 list" where
  "as_bytes text = map of_char text"

definition wr_text :: "nat \<Rightarrow> string \<Rightarrow> ByteWriter \<Rightarrow> Status \<times> ByteWriter" where
  "wr_text max_len v w =
     (if length v > max_len then (status_error OversizedInput ''text length'' (of_nat (length v)), w)
      else wr_bytes_prefixed (as_bytes v) w)"

section \<open>The reader\<close>

record ByteReader =
  rd_data :: "u8 list"
  rd_offset :: nat

definition byte_reader :: "u8 list \<Rightarrow> ByteReader" where
  "byte_reader data = \<lparr>rd_data = data, rd_offset = 0\<rparr>"

definition rd_remaining :: "ByteReader \<Rightarrow> nat" where
  "rd_remaining r = length (rd_data r) - rd_offset r"

definition rd_at_end :: "ByteReader \<Rightarrow> bool" where
  "rd_at_end r \<longleftrightarrow> rd_offset r = length (rd_data r)"

definition rd_advance :: "nat \<Rightarrow> ByteReader \<Rightarrow> ByteReader" where
  "rd_advance n r = r\<lparr>rd_offset := rd_offset r + n\<rparr>"

definition rd_view :: "nat \<Rightarrow> ByteReader \<Rightarrow> u8 list" where
  "rd_view n r = take n (drop (rd_offset r) (rd_data r))"

text \<open>\<open>BPFAB_TRY_DECL(type, v, first); rest\<close> on a reader.\<close>

definition then_read ::
  "(ByteReader \<Rightarrow> 'a result \<times> ByteReader) \<Rightarrow> ('a \<Rightarrow> ByteReader \<Rightarrow> 'b result \<times> ByteReader) \<Rightarrow>
   ByteReader \<Rightarrow> 'b result \<times> ByteReader" where
  "then_read f k r = (case f r of (Inl s, r') \<Rightarrow> (Inl s, r') | (Inr v, r') \<Rightarrow> k v r')"

definition read_return :: "'a result \<Rightarrow> ByteReader \<Rightarrow> 'a result \<times> ByteReader" where
  "read_return v r = (v, r)"

definition needs :: "nat \<Rightarrow> nat \<Rightarrow> string \<Rightarrow> Status" where
  "needs remaining required what =
     (if remaining < required then status_error TruncatedInput what (of_nat required)
      else status_success)"

definition rd_u8 :: "ByteReader \<Rightarrow> u8 result \<times> ByteReader" where
  "rd_u8 r =
     (if rd_remaining r < 1 then (fail TruncatedInput ''u8'' (of_nat (rd_offset r)), r)
      else (Inr (rd_data r ! rd_offset r), rd_advance 1 r))"

definition rd_u16 :: "ByteReader \<Rightarrow> u16 result \<times> ByteReader" where
  "rd_u16 r =
     (if rd_remaining r < 2 then (fail TruncatedInput ''u16'' (of_nat (rd_offset r)), r)
      else (Inr (le_decode (rd_view 2 r)), rd_advance 2 r))"

definition rd_u32 :: "ByteReader \<Rightarrow> u32 result \<times> ByteReader" where
  "rd_u32 r =
     (if rd_remaining r < 4 then (fail TruncatedInput ''u32'' (of_nat (rd_offset r)), r)
      else (Inr (le_decode (rd_view 4 r)), rd_advance 4 r))"

definition rd_u64 :: "ByteReader \<Rightarrow> u64 result \<times> ByteReader" where
  "rd_u64 r =
     (if rd_remaining r < 8 then (fail TruncatedInput ''u64'' (of_nat (rd_offset r)), r)
      else (Inr (le_decode (rd_view 8 r)), rd_advance 8 r))"

definition rd_i64 :: "ByteReader \<Rightarrow> u64 result \<times> ByteReader" where
  "rd_i64 r = then_read rd_u64 (\<lambda>raw. read_return (Inr raw)) r"

definition rd_boolean :: "ByteReader \<Rightarrow> bool result \<times> ByteReader" where
  "rd_boolean r =
     then_read rd_u8 (\<lambda>raw. read_return
       (if raw > 1 then fail MalformedInput ''boolean'' (ucast raw) else Inr (raw = 1))) r"

definition rd_digest :: "ByteReader \<Rightarrow> Digest128 result \<times> ByteReader" where
  "rd_digest r =
     then_read rd_u64 (\<lambda>hi. then_read rd_u64 (\<lambda>lo. read_return (Inr \<lparr>dg_hi = hi, dg_lo = lo\<rparr>))) r"

definition rd_bytes :: "nat \<Rightarrow> ByteReader \<Rightarrow> u8 list result \<times> ByteReader" where
  "rd_bytes n r =
     (let s = needs (rd_remaining r) n ''bytes''
      in if status_ok s then (Inr (rd_view n r), rd_advance n r) else (Inl s, r))"

definition rd_bytes_prefixed :: "nat \<Rightarrow> ByteReader \<Rightarrow> u8 list result \<times> ByteReader" where
  "rd_bytes_prefixed max_len r =
     then_read rd_u32 (\<lambda>len.
       if unat len > max_len then read_return (fail OversizedInput ''prefixed length'' (ucast len))
       else rd_bytes (unat len)) r"

definition rd_text :: "nat \<Rightarrow> ByteReader \<Rightarrow> string result \<times> ByteReader" where
  "rd_text max_len r =
     then_read (rd_bytes_prefixed max_len) (\<lambda>view. read_return (Inr (map (\<lambda>b. char_of (unat b)) view))) r"

definition expect_end :: "ByteReader \<Rightarrow> Status" where
  "expect_end r =
     (if \<not> rd_at_end r then status_error MalformedInput ''trailing bytes'' (of_nat (rd_remaining r))
      else status_success)"

section \<open>The codec contract\<close>

text \<open>
  \<open>wr_ok\<close> and \<open>rd_ok\<close> are the class invariants: the buffer never exceeds its bound, and
  the offset never passes the end of the data. \<open>reading r bs\<close> says that \<open>bs\<close> is what is
  left to read.
\<close>

definition wr_ok :: "ByteWriter \<Rightarrow> bool" where
  "wr_ok w \<longleftrightarrow> length (wr_buffer w) \<le> wr_max w"

definition rd_ok :: "ByteReader \<Rightarrow> bool" where
  "rd_ok r \<longleftrightarrow> rd_offset r \<le> length (rd_data r)"

definition reading :: "ByteReader \<Rightarrow> u8 list \<Rightarrow> bool" where
  "reading r bs \<longleftrightarrow> rd_ok r \<and> drop (rd_offset r) (rd_data r) = bs"

lemma reading_start [simp]: "reading (byte_reader bs) bs"
  by (simp add: reading_def rd_ok_def byte_reader_def)

lemma reading_advance: "reading r (xs @ ys) \<Longrightarrow> reading (rd_advance (length xs) r) ys"
proof -
  assume a: "reading r (xs @ ys)"
  then have "length (drop (rd_offset r) (rd_data r)) = length xs + length ys"
    by (simp add: reading_def)
  moreover have "drop (length xs) (drop (rd_offset r) (rd_data r)) = ys"
    using a by (simp add: reading_def)
  ultimately show ?thesis using a
    by (auto simp: reading_def rd_ok_def rd_advance_def add.commute)
qed

lemma rd_advance_advance [simp]: "rd_advance m (rd_advance n r) = rd_advance (n + m) r"
  by (simp add: rd_advance_def add.assoc)

lemma reading_remaining: "reading r bs \<Longrightarrow> rd_remaining r = length bs"
  by (auto simp: reading_def rd_remaining_def rd_ok_def)

lemma reading_view: "reading r (xs @ ys) \<Longrightarrow> rd_view (length xs) r = xs"
  by (simp add: reading_def rd_view_def)

lemma reading_end: "reading r [] \<Longrightarrow> status_ok (expect_end r)"
  by (auto simp: reading_def expect_end_def rd_at_end_def rd_ok_def)

lemma wr_append_append [simp]: "wr_append ys (wr_append xs w) = wr_append (xs @ ys) w"
  by (simp add: wr_append_def)

lemma wr_append_Nil [simp]: "wr_append [] w = w"
  by (simp add: wr_append_def)

lemma wr_append_sel [simp]:
  "wr_buffer (wr_append bs w) = wr_buffer w @ bs" "wr_max (wr_append bs w) = wr_max w"
  by (simp_all add: wr_append_def)

lemma wr_remaining_append [simp]: "wr_remaining (wr_append bs w) = wr_remaining w - length bs"
  by (simp add: wr_remaining_def)

lemma wr_reserve_ok [simp]: "status_ok (wr_reserve n w) \<longleftrightarrow> n \<le> wr_remaining w"
  by (simp add: wr_reserve_def)

locale byte_codec =
  fixes put :: "'a \<Rightarrow> ByteWriter \<Rightarrow> Status \<times> ByteWriter"
    and get :: "ByteReader \<Rightarrow> 'a result \<times> ByteReader"
    and enc :: "'a \<Rightarrow> u8 list"
    and admissible :: "'a \<Rightarrow> bool"
  assumes put_fits: "\<lbrakk>admissible v; length (enc v) \<le> wr_remaining w\<rbrakk> \<Longrightarrow>
      put v w = (status_success, wr_append (enc v) w)"
    and put_refused: "\<lbrakk>admissible v; wr_remaining w < length (enc v)\<rbrakk> \<Longrightarrow>
      \<exists>s bs. put v w = (s, wr_append bs w) \<and> st_code s = OversizedInput \<and> length bs \<le> wr_remaining w"
    and get_enc: "\<lbrakk>admissible v; reading r (enc v @ rest)\<rbrakk> \<Longrightarrow>
      get r = (Inr v, rd_advance (length (enc v)) r)"
begin

lemma put_capacity:
  assumes "admissible v" and "wr_ok w" and "put v w = (s, w')"
  shows "wr_ok w' \<and> wr_max w' = wr_max w \<and> (status_ok s \<longleftrightarrow> length (enc v) \<le> wr_remaining w)"
proof (cases "length (enc v) \<le> wr_remaining w")
  case True
  with put_fits [OF assms(1) True] assms show ?thesis
    by (auto simp: wr_ok_def wr_remaining_def)
next
  case False
  then obtain bs where "put v w = (s, wr_append bs w)" "st_code s = OversizedInput"
    "length bs \<le> wr_remaining w"
    using put_refused [of v w] assms by auto
  with False assms show ?thesis by (auto simp: wr_ok_def wr_remaining_def status_ok_def)
qed

lemma put_ok_iff:
  assumes "admissible v" and "put v w = (s, w')"
  shows "status_ok s \<longleftrightarrow> length (enc v) \<le> wr_remaining w"
proof (cases "length (enc v) \<le> wr_remaining w")
  case True
  with put_fits [OF assms(1) True] assms show ?thesis by auto
next
  case False
  with put_refused [of v w] assms show ?thesis by (auto simp: status_ok_def)
qed

lemma round_trip:
  assumes "admissible v" and "put v (byte_writer cap) = (s, w)" and "status_ok s"
  shows "\<exists>r. get (byte_reader (wr_buffer w)) = (Inr v, r) \<and> status_ok (expect_end r)"
proof -
  have fits: "length (enc v) \<le> wr_remaining (byte_writer cap)"
    using put_ok_iff assms by blast
  then have "wr_buffer w = enc v" using put_fits [OF assms(1) fits] assms(2)
    by (auto simp: byte_writer_def)
  then have r: "reading (byte_reader (wr_buffer w)) (enc v @ [])" by simp
  have "status_ok (expect_end (rd_advance (length (enc v)) (byte_reader (wr_buffer w))))"
    by (rule reading_end) (rule reading_advance [OF r])
  with get_enc [OF assms(1) r] show ?thesis by blast
qed

lemma enc_inject:
  assumes "admissible v" and "admissible v'" and "enc v = enc v'"
  shows "v = v'"
proof -
  have "reading (byte_reader (enc v)) (enc v @ [])" "reading (byte_reader (enc v)) (enc v' @ [])"
    using assms(3) by simp_all
  from get_enc [OF assms(1) this(1)] get_enc [OF assms(2) this(2)] show ?thesis by simp
qed

lemma put_then:
  assumes "admissible v" and "length (enc v) \<le> wr_remaining w"
  shows "then_write (put v) g w = g (wr_append (enc v) w)"
  using put_fits [OF assms] by (simp add: then_write_def)

lemma get_then:
  assumes "admissible v" and "reading r (enc v @ rest)"
  shows "then_read get k r = k v (rd_advance (length (enc v)) r)"
  using get_enc [OF assms] by (simp add: then_read_def)

end

text \<open>Two fields in a row are a codec again.\<close>

definition put_pair :: "('a \<Rightarrow> ByteWriter \<Rightarrow> Status \<times> ByteWriter) \<Rightarrow>
    ('b \<Rightarrow> ByteWriter \<Rightarrow> Status \<times> ByteWriter) \<Rightarrow> 'a \<times> 'b \<Rightarrow> ByteWriter \<Rightarrow> Status \<times> ByteWriter" where
  "put_pair p q v = then_write (p (fst v)) (q (snd v))"

definition get_pair :: "(ByteReader \<Rightarrow> 'a result \<times> ByteReader) \<Rightarrow>
    (ByteReader \<Rightarrow> 'b result \<times> ByteReader) \<Rightarrow> ByteReader \<Rightarrow> ('a \<times> 'b) result \<times> ByteReader" where
  "get_pair f g = then_read f (\<lambda>a. then_read g (\<lambda>b. read_return (Inr (a, b))))"

locale codec_pair =
  a: byte_codec put1 get1 enc1 adm1 + b: byte_codec put2 get2 enc2 adm2
  for put1 :: "'a \<Rightarrow> ByteWriter \<Rightarrow> Status \<times> ByteWriter"
    and get1 :: "ByteReader \<Rightarrow> 'a result \<times> ByteReader" and enc1 adm1
    and put2 :: "'b \<Rightarrow> ByteWriter \<Rightarrow> Status \<times> ByteWriter"
    and get2 :: "ByteReader \<Rightarrow> 'b result \<times> ByteReader" and enc2 adm2

sublocale codec_pair \<subseteq> pair: byte_codec "put_pair put1 put2" "get_pair get1 get2"
  "\<lambda>v. enc1 (fst v) @ enc2 (snd v)" "\<lambda>v. adm1 (fst v) \<and> adm2 (snd v)"
proof unfold_locales
  fix v :: "'a \<times> 'b" and w
  assume adm: "adm1 (fst v) \<and> adm2 (snd v)"
  show "put_pair put1 put2 v w = (status_success, wr_append (enc1 (fst v) @ enc2 (snd v)) w)"
    if "length (enc1 (fst v) @ enc2 (snd v)) \<le> wr_remaining w"
    using adm that by (simp add: put_pair_def a.put_then b.put_fits)
  show "\<exists>s bs. put_pair put1 put2 v w = (s, wr_append bs w) \<and> st_code s = OversizedInput \<and>
      length bs \<le> wr_remaining w"
    if over: "wr_remaining w < length (enc1 (fst v) @ enc2 (snd v))"
  proof (cases "length (enc1 (fst v)) \<le> wr_remaining w")
    case True
    then have "put_pair put1 put2 v w = put2 (snd v) (wr_append (enc1 (fst v)) w)"
      using adm by (simp add: put_pair_def a.put_then)
    moreover have "wr_remaining (wr_append (enc1 (fst v)) w) < length (enc2 (snd v))"
      using over True by simp
    ultimately show ?thesis using b.put_refused adm True by fastforce
  next
    case False
    then obtain s bs where s: "put1 (fst v) w = (s, wr_append bs w)" "st_code s = OversizedInput"
      "length bs \<le> wr_remaining w"
      using a.put_refused adm by (metis leI)
    then have "put_pair put1 put2 v w = (s, wr_append bs w)"
      by (simp add: put_pair_def then_write_def status_ok_def)
    with s show ?thesis by blast
  qed
next
  fix v :: "'a \<times> 'b" and r rest
  assume adm: "adm1 (fst v) \<and> adm2 (snd v)" and rd: "reading r ((enc1 (fst v) @ enc2 (snd v)) @ rest)"
  from rd have r1: "reading r (enc1 (fst v) @ (enc2 (snd v) @ rest))" by simp
  show "get_pair get1 get2 r = (Inr v, rd_advance (length (enc1 (fst v) @ enc2 (snd v))) r)"
    using adm by (simp add: get_pair_def read_return_def a.get_then [OF _ r1]
        b.get_then [OF _ reading_advance [OF r1]])
qed

section \<open>The methods are codecs\<close>

text \<open>
  The pattern all the fixed-width methods share: \<open>n\<close> bytes are reserved and appended,
  and \<open>n\<close> bytes are viewed and decoded.
\<close>

lemma fixed_width_codec:
  assumes put: "\<And>v w. put v w = (if n \<le> wr_remaining w then (status_success, wr_append (enc v) w)
      else (wr_reserve n w, w))"
    and get: "\<And>r. n \<le> rd_remaining r \<Longrightarrow> get r = (Inr (dec (rd_view n r)), rd_advance n r)"
    and len: "\<And>v. length (enc v) = n" and dec: "\<And>v. dec (enc v) = v"
  shows "byte_codec put get enc (\<lambda>_. True)"
proof
  fix v w
  show "put v w = (status_success, wr_append (enc v) w)" if "length (enc v) \<le> wr_remaining w"
    using that by (simp add: put len)
  show "\<exists>s bs. put v w = (s, wr_append bs w) \<and> st_code s = OversizedInput \<and> length bs \<le> wr_remaining w"
    if "wr_remaining w < length (enc v)"
    using that by (intro exI [of _ "wr_reserve n w"] exI [of _ "[]"]) (simp add: put len wr_reserve_def)
next
  fix v r rest
  assume r: "reading r (enc v @ rest)"
  then have "n \<le> rd_remaining r" "rd_view n r = enc v"
    using reading_remaining [OF r] reading_view [OF r] by (simp_all add: len)
  then show "get r = (Inr v, rd_advance (length (enc v)) r)" by (simp add: get len dec)
qed

interpretation c_u8: byte_codec wr_u8 rd_u8 "\<lambda>v. [v]" "\<lambda>_. True"
proof (rule fixed_width_codec [where n = 1 and dec = hd])
  show "rd_u8 r = (Inr (hd (rd_view 1 r)), rd_advance 1 r)" if "1 \<le> rd_remaining r" for r
    using that by (simp add: rd_u8_def rd_view_def rd_remaining_def hd_drop_conv_nth)
qed (simp_all add: wr_u8_def Let_def)

lemma le_encode_2: "le_encode 2 v = [ucast (v AND 0xFF), ucast (drop_bit 8 v AND 0xFF)]"
  by (simp add: le_encode_def numeral_2_eq_2)

interpretation c_u16: byte_codec wr_u16 rd_u16 "le_encode 2" "\<lambda>_. True"
  by (rule fixed_width_codec [where n = 2 and dec = le_decode])
    (simp_all only: wr_u16_def rd_u16_def Let_def le_encode_2 wr_reserve_ok wr_append_append
      append.simps linorder_not_less [symmetric], simp_all add: le_encode_2 [symmetric] codec_simps)

interpretation c_u32: byte_codec wr_u32 rd_u32 "le_encode 4" "\<lambda>_. True"
  by (rule fixed_width_codec [where n = 4 and dec = le_decode])
    (simp_all add: wr_u32_def rd_u32_def Let_def codec_simps)

interpretation c_u64: byte_codec wr_u64 rd_u64 "le_encode 8" "\<lambda>_. True"
  by (rule fixed_width_codec [where n = 8 and dec = le_decode])
    (simp_all add: wr_u64_def rd_u64_def Let_def codec_simps)

interpretation c_i64: byte_codec wr_i64 rd_i64 "le_encode 8" "\<lambda>_. True"
  by (rule fixed_width_codec [where n = 8 and dec = le_decode])
    (simp_all add: wr_i64_def rd_i64_def wr_u64_def rd_u64_def Let_def then_read_def read_return_def codec_simps)

interpretation c_bool: byte_codec wr_boolean rd_boolean "\<lambda>v. [if v then 1 else 0]" "\<lambda>_. True"
proof
  fix v w
  show "wr_boolean v w = (status_success, wr_append [if v then 1 else 0] w)"
    if "length [if v then 1 else 0 :: u8] \<le> wr_remaining w"
    using c_u8.put_fits [where v = "if v then 1 else 0" and w = w] that by (simp add: wr_boolean_def)
  show "\<exists>s bs. wr_boolean v w = (s, wr_append bs w) \<and> st_code s = OversizedInput \<and> length bs \<le> wr_remaining w"
    if "wr_remaining w < length [if v then 1 else 0 :: u8]"
    using c_u8.put_refused [where v = "if v then 1 else 0" and w = w] that by (simp add: wr_boolean_def)
next
  fix v r rest
  assume "reading r ([if v then 1 else 0] @ rest)"
  note get = c_u8.get_then [OF TrueI this]
  show "rd_boolean r = (Inr v, rd_advance (length [if v then 1 else 0 :: u8]) r)"
    by (simp add: rd_boolean_def read_return_def get)
qed

interpretation c_u64_u64: codec_pair wr_u64 rd_u64 "le_encode 8" "\<lambda>_. True"
  wr_u64 rd_u64 "le_encode 8" "\<lambda>_. True"
  ..

definition digest_bytes :: "Digest128 \<Rightarrow> u8 list" where
  "digest_bytes d = le_encode 8 (dg_hi d) @ le_encode 8 (dg_lo d)"

lemma wr_digest_pair: "wr_digest d = put_pair wr_u64 wr_u64 (dg_hi d, dg_lo d)"
  by (intro ext) (simp add: wr_digest_def put_pair_def)

interpretation c_digest: byte_codec wr_digest rd_digest digest_bytes "\<lambda>_. True"
proof
  fix d w
  show "wr_digest d w = (status_success, wr_append (digest_bytes d) w)"
    if "length (digest_bytes d) \<le> wr_remaining w"
    using c_u64_u64.pair.put_fits [where v = "(dg_hi d, dg_lo d)" and w = w] that
    by (simp add: wr_digest_pair digest_bytes_def)
  show "\<exists>s bs. wr_digest d w = (s, wr_append bs w) \<and> st_code s = OversizedInput \<and> length bs \<le> wr_remaining w"
    if "wr_remaining w < length (digest_bytes d)"
    using c_u64_u64.pair.put_refused [where v = "(dg_hi d, dg_lo d)" and w = w] that
    by (simp add: wr_digest_pair digest_bytes_def)
next
  fix d :: Digest128 and r rest
  assume "reading r (digest_bytes d @ rest)"
  then have r: "reading r (le_encode 8 (dg_hi d) @ (le_encode 8 (dg_lo d) @ rest))"
    by (simp add: digest_bytes_def)
  show "rd_digest r = (Inr d, rd_advance (length (digest_bytes d)) r)"
    using c_u64.get_enc [OF TrueI r] c_u64.get_enc [OF TrueI reading_advance [OF r]]
    by (simp add: rd_digest_def read_return_def digest_bytes_def then_read_def)
qed

definition prefixed :: "u8 list \<Rightarrow> u8 list" where
  "prefixed bs = le_encode 4 (of_nat (length bs) :: u32) @ bs"

lemma to_u32_length:
  "length (bs :: 'a list) < 2 ^ 32 \<Longrightarrow> to_u32 (of_nat (length bs)) what = Inr (of_nat (length bs))"
  by (simp add: to_u32_def word_less_nat_alt unat_of_nat word_unat_eq_iff unat_u64_to_u32)

lemma wr_bytes_fits:
  "length bs \<le> wr_remaining w \<Longrightarrow> wr_bytes bs w = (status_success, wr_append bs w)"
  "wr_remaining w < length bs \<Longrightarrow> wr_bytes bs w = (wr_reserve (length bs) w, w)"
  by (simp_all add: wr_bytes_def)

lemma rd_bytes_enc:
  "reading r (bs @ rest) \<Longrightarrow> rd_bytes (length bs) r = (Inr bs, rd_advance (length bs) r)"
  using reading_remaining [of r "bs @ rest"] reading_view [of r bs rest]
  by (simp add: rd_bytes_def needs_def)

text \<open>A length-prefixed byte string of fewer than \<open>2 ^ 32\<close> bytes, read with a bound that admits it.\<close>

lemma bytes_prefixed_codec:
  assumes "max_len < 2 ^ 32"
  shows "byte_codec wr_bytes_prefixed (rd_bytes_prefixed max_len) prefixed (\<lambda>bs. length bs \<le> max_len)"
proof
  fix bs :: "u8 list" and w
  assume "length bs \<le> max_len"
  with assms have len: "to_u32 (of_nat (length bs)) what = Inr (of_nat (length bs))" for what
    by (intro to_u32_length) simp
  let ?l = "of_nat (length bs) :: u32"
  show "wr_bytes_prefixed bs w = (status_success, wr_append (prefixed bs) w)"
    if "length (prefixed bs) \<le> wr_remaining w"
    using that by (simp add: wr_bytes_prefixed_def len c_u32.put_then wr_bytes_fits prefixed_def)
  show "\<exists>s bs'. wr_bytes_prefixed bs w = (s, wr_append bs' w) \<and> st_code s = OversizedInput \<and>
      length bs' \<le> wr_remaining w"
    if over: "wr_remaining w < length (prefixed bs)"
  proof (cases "4 \<le> wr_remaining w")
    case True
    then have "wr_bytes_prefixed bs w = (wr_reserve (length bs) (wr_append (le_encode 4 ?l) w), wr_append (le_encode 4 ?l) w)"
      using over by (simp add: wr_bytes_prefixed_def len c_u32.put_then wr_bytes_fits prefixed_def)
    then show ?thesis using True over
      by (intro exI [of _ "wr_reserve (length bs) (wr_append (le_encode 4 ?l) w)"]
          exI [of _ "le_encode 4 ?l"]) (auto simp: wr_reserve_def prefixed_def)
  next
    case False
    then show ?thesis
      by (intro exI [of _ "wr_reserve 4 w"] exI [of _ "[]"])
        (simp add: wr_bytes_prefixed_def len then_write_def wr_u32_def wr_reserve_def)
  qed
next
  fix bs :: "u8 list" and r rest
  assume le: "length bs \<le> max_len" and "reading r (prefixed bs @ rest)"
  then have r: "reading r (le_encode 4 (of_nat (length bs) :: u32) @ (bs @ rest))"
    by (simp add: prefixed_def)
  have u: "unat (of_nat (length bs) :: u32) = length bs" using le assms by (simp add: unat_of_nat)
  show "rd_bytes_prefixed max_len r = (Inr bs, rd_advance (length (prefixed bs)) r)"
    using le rd_bytes_enc [OF reading_advance [OF r]]
    by (simp add: rd_bytes_prefixed_def c_u32.get_then [OF TrueI r] u prefixed_def)
qed

lemma char_of_unat_of_char: "char_of (unat (of_char c :: u8)) = c"
proof -
  have "(of_nat (of_char c) :: u8) = of_char c" by (rule of_nat_of_char)
  moreover have "(of_char c :: nat) < 256" by (rule nat_of_char_less_256)
  moreover from this have "unat (of_nat (of_char c) :: u8) = (of_char c :: nat)"
    by (simp only: unat_of_nat) simp
  ultimately have "unat (of_char c :: u8) = (of_char c :: nat)" by metis
  then show ?thesis by simp
qed

lemma text_bytes_inverse: "map (\<lambda>b. char_of (unat b)) (as_bytes t) = t"
  by (induction t) (simp_all add: as_bytes_def char_of_unat_of_char)

end
