(* ===== verification/Ids.thy ===== *)
theory Ids
  imports Checked
begin

text \<open>
  Strong identities and name interning: \<open>include/backpressure/core/ids.hpp\<close>.

  \<open>StrongId<Tag>\<close> is a datatype with a phantom tag, so that mixing identities is a type
  error here as it is in the code. A \<open>SymbolTable\<close> is a record of the deque of names and
  of the index into it; the index is a map, because the code only looks keys up in it.
  The lemmas show that the table is a bijection between the names it holds and the symbols
  below its size, and that interning never renumbers a symbol.
\<close>

section \<open>Strong identities\<close>

typedecl ResourceTag
typedecl EdgeTag
typedecl SignalTag
typedecl PropagationTag
typedecl PolicyTag
typedecl SourceTag
typedecl FenceTag
typedecl AttemptTag
typedecl ObservationTag

datatype 'tag StrongId = StrongId (id_value: u64)

type_synonym ResourceId = "ResourceTag StrongId"
type_synonym EdgeId = "EdgeTag StrongId"
type_synonym SignalId = "SignalTag StrongId"
type_synonym PropagationId = "PropagationTag StrongId"
type_synonym PolicyId = "PolicyTag StrongId"
type_synonym SourceId = "SourceTag StrongId"
type_synonym FenceId = "FenceTag StrongId"
type_synonym AttemptId = "AttemptTag StrongId"
type_synonym ObservationId = "ObservationTag StrongId"

definition id_kInvalid :: u64 where
  "id_kInvalid = 0xFFFFFFFFFFFFFFFF"

definition id_invalid :: "'tag StrongId" where
  "id_invalid = StrongId id_kInvalid"

definition id_from_u64 :: "u64 \<Rightarrow> 'tag StrongId result" where
  "id_from_u64 raw =
     (if raw = id_kInvalid then fail OutOfRange ''id sentinel'' raw
      else if raw > 0xFFFFFFFFFFFFFFFF then fail OutOfRange ''id width'' raw
      else Inr (StrongId raw))"

definition id_valid :: "'tag StrongId \<Rightarrow> bool" where
  "id_valid i \<longleftrightarrow> id_value i \<noteq> id_kInvalid"

instantiation StrongId :: (type) linorder
begin
definition less_eq_StrongId :: "'a StrongId \<Rightarrow> 'a StrongId \<Rightarrow> bool" where
  "less_eq_StrongId a b \<longleftrightarrow> id_value a \<le> id_value b"
definition less_StrongId :: "'a StrongId \<Rightarrow> 'a StrongId \<Rightarrow> bool" where
  "less_StrongId a b \<longleftrightarrow> id_value a < id_value b"
instance
  by standard (auto simp: less_eq_StrongId_def less_StrongId_def StrongId.expand)
end

lemma id_from_u64_valid: "id_from_u64 raw = Inr i \<longleftrightarrow> i = StrongId raw \<and> id_valid i"
proof -
  have "\<not> (0xFFFFFFFFFFFFFFFF :: u64) < raw"
    using unat_u64_bound [of raw] by (simp add: word_less_nat_alt)
  then show ?thesis by (auto simp: id_from_u64_def id_valid_def)
qed

section \<open>Name interning\<close>

type_synonym Symbol = u32

definition kInvalidSymbol :: Symbol where
  "kInvalidSymbol = 0xFFFFFFFF"

definition symbol_kDefaultCapacity :: nat where
  "symbol_kDefaultCapacity = 2 ^ 20"

definition kMaxNameBytes :: nat where
  "kMaxNameBytes = 255"

record SymbolTable =
  sym_names :: "string list"
  sym_index :: "string \<rightharpoonup> Symbol"

definition symbol_table :: SymbolTable where
  "symbol_table = \<lparr>sym_names = [], sym_index = Map.empty\<rparr>"

definition intern :: "SymbolTable \<Rightarrow> string \<Rightarrow> nat \<Rightarrow> Symbol result \<times> SymbolTable" where
  "intern t name capacity =
     (if name = [] then (fail InvalidArgument ''empty symbol'' 0, t)
      else if length name > kMaxNameBytes then
        (fail OversizedInput ''symbol length'' (of_nat (length name)), t)
      else case sym_index t name of
        Some s \<Rightarrow> (Inr s, t)
      | None \<Rightarrow>
          if length (sym_names t) \<ge> capacity then
            (fail LimitExceeded ''symbol capacity'' (of_nat (length (sym_names t))), t)
          else
            let next = (of_nat (length (sym_names t)) :: Symbol)
            in (Inr next, t\<lparr>sym_names := sym_names t @ [name],
                            sym_index := (sym_index t)(name \<mapsto> next)\<rparr>))"

definition symbol_find :: "SymbolTable \<Rightarrow> string \<Rightarrow> Symbol result" where
  "symbol_find t name =
     (case sym_index t name of None \<Rightarrow> fail NotFound ''symbol'' 0 | Some s \<Rightarrow> Inr s)"

definition symbol_lookup :: "SymbolTable \<Rightarrow> Symbol \<Rightarrow> string" where
  "symbol_lookup t symbol =
     (if unat symbol \<ge> length (sym_names t) then [] else sym_names t ! unat symbol)"

definition symbol_size :: "SymbolTable \<Rightarrow> nat" where
  "symbol_size t = length (sym_names t)"

subsection \<open>The table is a bijection\<close>

definition symbol_inv :: "SymbolTable \<Rightarrow> bool" where
  "symbol_inv t \<longleftrightarrow>
     length (sym_names t) \<le> 2 ^ 32 \<and> [] \<notin> set (sym_names t) \<and>
     (\<forall>name s. sym_index t name = Some s \<longleftrightarrow>
        unat s < length (sym_names t) \<and> sym_names t ! unat s = name)"

lemma symbol_inv_index:
  "symbol_inv t \<Longrightarrow> sym_index t name = Some s \<longleftrightarrow>
     unat s < length (sym_names t) \<and> sym_names t ! unat s = name"
  unfolding symbol_inv_def by (elim conjE allE) assumption

lemma symbol_inv_empty [simp]: "symbol_inv symbol_table"
  by (simp add: symbol_inv_def symbol_table_def)

lemma unat_of_nat_u32: "n < 2 ^ 32 \<Longrightarrow> unat (of_nat n :: u32) = n"
  by (simp add: unat_of_nat)

lemma unat_u32_eq_of_nat: "unat (s :: u32) = n \<Longrightarrow> s = of_nat n"
  by auto

lemma intern_inv:
  assumes "symbol_inv t" and "capacity \<le> 2 ^ 32" and "intern t name capacity = (r, t')"
  shows "symbol_inv t'"
proof (cases "t' = t")
  case True
  with assms(1) show ?thesis by simp
next
  case False
  let ?n = "length (sym_names t)"
  from False assms(3) have new: "sym_index t name = None" "?n < capacity" "name \<noteq> []"
    and t': "t' = t\<lparr>sym_names := sym_names t @ [name],
                    sym_index := (sym_index t)(name \<mapsto> of_nat ?n)\<rparr>"
    by (auto simp: intern_def Let_def split: if_splits option.splits)
  have n: "?n < 2 ^ 32" using new(2) assms(2) by simp
  have fresh: "sym_names t ! unat s \<noteq> name" if "unat s < ?n" for s :: Symbol
    using assms(1) new(1) that unfolding symbol_inv_def by (metis option.distinct(1))
  have "sym_index t' name' = Some s \<longleftrightarrow> unat s < length (sym_names t') \<and> sym_names t' ! unat s = name'"
    for name' s
  proof (cases "unat s < ?n")
    case True
    then have "s \<noteq> of_nat ?n" using n by (auto simp: unat_of_nat)
    with True assms(1) fresh [OF True] new(1) show ?thesis
      by (auto simp: t' nth_append symbol_inv_def)
  next
    case False
    then have "sym_index t name' \<noteq> Some s" using assms(1) by (auto simp: symbol_inv_def)
    moreover have "s = of_nat ?n \<longleftrightarrow> unat s = ?n"
      using n unat_u32_eq_of_nat [of s ?n] by (auto simp: unat_of_nat_u32)
    ultimately show ?thesis using False n
      by (auto simp: t' nth_append unat_of_nat_u32)
  qed
  with n new(3) assms(1) show ?thesis
    unfolding symbol_inv_def by (auto simp: t')
qed

lemma intern_lookup:
  assumes "symbol_inv t" and "capacity \<le> 2 ^ 32" and "intern t name capacity = (Inr s, t')"
  shows "symbol_lookup t' s = name \<and> symbol_find t' name = Inr s"
proof -
  from assms(3) have idx: "sym_index t' name = Some s"
    by (auto simp: intern_def Let_def split: if_splits option.splits)
  have "symbol_inv t'" using assms by (rule intern_inv)
  with idx have "unat s < length (sym_names t')" "sym_names t' ! unat s = name"
    unfolding symbol_inv_def by blast+
  with idx show ?thesis by (simp add: symbol_lookup_def symbol_find_def)
qed

lemma intern_stable:
  assumes "intern t name capacity = (r, t')" and "unat s < symbol_size t"
  shows "symbol_lookup t' s = symbol_lookup t s"
  using assms
  by (auto simp: intern_def Let_def symbol_lookup_def symbol_size_def nth_append
      split: if_splits option.splits)

lemma symbol_lookup_inj:
  assumes "symbol_inv t" and "unat s < symbol_size t" and "unat s' < symbol_size t"
    and "symbol_lookup t s = symbol_lookup t s'"
  shows "s = s'"
proof -
  have *: "sym_index t (symbol_lookup t x) = Some x" if "unat x < symbol_size t" for x
  proof -
    have "sym_index t (sym_names t ! unat x) = Some x"
      using that by (simp add: symbol_inv_index [OF assms(1)] symbol_size_def)
    with that show ?thesis by (simp add: symbol_lookup_def symbol_size_def)
  qed
  show ?thesis
    using * [OF assms(2)] * [OF assms(3)] unfolding assms(4) by (metis option.inject)
qed

end
