(* ===== verification/Clock_Rng.thy ===== *)
theory Clock_Rng
  imports Checked Digest
begin

text \<open>
  The logical clock (\<open>include/backpressure/core/clock.hpp\<close>) and the seeded generators
  (\<open>include/backpressure/core/rng.hpp\<close>).

  A clock is its current tick. A generator is a record of its words; a method that draws
  returns the value and the generator. The two rejection loops \<open>next_bounded\<close> may run for
  a long time, so they take fuel and return \<open>None\<close> when it runs out.
\<close>

section \<open>Logical clock\<close>

type_synonym Tick = u64

definition kNoTick :: Tick where
  "kNoTick = 0"

record LogicalClock =
  clk_now :: Tick

definition advance :: "LogicalClock \<Rightarrow> Tick \<Rightarrow> Tick result \<times> LogicalClock" where
  "advance c delta =
     (if add_overflows_u64 (clk_now c) delta then (fail Overflow ''logical clock'' (clk_now c), c)
      else (Inr (clk_now c + delta), c\<lparr>clk_now := clk_now c + delta\<rparr>))"

definition clock_set :: "LogicalClock \<Rightarrow> Tick \<Rightarrow> Status \<times> LogicalClock" where
  "clock_set c value =
     (if value < clk_now c then (status_error InvalidArgument ''logical clock regression'' value, c)
      else (status_success, c\<lparr>clk_now := value\<rparr>))"

section \<open>SplitMix64\<close>

record SplitMix64 =
  sm_state :: u64

definition splitmix_next_u64 :: "SplitMix64 \<Rightarrow> u64 \<times> SplitMix64" where
  "splitmix_next_u64 g =
     (let s = sm_state g + 0x9E3779B97F4A7C15;
          z1 = (s XOR drop_bit 30 s) * 0xBF58476D1CE4E5B9;
          z2 = (z1 XOR drop_bit 27 z1) * 0x94D049BB133111EB
      in (z2 XOR drop_bit 31 z2, g\<lparr>sm_state := s\<rparr>))"

fun splitmix_draw :: "nat \<Rightarrow> u64 \<Rightarrow> u64 \<Rightarrow> SplitMix64 \<Rightarrow> (u64 \<times> SplitMix64) option" where
  "splitmix_draw 0 threshold bound g = None"
| "splitmix_draw (Suc fuel) threshold bound g =
     (let (r, g') = splitmix_next_u64 g
      in if r \<ge> threshold then Some (r mod bound, g') else splitmix_draw fuel threshold bound g')"

definition splitmix_next_bounded :: "nat \<Rightarrow> SplitMix64 \<Rightarrow> u64 \<Rightarrow> (u64 \<times> SplitMix64) option" where
  "splitmix_next_bounded fuel g bound =
     (if bound = 0 then Some (0, g)
      else splitmix_draw fuel ((0xFFFFFFFFFFFFFFFF mod bound) + 1) bound g)"

definition splitmix_next_bool :: "nat \<Rightarrow> SplitMix64 \<Rightarrow> u32 \<Rightarrow> (bool \<times> SplitMix64) option" where
  "splitmix_next_bool fuel g percent_true =
     map_option (\<lambda>(r, g'). (r < ucast percent_true, g')) (splitmix_next_bounded fuel g 100)"

section \<open>PCG-XSH-RR 64/32\<close>

record Pcg32 =
  pcg_state :: u64
  pcg_inc :: u64

definition pcg_next_u32 :: "Pcg32 \<Rightarrow> u32 \<times> Pcg32" where
  "pcg_next_u32 g =
     (let old = pcg_state g;
          xorshifted = (ucast (drop_bit 27 (drop_bit 18 old XOR old)) :: u32);
          rot = (ucast (drop_bit 59 old) :: u32)
      in (drop_bit (unat rot) xorshifted OR push_bit (unat ((NOT rot + 1) AND 31)) xorshifted,
          g\<lparr>pcg_state := old * 6364136223846793005 + pcg_inc g\<rparr>))"

definition pcg32 :: "u64 \<Rightarrow> u64 \<Rightarrow> Pcg32" where
  "pcg32 seed seq =
     (let g1 = snd (pcg_next_u32 \<lparr>pcg_state = 0, pcg_inc = push_bit 1 seq OR 1\<rparr>);
          g2 = g1\<lparr>pcg_state := pcg_state g1 + seed\<rparr>
      in snd (pcg_next_u32 g2))"

definition pcg_next_u64 :: "Pcg32 \<Rightarrow> u64 \<times> Pcg32" where
  "pcg_next_u64 g =
     (let (hi, g1) = pcg_next_u32 g; (lo, g2) = pcg_next_u32 g1
      in (push_bit 32 (ucast hi) OR ucast lo, g2))"

fun pcg_draw :: "nat \<Rightarrow> u32 \<Rightarrow> u32 \<Rightarrow> Pcg32 \<Rightarrow> (u32 \<times> Pcg32) option" where
  "pcg_draw 0 threshold bound g = None"
| "pcg_draw (Suc fuel) threshold bound g =
     (let (r, g') = pcg_next_u32 g
      in if r \<ge> threshold then Some (r mod bound, g') else pcg_draw fuel threshold bound g')"

definition pcg_next_bounded :: "nat \<Rightarrow> Pcg32 \<Rightarrow> u32 \<Rightarrow> (u32 \<times> Pcg32) option" where
  "pcg_next_bounded fuel g bound =
     (if bound = 0 then Some (0, g)
      else pcg_draw fuel (ucast ((0xFFFFFFFF :: u64) mod ucast bound + 1)) bound g)"

section \<open>Labelled sub-seeds\<close>

definition derive_seed :: "u64 \<Rightarrow> string \<Rightarrow> u64" where
  "derive_seed root label =
     fold64 (finish (feed [domain 0xE1, update_u64 root, update (map of_char label)] digest_builder))"

section \<open>Properties of the clock and of the generators\<close>

text \<open>The clock never moves backwards, and a refused operation leaves it alone.\<close>

lemma advance_monotone:
  assumes "advance c delta = (r, c')"
  shows "clk_now c \<le> clk_now c'"
    and "r = Inr t \<Longrightarrow> unat t = unat (clk_now c) + unat delta \<and> t = clk_now c'"
    and "r = Inl s \<Longrightarrow> c' = c \<and> unat (clk_now c) + unat delta \<ge> 2 ^ 64"
proof -
  note * = add_overflows_u64_iff [of "clk_now c" delta]
  have no: "\<not> add_overflows_u64 (clk_now c) delta \<Longrightarrow> unat (clk_now c + delta) = unat (clk_now c) + unat delta"
    by (rule unat_add_no_overflow) (use * in simp)
  show "clk_now c \<le> clk_now c'" using assms no
    by (auto simp: advance_def word_le_nat_alt split: if_splits)
  show "r = Inr t \<Longrightarrow> unat t = unat (clk_now c) + unat delta \<and> t = clk_now c'"
    using assms no by (auto simp: advance_def split: if_splits)
  show "r = Inl s \<Longrightarrow> c' = c \<and> unat (clk_now c) + unat delta \<ge> 2 ^ 64"
    using assms * by (auto simp: advance_def split: if_splits)
qed

lemma clock_set_monotone: "clock_set c value = (s, c') \<Longrightarrow> clk_now c \<le> clk_now c'"
  by (auto simp: clock_set_def split: if_splits)

text \<open>The generator's output function is the digest's finaliser applied to its counter.\<close>

lemma splitmix_next_u64_mix64:
  "splitmix_next_u64 g = (mix64 (sm_state g + 0x9E3779B97F4A7C15),
     g\<lparr>sm_state := sm_state g + 0x9E3779B97F4A7C15\<rparr>)"
  by (simp add: splitmix_next_u64_def mix64_def Let_def)

lemma splitmix_draw_bound:
  "splitmix_draw fuel threshold bound g = Some (r, g') \<Longrightarrow> bound \<noteq> 0 \<Longrightarrow> r < bound"
  by (induction fuel threshold bound g rule: splitmix_draw.induct)
    (auto simp: Let_def word_mod_less_divisor word_gt_0 split: prod.splits if_splits)

lemma splitmix_draw_uniform_source:
  "splitmix_draw fuel threshold bound g = Some (r, g') \<Longrightarrow>
   \<exists>x. threshold \<le> x \<and> r = x mod bound"
  by (induction fuel threshold bound g rule: splitmix_draw.induct)
    (auto simp: Let_def split: prod.splits if_splits)

end
