(* ===== verification/Generations.thy ===== *)
theory Generations
  imports Ids Clock_Rng
begin

text \<open>
  Generations, epochs, boot identities and incarnations:
  \<open>include/backpressure/model/generation.hpp\<close>.

  A generation or an epoch wraps its word, zero meaning unbound. Their comparison operators
  compare the words. The lemmas show that \<open>next\<close> and \<open>reincarnate\<close> only move forward, by
  exactly one, and refuse instead of wrapping.
\<close>

section \<open>Generations\<close>

datatype Generation = Generation (gen_value: u64)

definition gen_kUnknown :: u64 where
  "gen_kUnknown = 0"

definition gen_unknown :: Generation where
  "gen_unknown = Generation gen_kUnknown"

definition gen_initial :: Generation where
  "gen_initial = Generation 1"

definition gen_from_u64 :: "u64 \<Rightarrow> Generation result" where
  "gen_from_u64 raw = Inr (Generation raw)"

definition gen_from_raw :: "u64 \<Rightarrow> Generation" where
  "gen_from_raw raw = Generation (if raw = gen_kUnknown then 1 else raw)"

definition gen_known :: "Generation \<Rightarrow> bool" where
  "gen_known g \<longleftrightarrow> gen_value g \<noteq> gen_kUnknown"

definition gen_next :: "Generation \<Rightarrow> Generation result" where
  "gen_next g =
     (if gen_value g = max_of_u64 then fail Overflow ''generation exhausted'' (gen_value g)
      else Inr (Generation (gen_value g + 1)))"

instantiation Generation :: linorder
begin
definition less_eq_Generation :: "Generation \<Rightarrow> Generation \<Rightarrow> bool" where
  "less_eq_Generation a b \<longleftrightarrow> gen_value a \<le> gen_value b"
definition less_Generation :: "Generation \<Rightarrow> Generation \<Rightarrow> bool" where
  "less_Generation a b \<longleftrightarrow> gen_value a < gen_value b"
instance
  by standard (auto simp: less_eq_Generation_def less_Generation_def Generation.expand)
end

section \<open>Epochs\<close>

datatype Epoch = Epoch (epoch_value: u64)

definition epoch_kNone :: u64 where
  "epoch_kNone = 0"

definition epoch_none :: Epoch where
  "epoch_none = Epoch epoch_kNone"

definition epoch_from_u64 :: "u64 \<Rightarrow> Epoch result" where
  "epoch_from_u64 raw = Inr (Epoch raw)"

definition epoch_from_raw :: "u64 \<Rightarrow> Epoch" where
  "epoch_from_raw raw = Epoch raw"

definition epoch_known :: "Epoch \<Rightarrow> bool" where
  "epoch_known e \<longleftrightarrow> epoch_value e \<noteq> epoch_kNone"

definition epoch_next :: "Epoch \<Rightarrow> Epoch result" where
  "epoch_next e =
     (if epoch_value e = max_of_u64 then fail Overflow ''epoch exhausted'' (epoch_value e)
      else Inr (Epoch (epoch_value e + 1)))"

instantiation Epoch :: linorder
begin
definition less_eq_Epoch :: "Epoch \<Rightarrow> Epoch \<Rightarrow> bool" where
  "less_eq_Epoch a b \<longleftrightarrow> epoch_value a \<le> epoch_value b"
definition less_Epoch :: "Epoch \<Rightarrow> Epoch \<Rightarrow> bool" where
  "less_Epoch a b \<longleftrightarrow> epoch_value a < epoch_value b"
instance
  by standard (auto simp: less_eq_Epoch_def less_Epoch_def Epoch.expand)
end

section \<open>Boot identities and incarnations\<close>

record BootId =
  boot_hi :: u64
  boot_lo :: u64

definition boot_from_seed :: "u64 \<Rightarrow> u32 \<Rightarrow> u64 \<Rightarrow> BootId" where
  "boot_from_seed seed pid nonce =
     (let d = finish (feed [domain 0xB0, update_u64 seed, update_u32 pid, update_u64 nonce] digest_builder)
      in \<lparr>boot_hi = dg_hi d OR 1, boot_lo = dg_lo d\<rparr>)"

definition boot_from_raw :: "u64 \<Rightarrow> u64 \<Rightarrow> BootId" where
  "boot_from_raw hi lo = \<lparr>boot_hi = hi, boot_lo = lo\<rparr>"

definition boot_valid :: "BootId \<Rightarrow> bool" where
  "boot_valid b \<longleftrightarrow> boot_hi b \<noteq> 0 \<or> boot_lo b \<noteq> 0"

record Incarnation =
  inc_boot :: BootId
  inc_pid :: u32
  inc_index :: u32
  inc_seq :: u64

definition incarnation_none :: Incarnation where
  "incarnation_none = \<lparr>inc_boot = boot_from_raw 0 0, inc_pid = 0, inc_index = 0, inc_seq = 0\<rparr>"

definition mint :: "BootId \<Rightarrow> u32 \<Rightarrow> u32 \<Rightarrow> Incarnation" where
  "mint boot pid index = \<lparr>inc_boot = boot, inc_pid = pid, inc_index = index, inc_seq = 1\<rparr>"

definition inc_valid :: "Incarnation \<Rightarrow> bool" where
  "inc_valid i \<longleftrightarrow> boot_valid (inc_boot i) \<and> inc_seq i \<noteq> 0"

definition reincarnate :: "Incarnation \<Rightarrow> Incarnation result" where
  "reincarnate i =
     (if inc_seq i = max_of_u64 then fail Overflow ''incarnation exhausted'' (inc_seq i)
      else Inr (i\<lparr>inc_seq := inc_seq i + 1\<rparr>))"

definition same_boot :: "Incarnation \<Rightarrow> Incarnation \<Rightarrow> bool" where
  "same_boot a b \<longleftrightarrow> inc_boot a = inc_boot b"

section \<open>Digests of the identities\<close>

definition digest_incarnation :: "Incarnation \<Rightarrow> DigestBuilder \<Rightarrow> DigestBuilder" where
  "digest_incarnation i b =
     feed [domain 0x11, update_u64 (boot_hi (inc_boot i)), update_u64 (boot_lo (inc_boot i)),
           update_u32 (inc_pid i), update_u32 (inc_index i), update_u64 (inc_seq i)] b"

definition digest_generation :: "Generation \<Rightarrow> DigestBuilder \<Rightarrow> DigestBuilder" where
  "digest_generation g b = feed [domain 0x12, update_u64 (gen_value g)] b"

definition digest_epoch :: "Epoch \<Rightarrow> DigestBuilder \<Rightarrow> DigestBuilder" where
  "digest_epoch e b = feed [domain 0x13, update_u64 (epoch_value e)] b"

section \<open>Identities only move forward\<close>

lemma u64_succ: "a \<noteq> max_of_u64 \<Longrightarrow> unat (a + 1) = unat a + 1"
proof -
  assume "a \<noteq> max_of_u64"
  then have "unat a \<noteq> unat max_of_u64" by (simp add: word_unat_eq_iff)
  then have "unat a \<noteq> 18446744073709551615"
    by (simp add: max_of_u64_def unsigned_minus_1_eq_mask mask_eq_exp_minus_1)
  then show ?thesis using unat_u64_bound [of a] by (subst unat_add_no_overflow) simp_all
qed

lemma gen_next_succ:
  "gen_next g = Inr g' \<Longrightarrow> unat (gen_value g') = unat (gen_value g) + 1 \<and> gen_known g' \<and> g < g'"
  by (auto simp: gen_next_def u64_succ gen_known_def gen_kUnknown_def less_Generation_def
      word_less_nat_alt word_unat_eq_iff split: if_splits)

lemma epoch_next_succ:
  "epoch_next e = Inr e' \<Longrightarrow> unat (epoch_value e') = unat (epoch_value e) + 1 \<and> epoch_known e' \<and> e < e'"
  by (auto simp: epoch_next_def u64_succ epoch_known_def epoch_kNone_def less_Epoch_def
      word_less_nat_alt word_unat_eq_iff split: if_splits)

lemma reincarnate_succ:
  "reincarnate i = Inr i' \<Longrightarrow>
     unat (inc_seq i') = unat (inc_seq i) + 1 \<and> same_boot i i' \<and> i' \<noteq> i \<and>
     (inc_valid i \<longrightarrow> inc_valid i')"
  by (auto simp: reincarnate_def u64_succ same_boot_def inc_valid_def
      word_unat_eq_iff split: if_splits dest: arg_cong [of _ _ inc_seq])

lemma gen_from_raw_known [simp]: "gen_known (gen_from_raw raw)"
  by (simp add: gen_known_def gen_from_raw_def gen_kUnknown_def)

lemma mint_valid: "boot_valid b \<Longrightarrow> inc_valid (mint b pid index)"
  by (simp add: inc_valid_def mint_def)

lemma boot_from_seed_valid [simp]: "boot_valid (boot_from_seed seed pid nonce)"
proof -
  have "bit (w OR 1 :: u64) 0" for w by (simp add: bit_or_iff)
  then have "w OR 1 \<noteq> (0 :: u64)" for w by (metis bit_0_eq bot_apply bot_bool_def)
  then show ?thesis by (simp add: boot_from_seed_def boot_valid_def Let_def)
qed

end
