(* ===== verification/Resources.thy ===== *)
theory Resources
  imports Generations
begin

text \<open>
  Resources and their protection classes: \<open>include/backpressure/model/resource.hpp\<close>.
  The enumerators carry a prefix where another enumeration of the code has the same name;
  \<open>Count\<close> is kept as a constructor because the code tests against it.
\<close>

datatype ResourceClass =
  RC_Unknown | Port | QueueGroup | Link | Device | FabricEndpoint | VirtualChannel | RC_Count

fun resource_class_to_string :: "ResourceClass \<Rightarrow> string" where
  "resource_class_to_string RC_Unknown = ''Unknown''"
| "resource_class_to_string Port = ''Port''"
| "resource_class_to_string QueueGroup = ''QueueGroup''"
| "resource_class_to_string Link = ''Link''"
| "resource_class_to_string Device = ''Device''"
| "resource_class_to_string FabricEndpoint = ''FabricEndpoint''"
| "resource_class_to_string VirtualChannel = ''VirtualChannel''"
| "resource_class_to_string RC_Count = ''Invalid''"

fun resource_class_value :: "ResourceClass \<Rightarrow> u8" where
  "resource_class_value RC_Unknown = 0"
| "resource_class_value Port = 1"
| "resource_class_value QueueGroup = 2"
| "resource_class_value Link = 3"
| "resource_class_value Device = 4"
| "resource_class_value FabricEndpoint = 5"
| "resource_class_value VirtualChannel = 6"
| "resource_class_value RC_Count = 7"

datatype ProtectionClass = PC_None | ObservedOnly | PC_Barrier | Sealed | PC_Count

fun protection_class_to_string :: "ProtectionClass \<Rightarrow> string" where
  "protection_class_to_string PC_None = ''None''"
| "protection_class_to_string ObservedOnly = ''ObservedOnly''"
| "protection_class_to_string PC_Barrier = ''Barrier''"
| "protection_class_to_string Sealed = ''Sealed''"
| "protection_class_to_string PC_Count = ''Invalid''"

fun protection_class_value :: "ProtectionClass \<Rightarrow> u8" where
  "protection_class_value PC_None = 0"
| "protection_class_value ObservedOnly = 1"
| "protection_class_value PC_Barrier = 2"
| "protection_class_value Sealed = 3"
| "protection_class_value PC_Count = 4"

record Resource =
  res_id :: ResourceId
  res_name :: Symbol
  res_klass :: ResourceClass
  res_protection :: ProtectionClass
  res_definition_generation :: Generation
  res_accepts_propagation :: bool
  res_provenance :: Digest128

definition can_receive :: "Resource \<Rightarrow> bool" where
  "can_receive r \<longleftrightarrow>
     res_accepts_propagation r \<and> res_protection r \<noteq> Sealed \<and> res_protection r \<noteq> ObservedOnly"

definition can_forward :: "Resource \<Rightarrow> bool" where
  "can_forward r \<longleftrightarrow> can_receive r \<and> res_protection r \<noteq> PC_Barrier"

definition resource_validate :: "Resource \<Rightarrow> Status" where
  "resource_validate r =
     (if \<not> id_valid (res_id r) then status_error InvalidArgument ''resource id'' 0
      else if res_klass r = RC_Count then
        status_error InvalidArgument ''resource class'' (ucast (resource_class_value (res_klass r)))
      else if res_protection r = PC_Count then
        status_error InvalidArgument ''protection class'' (ucast (protection_class_value (res_protection r)))
      else if \<not> gen_known (res_definition_generation r) then
        status_error StaleGeneration ''resource definition generation unbound'' (id_value (res_id r))
      else status_success)"

definition resource_digest_into :: "Resource \<Rightarrow> DigestBuilder \<Rightarrow> DigestBuilder" where
  "resource_digest_into r b =
     feed [domain 0x30, update_u64 (id_value (res_id r)), update_u32 (res_name r),
           update_u8 (resource_class_value (res_klass r)),
           update_u8 (protection_class_value (res_protection r)),
           digest_generation (res_definition_generation r),
           update_bool (res_accepts_propagation r), update_digest (res_provenance r)] b"

lemma can_forward_receive: "can_forward r \<Longrightarrow> can_receive r"
  by (simp add: can_forward_def)

lemma resource_validate_ok:
  "status_ok (resource_validate r) \<longleftrightarrow>
     id_valid (res_id r) \<and> res_klass r \<noteq> RC_Count \<and> res_protection r \<noteq> PC_Count \<and>
     gen_known (res_definition_generation r)"
  by (simp add: resource_validate_def)

end
