(* ===== verification/Fixed.thy ===== *)
theory Fixed
  imports Checked
begin

text \<open>
  Fixed point pressure arithmetic: \<open>include/backpressure/core/fixed.hpp\<close>.

  The four classes with a private constructor and a class invariant are type definitions
  over the raw word, so that the invariant (\<open>Q16\<close> and \<open>Potential\<close> at most one,
  \<open>Gain\<close> between one and eight) holds of every value, as it does in the code. Their
  private constructors \<open>Q16(raw)\<close>, \<open>Gain(raw)\<close> and \<open>Potential(raw)\<close> are
  \<open>q16_ctor\<close>, \<open>gain_ctor\<close> and \<open>potential_ctor\<close>, which are the identity on the raw
  values in range; the lemmas below show that no operation leaves that range.
  \<open>Magnitude\<close> and \<open>Attenuation\<close> wrap a \<open>Q16\<close>.
\<close>

section \<open>Q0.16 fractions\<close>

typedef Q16 = "{raw :: u32. raw \<le> 65536}"
  morphisms q16_raw Abs_Q16
  by (rule exI [of _ 0]) simp

definition q16_kOne :: u32 where
  "q16_kOne = 65536"

definition q16_ctor :: "u32 \<Rightarrow> Q16" where
  "q16_ctor raw = Abs_Q16 (if raw \<le> 65536 then raw else 65536)"

lemma q16_abstype [code abstype]: "Abs_Q16 (q16_raw q) = q"
  by (rule q16_raw_inverse)

lemma q16_raw_ctor [simp, code abstract]:
  "q16_raw (q16_ctor raw) = (if raw \<le> 65536 then raw else 65536)"
  by (simp add: q16_ctor_def Abs_Q16_inverse)

lemma q16_raw_le [simp]: "q16_raw q \<le> 65536"
  using q16_raw [of q] by simp

lemma unat_q16_raw_le: "unat (q16_raw q) \<le> 65536"
  using q16_raw_le [of q] by (simp add: word_le_nat_alt del: q16_raw_le)

lemma q16_eqI: "q16_raw a = q16_raw b \<Longrightarrow> a = b"
  by (simp add: q16_raw_inject)

instantiation Q16 :: linorder
begin
definition less_eq_Q16 :: "Q16 \<Rightarrow> Q16 \<Rightarrow> bool" where
  "less_eq_Q16 a b \<longleftrightarrow> q16_raw a \<le> q16_raw b"
definition less_Q16 :: "Q16 \<Rightarrow> Q16 \<Rightarrow> bool" where
  "less_Q16 a b \<longleftrightarrow> q16_raw a < q16_raw b"
instance
  by standard (auto simp: less_eq_Q16_def less_Q16_def dest: q16_eqI)
end

instantiation Q16 :: equal
begin
definition equal_Q16 :: "Q16 \<Rightarrow> Q16 \<Rightarrow> bool" where
  "equal_Q16 a b \<longleftrightarrow> q16_raw a = q16_raw b"
instance
  by standard (simp add: equal_Q16_def q16_raw_inject)
end

definition q16_zero :: Q16 where
  "q16_zero = q16_ctor 0"

definition q16_one :: Q16 where
  "q16_one = q16_ctor q16_kOne"

definition q16_from_raw :: "u32 \<Rightarrow> Q16 result" where
  "q16_from_raw raw = (if raw > q16_kOne then fail OutOfRange ''q16 raw'' (ucast raw) else Inr (q16_ctor raw))"

definition q16_from_raw_saturating :: "u32 \<Rightarrow> Q16" where
  "q16_from_raw_saturating raw = q16_ctor (if raw > q16_kOne then q16_kOne else raw)"

definition q16_from_ratio :: "u64 \<Rightarrow> u64 \<Rightarrow> Q16 result" where
  "q16_from_ratio num den =
     (if den = 0 then fail InvalidArgument ''q16 ratio denominator'' 0
      else if num > den then fail OutOfRange ''q16 ratio numerator'' num
      else
        let scaled = num * 65536;
            rounded = (scaled + den div 2) div den
        in Inr (q16_ctor (ucast (if rounded > ucast q16_kOne then ucast q16_kOne else rounded))))"

definition q16_from_percent_milli :: "u32 \<Rightarrow> Q16 result" where
  "q16_from_percent_milli milli =
     (if milli > 100000 then fail OutOfRange ''q16 percent-milli'' (ucast milli)
      else
        let scaled = (ucast milli :: u64) * ucast q16_kOne;
            rounded = (scaled + 50000) div 100000
        in Inr (q16_ctor (ucast (if rounded > ucast q16_kOne then ucast q16_kOne else rounded))))"

definition q16_is_zero :: "Q16 \<Rightarrow> bool" where
  "q16_is_zero q \<longleftrightarrow> q16_raw q = 0"

definition q16_is_one :: "Q16 \<Rightarrow> bool" where
  "q16_is_one q \<longleftrightarrow> q16_raw q = q16_kOne"

definition q16_as_percent_milli :: "Q16 \<Rightarrow> u32" where
  "q16_as_percent_milli q =
     (let scaled = (ucast (q16_raw q) :: u64) * 100000 in ucast ((scaled + 65536 div 2) div 65536))"

section \<open>Magnitudes\<close>

datatype Magnitude = Magnitude (mag_q16: Q16)

definition mag_zero :: Magnitude where
  "mag_zero = Magnitude q16_zero"

definition mag_full :: Magnitude where
  "mag_full = Magnitude q16_one"

definition mag_from_q16 :: "Q16 \<Rightarrow> Magnitude result" where
  "mag_from_q16 v = Inr (Magnitude v)"

definition mag_from_percent_milli :: "u32 \<Rightarrow> Magnitude result" where
  "mag_from_percent_milli milli =
     bpfab_try_decl (q16_from_percent_milli milli) (\<lambda>q. Inr (Magnitude q))"

definition mag_from_raw_q16_saturating :: "u32 \<Rightarrow> Magnitude" where
  "mag_from_raw_q16_saturating raw = Magnitude (q16_from_raw_saturating raw)"

definition mag_raw :: "Magnitude \<Rightarrow> u32" where
  "mag_raw m = q16_raw (mag_q16 m)"

definition mag_is_zero :: "Magnitude \<Rightarrow> bool" where
  "mag_is_zero m \<longleftrightarrow> q16_is_zero (mag_q16 m)"

definition mag_as_percent_milli :: "Magnitude \<Rightarrow> u32" where
  "mag_as_percent_milli m = q16_as_percent_milli (mag_q16 m)"

instantiation Magnitude :: linorder
begin
definition less_eq_Magnitude :: "Magnitude \<Rightarrow> Magnitude \<Rightarrow> bool" where
  "less_eq_Magnitude a b \<longleftrightarrow> mag_q16 a \<le> mag_q16 b"
definition less_Magnitude :: "Magnitude \<Rightarrow> Magnitude \<Rightarrow> bool" where
  "less_Magnitude a b \<longleftrightarrow> mag_q16 a < mag_q16 b"
instance
  by standard (auto simp: less_eq_Magnitude_def less_Magnitude_def Magnitude.expand)
end

section \<open>Attenuations\<close>

datatype Attenuation = Attenuation (att_q16: Q16)

definition att_none :: Attenuation where
  "att_none = Attenuation q16_zero"

definition att_unity :: Attenuation where
  "att_unity = Attenuation q16_one"

definition att_from_q16 :: "Q16 \<Rightarrow> Attenuation result" where
  "att_from_q16 v = Inr (Attenuation v)"

definition att_from_percent_milli :: "u32 \<Rightarrow> Attenuation result" where
  "att_from_percent_milli milli =
     bpfab_try_decl (q16_from_percent_milli milli) (\<lambda>q. Inr (Attenuation q))"

definition att_is_zero :: "Attenuation \<Rightarrow> bool" where
  "att_is_zero a \<longleftrightarrow> q16_is_zero (att_q16 a)"

definition att_as_percent_milli :: "Attenuation \<Rightarrow> u32" where
  "att_as_percent_milli a = q16_as_percent_milli (att_q16 a)"

section \<open>Gains\<close>

definition kUnityRaw :: u32 where
  "kUnityRaw = 65536"

definition kMaxRaw :: u32 where
  "kMaxRaw = 8 * kUnityRaw"

typedef Gain = "{raw :: u32. 65536 \<le> raw \<and> raw \<le> 524288}"
  morphisms gain_raw Abs_Gain
  by (rule exI [of _ 65536]) simp

definition gain_ctor :: "u32 \<Rightarrow> Gain" where
  "gain_ctor raw = Abs_Gain (if 65536 \<le> raw \<and> raw \<le> 524288 then raw else 65536)"

lemma gain_abstype [code abstype]: "Abs_Gain (gain_raw g) = g"
  by (rule gain_raw_inverse)

lemma gain_raw_ctor [simp, code abstract]:
  "gain_raw (gain_ctor raw) = (if 65536 \<le> raw \<and> raw \<le> 524288 then raw else 65536)"
  unfolding gain_ctor_def by (subst Abs_Gain_inverse) auto

lemma gain_raw_bounds [simp]: "65536 \<le> gain_raw g" "gain_raw g \<le> 524288"
  using gain_raw [of g] by auto

lemma unat_gain_raw_bounds: "65536 \<le> unat (gain_raw g)" "unat (gain_raw g) \<le> 524288"
  using gain_raw_bounds [of g] by (simp_all add: word_le_nat_alt del: gain_raw_bounds)

instantiation Gain :: equal
begin
definition equal_Gain :: "Gain \<Rightarrow> Gain \<Rightarrow> bool" where
  "equal_Gain a b \<longleftrightarrow> gain_raw a = gain_raw b"
instance
  by standard (simp add: equal_Gain_def gain_raw_inject)
end

definition gain_unity :: Gain where
  "gain_unity = gain_ctor kUnityRaw"

definition gain_from_raw :: "u32 \<Rightarrow> Gain result" where
  "gain_from_raw raw =
     (if raw < kUnityRaw then fail OutOfRange ''gain below unity'' (ucast raw)
      else if raw > kMaxRaw then fail OutOfRange ''gain above ceiling'' (ucast raw)
      else Inr (gain_ctor raw))"

definition gain_from_percent_milli :: "u32 \<Rightarrow> Gain result" where
  "gain_from_percent_milli milli =
     (if milli < 100000 then fail OutOfRange ''gain below unity'' (ucast milli)
      else
        let scaled = (ucast milli :: u64) * ucast kUnityRaw;
            rounded = (scaled + 50000) div 100000
        in if rounded > ucast kMaxRaw then fail OutOfRange ''gain above ceiling'' (ucast milli)
           else Inr (gain_ctor (ucast rounded)))"

definition gain_as_percent_milli :: "Gain \<Rightarrow> u32" where
  "gain_as_percent_milli g =
     (let scaled = (ucast (gain_raw g) :: u64) * 100000
      in ucast ((scaled + ucast (kUnityRaw div 2)) div ucast kUnityRaw))"

definition gain_is_unity :: "Gain \<Rightarrow> bool" where
  "gain_is_unity g \<longleftrightarrow> gain_raw g = kUnityRaw"

section \<open>Potentials\<close>

definition potential_kOne :: u64 where
  "potential_kOne = push_bit 32 1"

typedef Potential = "{raw :: u64. raw \<le> 4294967296}"
  morphisms pot_raw Abs_Potential
  by (rule exI [of _ 0]) simp

definition potential_ctor :: "u64 \<Rightarrow> Potential" where
  "potential_ctor raw = Abs_Potential (if raw \<le> 4294967296 then raw else 4294967296)"

lemma potential_abstype [code abstype]: "Abs_Potential (pot_raw p) = p"
  by (rule pot_raw_inverse)

lemma pot_raw_ctor [simp, code abstract]:
  "pot_raw (potential_ctor raw) = (if raw \<le> 4294967296 then raw else 4294967296)"
  unfolding potential_ctor_def by (subst Abs_Potential_inverse) auto

lemma pot_raw_le [simp]: "pot_raw p \<le> 4294967296"
  using pot_raw [of p] by simp

lemma unat_pot_raw_le: "unat (pot_raw p) \<le> 4294967296"
  using pot_raw_le [of p] by (simp add: word_le_nat_alt del: pot_raw_le)

lemma pot_eqI: "pot_raw a = pot_raw b \<Longrightarrow> a = b"
  by (simp add: pot_raw_inject)

instantiation Potential :: linorder
begin
definition less_eq_Potential :: "Potential \<Rightarrow> Potential \<Rightarrow> bool" where
  "less_eq_Potential a b \<longleftrightarrow> pot_raw a \<le> pot_raw b"
definition less_Potential :: "Potential \<Rightarrow> Potential \<Rightarrow> bool" where
  "less_Potential a b \<longleftrightarrow> pot_raw a < pot_raw b"
instance
  by standard (auto simp: less_eq_Potential_def less_Potential_def dest: pot_eqI)
end

instantiation Potential :: equal
begin
definition equal_Potential :: "Potential \<Rightarrow> Potential \<Rightarrow> bool" where
  "equal_Potential a b \<longleftrightarrow> pot_raw a = pot_raw b"
instance
  by standard (simp add: equal_Potential_def pot_raw_inject)
end

definition potential_zero :: Potential where
  "potential_zero = potential_ctor 0"

definition potential_one :: Potential where
  "potential_one = potential_ctor potential_kOne"

definition potential_from_magnitude :: "Magnitude \<Rightarrow> Potential" where
  "potential_from_magnitude m = potential_ctor (push_bit 16 (ucast (mag_raw m)))"

definition potential_from_raw :: "u64 \<Rightarrow> Potential" where
  "potential_from_raw raw = potential_ctor (if raw > potential_kOne then potential_kOne else raw)"

definition attenuated :: "Potential \<Rightarrow> Attenuation \<Rightarrow> Potential" where
  "attenuated p att =
     (let product = pot_raw p * ucast (q16_raw (att_q16 att)) in potential_ctor (drop_bit 16 product))"

definition amplified :: "Potential \<Rightarrow> Gain \<Rightarrow> Potential result" where
  "amplified p gain =
     (if gain_is_unity gain \<or> pot_raw p = 0 then Inr p
      else
        let factor = (ucast (gain_raw gain) :: u64); cap = potential_kOne
        in if pot_raw p > push_bit 16 cap div factor
           then fail Overflow ''potential amplification'' (pot_raw p)
           else
             let product = pot_raw p * factor; res = drop_bit 16 product
             in Inr (potential_ctor (if res > potential_kOne then potential_kOne else res)))"

definition potential_is_zero :: "Potential \<Rightarrow> bool" where
  "potential_is_zero p \<longleftrightarrow> pot_raw p = 0"

definition to_magnitude :: "Potential \<Rightarrow> Magnitude" where
  "to_magnitude p =
     (let rounded = drop_bit 16 (pot_raw p + 32768)
      in mag_from_raw_q16_saturating (ucast (if rounded > 65536 then 65536 else rounded)))"


section \<open>Exact arithmetic of the operations\<close>

lemma potential_kOne_eq [simp]: "potential_kOne = 4294967296"
  by (simp add: potential_kOne_def)

lemma mag_eqI: "mag_raw a = mag_raw b \<Longrightarrow> a = b"
  by (cases a; cases b) (simp add: mag_raw_def q16_raw_inject)

lemma mag_le_iff: "a \<le> b \<longleftrightarrow> unat (mag_raw a) \<le> unat (mag_raw b)"
  by (simp add: less_eq_Magnitude_def less_eq_Q16_def mag_raw_def word_le_nat_alt)

lemma mag_less_iff: "a < b \<longleftrightarrow> unat (mag_raw a) < unat (mag_raw b)"
  by (simp add: less_Magnitude_def less_Q16_def mag_raw_def word_less_nat_alt)

lemma pot_le_iff: "a \<le> b \<longleftrightarrow> unat (pot_raw a) \<le> unat (pot_raw b)"
  by (simp add: less_eq_Potential_def word_le_nat_alt)

lemma pot_less_iff: "a < b \<longleftrightarrow> unat (pot_raw a) < unat (pot_raw b)"
  by (simp add: less_Potential_def word_less_nat_alt)

lemma unat_mag_raw_le: "unat (mag_raw m) \<le> 65536"
  by (simp add: mag_raw_def unat_q16_raw_le)

lemma unat_mag_from_raw_saturating:
  "unat (mag_raw (mag_from_raw_q16_saturating raw)) = min (unat raw) 65536"
  by (auto simp: mag_from_raw_q16_saturating_def mag_raw_def q16_from_raw_saturating_def q16_kOne_def
      word_le_nat_alt word_less_nat_alt min_def)

lemma mag_raw_full [simp]: "mag_raw mag_full = 65536"
  by (simp add: mag_full_def mag_raw_def q16_one_def q16_kOne_def)

lemma mag_raw_zero [simp]: "mag_raw mag_zero = 0"
  by (simp add: mag_zero_def mag_raw_def q16_zero_def)

lemma mag_le_full [simp]: "m \<le> mag_full"
  using unat_mag_raw_le [of m] by (simp add: mag_le_iff)

lemma mag_zero_le [simp]: "mag_zero \<le> m"
  by (simp add: mag_le_iff)

lemma mag_is_zero_iff: "mag_is_zero m \<longleftrightarrow> m = mag_zero"
  by (auto simp: mag_is_zero_def q16_is_zero_def mag_raw_def [symmetric] intro: mag_eqI)

lemma unat_pot_ctor: "unat raw \<le> 4294967296 \<Longrightarrow> unat (pot_raw (potential_ctor raw)) = unat raw"
  by (simp add: word_le_nat_alt)

lemma pot_product_bound:
  "unat (pot_raw p) * unat (q16_raw q) \<le> 4294967296 * 65536"
  by (intro mult_le_mono unat_pot_raw_le unat_q16_raw_le)

lemma unat_attenuated:
  "unat (pot_raw (attenuated p att)) = unat (pot_raw p) * unat (q16_raw (att_q16 att)) div 65536"
proof -
  let ?q = "q16_raw (att_q16 att)"
  have m: "unat (pot_raw p * ucast ?q) = unat (pot_raw p) * unat ?q"
    using pot_product_bound [of p "att_q16 att"] by (subst unat_mult_no_overflow) simp_all
  have d: "unat (drop_bit 16 (pot_raw p * ucast ?q)) = unat (pot_raw p) * unat ?q div 65536"
    by (simp add: unat_drop_bit m)
  have "unat (pot_raw p) * unat ?q div 65536 \<le> 4294967296"
    using pot_product_bound [of p "att_q16 att"] by simp
  then show ?thesis by (simp only: attenuated_def Let_def unat_pot_ctor d)
qed

lemma attenuated_le: "attenuated p att \<le> p"
proof -
  have "unat (pot_raw p) * unat (q16_raw (att_q16 att)) \<le> unat (pot_raw p) * 65536"
    by (intro mult_le_mono le_refl unat_q16_raw_le)
  then have "unat (pot_raw p) * unat (q16_raw (att_q16 att)) div 65536 \<le> unat (pot_raw p) * 65536 div 65536"
    by (rule div_le_mono)
  then show ?thesis by (simp add: pot_le_iff unat_attenuated)
qed

lemma attenuated_mono: "p \<le> p' \<Longrightarrow> attenuated p att \<le> attenuated p' att"
  by (simp add: pot_le_iff unat_attenuated div_le_mono)

lemma unat_from_magnitude:
  "unat (pot_raw (potential_from_magnitude m)) = unat (mag_raw m) * 65536"
proof -
  have "unat (push_bit 16 (ucast (mag_raw m)) :: u64) = unat (mag_raw m) * 65536"
    using unat_mag_raw_le [of m]
    by (simp add: push_bit_eq_mult unat_mult_no_overflow)
  with unat_mag_raw_le [of m] show ?thesis
    unfolding potential_from_magnitude_def by (subst unat_pot_ctor) simp_all
qed

lemma unat_to_magnitude:
  "unat (mag_raw (to_magnitude p)) = (unat (pot_raw p) + 32768) div 65536"
proof -
  let ?r = "drop_bit 16 (pot_raw p + 32768)"
  have r: "unat ?r = (unat (pot_raw p) + 32768) div 65536"
    using unat_pot_raw_le [of p] by (simp add: unat_drop_bit unat_add_no_overflow)
  have "(unat (pot_raw p) + 32768) div 65536 \<le> 65536"
    using unat_pot_raw_le [of p] by simp
  then have "unat (ucast (if ?r > 65536 then 65536 else ?r) :: u32) = unat ?r"
    using r by (simp add: word_less_nat_alt unat_u64_to_u32)
  with r show ?thesis
    using \<open>(unat (pot_raw p) + 32768) div 65536 \<le> 65536\<close>
    by (simp only: to_magnitude_def Let_def unat_mag_from_raw_saturating min_def if_True)
qed

lemma to_magnitude_mono: "p \<le> p' \<Longrightarrow> to_magnitude p \<le> to_magnitude p'"
  by (simp add: pot_le_iff mag_le_iff unat_to_magnitude div_le_mono)

lemma to_magnitude_from_magnitude [simp]: "to_magnitude (potential_from_magnitude m) = m"
  by (rule mag_eqI) (simp add: word_unat_eq_iff unat_to_magnitude unat_from_magnitude)

lemma unat_push_kOne: "unat (push_bit 16 potential_kOne) = 281474976710656"
  by simp

text \<open>
  Amplification in one equation: the exact product, refused when it exceeds the ceiling.
\<close>

lemma amplified_result:
  "amplified p g =
     (if unat (pot_raw p) * unat (gain_raw g) > 281474976710656 \<and> \<not> gain_is_unity g
      then fail Overflow ''potential amplification'' (pot_raw p)
      else Inr (potential_ctor (of_nat (unat (pot_raw p) * unat (gain_raw g) div 65536))))"
proof (cases "gain_is_unity g \<or> pot_raw p = 0")
  case True
  then have "unat (pot_raw p) * unat (gain_raw g) div 65536 = unat (pot_raw p)"
    by (auto simp: gain_is_unity_def kUnityRaw_def)
  moreover have "potential_ctor (of_nat (unat (pot_raw p))) = p"
    by (rule pot_eqI) simp
  ultimately show ?thesis using True by (auto simp: amplified_def)
next
  case False
  let ?n = "unat (pot_raw p) * unat (gain_raw g)"
  have bound: "?n \<le> 4294967296 * 524288"
    by (intro mult_le_mono unat_pot_raw_le unat_gain_raw_bounds(2))
  have g: "0 < unat (gain_raw g)" using unat_gain_raw_bounds(1) [of g] by linarith
  have guard: "(pot_raw p > push_bit 16 potential_kOne div ucast (gain_raw g)) = (281474976710656 < ?n)"
    using g by (simp add: word_less_nat_alt unat_div_distrib div_less_iff_less_mult)
  have m: "unat (pot_raw p * ucast (gain_raw g)) = ?n"
    using bound by (subst unat_mult_no_overflow) simp_all
  have d: "drop_bit 16 (pot_raw p * ucast (gain_raw g)) = (of_nat (?n div 65536) :: u64)"
    by (rule word_unat_eq_iff [THEN iffD2])
      (use bound in \<open>simp add: unat_drop_bit m unat_of_nat\<close>)
  show ?thesis
  proof (cases "281474976710656 < ?n")
    case True
    then show ?thesis using False guard by (simp add: amplified_def Let_def)
  next
    case le: False
    have "\<not> (of_nat (?n div 65536) :: u64) > potential_kOne"
      using le by (simp add: word_less_nat_alt unat_of_nat)
    then show ?thesis
      using False guard le by (simp only: amplified_def Let_def d) simp
  qed
qed

lemma unat_amplified:
  assumes "amplified p g = Inr p'"
  shows "unat (pot_raw p') = unat (pot_raw p) * unat (gain_raw g) div 65536"
proof -
  let ?n = "unat (pot_raw p) * unat (gain_raw g)"
  from assms have p': "p' = potential_ctor (of_nat (?n div 65536))"
    by (auto simp: amplified_result split: if_splits)
  have "?n div 65536 \<le> 4294967296"
  proof (cases "gain_is_unity g")
    case True
    then show ?thesis using unat_pot_raw_le [of p] by (simp add: gain_is_unity_def kUnityRaw_def)
  next
    case False
    with assms have "?n \<le> 281474976710656" by (simp add: amplified_result split: if_splits)
    then show ?thesis by simp
  qed
  then have "unat (of_nat (?n div 65536) :: u64) = ?n div 65536" by (simp add: unat_of_nat)
  with \<open>?n div 65536 \<le> 4294967296\<close> show ?thesis by (simp only: p' unat_pot_ctor)
qed

lemma amplified_ge: "amplified p g = Inr p' \<Longrightarrow> p \<le> p'"
  using mult_le_mono [OF le_refl unat_gain_raw_bounds(1) [of g], of "unat (pot_raw p)"]
    div_le_mono [of "unat (pot_raw p) * 65536" "unat (pot_raw p) * unat (gain_raw g)" 65536]
  by (simp add: pot_le_iff unat_amplified)

section \<open>Conversions\<close>

lemma unat_q16_as_percent_milli:
  "unat (q16_as_percent_milli q) = (unat (q16_raw q) * 100000 + 32768) div 65536"
proof -
  have b: "unat (q16_raw q) * 100000 \<le> 65536 * 100000"
    by (intro mult_le_mono unat_q16_raw_le le_refl)
  have s: "unat ((ucast (q16_raw q) :: u64) * 100000 + 32768) = unat (q16_raw q) * 100000 + 32768"
    using b by (simp add: unat_add_no_overflow unat_mult_no_overflow)
  have "unat (((ucast (q16_raw q) :: u64) * 100000 + 32768) div 65536)
      = (unat (q16_raw q) * 100000 + 32768) div 65536"
    by (simp add: unat_div_distrib s)
  with b show ?thesis by (simp add: q16_as_percent_milli_def unat_u64_to_u32)
qed

lemma q16_from_percent_milli_ok:
  assumes "unat milli \<le> 100000"
  shows "q16_from_percent_milli milli
       = Inr (q16_ctor (of_nat ((unat milli * 65536 + 50000) div 100000)))"
proof -
  have s: "unat ((ucast milli :: u64) * 65536 + 50000) = unat milli * 65536 + 50000"
    using assms by (simp add: unat_add_no_overflow unat_mult_no_overflow)
  let ?k = "(unat milli * 65536 + 50000) div 100000"
  have r: "unat (((ucast milli :: u64) * 65536 + 50000) div 100000) = ?k"
    by (simp add: unat_div_distrib s)
  have le: "?k \<le> 65536" using assms by simp
  have "(ucast (((ucast milli :: u64) * 65536 + 50000) div 100000) :: u32) = of_nat ?k"
    by (rule word_unat_eq_iff [THEN iffD2]) (use le r in \<open>simp add: unat_u64_to_u32 unat_of_nat\<close>)
  moreover have "\<not> ((ucast milli :: u64) * 65536 + 50000) div 100000 > 65536"
    using le r by (simp add: word_less_nat_alt)
  ultimately show ?thesis
    using assms by (simp add: q16_from_percent_milli_def Let_def q16_kOne_def word_less_nat_alt)
qed

lemma q16_from_ratio_ok:
  assumes "unat num \<le> unat den" and "0 < unat den" and "unat den < 2 ^ 47"
  shows "q16_from_ratio num den
       = Inr (q16_ctor (of_nat ((unat num * 65536 + unat den div 2) div unat den)))"
proof -
  have nd: "unat num * 65536 + unat den div 2 < 2 ^ 64"
    using assms by simp
  have s: "unat (num * 65536 + den div 2) = unat num * 65536 + unat den div 2"
    using nd by (simp add: unat_add_no_overflow unat_mult_no_overflow unat_div_distrib)
  let ?k = "(unat num * 65536 + unat den div 2) div unat den"
  have r: "unat ((num * 65536 + den div 2) div den) = ?k"
    by (simp add: unat_div_distrib s)
  have "2 * ?k * unat den \<le> 2 * (unat num * 65536) + unat den"
    by (rule round_div_bounds(2) [OF assms(2)])
  also have "\<dots> < 2 * 65537 * unat den" using assms(1,2) by simp
  finally have le: "?k \<le> 65536" using assms(2) by simp
  have "(ucast ((num * 65536 + den div 2) div den) :: u32) = of_nat ?k"
    by (rule word_unat_eq_iff [THEN iffD2]) (use le r in \<open>simp add: unat_u64_to_u32 unat_of_nat\<close>)
  moreover have "\<not> (num * 65536 + den div 2) div den > 65536"
    using le r by (simp add: word_less_nat_alt)
  ultimately show ?thesis
    using assms by (simp add: q16_from_ratio_def Let_def q16_kOne_def word_less_nat_alt unat_gt_0)
qed

end
