(* ===== verification/Dependency.thy ===== *)
theory Dependency
  imports Resources Fixed
begin

text \<open>
  Dependency edges: \<open>include/backpressure/model/dependency.hpp\<close>. \<open>EdgeFlags\<close> is the word of
  its bits; an \<open>EdgeFlagKind\<close> is one of them. The order \<open>edge_precedes\<close> is shown to be a
  strict total order on edges with distinct (priority, target, identity).
\<close>

datatype EdgeFlagKind = EF_None | EF_Barrier | EF_Amplifying | EF_RecoveryOnly | EF_Provisional

fun edge_flag_value :: "EdgeFlagKind \<Rightarrow> u16" where
  "edge_flag_value EF_None = 0"
| "edge_flag_value EF_Barrier = push_bit 0 1"
| "edge_flag_value EF_Amplifying = push_bit 1 1"
| "edge_flag_value EF_RecoveryOnly = push_bit 2 1"
| "edge_flag_value EF_Provisional = push_bit 3 1"

datatype EdgeFlags = EdgeFlags (flag_bits: u16)

definition flags_none :: EdgeFlags where
  "flags_none = EdgeFlags 0"

definition flags_of :: "EdgeFlagKind \<Rightarrow> EdgeFlags" where
  "flags_of k = EdgeFlags (edge_flag_value k)"

definition flags_has :: "EdgeFlags \<Rightarrow> EdgeFlagKind \<Rightarrow> bool" where
  "flags_has f k \<longleftrightarrow> flag_bits f AND edge_flag_value k \<noteq> 0"

definition flags_or :: "EdgeFlags \<Rightarrow> EdgeFlagKind \<Rightarrow> EdgeFlags" where
  "flags_or f k = EdgeFlags (flag_bits f OR edge_flag_value k)"

definition kMaxEdgeHops :: u32 where
  "kMaxEdgeHops = 64"

record DependencyEdge =
  edge_id :: EdgeId
  edge_from :: ResourceId
  edge_to :: ResourceId
  edge_attenuation :: Attenuation
  edge_amplification :: Gain
  edge_max_hops :: u32
  edge_dependency_generation :: Generation
  edge_cooldown_ticks :: Tick
  edge_priority :: u16
  edge_flags :: EdgeFlags
  edge_provenance :: Digest128

definition is_self_loop :: "DependencyEdge \<Rightarrow> bool" where
  "is_self_loop e \<longleftrightarrow> edge_from e = edge_to e"

definition is_amplifying :: "DependencyEdge \<Rightarrow> bool" where
  "is_amplifying e \<longleftrightarrow>
     flags_has (edge_flags e) EF_Amplifying \<and> \<not> gain_is_unity (edge_amplification e)"

definition is_barrier :: "DependencyEdge \<Rightarrow> bool" where
  "is_barrier e \<longleftrightarrow> flags_has (edge_flags e) EF_Barrier"

definition edge_validate :: "DependencyEdge \<Rightarrow> Status" where
  "edge_validate e =
     (if \<not> id_valid (edge_id e) then status_error InvalidArgument ''edge id'' 0
      else if \<not> id_valid (edge_from e) \<or> \<not> id_valid (edge_to e) then
        status_error InvalidArgument ''edge endpoint'' 0
      else if \<not> gen_known (edge_dependency_generation e) then
        status_error StaleGeneration ''edge generation unbound'' (id_value (edge_id e))
      else if edge_max_hops e > kMaxEdgeHops then
        status_error OutOfRange ''edge max hops'' (ucast (edge_max_hops e))
      else if is_amplifying e \<and> is_barrier e then
        status_error Conflict ''amplifying barrier edge'' (id_value (edge_id e))
      else status_success)"

definition edge_precedes :: "DependencyEdge \<Rightarrow> DependencyEdge \<Rightarrow> bool" where
  "edge_precedes a b =
     (if edge_priority a \<noteq> edge_priority b then edge_priority a < edge_priority b
      else if edge_to a \<noteq> edge_to b then edge_to a < edge_to b
      else edge_id a < edge_id b)"

definition edge_digest_into :: "DependencyEdge \<Rightarrow> DigestBuilder \<Rightarrow> DigestBuilder" where
  "edge_digest_into e b =
     feed [domain 0x40, update_u64 (id_value (edge_id e)), update_u64 (id_value (edge_from e)),
           update_u64 (id_value (edge_to e)), update_u32 (q16_raw (att_q16 (edge_attenuation e))),
           update_u32 (gain_raw (edge_amplification e)), update_u32 (edge_max_hops e),
           digest_generation (edge_dependency_generation e), update_u64 (edge_cooldown_ticks e),
           update_u16 (edge_priority e), update_u16 (flag_bits (edge_flags e)),
           update_digest (edge_provenance e)] b"

section \<open>Flags\<close>

lemma flags_has_bit [flag_simps]:
  "flags_has f EF_None \<longleftrightarrow> False"
  "flags_has f EF_Barrier \<longleftrightarrow> bit (flag_bits f) 0"
  "flags_has f EF_Amplifying \<longleftrightarrow> bit (flag_bits f) 1"
  "flags_has f EF_RecoveryOnly \<longleftrightarrow> bit (flag_bits f) 2"
  "flags_has f EF_Provisional \<longleftrightarrow> bit (flag_bits f) 3"
  unfolding flags_has_def edge_flag_value.simps
  by (simp_all only: and_exp_eq_0_iff_not_bit push_bit_of_1 and_zero_eq not_not) simp_all

lemma flags_has_or [flag_simps]:
  "flags_has (flags_or f k) k' \<longleftrightarrow> flags_has f k' \<or> (k' = k \<and> k \<noteq> EF_None)"
  by (cases k; cases k')
    (simp_all add: flag_simps flags_or_def bit_or_iff push_bit_of_1 bit_exp_iff)

section \<open>The edge order\<close>

lemma edge_precedes_irrefl: "\<not> edge_precedes a a"
  by (simp add: edge_precedes_def)

lemma edge_precedes_trans: "edge_precedes a b \<Longrightarrow> edge_precedes b c \<Longrightarrow> edge_precedes a c"
  by (auto simp: edge_precedes_def split: if_splits)

lemma edge_precedes_total:
  "edge_precedes a b \<or> edge_precedes b a \<or>
   (edge_priority a = edge_priority b \<and> edge_to a = edge_to b \<and> edge_id a = edge_id b)"
  by (auto simp: edge_precedes_def)

lemma edge_validate_ok:
  "status_ok (edge_validate e) \<longleftrightarrow>
     id_valid (edge_id e) \<and> id_valid (edge_from e) \<and> id_valid (edge_to e) \<and>
     gen_known (edge_dependency_generation e) \<and> edge_max_hops e \<le> 64 \<and>
     \<not> (is_amplifying e \<and> is_barrier e)"
  by (auto simp: edge_validate_def kMaxEdgeHops_def)

end
