(* ===== verification/Topology_Build.thy ===== *)
theory Topology_Build
  imports Topology
begin

text \<open>
  What \<open>Topology::build\<close> guarantees. The comparators the code sorts with are strict weak
  orders (locale \<open>comparator\<close>, interpreted for both), so the canonical order does not depend
  on the order of the inputs; the compressed adjacency lists of a node are exactly the edges
  leaving it, in canonical order; and the component search always terminates within the fuel
  \<open>build\<close> gives it.
\<close>

section \<open>Sorting with a strict weak order\<close>

lemma mset_std_insert [simp]: "mset (std_insert lt x ys) = add_mset x (mset ys)"
  by (induction ys) auto

lemma mset_std_sort [simp]: "mset (std_sort lt xs) = mset xs"
  by (induction xs) (simp_all add: std_sort_def)

lemma set_std_sort [simp]: "set (std_sort lt xs) = set xs"
  by (metis mset_std_sort set_mset_mset)

lemma length_std_sort [simp]: "length (std_sort lt xs) = length xs"
  by (metis mset_std_sort size_mset)

lemma set_std_insert [simp]: "set (std_insert lt x ys) = insert x (set ys)"
  by (induction ys) auto

locale comparator =
  fixes lt :: "'a \<Rightarrow> 'a \<Rightarrow> bool"
  assumes lt_irrefl: "\<not> lt a a"
    and lt_trans: "lt a b \<Longrightarrow> lt b c \<Longrightarrow> lt a c"
    and lt_negative_trans: "\<not> lt a b \<Longrightarrow> \<not> lt b c \<Longrightarrow> \<not> lt a c"
begin

lemma lt_asym: "lt a b \<Longrightarrow> \<not> lt b a"
  using lt_irrefl lt_trans by blast

lemma std_insert_sorted:
  "sorted_wrt (\<lambda>a b. \<not> lt b a) ys \<Longrightarrow> sorted_wrt (\<lambda>a b. \<not> lt b a) (std_insert lt x ys)"
  by (induction ys) (auto dest: lt_asym, blast dest: lt_negative_trans)

lemma std_sort_sorted: "sorted_wrt (\<lambda>a b. \<not> lt b a) (std_sort lt xs)"
  by (induction xs) (simp_all add: std_sort_def std_insert_sorted)

lemma strictly_sorted_unique:
  "sorted_wrt lt xs \<Longrightarrow> sorted_wrt (\<lambda>a b. \<not> lt b a) ys \<Longrightarrow> mset xs = mset ys \<Longrightarrow> xs = ys"
proof (induction xs arbitrary: ys)
  case (Cons x xs)
  then obtain y ys' where ys: "ys = y # ys'" by (cases ys) auto
  have "x = y"
  proof (rule ccontr)
    assume ne: "x \<noteq> y"
    have "x \<in> set ys" "y \<in> set (x # xs)"
      using Cons.prems(3) ys by (metis list.set_intros(1) set_mset_mset)+
    then have "x \<in> set ys'" "y \<in> set xs" using ne ys by auto
    then have "\<not> lt x y" "lt x y" using Cons.prems(1,2) ys by auto
    then show False by simp
  qed
  with Cons ys show ?case by simp
qed simp

lemma std_sort_unique:
  assumes "sorted_wrt lt (std_sort lt xs)" and "mset xs = mset ys"
  shows "std_sort lt ys = std_sort lt xs"
  using strictly_sorted_unique [OF assms(1) std_sort_sorted [of ys]] assms(2) by simp

lemma adjacent_duplicate_strict:
  assumes "\<And>a b. \<not> lt b a \<Longrightarrow> key a \<noteq> key b \<Longrightarrow> lt a b"
    and "sorted_wrt (\<lambda>a b. \<not> lt b a) xs" and "adjacent_duplicate key xs = None"
  shows "sorted_wrt lt xs"
  using assms(2,3)
proof (induction xs)
  case (Cons x xs)
  show ?case
  proof (cases xs)
    case (Cons y ys)
    with Cons.IH Cons.prems have s: "sorted_wrt lt (y # ys)" "lt x y"
      using assms(1) [of y x] by (auto split: if_splits)
    then have "\<forall>z \<in> set xs. lt x z" using Cons lt_trans [OF s(2)] by auto
    with s Cons show ?thesis by simp
  qed simp
qed simp

end

interpretation res_order: comparator "\<lambda>a b. res_id a < res_id b"
  by unfold_locales auto

interpretation edge_order: comparator edge_precedes
proof
  show "\<not> edge_precedes a a" for a by (rule edge_precedes_irrefl)
  show "edge_precedes a b \<Longrightarrow> edge_precedes b c \<Longrightarrow> edge_precedes a c" for a b c
    by (rule edge_precedes_trans)
  show "\<not> edge_precedes a b \<Longrightarrow> \<not> edge_precedes b c \<Longrightarrow> \<not> edge_precedes a c" for a b c
    by (auto simp: edge_precedes_def split: if_splits)
qed

section \<open>Canonicalisation\<close>

lemma validate_all_ok [simp]: "status_ok (validate_all v xs) \<longleftrightarrow> (\<forall>x \<in> set xs. status_ok (v x))"
  by (induction xs) (auto simp: try_simps)

lemma check_endpoints_ok [simp]:
  "status_ok (check_endpoints idx es) \<longleftrightarrow> (\<forall>e \<in> set es. edge_from e \<in> dom idx \<and> edge_to e \<in> dom idx)"
  by (induction es) auto

lemma res_strictly_sorted:
  assumes "adjacent_duplicate res_id (std_sort (\<lambda>a b. res_id a < res_id b) rs) = None"
  shows "sorted_wrt (\<lambda>a b. res_id a < res_id b) (std_sort (\<lambda>a b. res_id a < res_id b) rs)"
  by (rule res_order.adjacent_duplicate_strict [OF _ res_order.std_sort_sorted assms]) auto

lemma edge_strictly_sorted:
  assumes "adjacent_duplicate edge_id (std_sort edge_precedes es) = None"
  shows "sorted_wrt edge_precedes (std_sort edge_precedes es)"
  by (rule edge_order.adjacent_duplicate_strict [OF _ edge_order.std_sort_sorted assms])
    (use edge_precedes_total in blast)

lemma sorted_distinct_ids: "sorted_wrt (\<lambda>a b. res_id a < res_id b) rs \<Longrightarrow> distinct (map res_id rs)"
  by (induction rs) auto

lemma emplace_apply: "emplace k v m x = (if x = k \<and> m k = None then Some v else m x)"
  by (auto simp: emplace_def split: option.splits)

lemma index_from_other: "k \<notin> key ` set xs \<Longrightarrow> index_from key i xs m k = m k"
  by (induction xs arbitrary: i m) (auto simp: emplace_apply)

lemma index_from_keep: "m k = Some v \<Longrightarrow> index_from key i xs m k = Some v"
proof (induction xs arbitrary: i m)
  case (Cons x xs)
  from Cons.prems have "emplace (key x) i m k = Some v" by (auto simp: emplace_apply)
  with Cons.IH show ?case by simp
qed simp

text \<open>Each key is mapped to its first position.\<close>

lemma index_from_first:
  "m k = None \<Longrightarrow> index_from key i xs m k = Some j \<longleftrightarrow>
     i \<le> j \<and> j - i < length xs \<and> key (xs ! (j - i)) = k \<and> (\<forall>l < j - i. key (xs ! l) \<noteq> k)"
proof (induction xs arbitrary: i m)
  case (Cons x xs)
  show ?case
  proof (cases "key x = k")
    case True
    then have "index_from key i (x # xs) m k = Some i"
      using Cons.prems by (simp add: index_from_keep emplace_apply)
    with True show ?thesis by (auto simp: nth_Cons' less_eq_Suc_le dest: spec [of _ 0])
  next
    case False
    then have e: "emplace (key x) i m k = None" using Cons.prems by (simp add: emplace_apply)
    have "index_from key i (x # xs) m k = Some j \<longleftrightarrow>
        Suc i \<le> j \<and> j - Suc i < length xs \<and> key (xs ! (j - Suc i)) = k \<and> (\<forall>l < j - Suc i. key (xs ! l) \<noteq> k)"
      unfolding index_from.simps by (rule Cons.IH [where m = "emplace (key x) i m" and i = "Suc i", OF e])
    also have "\<dots> \<longleftrightarrow> i \<le> j \<and> j - i < length (x # xs) \<and> key ((x # xs) ! (j - i)) = k \<and>
        (\<forall>l < j - i. key ((x # xs) ! l) \<noteq> k)"
    proof (cases "Suc i \<le> j")
      case True
      then have "j - i = Suc (j - Suc i)" by simp
      with True False show ?thesis by (simp add: All_less_Suc2)
    next
      case no: False
      then show ?thesis using False by (auto simp: le_Suc_eq not_less_eq_eq)
    qed
    finally show ?thesis .
  qed
qed simp

lemma index_from_distinct:
  assumes "distinct (map key xs)"
  shows "index_from key 0 xs Map.empty k = Some j \<longleftrightarrow> j < length xs \<and> key (xs ! j) = k"
proof -
  have ne: "key (xs ! l) \<noteq> key (xs ! j)" if "j < length xs" "l < j" for l
    using nth_eq_iff_index_eq [OF assms, of l j] that by simp
  have "index_from key 0 xs Map.empty k = Some j \<longleftrightarrow>
      0 \<le> j \<and> j - 0 < length xs \<and> key (xs ! (j - 0)) = k \<and> (\<forall>l < j - 0. key (xs ! l) \<noteq> k)"
    by (rule index_from_first) (rule refl)
  also have "\<dots> \<longleftrightarrow> j < length xs \<and> key (xs ! j) = k"
  proof
    assume "j < length xs \<and> key (xs ! j) = k"
    then show "0 \<le> j \<and> j - 0 < length xs \<and> key (xs ! (j - 0)) = k \<and> (\<forall>l < j - 0. key (xs ! l) \<noteq> k)"
      using ne by auto
  qed simp
  finally show ?thesis .
qed

lemma dom_index_from: "dom (index_from key i xs m) = dom m \<union> key ` set xs"
  by (induction xs arbitrary: i m) (auto simp: emplace_apply dom_def split: if_splits)

text \<open>What holds of the canonical inputs.\<close>

lemma build_canonical_ok:
  assumes "build_canonical resources edges lim = Inr (rs, es, idx)"
  shows "mset rs = mset resources" and "mset es = mset edges"
    and "sorted_wrt (\<lambda>a b. res_id a < res_id b) rs" and "sorted_wrt edge_precedes es"
    and "idx = index_from res_id 0 rs Map.empty"
    and "\<forall>r \<in> set rs. status_ok (resource_validate r)" and "\<forall>e \<in> set es. status_ok (edge_validate e)"
    and "\<forall>e \<in> set es. edge_from e \<in> res_id ` set rs \<and> edge_to e \<in> res_id ` set rs"
    and "length rs \<le> lim_max_resources lim" and "length es \<le> lim_max_edges lim"
  using assms res_strictly_sorted [of resources] edge_strictly_sorted [of edges]
  by (auto simp: build_canonical_def Let_def try_simps dom_index_from split: if_splits option.splits)

lemma build_canonical_perm:
  assumes "build_canonical resources edges lim = Inr c"
    and "mset resources' = mset resources" and "mset edges' = mset edges"
  shows "build_canonical resources' edges' lim = Inr c"
proof -
  obtain rs es idx where c: "c = (rs, es, idx)" by (cases c)
  note ok = assms(1) [unfolded c build_canonical_def Let_def]
  from ok have "adjacent_duplicate res_id (std_sort (\<lambda>a b. res_id a < res_id b) resources) = None"
    "adjacent_duplicate edge_id (std_sort edge_precedes edges) = None"
    by (auto simp: try_simps split: if_splits option.splits)
  then have eq: "std_sort (\<lambda>a b. res_id a < res_id b) resources' = std_sort (\<lambda>a b. res_id a < res_id b) resources"
    "std_sort edge_precedes edges' = std_sort edge_precedes edges"
    using res_order.std_sort_unique [OF res_strictly_sorted] edge_order.std_sort_unique [OF edge_strictly_sorted]
      assms(2,3) by metis+
  have sets: "set resources' = set resources" "set edges' = set edges"
    "length resources' = length resources" "length edges' = length edges"
    using assms(2,3) by (metis set_mset_mset size_mset)+
  show ?thesis using ok
    by (auto simp: c build_canonical_def Let_def eq sets try_simps bpfab_try_result_def
        split: if_splits option.splits)
qed

section \<open>Degrees and offsets\<close>

text \<open>\<open>src\<close> is the index of an edge's source, \<open>outs es i e\<close> the positions below \<open>e\<close> of the edges leaving \<open>i\<close>.\<close>

definition src :: "(ResourceId \<rightharpoonup> nat) \<Rightarrow> DependencyEdge \<Rightarrow> nat" where
  "src idx e = index_at idx (edge_from e)"

definition outs :: "(ResourceId \<rightharpoonup> nat) \<Rightarrow> DependencyEdge list \<Rightarrow> nat \<Rightarrow> nat \<Rightarrow> nat list" where
  "outs idx es i e = filter (\<lambda>x. src idx (es ! x) = i) [0..<e]"

lemma count_degrees_out:
  "i < length outd \<Longrightarrow>
     fst (count_degrees idx es (outd, ind)) ! i = outd ! i + length (filter (\<lambda>e. src idx e = i) es)"
  "length (fst (count_degrees idx es (outd, ind))) = length outd"
  "length (snd (count_degrees idx es (outd, ind))) = length ind"
  by (induction es arbitrary: outd ind) (auto simp: incr_def src_def nth_list_update)

lemma length_outs: "length (outs idx es i (length es)) = length (filter (\<lambda>e. src idx e = i) es)"
proof -
  have "map (\<lambda>x. es ! x) (outs idx es i (length es)) = filter (\<lambda>e. src idx e = i) es"
    using filter_map [of "\<lambda>e. src idx e = i" "(!) es" "[0..<length es]"]
    by (simp add: outs_def map_nth o_def)
  then show ?thesis by (metis length_map)
qed

lemma outs_Suc: "outs idx es i (Suc e) = outs idx es i e @ (if src idx (es ! e) = i then [e] else [])"
  by (simp add: outs_def)

lemma length_outs_mono: "e \<le> e' \<Longrightarrow> length (outs idx es i e) \<le> length (outs idx es i e')"
  by (induction e' rule: dec_induct) (auto simp: outs_Suc)

lemma offsets_from_nth: "i \<le> length ds \<Longrightarrow> offsets_from k ds ! i = k + sum_list (take i ds)"
  by (induction ds arbitrary: k i) (auto simp: nth_Cons' take_Cons')

lemma length_offsets_from [simp]: "length (offsets_from k ds) = Suc (length ds)"
  by (induction ds arbitrary: k) auto

lemma sum_list_take_mono:
  fixes ds :: "nat list"
  shows "i \<le> j \<Longrightarrow> sum_list (take i ds) \<le> sum_list (take j ds)"
  by (induction ds arbitrary: i j) (auto simp: take_Cons' intro: Suc_leD)

lemma sum_list_take_Suc: "i < length ds \<Longrightarrow> sum_list (take (Suc i) ds) = sum_list (take i ds) + ds ! i"
  by (simp add: take_Suc_conv_app_nth)

lemma segments_disjoint:
  fixes ds :: "nat list"
  assumes "i < length ds" "s < length ds" "i \<noteq> s" "j < ds ! i" "k < ds ! s"
  shows "sum_list (take i ds) + j \<noteq> sum_list (take s ds) + k"
proof (cases "i < s")
  case True
  have "sum_list (take (Suc i) ds) \<le> sum_list (take s ds)" using True by (intro sum_list_take_mono) simp
  with assms show ?thesis by (simp add: sum_list_take_Suc)
next
  case False
  have "sum_list (take (Suc s) ds) \<le> sum_list (take i ds)" using False assms(3) by (intro sum_list_take_mono) simp
  with assms show ?thesis by (simp add: sum_list_take_Suc)
qed

section \<open>The compressed adjacency\<close>

definition fill_inv ::
  "(ResourceId \<rightharpoonup> nat) \<Rightarrow> DependencyEdge list \<Rightarrow> nat list \<Rightarrow> nat \<Rightarrow> nat list \<times> nat list \<Rightarrow> bool" where
  "fill_inv idx es outd e st \<longleftrightarrow>
     length (fst st) = length es \<and> length (snd st) = length outd \<and>
     (\<forall>i < length outd. snd st ! i = sum_list (take i outd) + length (outs idx es i e) \<and>
        (\<forall>j < length (outs idx es i e). fst st ! (sum_list (take i outd) + j) = outs idx es i e ! j))"

lemma fill_edges_inv:
  assumes deg: "\<And>i. i < length outd \<Longrightarrow> outd ! i = length (outs idx es i (length es))"
    and src: "\<And>e. e \<in> set es \<Longrightarrow> src idx e < length outd"
    and sum: "sum_list outd = length es"
  shows "es = pre @ xs \<Longrightarrow> fill_inv idx es outd (length pre) st \<Longrightarrow>
    fill_inv idx es outd (length es) (fill_edges idx (length pre) xs st)"
proof (induction xs arbitrary: pre st)
  case (Cons x xs)
  obtain slots cursor where st: "st = (slots, cursor)" by (cases st)
  let ?e = "length pre" and ?s = "src idx x"
  let ?off = "\<lambda>i. sum_list (take i outd)"
  have x: "es ! ?e = x" "?e < length es" using Cons.prems(1) by simp_all
  have s: "?s < length outd" using src Cons.prems(1) by simp
  have suc: "outs idx es i (Suc ?e) = outs idx es i ?e @ (if i = ?s then [?e] else [])" for i
    by (simp add: outs_Suc x)
  have cnt: "length (outs idx es i (Suc ?e)) \<le> outd ! i" if "i < length outd" for i
    using deg [OF that] length_outs_mono [of "Suc ?e" "length es"] x(2) by simp
  then have k: "length (outs idx es ?s ?e) < outd ! ?s" using s suc by fastforce
  have lt: "?off ?s + length (outs idx es ?s ?e) < length es"
    using k sum sum_list_take_mono [of "Suc ?s" "length outd" outd] s by (simp add: sum_list_take_Suc)
  have cur: "cursor ! ?s = ?off ?s + length (outs idx es ?s ?e)"
    using Cons.prems(2) s by (simp add: fill_inv_def st)
  have "fill_inv idx es outd (Suc ?e) (slots[cursor ! ?s := ?e], incr cursor ?s)"
    unfolding fill_inv_def
  proof (intro conjI allI impI)
    fix i assume i: "i < length outd"
    show "snd (slots[cursor ! ?s := ?e], incr cursor ?s) ! i = ?off i + length (outs idx es i (Suc ?e))"
      using Cons.prems(2) i s by (auto simp: fill_inv_def st incr_def suc nth_list_update)
    fix j assume j: "j < length (outs idx es i (Suc ?e))"
    show "fst (slots[cursor ! ?s := ?e], incr cursor ?s) ! (?off i + j) = outs idx es i (Suc ?e) ! j"
    proof (cases "i = ?s")
      case True
      with Cons.prems(2) i j lt show ?thesis
        by (auto simp: fill_inv_def st cur suc nth_list_update nth_append less_Suc_eq)
    next
      case False
      have "j < outd ! i" using cnt [OF i] j by simp
      then have "?off i + j \<noteq> cursor ! ?s" unfolding cur using segments_disjoint [OF i s False _ k] by simp
      with Cons.prems(2) i j False show ?thesis by (simp add: fill_inv_def st suc)
    qed
  qed (use Cons.prems(2) in \<open>simp_all add: fill_inv_def st incr_def\<close>)
  with Cons.IH [of "pre @ [x]"] Cons.prems(1) show ?case by (simp add: st src_def Let_def)
qed (simp add: fill_inv_def)

lemma sum_out_degrees:
  assumes "\<And>e. e \<in> set es \<Longrightarrow> f e < n"
  shows "sum_list (map (\<lambda>i. length (filter (\<lambda>e. f e = i) es)) [0..<n]) = length es"
  using assms
proof (induction es)
  case (Cons e es)
  have "(\<Sum>i \<leftarrow> [0..<n]. length (filter (\<lambda>e. f e = i) (e # es)))
      = (\<Sum>i \<leftarrow> [0..<n]. (if i = f e then 1 else 0) + length (filter (\<lambda>e. f e = i) es))"
    by (intro arg_cong [of _ _ sum_list] map_cong) auto
  also have "\<dots> = (\<Sum>i \<leftarrow> [0..<n]. if i = f e then 1 else 0) + length es"
    using Cons by (simp add: sum_list_addf)
  also have "(\<Sum>i \<leftarrow> [0..<n]. if i = f e then 1 else 0 :: nat) = 1"
    using Cons.prems by (simp add: interv_sum_list_conv_sum_set_nat)
  finally show ?case by simp
qed simp

lemma adjacency_lists:
  assumes src: "\<And>e. e \<in> set es \<Longrightarrow> src idx e < n"
    and cd: "count_degrees idx es (replicate n 0, replicate n 0) = (outd, ind)"
    and fill: "fill_edges idx 0 es (replicate (length es) 0, butlast (offsets_from 0 outd)) = (slots, c)"
    and i: "i < n"
  shows "take (offsets_from 0 outd ! (i + 1) - offsets_from 0 outd ! i) (drop (offsets_from 0 outd ! i) slots)
      = outs idx es i (length es)"
proof -
  have len: "length outd = n" using count_degrees_out(2) [of idx es "replicate n 0" "replicate n 0"] cd by simp
  have deg: "outd ! i = length (outs idx es i (length es))" if "i < length outd" for i
    using count_degrees_out(1) [of i "replicate n 0" idx es "replicate n 0"] cd that len
    by (simp add: length_outs)
  have "outd = map (\<lambda>i. length (filter (\<lambda>e. src idx e = i) es)) [0..<n]"
    by (rule nth_equalityI) (simp_all add: len deg length_outs)
  then have sum: "sum_list outd = length es" using sum_out_degrees [of es "src idx" n] src by simp
  have off: "offsets_from 0 outd ! k = sum_list (take k outd)" if "k \<le> n" for k
    using that len by (simp add: offsets_from_nth)
  have "fill_inv idx es outd (length []) (replicate (length es) 0, butlast (offsets_from 0 outd))"
    by (simp add: fill_inv_def outs_def nth_butlast offsets_from_nth)
  then have inv: "fill_inv idx es outd (length es) (slots, c)"
    using fill_edges_inv [OF deg _ sum, where pre = "[]" and xs = es and
        st = "(replicate (length es) 0, butlast (offsets_from 0 outd))"] src fill by (simp add: len)
  have d: "offsets_from 0 outd ! (i + 1) - offsets_from 0 outd ! i = outd ! i"
    using i len by (simp add: off sum_list_take_Suc)
  have le: "sum_list (take i outd) + outd ! i \<le> length es"
    using sum sum_list_take_mono [of "Suc i" n outd] i len by (simp add: sum_list_take_Suc)
  show ?thesis unfolding d using i inv le
    by (intro nth_equalityI) (simp_all add: off fill_inv_def len deg [unfolded len])
qed

section \<open>The component search terminates\<close>

text \<open>
  The shape the search relies on: offsets are monotone, and every slot of a node holds an
  edge whose target is a node.
\<close>

definition csr_ok :: "Topology \<Rightarrow> nat \<Rightarrow> bool" where
  "csr_ok t n \<longleftrightarrow>
     (\<forall>v < n. top_out_offsets t ! v \<le> top_out_offsets t ! (v + 1)) \<and>
     (\<forall>v < n. \<forall>c. top_out_offsets t ! v \<le> c \<longrightarrow> c < top_out_offsets t ! (v + 1) \<longrightarrow>
        index_at (top_resource_index t) (edge_to (top_edges t ! (top_out_edge_indices t ! c))) < n)"

definition frame_ok :: "Topology \<Rightarrow> nat \<Rightarrow> nat \<times> nat \<Rightarrow> bool" where
  "frame_ok t n f \<longleftrightarrow> fst f < n \<and> top_out_offsets t ! fst f \<le> snd f \<and> snd f \<le> top_out_offsets t ! (fst f + 1)"

definition scc_inv :: "Topology \<Rightarrow> nat \<Rightarrow> scc_state \<Rightarrow> bool" where
  "scc_inv t n s \<longleftrightarrow> length (scc_index s) = n \<and> list_all (frame_ok t n) (scc_frames s)"

definition deg :: "Topology \<Rightarrow> nat \<Rightarrow> nat" where
  "deg t v = top_out_offsets t ! (v + 1) - top_out_offsets t ! v"

definition unvisited_weight :: "Topology \<Rightarrow> nat option list \<Rightarrow> nat" where
  "unvisited_weight t idx = (\<Sum>v < length idx. if idx ! v = None then 1 + deg t v else 0)"

definition scc_measure :: "Topology \<Rightarrow> scc_state \<Rightarrow> nat" where
  "scc_measure t s =
     unvisited_weight t (scc_index s) +
     (\<Sum>(v, c) \<leftarrow> scc_frames s. 1 + (top_out_offsets t ! (v + 1) - c))"

lemma unvisited_weight_update:
  assumes "v < length idx" and "idx ! v = None"
  shows "unvisited_weight t idx = unvisited_weight t (idx[v := Some k]) + (1 + deg t v)"
proof -
  have "unvisited_weight t idx = (\<Sum>u < length idx. (if (idx[v := Some k]) ! u = None then 1 + deg t u else 0)
      + (if u = v then 1 + deg t v else 0))"
    unfolding unvisited_weight_def using assms by (intro sum.cong) (auto simp: nth_list_update)
  then show ?thesis using assms(1) by (simp add: unvisited_weight_def sum.distrib)
qed

lemma scc_visit_measure:
  assumes "scc_inv t n s" and "v < n" and "scc_index s ! v = None" and "csr_ok t n"
  shows "scc_inv t n (scc_visit (top_out_offsets t) v s)"
    and "scc_measure t (scc_visit (top_out_offsets t) v s) = scc_measure t s"
  using assms unvisited_weight_update [of v "scc_index s" t "scc_next s"]
  by (auto simp: scc_inv_def scc_visit_def scc_measure_def frame_ok_def csr_ok_def deg_def)

lemma scc_close_frame [simp]:
  "scc_index (scc_close rs loops v s) = scc_index s" "scc_frames (scc_close rs loops v s) = scc_frames s"
  by (simp_all add: scc_close_def Let_def split: prod.splits)

lemma scc_step_decreases:
  assumes inv: "scc_inv t n s" and csr: "csr_ok t n" and "scc_frames s \<noteq> []"
  shows "scc_inv t n (scc_step t loops s) \<and> scc_measure t (scc_step t loops s) < scc_measure t s"
proof -
  obtain v c frames where fr: "scc_frames s = (v, c) # frames"
    using assms(3) by (cases "scc_frames s") auto
  show ?thesis
  proof (cases "c < top_out_offsets t ! (v + 1)")
    case True
    define s1 where "s1 = s\<lparr>scc_frames := (v, c + 1) # frames\<rparr>"
    define w where "w = index_at (top_resource_index t) (edge_to (top_edges t ! (top_out_edge_indices t ! c)))"
    have inv1: "scc_inv t n s1" and less: "scc_measure t s1 < scc_measure t s"
      using inv True fr by (auto simp: s1_def scc_inv_def frame_ok_def scc_measure_def)
    have w: "w < n" using inv csr True fr by (auto simp: w_def scc_inv_def frame_ok_def csr_ok_def)
    show ?thesis
    proof (cases "scc_index s1 ! w")
      case None
      then have "scc_step t loops s = scc_visit (top_out_offsets t) w s1"
        using True fr by (simp add: scc_step_def s1_def w_def)
      with scc_visit_measure [OF inv1 w None csr] less show ?thesis by simp
    next
      case (Some iw)
      then have "scc_step t loops s = (if scc_on_stack s1 ! w \<and> iw < scc_low s1 ! v
          then s1\<lparr>scc_low := (scc_low s1)[v := iw]\<rparr> else s1)"
        using True fr by (simp add: scc_step_def s1_def w_def Let_def)
      with inv1 less show ?thesis by (auto simp: scc_inv_def scc_measure_def)
    qed
  next
    case False
    then have "scc_index (scc_step t loops s) = scc_index s" "scc_frames (scc_step t loops s) = frames"
      using fr by (auto simp: scc_step_def Let_def split: list.splits)
    then show ?thesis using inv fr by (simp add: scc_inv_def scc_measure_def)
  qed
qed

lemma scc_while_total:
  "scc_inv t n s \<Longrightarrow> csr_ok t n \<Longrightarrow> scc_measure t s \<le> fuel \<Longrightarrow>
     \<exists>s'. scc_while fuel t loops s = Some s' \<and> scc_inv t n s' \<and> scc_frames s' = [] \<and>
       scc_measure t s' \<le> scc_measure t s"
proof (induction fuel arbitrary: s)
  case 0
  then have "scc_frames s = []" by (cases "scc_frames s") (auto simp: scc_measure_def)
  with 0 show ?case by simp
next
  case (Suc fuel)
  show ?case
  proof (cases "scc_frames s = []")
    case True
    with Suc.prems show ?thesis by simp
  next
    case False
    from scc_step_decreases [OF Suc.prems(1,2) False, of loops] Suc.prems(3)
    show ?thesis using Suc.IH [of "scc_step t loops s"] Suc.prems(2) False by auto
  qed
qed

lemma scc_roots_total:
  assumes "csr_ok t n"
  shows "scc_inv t n s \<Longrightarrow> scc_frames s = [] \<Longrightarrow> scc_measure t s \<le> fuel \<Longrightarrow> \<forall>r \<in> set roots. r < n \<Longrightarrow>
     \<exists>s'. scc_roots fuel t loops roots s = Some s'"
proof (induction roots arbitrary: s)
  case (Cons r roots)
  show ?case
  proof (cases "scc_index s ! r")
    case None
    from Cons.prems have r: "r < n" by simp
    note visit = scc_visit_measure [OF Cons.prems(1) r None assms]
    obtain s' where s': "scc_while fuel t loops (scc_visit (top_out_offsets t) r s) = Some s'"
      "scc_inv t n s'" "scc_frames s' = []" "scc_measure t s' \<le> scc_measure t s"
      using scc_while_total [OF visit(1) assms, of fuel loops] visit(2) Cons.prems(3) by auto
    have "\<exists>s''. scc_roots fuel t loops roots s' = Some s''"
      by (rule Cons.IH) (use s' Cons.prems in auto)
    then show ?thesis using None s'(1) by auto
  next
    case (Some k)
    have "\<exists>s''. scc_roots fuel t loops roots s = Some s''"
      by (rule Cons.IH) (use Cons.prems in auto)
    then show ?thesis using Some by auto
  qed
qed simp

section \<open>What a built topology satisfies\<close>

text \<open>
  \<open>topology_wf\<close> is the contract between the topology and the engine: identities are
  distinct and strictly sorted, indices and identities determine each other, every edge has
  both ends among the resources, every declaration validates, and the adjacency list of a
  node is exactly the positions of the edges that leave it, in canonical order.
\<close>

definition topology_wf :: "Topology \<Rightarrow> bool" where
  "topology_wf t \<longleftrightarrow>
     sorted_wrt (\<lambda>a b. res_id a < res_id b) (top_resources t) \<and>
     sorted_wrt edge_precedes (top_edges t) \<and>
     (\<forall>r \<in> set (top_resources t). status_ok (resource_validate r)) \<and>
     (\<forall>e \<in> set (top_edges t). status_ok (edge_validate e) \<and>
        edge_from e \<in> res_id ` set (top_resources t) \<and> edge_to e \<in> res_id ` set (top_resources t)) \<and>
     (\<forall>i k. index_of t i = Some k \<longleftrightarrow> k < length (top_resources t) \<and> res_id (top_resources t ! k) = i) \<and>
     (\<forall>k < length (top_resources t). out_edge_indices_at t k =
        filter (\<lambda>e. edge_from (top_edges t ! e) = res_id (top_resources t ! k)) [0..<length (top_edges t)])"

lemma topology_wf_index:
  assumes "topology_wf t"
  shows "index_of t i = Some k \<longleftrightarrow> k < length (top_resources t) \<and> res_id (top_resources t ! k) = i"
  using assms unfolding topology_wf_def by (elim conjE allE) assumption

lemma build_tables_fields:
  assumes "build_tables rs es idx lim = Inr (t, loops)"
  obtains outd ind slots c where
    "count_degrees idx es (replicate (length rs) 0, replicate (length rs) 0) = (outd, ind)"
    "fill_edges idx 0 es (replicate (length es) 0, butlast (offsets_from 0 outd)) = (slots, c)"
    "top_resources t = rs" "top_edges t = es" "top_resource_index t = idx"
    "top_out_offsets t = offsets_from 0 outd" "top_out_edge_indices t = slots"
proof -
  obtain outd ind where cd: "count_degrees idx es (replicate (length rs) 0, replicate (length rs) 0) = (outd, ind)"
    by (rule prod.exhaust)
  obtain slots c where fill: "fill_edges idx 0 es (replicate (length es) 0, butlast (offsets_from 0 outd)) = (slots, c)"
    by (rule prod.exhaust)
  have "top_resources t = rs \<and> top_edges t = es \<and> top_resource_index t = idx \<and>
      top_out_offsets t = offsets_from 0 outd \<and> top_out_edge_indices t = slots"
    using assms by (auto simp: build_tables_def Let_def try_simps cd fill case_prod_unfold)
  with that cd fill show thesis by blast
qed

lemma nth_segment:
  assumes "b \<le> k" and "k < e" and "length (take (e - b) (drop b xs)) = e - b"
  shows "take (e - b) (drop b xs) ! (k - b) = xs ! k"
proof -
  have "b \<le> length xs" using assms by simp
  with assms show ?thesis by simp
qed

lemma index_at_from:
  assumes "distinct (map res_id rs)" and "i \<in> res_id ` set rs"
  shows "index_at (index_from res_id 0 rs Map.empty) i < length rs"
    and "res_id (rs ! index_at (index_from res_id 0 rs Map.empty) i) = i"
proof -
  obtain k where "index_from res_id 0 rs Map.empty i = Some k"
    using assms(2) dom_index_from [of res_id 0 rs Map.empty] by auto
  moreover from this have "k < length rs" "res_id (rs ! k) = i"
    using index_from_distinct [OF assms(1), of i k] by simp_all
  ultimately show "index_at (index_from res_id 0 rs Map.empty) i < length rs"
    "res_id (rs ! index_at (index_from res_id 0 rs Map.empty) i) = i"
    by (simp_all add: index_at_def)
qed

lemma src_eq_iff:
  assumes "distinct (map res_id rs)" and "edge_from e \<in> res_id ` set rs" and "i < length rs"
  shows "src (index_from res_id 0 rs Map.empty) e = i \<longleftrightarrow> edge_from e = res_id (rs ! i)"
proof -
  let ?j = "index_at (index_from res_id 0 rs Map.empty) (edge_from e)"
  have "?j < length rs" "res_id (rs ! ?j) = edge_from e" using index_at_from [OF assms(1,2)] .
  with nth_eq_iff_index_eq [OF assms(1), of ?j i] assms(3) show ?thesis by (auto simp: src_def)
qed

text \<open>The facts of a successful table construction, with the canonical inputs.\<close>

lemma build_tables_ok:
  assumes can: "build_canonical resources edges lim = Inr (rs, es, idx)"
    and tab: "build_tables rs es idx lim = Inr (t, loops)"
  shows "csr_ok t (length rs)" and "unvisited_weight t (replicate (length rs) None) = length rs + length es"
    and "i < length rs \<Longrightarrow> out_edge_indices_at t i = filter (\<lambda>e. edge_from (es ! e) = res_id (rs ! i)) [0..<length es]"
    and "top_resources t = rs" and "top_edges t = es" and "top_resource_index t = idx"
proof -
  note c = build_canonical_ok [OF can]
  let ?n = "length rs"
  have dist: "distinct (map res_id rs)" by (rule sorted_distinct_ids [OF c(3)])
  have src_lt: "src idx e < ?n" if "e \<in> set es" for e
    using index_at_from(1) [OF dist] c(5,8) that by (auto simp: src_def)
  obtain outd ind slots cc where
    cd: "count_degrees idx es (replicate ?n 0, replicate ?n 0) = (outd, ind)"
    and fill: "fill_edges idx 0 es (replicate (length es) 0, butlast (offsets_from 0 outd)) = (slots, cc)"
    and f: "top_resources t = rs" "top_edges t = es" "top_resource_index t = idx"
      "top_out_offsets t = offsets_from 0 outd" "top_out_edge_indices t = slots"
    by (rule build_tables_fields [OF tab])
  have len: "length outd = ?n" using count_degrees_out(2) [of idx es "replicate ?n 0" "replicate ?n 0"] cd by simp
  have adj: "take (offsets_from 0 outd ! (i + 1) - offsets_from 0 outd ! i) (drop (offsets_from 0 outd ! i) slots)
      = outs idx es i (length es)" if "i < ?n" for i
    by (rule adjacency_lists [OF src_lt cd fill that])
  have off: "offsets_from 0 outd ! i \<le> offsets_from 0 outd ! (i + 1)" if "i < ?n" for i
    using that len by (simp add: offsets_from_nth sum_list_take_mono)
  show "top_resources t = rs" "top_edges t = es" "top_resource_index t = idx" by (rule f)+
  show "out_edge_indices_at t i = filter (\<lambda>e. edge_from (es ! e) = res_id (rs ! i)) [0..<length es]"
    if i: "i < ?n"
  proof -
    have "out_edge_indices_at t i = outs idx es i (length es)"
      using adj [OF i] i len by (simp add: out_edge_indices_at_def f Let_def)
    also have "\<dots> = filter (\<lambda>e. edge_from (es ! e) = res_id (rs ! i)) [0..<length es]"
      unfolding outs_def c(5)
      by (rule filter_cong) (use src_eq_iff [OF dist _ i] c(8) in auto)
    finally show ?thesis .
  qed
  show "csr_ok t ?n" unfolding csr_ok_def f
  proof (intro conjI allI impI)
    fix v k assume v: "v < ?n" and k: "offsets_from 0 outd ! v \<le> k" "k < offsets_from 0 outd ! (v + 1)"
    let ?o = "offsets_from 0 outd"
    have "slots ! k \<in> set (outs idx es v (length es))"
    proof -
      have l: "length (outs idx es v (length es)) = ?o ! (v + 1) - ?o ! v"
        using cd v len count_degrees_out(1) [of v "replicate ?n 0" idx es "replicate ?n 0"]
        by (simp add: offsets_from_nth sum_list_take_Suc length_outs)
      have "outs idx es v (length es) ! (k - ?o ! v) = slots ! k"
        unfolding adj [OF v, symmetric] by (rule nth_segment [OF k]) (simp only: adj [OF v] l)
      moreover have "k - ?o ! v < length (outs idx es v (length es))" using k l by simp
      ultimately show ?thesis by (metis nth_mem)
    qed
    then have "slots ! k < length es" by (simp add: outs_def)
    then show "index_at idx (edge_to (es ! (slots ! k))) < ?n"
      using index_at_from(1) [OF dist] c(5,8) by simp
  qed (use off in simp)
  have "(\<Sum>v < ?n. offsets_from 0 outd ! (v + 1) - offsets_from 0 outd ! v) = length es"
  proof -
    have "outd ! v = length (filter (\<lambda>e. src idx e = v) es)" if "v < ?n" for v
      using cd that count_degrees_out(1) [of v "replicate ?n 0" idx es "replicate ?n 0"] by simp
    then have "outd = map (\<lambda>v. length (filter (\<lambda>e. src idx e = v) es)) [0..<?n]"
      by (intro nth_equalityI) (simp_all add: len)
    then have "sum_list outd = length es" using sum_out_degrees [of es "src idx" ?n] src_lt by simp
    moreover have "(\<Sum>v < ?n. offsets_from 0 outd ! (v + 1) - offsets_from 0 outd ! v) = (\<Sum>v < ?n. outd ! v)"
      by (intro sum.cong) (simp_all add: offsets_from_nth len sum_list_take_Suc)
    ultimately show ?thesis by (simp add: sum_list_sum_nth len atLeast0LessThan)
  qed
  then show "unvisited_weight t (replicate ?n None) = ?n + length es"
    by (simp add: unvisited_weight_def deg_def f sum_Suc)
qed

lemma build_cases:
  assumes "build resources edges lim allow = Some (Inr t)"
  obtains rs es idx t0 loops where
    "build_canonical resources edges lim = Inr (rs, es, idx)"
    "build_tables rs es idx lim = Inr (t0, loops)"
    "top_resources t = top_resources t0" "top_edges t = top_edges t0"
    "top_out_offsets t = top_out_offsets t0" "top_out_edge_indices t = top_out_edge_indices t0"
    "top_resource_index t = top_resource_index t0"
  using assms
  by (auto simp: build_def build_finish_def Let_def split: sum.splits option.splits prod.splits if_splits)

lemma build_wf:
  assumes "build resources edges lim allow = Some (Inr t)"
  shows "topology_wf t"
proof -
  obtain rs es idx t0 loops where can: "build_canonical resources edges lim = Inr (rs, es, idx)"
    and tab: "build_tables rs es idx lim = Inr (t0, loops)"
    and f: "top_resources t = top_resources t0" "top_edges t = top_edges t0"
      "top_out_offsets t = top_out_offsets t0" "top_out_edge_indices t = top_out_edge_indices t0"
      "top_resource_index t = top_resource_index t0"
    by (rule build_cases [OF assms])
  note c = build_canonical_ok [OF can] and b = build_tables_ok [OF can tab]
  have dist: "distinct (map res_id rs)" by (rule sorted_distinct_ids [OF c(3)])
  have "out_edge_indices_at t i = out_edge_indices_at t0 i" for i
    by (simp add: out_edge_indices_at_def f)
  then show ?thesis unfolding topology_wf_def
    using c b(3) index_from_distinct [OF dist] by (simp add: f b(4-6) index_of_def)
qed

lemma build_returns: "\<exists>r. build resources edges lim allow = Some r"
proof (cases "build_canonical resources edges lim")
  case (Inr c)
  obtain rs es idx where c: "c = (rs, es, idx)" by (cases c)
  show ?thesis
  proof (cases "build_tables rs es idx lim")
    case tabs: (Inr p)
    obtain t loops where p: "p = (t, loops)" by (cases p)
    note b = build_tables_ok [OF Inr [unfolded c] tabs [unfolded p]]
    let ?n = "length rs" and ?s = "scc_start (length rs) (top_stats t, top_issues t)"
    have "\<exists>s. scc_roots (Suc (?n + length es)) t loops [0..<?n] ?s = Some s"
      by (rule scc_roots_total [OF b(1)])
        (simp_all add: scc_start_def scc_inv_def scc_measure_def b(2))
    then show ?thesis using Inr tabs
      by (auto simp: build_def build_finish_def Let_def c p b(4,5) split: option.splits)
  qed (simp add: build_def Inr c)
qed (simp add: build_def)

lemma build_permutation:
  assumes "build resources edges lim allow = Some (Inr t)"
    and "mset resources' = mset resources" and "mset edges' = mset edges"
  shows "build resources' edges' lim allow = Some (Inr t)"
proof -
  obtain c where c: "build_canonical resources edges lim = Inr c"
    using build_cases [OF assms(1)] by metis
  with build_canonical_perm [OF c assms(2,3)] assms(1) show ?thesis by (simp add: build_def)
qed

end
