(* ===== verification/Observation.thy ===== *)
theory Observation
  imports Fixed
begin

text \<open>
  Pressure observations and severity bands: \<open>include/backpressure/model/observation.hpp\<close> and
  \<open>severity_from_magnitude\<close> of \<open>src/model/policy.cpp\<close>.

  The lemmas show the two promises of the class: a declared severity is never honoured
  above what the measurement supports, and an observation without evidence authorises
  nothing.
\<close>

section \<open>Severity\<close>

datatype Severity = Sev_Unknown | Nominal | Elevated | High | Critical | Exhausted

fun severity_value :: "Severity \<Rightarrow> u8" where
  "severity_value Sev_Unknown = 0"
| "severity_value Nominal = 1"
| "severity_value Elevated = 2"
| "severity_value High = 3"
| "severity_value Critical = 4"
| "severity_value Exhausted = 5"

fun severity_to_string :: "Severity \<Rightarrow> string" where
  "severity_to_string Sev_Unknown = ''Unknown''"
| "severity_to_string Nominal = ''Nominal''"
| "severity_to_string Elevated = ''Elevated''"
| "severity_to_string High = ''High''"
| "severity_to_string Critical = ''Critical''"
| "severity_to_string Exhausted = ''Exhausted''"

lemma severity_value_inject: "severity_value a = severity_value b \<longleftrightarrow> a = b"
  by (cases a; cases b) simp_all

instantiation Severity :: linorder
begin
definition less_eq_Severity :: "Severity \<Rightarrow> Severity \<Rightarrow> bool" where
  "less_eq_Severity a b \<longleftrightarrow> severity_value a \<le> severity_value b"
definition less_Severity :: "Severity \<Rightarrow> Severity \<Rightarrow> bool" where
  "less_Severity a b \<longleftrightarrow> severity_value a < severity_value b"
instance
  by standard (auto simp: less_eq_Severity_def less_Severity_def severity_value_inject [symmetric])
end

record SeverityThresholds =
  elevated_milli :: u32
  high_milli :: u32
  critical_milli :: u32
  exhausted_milli :: u32

definition thresholds_defaults :: SeverityThresholds where
  "thresholds_defaults =
     \<lparr>elevated_milli = 40000, high_milli = 65000, critical_milli = 85000, exhausted_milli = 98000\<rparr>"

definition thresholds_validate :: "SeverityThresholds \<Rightarrow> Status" where
  "thresholds_validate t =
     (if elevated_milli t = 0 \<or> elevated_milli t \<ge> high_milli t \<or> high_milli t \<ge> critical_milli t \<or>
         critical_milli t \<ge> exhausted_milli t \<or> exhausted_milli t > 100000
      then status_error InvalidArgument ''severity thresholds'' (ucast (exhausted_milli t))
      else status_success)"

definition severity_from_magnitude :: "Magnitude \<Rightarrow> SeverityThresholds \<Rightarrow> Severity" where
  "severity_from_magnitude m t =
     (let milli = mag_as_percent_milli m
      in if milli \<ge> exhausted_milli t then Exhausted
         else if milli \<ge> critical_milli t then Critical
         else if milli \<ge> high_milli t then High
         else if milli \<ge> elevated_milli t then Elevated
         else Nominal)"

section \<open>Observations\<close>

record PressureObservation =
  obs_mag_field :: Magnitude
  obs_sev_field :: Severity
  obs_present :: bool
  obs_downgraded :: bool

definition observation_unknown :: PressureObservation where
  "observation_unknown =
     \<lparr>obs_mag_field = mag_zero, obs_sev_field = Sev_Unknown, obs_present = False, obs_downgraded = False\<rparr>"

definition observed :: "Magnitude \<Rightarrow> SeverityThresholds \<Rightarrow> PressureObservation" where
  "observed m t = observation_unknown
     \<lparr>obs_mag_field := m, obs_sev_field := severity_from_magnitude m t, obs_present := True\<rparr>"

definition observed_with_severity ::
  "Magnitude \<Rightarrow> Severity \<Rightarrow> SeverityThresholds \<Rightarrow> PressureObservation" where
  "observed_with_severity m declared t =
     (let o1 = observation_unknown\<lparr>obs_mag_field := m\<rparr>;
          derived = severity_from_magnitude m t;
          o2 = (if declared = Sev_Unknown \<or> declared > derived
                then o1\<lparr>obs_sev_field := derived, obs_downgraded := (declared \<noteq> derived)\<rparr>
                else o1\<lparr>obs_sev_field := declared\<rparr>)
      in o2\<lparr>obs_present := True\<rparr>)"

definition obs_is_unknown :: "PressureObservation \<Rightarrow> bool" where
  "obs_is_unknown ob \<longleftrightarrow> \<not> obs_present ob"

definition has_evidence :: "PressureObservation \<Rightarrow> bool" where
  "has_evidence ob \<longleftrightarrow> obs_present ob"

definition obs_severity :: "PressureObservation \<Rightarrow> Severity" where
  "obs_severity ob = (if obs_present ob then obs_sev_field ob else Sev_Unknown)"

definition obs_magnitude :: "PressureObservation \<Rightarrow> Magnitude" where
  "obs_magnitude ob = (if obs_present ob then obs_mag_field ob else mag_zero)"

definition can_authorize_propagation :: "PressureObservation \<Rightarrow> bool" where
  "can_authorize_propagation ob \<longleftrightarrow>
     obs_present ob \<and> \<not> mag_is_zero (obs_mag_field ob) \<and> obs_sev_field ob \<noteq> Sev_Unknown"

definition obs_eq :: "PressureObservation \<Rightarrow> PressureObservation \<Rightarrow> bool" where
  "obs_eq a b =
     (if obs_present a \<noteq> obs_present b then False
      else if \<not> obs_present a then True
      else obs_mag_field a = obs_mag_field b \<and> obs_sev_field a = obs_sev_field b)"

section \<open>Severity bands\<close>

lemmas severity_order_simps = less_eq_Severity_def less_Severity_def

lemma severity_known [simp]: "severity_from_magnitude m t \<noteq> Sev_Unknown"
  by (simp add: severity_from_magnitude_def Let_def)

lemma thresholds_validate_ok:
  "status_ok (thresholds_validate t) \<longleftrightarrow>
     0 < elevated_milli t \<and> elevated_milli t < high_milli t \<and> high_milli t < critical_milli t \<and>
     critical_milli t < exhausted_milli t \<and> exhausted_milli t \<le> 100000"
  by (auto simp: thresholds_validate_def word_gt_0)

lemma mag_as_percent_milli_mono:
  "a \<le> b \<Longrightarrow> mag_as_percent_milli a \<le> mag_as_percent_milli b"
proof -
  assume "a \<le> b"
  then have "unat (q16_raw (mag_q16 a)) \<le> unat (q16_raw (mag_q16 b))"
    by (simp add: less_eq_Magnitude_def less_eq_Q16_def word_le_nat_alt)
  then show ?thesis
    by (simp add: mag_as_percent_milli_def word_le_nat_alt unat_q16_as_percent_milli div_le_mono)
qed

lemma severity_from_magnitude_mono:
  assumes "status_ok (thresholds_validate t)" and "a \<le> b"
  shows "severity_from_magnitude a t \<le> severity_from_magnitude b t"
  using mag_as_percent_milli_mono [OF assms(2)] assms(1)
  by (auto simp: severity_from_magnitude_def Let_def severity_order_simps thresholds_validate_ok)

lemma obs_severity_never_overstated:
  "obs_severity (observed_with_severity m declared t) \<le> severity_from_magnitude m t"
  by (auto simp: obs_severity_def observed_with_severity_def observation_unknown_def Let_def)

lemma obs_severity_honoured:
  assumes "declared \<noteq> Sev_Unknown"
  shows "obs_severity (observed_with_severity m declared t) = min declared (severity_from_magnitude m t)"
  using assms
  by (auto simp: obs_severity_def observed_with_severity_def observation_unknown_def Let_def min_def)

lemma obs_authorises_iff:
  "can_authorize_propagation (observed_with_severity m declared t) \<longleftrightarrow> m \<noteq> mag_zero"
  by (auto simp: can_authorize_propagation_def observed_with_severity_def observation_unknown_def
      Let_def mag_is_zero_iff)

lemma observation_unknown_authorises_nothing: "\<not> can_authorize_propagation observation_unknown"
  by (simp add: can_authorize_propagation_def observation_unknown_def)

end
