(* ===== verification/Policy.thy ===== *)
theory Policy
  imports Observation Generations
begin

text \<open>
  Propagation policies and recovery decay: \<open>include/backpressure/model/policy.hpp\<close> and
  \<open>src/model/policy.cpp\<close>.
\<close>

section \<open>Aggregation rules\<close>

datatype AggregationRule = AR_Max | SaturatingSum | WeightedMax | PriorityFirst | AR_Count

fun aggregation_rule_value :: "AggregationRule \<Rightarrow> u8" where
  "aggregation_rule_value AR_Max = 0"
| "aggregation_rule_value SaturatingSum = 1"
| "aggregation_rule_value WeightedMax = 2"
| "aggregation_rule_value PriorityFirst = 3"
| "aggregation_rule_value AR_Count = 4"

fun aggregation_rule_to_string :: "AggregationRule \<Rightarrow> string" where
  "aggregation_rule_to_string AR_Max = ''Max''"
| "aggregation_rule_to_string SaturatingSum = ''SaturatingSum''"
| "aggregation_rule_to_string WeightedMax = ''WeightedMax''"
| "aggregation_rule_to_string PriorityFirst = ''PriorityFirst''"
| "aggregation_rule_to_string AR_Count = ''Invalid''"

section \<open>Decay\<close>

record DecaySchedule =
  dec_per_step :: Q16
  dec_step_ticks :: Tick
  dec_floor :: Magnitude
  dec_max_steps :: u32

definition decay_schedule :: DecaySchedule where
  "decay_schedule = \<lparr>dec_per_step = q16_one, dec_step_ticks = 1, dec_floor = mag_zero, dec_max_steps = 64\<rparr>"

definition decay_validate :: "DecaySchedule \<Rightarrow> Status" where
  "decay_validate d =
     (if dec_step_ticks d = 0 then status_error InvalidArgument ''decay step ticks'' 0
      else if dec_max_steps d = 0 \<or> dec_max_steps d > 4096 then
        status_error OutOfRange ''decay max steps'' (ucast (dec_max_steps d))
      else status_success)"

fun decay_loop :: "nat \<Rightarrow> u64 \<Rightarrow> u64 \<Rightarrow> u64" where
  "decay_loop 0 per_step raw = raw"
| "decay_loop (Suc steps) per_step raw =
     (if raw > 0 then decay_loop steps per_step (drop_bit 16 (raw * per_step)) else raw)"

definition decay :: "DecaySchedule \<Rightarrow> Magnitude \<Rightarrow> u32 \<Rightarrow> Magnitude" where
  "decay d start steps0 =
     (let steps = (if steps0 > dec_max_steps d then dec_max_steps d else steps0);
          start_raw = (ucast (mag_raw start) :: u64);
          raw1 = decay_loop (unat steps) (ucast (q16_raw (dec_per_step d))) start_raw;
          raw2 = (if raw1 > start_raw then start_raw else raw1);
          floor_raw = (ucast (mag_raw (dec_floor d)) :: u64);
          raw3 = (if raw2 < floor_raw then floor_raw else raw2);
          raw4 = (if raw3 > start_raw then start_raw else raw3)
      in mag_from_raw_q16_saturating (ucast raw4))"

section \<open>The policy\<close>

record PropagationPolicy =
  pol_id :: PolicyId
  pol_generation :: Generation
  pol_max_hops :: u32
  pol_max_fanout :: u32
  pol_max_expansions :: u32
  pol_max_visited :: u32
  pol_max_sources :: u32
  pol_max_records :: u32
  pol_max_path_records :: u32
  pol_min_propagatable :: Magnitude
  pol_lifetime_ticks :: Tick
  pol_aggregation :: AggregationRule
  pol_aggregation_ceiling :: Magnitude
  pol_allow_amplification :: bool
  pol_max_cumulative_gain :: Gain
  pol_default_cooldown_ticks :: Tick
  pol_hysteresis_delta :: Magnitude
  pol_recovery_decay :: DecaySchedule
  pol_thresholds :: SeverityThresholds
  pol_require_known_pressure :: bool

definition policy_defaults :: PropagationPolicy where
  "policy_defaults =
     \<lparr>pol_id = id_invalid, pol_generation = gen_unknown, pol_max_hops = 8, pol_max_fanout = 32,
      pol_max_expansions = 4096, pol_max_visited = 1024, pol_max_sources = 8, pol_max_records = 8192,
      pol_max_path_records = 256, pol_min_propagatable = mag_zero, pol_lifetime_ticks = 1000,
      pol_aggregation = AR_Max, pol_aggregation_ceiling = mag_full, pol_allow_amplification = False,
      pol_max_cumulative_gain = gain_unity, pol_default_cooldown_ticks = 0,
      pol_hysteresis_delta = mag_zero, pol_recovery_decay = decay_schedule,
      pol_thresholds = thresholds_defaults, pol_require_known_pressure = True\<rparr>"

definition policy_validate :: "PropagationPolicy \<Rightarrow> Status" where
  "policy_validate p =
     (if \<not> id_valid (pol_id p) then status_error InvalidArgument ''policy id'' 0
      else if \<not> gen_known (pol_generation p) then status_error StaleGeneration ''policy generation unbound'' 0
      else if pol_max_hops p = 0 \<or> pol_max_hops p > 64 then
        status_error OutOfRange ''policy max hops'' (ucast (pol_max_hops p))
      else if pol_max_fanout p = 0 \<or> pol_max_fanout p > push_bit 16 1 then
        status_error OutOfRange ''policy max fanout'' (ucast (pol_max_fanout p))
      else if pol_max_expansions p = 0 \<or> pol_max_expansions p > push_bit 24 1 then
        status_error OutOfRange ''policy max expansions'' (ucast (pol_max_expansions p))
      else if pol_max_visited p = 0 \<or> pol_max_visited p > push_bit 22 1 then
        status_error OutOfRange ''policy max visited'' (ucast (pol_max_visited p))
      else if pol_max_sources p = 0 \<or> pol_max_sources p > push_bit 12 1 then
        status_error OutOfRange ''policy max sources'' (ucast (pol_max_sources p))
      else if pol_max_records p = 0 \<or> pol_max_records p > push_bit 20 1 then
        status_error OutOfRange ''policy max records'' (ucast (pol_max_records p))
      else if pol_max_path_records p = 0 \<or> pol_max_path_records p > pol_max_records p then
        status_error OutOfRange ''policy max path records'' (ucast (pol_max_path_records p))
      else
        let worst_case = (ucast (pol_max_expansions p) :: u64) + ucast (pol_max_visited p)
        in if ucast (pol_max_records p) < worst_case then
             status_error InvalidArgument ''policy record budget'' worst_case
           else if pol_lifetime_ticks p = 0 then status_error OutOfRange ''policy lifetime'' 0
           else if pol_aggregation p = AR_Count then
             status_error InvalidArgument ''policy aggregation rule''
               (ucast (aggregation_rule_value (pol_aggregation p)))
           else if mag_is_zero (pol_aggregation_ceiling p) then
             status_error InvalidArgument ''policy aggregation ceiling'' 0
           else if \<not> pol_allow_amplification p \<and> \<not> gain_is_unity (pol_max_cumulative_gain p) then
             status_error Conflict ''gain bound without amplification'' 0
           else if \<not> pol_require_known_pressure p then
             status_error InvalidArgument ''unknown pressure can never be authorized'' 0
           else bpfab_try (thresholds_validate (pol_thresholds p))
             (bpfab_try (decay_validate (pol_recovery_decay p))
               (if pol_default_cooldown_ticks p > push_bit 40 1 then
                  status_error OutOfRange ''policy cooldown'' (pol_default_cooldown_ticks p)
                else status_success)))"

definition effective_max_hops :: "PropagationPolicy \<Rightarrow> u32 \<Rightarrow> u32" where
  "effective_max_hops p edge_override =
     (let base = (if edge_override = 0 then pol_max_hops p else edge_override)
      in if base < pol_max_hops p then base else pol_max_hops p)"

definition effective_cooldown :: "PropagationPolicy \<Rightarrow> Tick \<Rightarrow> Tick" where
  "effective_cooldown p edge_override =
     (if edge_override = 0 then pol_default_cooldown_ticks p else edge_override)"

definition policy_digest :: "PropagationPolicy \<Rightarrow> Digest128" where
  "policy_digest p =
     finish (feed
       [domain 0x50, update_u64 (id_value (pol_id p)), digest_generation (pol_generation p),
        update_u32 (pol_max_hops p), update_u32 (pol_max_fanout p), update_u32 (pol_max_expansions p),
        update_u32 (pol_max_visited p), update_u32 (pol_max_sources p), update_u32 (pol_max_records p),
        update_u32 (pol_max_path_records p), update_u32 (mag_raw (pol_min_propagatable p)),
        update_u64 (pol_lifetime_ticks p), update_u8 (aggregation_rule_value (pol_aggregation p)),
        update_u32 (mag_raw (pol_aggregation_ceiling p)), update_bool (pol_allow_amplification p),
        update_u32 (gain_raw (pol_max_cumulative_gain p)), update_u64 (pol_default_cooldown_ticks p),
        update_u32 (mag_raw (pol_hysteresis_delta p)),
        update_u32 (q16_raw (dec_per_step (pol_recovery_decay p))),
        update_u64 (dec_step_ticks (pol_recovery_decay p)),
        update_u32 (mag_raw (dec_floor (pol_recovery_decay p))),
        update_u32 (dec_max_steps (pol_recovery_decay p)),
        update_u32 (elevated_milli (pol_thresholds p)), update_u32 (high_milli (pol_thresholds p)),
        update_u32 (critical_milli (pol_thresholds p)), update_u32 (exhausted_milli (pol_thresholds p)),
        update_bool (pol_require_known_pressure p)] digest_builder)"

definition make_conservative_policy :: "PolicyId \<Rightarrow> Generation \<Rightarrow> PropagationPolicy result" where
  "make_conservative_policy i generation =
     bpfab_try_decl (mag_from_percent_milli 1000) (\<lambda>floor.
     bpfab_try_decl (q16_from_percent_milli 75000) (\<lambda>decay_step.
       let p = policy_defaults
         \<lparr>pol_id := i, pol_generation := generation, pol_max_hops := 4, pol_max_fanout := 16,
          pol_max_expansions := 1024, pol_max_visited := 256, pol_max_sources := 4,
          pol_max_records := 4096, pol_max_path_records := 64, pol_min_propagatable := floor,
          pol_lifetime_ticks := 500, pol_aggregation := AR_Max, pol_aggregation_ceiling := mag_full,
          pol_allow_amplification := False, pol_max_cumulative_gain := gain_unity,
          pol_default_cooldown_ticks := 0, pol_hysteresis_delta := mag_zero,
          pol_recovery_decay :=
            \<lparr>dec_per_step = decay_step, dec_step_ticks = 1, dec_floor = mag_zero, dec_max_steps = 32\<rparr>,
          pol_thresholds := thresholds_defaults, pol_require_known_pressure := True\<rparr>
       in bpfab_try_result (policy_validate p) (Inr p)))"

definition make_amplifying_policy ::
  "PolicyId \<Rightarrow> Generation \<Rightarrow> Gain \<Rightarrow> PropagationPolicy result" where
  "make_amplifying_policy i generation max_cumulative_gain =
     bpfab_try_decl (mag_from_percent_milli 1000) (\<lambda>floor.
     bpfab_try_decl (q16_from_percent_milli 50000) (\<lambda>decay_step.
       let p = policy_defaults
         \<lparr>pol_id := i, pol_generation := generation, pol_max_hops := 3, pol_max_fanout := 8,
          pol_max_expansions := 256, pol_max_visited := 128, pol_max_sources := 2,
          pol_max_records := 2048, pol_max_path_records := 32, pol_min_propagatable := floor,
          pol_lifetime_ticks := 250, pol_aggregation := AR_Max, pol_aggregation_ceiling := mag_full,
          pol_allow_amplification := True, pol_max_cumulative_gain := max_cumulative_gain,
          pol_default_cooldown_ticks := 0, pol_hysteresis_delta := mag_zero,
          pol_recovery_decay :=
            \<lparr>dec_per_step = decay_step, dec_step_ticks = 1, dec_floor = mag_zero, dec_max_steps = 16\<rparr>,
          pol_thresholds := thresholds_defaults, pol_require_known_pressure := True\<rparr>
       in bpfab_try_result (policy_validate p) (Inr p)))"

section \<open>What a validated policy guarantees\<close>

lemma decay_validate_ok:
  "status_ok (decay_validate d) \<longleftrightarrow>
     dec_step_ticks d \<noteq> 0 \<and> dec_max_steps d \<noteq> 0 \<and> dec_max_steps d \<le> 4096"
  by (auto simp: decay_validate_def)

lemma policy_validate_ok:
  "status_ok (policy_validate p) \<longleftrightarrow>
     id_valid (pol_id p) \<and> gen_known (pol_generation p) \<and>
     unat (pol_max_hops p) \<in> {1..64} \<and> unat (pol_max_fanout p) \<in> {1..2 ^ 16} \<and>
     unat (pol_max_expansions p) \<in> {1..2 ^ 24} \<and> unat (pol_max_visited p) \<in> {1..2 ^ 22} \<and>
     unat (pol_max_sources p) \<in> {1..2 ^ 12} \<and> unat (pol_max_records p) \<in> {1..2 ^ 20} \<and>
     unat (pol_max_path_records p) \<in> {1..unat (pol_max_records p)} \<and>
     unat (pol_max_expansions p) + unat (pol_max_visited p) \<le> unat (pol_max_records p) \<and>
     pol_lifetime_ticks p \<noteq> 0 \<and> pol_aggregation p \<noteq> AR_Count \<and>
     pol_aggregation_ceiling p \<noteq> mag_zero \<and>
     (pol_allow_amplification p \<or> gain_is_unity (pol_max_cumulative_gain p)) \<and>
     pol_require_known_pressure p \<and> status_ok (thresholds_validate (pol_thresholds p)) \<and>
     status_ok (decay_validate (pol_recovery_decay p)) \<and>
     unat (pol_default_cooldown_ticks p) \<le> 2 ^ 40"
proof -
  have z: "w = 0 \<longleftrightarrow> unat w = 0" for w :: u32 by (simp add: unat_eq_zero)
  show ?thesis
    unfolding policy_validate_def Let_def
    by (simp add: try_simps push_bit_of_1 z word_less_nat_alt unat_u32_sum mag_is_zero_iff
        Suc_le_eq not_less conj_ac)
qed

lemma effective_max_hops_le:
  "effective_max_hops p h \<le> pol_max_hops p"
  "h \<noteq> 0 \<Longrightarrow> effective_max_hops p h \<le> h"
  "effective_max_hops p h = (if h = 0 then pol_max_hops p else min h (pol_max_hops p))"
  by (auto simp: effective_max_hops_def Let_def min_def)

lemma make_conservative_policy_valid:
  "make_conservative_policy i g = Inr p \<Longrightarrow>
     status_ok (policy_validate p) \<and> \<not> pol_allow_amplification p \<and> pol_id p = i \<and> pol_generation p = g"
  by (auto simp: make_conservative_policy_def Let_def try_simps)

lemma make_amplifying_policy_valid:
  "make_amplifying_policy i g gain = Inr p \<Longrightarrow>
     status_ok (policy_validate p) \<and> pol_max_cumulative_gain p = gain \<and> pol_id p = i \<and> pol_generation p = g"
  by (auto simp: make_amplifying_policy_def Let_def try_simps)

lemma percent_milli_ok: "milli \<le> 100000 \<Longrightarrow> \<exists>q. q16_from_percent_milli milli = Inr q"
  by (simp add: q16_from_percent_milli_def Let_def not_less)

lemma mag_full_not_zero: "mag_full \<noteq> mag_zero"
  by (simp add: mag_full_def mag_zero_def q16_one_def q16_zero_def q16_kOne_def
      q16_raw_inject [symmetric])

lemma gain_is_unity_unity [simp]: "gain_is_unity gain_unity"
  by (simp add: gain_is_unity_def gain_unity_def kUnityRaw_def)

lemma make_conservative_policy_total:
  assumes "id_valid i" and "gen_known g"
  shows "\<exists>p. make_conservative_policy i g = Inr p"
proof -
  obtain q r where "q16_from_percent_milli 1000 = Inr q" "q16_from_percent_milli 75000 = Inr r"
    using percent_milli_ok [of 1000] percent_milli_ok [of 75000] by auto
  with assms show ?thesis
    by (simp add: make_conservative_policy_def mag_from_percent_milli_def Let_def bpfab_try_result_def
        policy_validate_ok thresholds_validate_ok decay_validate_ok thresholds_defaults_def mag_full_not_zero)
qed

lemma make_amplifying_policy_total:
  assumes "id_valid i" and "gen_known g"
  shows "\<exists>p. make_amplifying_policy i g gain = Inr p"
proof -
  obtain q r where "q16_from_percent_milli 1000 = Inr q" "q16_from_percent_milli 50000 = Inr r"
    using percent_milli_ok [of 1000] percent_milli_ok [of 50000] by auto
  with assms show ?thesis
    by (simp add: make_amplifying_policy_def mag_from_percent_milli_def Let_def bpfab_try_result_def
        policy_validate_ok thresholds_validate_ok decay_validate_ok thresholds_defaults_def mag_full_not_zero)
qed

section \<open>Decay never raises pressure\<close>

lemma unat_decay_step:
  fixes raw p :: u64
  assumes "unat raw \<le> 65536" and "unat p \<le> 65536"
  shows "unat (drop_bit 16 (raw * p)) = unat raw * unat p div 65536"
    and "unat (drop_bit 16 (raw * p)) \<le> unat raw"
proof -
  have "unat raw * unat p \<le> 65536 * 65536" using assms by (rule mult_le_mono)
  then have *: "unat (raw * p) = unat raw * unat p" by (intro unat_mult_no_overflow) simp
  then show "unat (drop_bit 16 (raw * p)) = unat raw * unat p div 65536"
    by (simp add: unat_drop_bit)
  moreover have "unat raw * unat p div 65536 \<le> unat raw * 65536 div 65536"
    using assms by (intro div_le_mono mult_le_mono) simp_all
  ultimately show "unat (drop_bit 16 (raw * p)) \<le> unat raw" by simp
qed

lemma decay_loop_le:
  "unat raw \<le> 65536 \<Longrightarrow> unat p \<le> 65536 \<Longrightarrow> unat (decay_loop n p raw) \<le> unat raw"
proof (induction n p raw rule: decay_loop.induct)
  case (2 n p raw)
  note s = unat_decay_step(2) [OF "2.prems"]
  then have "unat (drop_bit 16 (raw * p)) \<le> 65536" using "2.prems"(1) by linarith
  with "2" s show ?case by (cases "raw > 0") (auto dest: order_trans)
qed simp

lemma decay_loop_mono_start:
  "unat a \<le> unat b \<Longrightarrow> unat b \<le> 65536 \<Longrightarrow> unat p \<le> 65536 \<Longrightarrow>
     unat (decay_loop n p a) \<le> unat (decay_loop n p b)"
proof (induction n arbitrary: a b)
  case (Suc n)
  show ?case
  proof (cases "a > 0")
    case True
    with Suc.prems(1) have b: "b > 0" by (simp add: word_less_nat_alt)
    let ?f = "\<lambda>x. drop_bit 16 (x * p)"
    have "unat (?f a) \<le> unat (?f b)" "unat (?f b) \<le> 65536"
      using unat_decay_step [of a p] unat_decay_step [of b p] Suc.prems
      by (auto intro: div_le_mono mult_le_mono order_trans)
    with Suc True b show ?thesis by simp
  next
    case False
    then show ?thesis by (simp add: word_not_simps not_less)
  qed
qed simp

lemma decay_loop_Suc:
  "decay_loop (Suc n) p raw = decay_loop n p (if raw > 0 then drop_bit 16 (raw * p) else raw)"
  by (cases n) auto

text \<open>The decayed raw value: the loop's value, raised to the floor, never above the start.\<close>

lemma unat_decay:
  "unat (mag_raw (decay d m steps)) =
     min (unat (mag_raw m))
       (max (unat (mag_raw (dec_floor d)))
         (unat (decay_loop (min (unat steps) (unat (dec_max_steps d)))
            (ucast (q16_raw (dec_per_step d))) (ucast (mag_raw m)))))"
proof -
  let ?n = "unat (if steps > dec_max_steps d then dec_max_steps d else steps)"
  let ?l = "decay_loop ?n (ucast (q16_raw (dec_per_step d))) (ucast (mag_raw m) :: u64)"
  have n: "?n = min (unat steps) (unat (dec_max_steps d))" by (auto simp: word_less_nat_alt)
  have le: "unat ?l \<le> unat (mag_raw m)"
    using decay_loop_le [of "ucast (mag_raw m)" "ucast (q16_raw (dec_per_step d))" ?n]
    by (simp add: unat_mag_raw_le unat_q16_raw_le)
  have sat: "unat (mag_raw (mag_from_raw_q16_saturating (ucast w))) = unat w" if "unat w \<le> 65536" for w :: u64
    using that by (simp add: mag_raw_def mag_from_raw_q16_saturating_def q16_from_raw_saturating_def
        q16_kOne_def word_less_nat_alt word_le_nat_alt unat_u64_to_u32)
  show ?thesis
    unfolding decay_def Let_def n [symmetric]
    by (subst sat) (use le unat_mag_raw_le [of m] unat_mag_raw_le [of "dec_floor d"] in
      \<open>auto simp: word_less_nat_alt min_def max_def\<close>)
qed

lemma decay_le_start: "decay d m steps \<le> m"
  by (simp add: less_eq_Magnitude_def less_eq_Q16_def word_le_nat_alt unat_decay flip: mag_raw_def)

lemma decay_ge_floor: "min m (dec_floor d) \<le> decay d m steps"
  by (auto simp: min_def less_eq_Magnitude_def less_eq_Q16_def word_le_nat_alt unat_decay simp flip: mag_raw_def)

lemma decay_mono_start: "a \<le> b \<Longrightarrow> decay d a steps \<le> decay d b steps"
proof -
  assume "a \<le> b"
  then have ab: "unat (mag_raw a) \<le> unat (mag_raw b)"
    by (simp add: less_eq_Magnitude_def less_eq_Q16_def word_le_nat_alt mag_raw_def)
  then have "unat (mag_raw (decay d a steps)) \<le> unat (mag_raw (decay d b steps))"
    unfolding unat_decay
    by (intro min.mono max.mono decay_loop_mono_start) (simp_all add: unat_mag_raw_le unat_q16_raw_le)
  then show ?thesis by (simp add: less_eq_Magnitude_def less_eq_Q16_def word_le_nat_alt mag_raw_def)
qed

lemma decay_loop_antimono_steps:
  assumes "m \<le> n" and "unat raw \<le> 65536" and "unat p \<le> 65536"
  shows "unat (decay_loop n p raw) \<le> unat (decay_loop m p raw)"
  using assms
proof (induction m arbitrary: n raw)
  case 0
  then show ?case by (simp add: decay_loop_le)
next
  case (Suc m)
  then obtain k where k: "n = Suc k" "m \<le> k" by (cases n) auto
  have "unat (drop_bit 16 (raw * p)) \<le> 65536"
    using unat_decay_step(2) [OF Suc.prems(2,3)] Suc.prems(2) by linarith
  with Suc.IH [OF k(2) _ Suc.prems(3), of "drop_bit 16 (raw * p)"] show ?case by (simp add: k(1))
qed

lemma decay_antimono_steps: "s \<le> t \<Longrightarrow> decay d m t \<le> decay d m s"
proof -
  assume "s \<le> t"
  then have "unat (mag_raw (decay d m t)) \<le> unat (mag_raw (decay d m s))"
    unfolding unat_decay
    by (intro min.mono max.mono decay_loop_antimono_steps)
      (simp_all add: unat_mag_raw_le unat_q16_raw_le word_le_nat_alt)
  then show ?thesis by (simp add: less_eq_Magnitude_def less_eq_Q16_def word_le_nat_alt mag_raw_def)
qed

end
