(* ===== verification/Authority.thy ===== *)
theory Authority
  imports Generations Fixed
begin

text \<open>
  Authority vectors: \<open>include/backpressure/model/authority.hpp\<close>.

  The fixed array \<open>items\<close> of an \<open>AuthorityScope\<close> together with its \<open>count\<close> is the list of
  the first \<open>count\<close> items: the code never reads past them and never shrinks them.
\<close>

section \<open>Levels and scopes\<close>

datatype AuthorityLevel = AL_None | Observer | Local | Scoped | Global | AL_Count

fun authority_level_value :: "AuthorityLevel \<Rightarrow> u8" where
  "authority_level_value AL_None = 0"
| "authority_level_value Observer = 1"
| "authority_level_value Local = 2"
| "authority_level_value Scoped = 3"
| "authority_level_value Global = 4"
| "authority_level_value AL_Count = 5"

fun authority_level_to_string :: "AuthorityLevel \<Rightarrow> string" where
  "authority_level_to_string AL_None = ''None''"
| "authority_level_to_string Observer = ''Observer''"
| "authority_level_to_string Local = ''Local''"
| "authority_level_to_string Scoped = ''Scoped''"
| "authority_level_to_string Global = ''Global''"
| "authority_level_to_string AL_Count = ''Invalid''"

definition kMaxEntries :: nat where
  "kMaxEntries = 64"

type_synonym AuthorityScope = "ResourceId list"

definition scope_contains :: "AuthorityScope \<Rightarrow> ResourceId \<Rightarrow> bool" where
  "scope_contains scope i = list_ex (\<lambda>x. x = i) scope"

definition scope_add :: "AuthorityScope \<Rightarrow> ResourceId \<Rightarrow> Status \<times> AuthorityScope" where
  "scope_add scope i =
     (if \<not> id_valid i then (status_error InvalidArgument ''scope id'' 0, scope)
      else if list_ex (\<lambda>x. x = i) scope then (status_success, scope)
      else if length scope \<ge> kMaxEntries then
        (status_error LimitExceeded ''authority scope'' (of_nat (length scope)), scope)
      else (status_success, scope @ [i]))"

section \<open>The authority vector\<close>

record AuthorityVector =
  auth_level :: AuthorityLevel
  auth_epoch :: Epoch
  auth_policy_generation :: Generation
  auth_scope :: AuthorityScope
  auth_max_hops_granted :: u32
  auth_amplification_authorized :: bool
  auth_max_gain :: Gain
  auth_expires_at :: Tick

definition authority_none :: AuthorityVector where
  "authority_none =
     \<lparr>auth_level = AL_None, auth_epoch = epoch_none, auth_policy_generation = gen_unknown,
      auth_scope = [], auth_max_hops_granted = 0, auth_amplification_authorized = False,
      auth_max_gain = gain_unity, auth_expires_at = kNoTick\<rparr>"

definition make_global :: "Epoch \<Rightarrow> Generation \<Rightarrow> u32 \<Rightarrow> AuthorityVector" where
  "make_global epoch policy max_hops = authority_none
     \<lparr>auth_level := Global, auth_epoch := epoch, auth_policy_generation := policy,
      auth_max_hops_granted := max_hops\<rparr>"

definition authority_validate :: "AuthorityVector \<Rightarrow> Status" where
  "authority_validate a =
     (if auth_level a = AL_Count then
        status_error InvalidArgument ''authority level'' (ucast (authority_level_value (auth_level a)))
      else if auth_level a = AL_None then status_error Unauthorized ''authority is None'' 0
      else if \<not> epoch_known (auth_epoch a) then status_error Unauthorized ''authority epoch unbound'' 0
      else if auth_level a = Scoped \<and> auth_scope a = [] then
        status_error Unauthorized ''scoped authority without scope'' 0
      else if auth_level a \<noteq> Global \<and> auth_max_hops_granted a = 0 then
        status_error Unauthorized ''authority without hop budget'' 0
      else if auth_amplification_authorized a \<and> gain_is_unity (auth_max_gain a) then
        status_error InvalidArgument ''amplification authorized without gain'' 0
      else status_success)"

definition permits_propagation :: "AuthorityVector \<Rightarrow> bool" where
  "permits_propagation a \<longleftrightarrow> auth_level a = Local \<or> auth_level a = Scoped \<or> auth_level a = Global"

definition covers :: "AuthorityVector \<Rightarrow> ResourceId \<Rightarrow> bool" where
  "covers a target =
     (case auth_level a of
        Global \<Rightarrow> True
      | Scoped \<Rightarrow> scope_contains (auth_scope a) target
      | Local \<Rightarrow> scope_contains (auth_scope a) target
      | Observer \<Rightarrow> False
      | AL_None \<Rightarrow> False
      | AL_Count \<Rightarrow> False)"

definition authority_expired_at :: "AuthorityVector \<Rightarrow> Tick \<Rightarrow> bool" where
  "authority_expired_at a now \<longleftrightarrow> auth_expires_at a \<noteq> kNoTick \<and> now > auth_expires_at a"

definition authority_check :: "AuthorityVector \<Rightarrow> Tick \<Rightarrow> Epoch \<Rightarrow> ResourceId \<Rightarrow> Status" where
  "authority_check a now live_epoch target =
     bpfab_try (authority_validate a)
       (if live_epoch \<noteq> auth_epoch a then
          status_error StaleEpoch ''authority epoch'' (epoch_value (auth_epoch a))
        else if authority_expired_at a now then
          status_error Expired ''authority expired'' (auth_expires_at a)
        else if \<not> covers a target then
          status_error Unauthorized ''authority scope'' (id_value target)
        else status_success)"

definition authority_digest :: "AuthorityVector \<Rightarrow> Digest128" where
  "authority_digest a =
     finish (feed
       ([domain 0x20, update_u8 (authority_level_value (auth_level a)), digest_epoch (auth_epoch a),
         digest_generation (auth_policy_generation a), update_u32 (of_nat (length (auth_scope a)))] @
        map (\<lambda>i. update_u64 (id_value i)) (auth_scope a) @
        [update_u32 (auth_max_hops_granted a), update_bool (auth_amplification_authorized a),
         update_u32 (gain_raw (auth_max_gain a)), update_u64 (auth_expires_at a)])
       digest_builder)"

section \<open>Scopes are bounded sets\<close>

definition scope_inv :: "AuthorityScope \<Rightarrow> bool" where
  "scope_inv scope \<longleftrightarrow> distinct scope \<and> length scope \<le> kMaxEntries \<and> list_all id_valid scope"

lemma scope_contains_iff [simp]: "scope_contains scope i \<longleftrightarrow> i \<in> set scope"
  by (simp add: scope_contains_def list_ex_iff)

lemma scope_add_inv: "scope_inv scope \<Longrightarrow> scope_inv (snd (scope_add scope i))"
  by (auto simp: scope_inv_def scope_add_def list_ex_iff)

lemma scope_add_contains:
  assumes "scope_add scope i = (s, scope')" and "status_ok s"
  shows "scope_contains scope' j \<longleftrightarrow> scope_contains scope j \<or> j = i"
  using assms by (auto simp: scope_add_def list_ex_iff split: if_splits)

lemma scope_add_refused: "scope_add scope i = (s, scope') \<Longrightarrow> \<not> status_ok s \<Longrightarrow> scope' = scope"
  by (auto simp: scope_add_def split: if_splits)

section \<open>The authority decision\<close>

lemma authority_validate_ok:
  "status_ok (authority_validate a) \<longleftrightarrow>
     auth_level a \<notin> {AL_None, AL_Count} \<and> epoch_known (auth_epoch a) \<and>
     (auth_level a = Scoped \<longrightarrow> auth_scope a \<noteq> []) \<and>
     (auth_level a \<noteq> Global \<longrightarrow> 0 < auth_max_hops_granted a) \<and>
     (auth_amplification_authorized a \<longrightarrow> \<not> gain_is_unity (auth_max_gain a))"
  by (auto simp: authority_validate_def word_gt_0)

lemma covers_permits: "covers a target \<Longrightarrow> permits_propagation a"
  by (auto simp: covers_def permits_propagation_def split: AuthorityLevel.splits)

lemma covers_iff:
  "covers a target \<longleftrightarrow>
     auth_level a = Global \<or> (auth_level a \<in> {Local, Scoped} \<and> target \<in> set (auth_scope a))"
  by (auto simp: covers_def split: AuthorityLevel.splits)

lemma authority_check_ok:
  "status_ok (authority_check a now live target) \<longleftrightarrow>
     status_ok (authority_validate a) \<and> auth_epoch a = live \<and>
     (auth_expires_at a = kNoTick \<or> now \<le> auth_expires_at a) \<and> covers a target"
  by (auto simp: authority_check_def bpfab_try_def authority_expired_at_def)

end
