(* ===== verification/Signal.thy ===== *)
theory Signal
  imports Policy Authority
begin

text \<open>
  Pressure signals and their provenance: \<open>include/backpressure/model/signal.hpp\<close> and
  \<open>src/model/signal.cpp\<close>.

  The array \<open>hops\<close> of a \<open>Provenance\<close> and its \<open>count\<close> are the list of the first \<open>count\<close>
  hops. \<open>latest\<close> of an empty chain is the default hop, the first element of the array.
\<close>

section \<open>Provenance\<close>

record ProvenanceHop =
  hop_publisher :: Incarnation
  hop_epoch :: Epoch
  hop_generation :: Generation
  hop_tick :: Tick
  hop_propagation :: PropagationId
  hop_parent :: Digest128

definition provenance_hop :: ProvenanceHop where
  "provenance_hop =
     \<lparr>hop_publisher = incarnation_none, hop_epoch = epoch_none, hop_generation = gen_unknown,
      hop_tick = kNoTick, hop_propagation = id_invalid, hop_parent = digest_zero\<rparr>"

definition kMaxChain :: nat where
  "kMaxChain = 16"

record Provenance =
  prov_hops :: "ProvenanceHop list"
  prov_dropped_prefix :: Digest128
  prov_evictions :: u64

definition provenance_empty :: Provenance where
  "provenance_empty = \<lparr>prov_hops = [], prov_dropped_prefix = digest_zero, prov_evictions = 0\<rparr>"

definition digest_hop :: "ProvenanceHop \<Rightarrow> DigestBuilder \<Rightarrow> DigestBuilder" where
  "digest_hop h b =
     feed [domain 0x71, digest_incarnation (hop_publisher h), digest_epoch (hop_epoch h),
           digest_generation (hop_generation h), update_u64 (hop_tick h),
           update_u64 (id_value (hop_propagation h)), update_digest (hop_parent h)] b"

definition provenance_push :: "Provenance \<Rightarrow> ProvenanceHop \<Rightarrow> Provenance" where
  "provenance_push p hop =
     (if length (prov_hops p) < kMaxChain then p\<lparr>prov_hops := prov_hops p @ [hop]\<rparr>
      else p\<lparr>prov_dropped_prefix :=
               finish (feed [domain 0x72, update_digest (prov_dropped_prefix p),
                 update_u64 (prov_evictions p), digest_hop (prov_hops p ! 0)] digest_builder),
             prov_hops := tl (prov_hops p) @ [hop],
             prov_evictions := prov_evictions p + 1\<rparr>)"

definition provenance_is_empty :: "Provenance \<Rightarrow> bool" where
  "provenance_is_empty p \<longleftrightarrow> prov_hops p = []"

definition latest :: "Provenance \<Rightarrow> ProvenanceHop" where
  "latest p = (if prov_hops p = [] then provenance_hop else prov_hops p ! (length (prov_hops p) - 1))"

definition chain_digest :: "Provenance \<Rightarrow> Digest128" where
  "chain_digest p =
     finish (feed
       ([domain 0x73, update_digest (prov_dropped_prefix p), update_u64 (prov_evictions p),
         update_u32 (of_nat (length (prov_hops p)))] @ map digest_hop (prov_hops p)) digest_builder)"

section \<open>Signals\<close>

record PressureSignal =
  sig_id :: SignalId
  sig_source :: SourceId
  sig_origin :: ResourceId
  sig_observation :: PressureObservation
  sig_origin_generation :: Generation
  sig_topology_digest :: Digest128
  sig_epoch :: Epoch
  sig_publisher :: Incarnation
  sig_issued_at :: Tick
  sig_valid_until :: Tick
  sig_authority :: AuthorityVector
  sig_provenance :: Provenance
  sig_lineage :: Digest128
  sig_source_priority :: u32
  sig_weight_q16 :: u32

definition compute_lineage :: "PressureSignal \<Rightarrow> Digest128" where
  "compute_lineage s =
     finish (feed
       [domain 0x74, update_u64 (id_value (sig_id s)), update_u64 (id_value (sig_source s)),
        update_u64 (id_value (sig_origin s)),
        update_u8 (severity_value (obs_severity (sig_observation s))),
        update_u32 (mag_raw (obs_magnitude (sig_observation s))),
        update_bool (has_evidence (sig_observation s)),
        update_bool (obs_downgraded (sig_observation s)),
        digest_generation (sig_origin_generation s), update_digest (sig_topology_digest s),
        digest_epoch (sig_epoch s), update_u64 (sig_issued_at s), update_u64 (sig_valid_until s),
        update_u32 (sig_source_priority s), update_u32 (sig_weight_q16 s),
        update_digest (authority_digest (sig_authority s)),
        update_digest (chain_digest (sig_provenance s))] digest_builder)"

definition bind_lineage :: "PressureSignal \<Rightarrow> Digest128 \<times> PressureSignal" where
  "bind_lineage s = (let s' = s\<lparr>sig_lineage := compute_lineage s\<rparr> in (sig_lineage s', s'))"

definition deadline :: "PressureSignal \<Rightarrow> PropagationPolicy \<Rightarrow> Tick" where
  "deadline s p =
     (if sig_valid_until s \<noteq> kNoTick then sig_valid_until s
      else if sig_issued_at s > max_of_u64 - pol_lifetime_ticks p then max_of_u64
      else sig_issued_at s + pol_lifetime_ticks p)"

definition is_expired :: "PressureSignal \<Rightarrow> Tick \<Rightarrow> PropagationPolicy \<Rightarrow> bool" where
  "is_expired s now p \<longleftrightarrow> now > deadline s p"

definition signal_validate :: "PressureSignal \<Rightarrow> PropagationPolicy \<Rightarrow> Tick \<Rightarrow> Status" where
  "signal_validate s policy now =
     bpfab_try (policy_validate policy)
      (if \<not> id_valid (sig_id s) then status_error InvalidArgument ''signal id'' 0
       else if \<not> id_valid (sig_source s) then status_error InvalidArgument ''signal source'' 0
       else if \<not> id_valid (sig_origin s) then status_error InvalidArgument ''signal origin'' 0
       else if \<not> gen_known (sig_origin_generation s) then
         status_error StaleGeneration ''signal origin generation unbound'' 0
       else if \<not> epoch_known (sig_epoch s) then status_error StaleEpoch ''signal epoch unbound'' 0
       else if digest_is_zero (sig_topology_digest s) then
         status_error StaleGeneration ''signal topology unbound'' 0
       else if \<not> inc_valid (sig_publisher s) then
         status_error StaleIncarnation ''signal publisher unbound'' 0
       else if provenance_is_empty (sig_provenance s) then
         status_error InvalidArgument ''signal provenance empty'' 0
       else if \<not> can_authorize_propagation (sig_observation s) then
         status_error UnknownPressure ''signal observation unknown'' 0
       else bpfab_try (authority_validate (sig_authority s))
        (if auth_epoch (sig_authority s) \<noteq> sig_epoch s then
           status_error StaleEpoch ''authority signal epoch mismatch''
             (epoch_value (auth_epoch (sig_authority s)))
         else if auth_policy_generation (sig_authority s) \<noteq> pol_generation policy then
           status_error StaleGeneration ''authority policy generation mismatch''
             (gen_value (auth_policy_generation (sig_authority s)))
         else if \<not> permits_propagation (sig_authority s) then
           status_error Unauthorized ''authority permits no propagation''
             (ucast (authority_level_value (auth_level (sig_authority s))))
         else if sig_weight_q16 s > 65536 then
           status_error OutOfRange ''signal weight'' (ucast (sig_weight_q16 s))
         else if digest_is_zero (sig_lineage s) then
           status_error InvalidArgument ''signal lineage unbound'' 0
         else if is_expired s now policy then
           status_error Expired ''signal expired'' (deadline s policy)
         else status_success))"

section \<open>What a validated signal guarantees\<close>

lemma signal_validate_ok:
  "status_ok (signal_validate s policy now) \<longleftrightarrow>
     status_ok (policy_validate policy) \<and>
     id_valid (sig_id s) \<and> id_valid (sig_source s) \<and> id_valid (sig_origin s) \<and>
     gen_known (sig_origin_generation s) \<and> epoch_known (sig_epoch s) \<and>
     \<not> digest_is_zero (sig_topology_digest s) \<and> inc_valid (sig_publisher s) \<and>
     prov_hops (sig_provenance s) \<noteq> [] \<and> can_authorize_propagation (sig_observation s) \<and>
     status_ok (authority_validate (sig_authority s)) \<and>
     auth_epoch (sig_authority s) = sig_epoch s \<and>
     auth_policy_generation (sig_authority s) = pol_generation policy \<and>
     permits_propagation (sig_authority s) \<and> sig_weight_q16 s \<le> 65536 \<and>
     \<not> digest_is_zero (sig_lineage s) \<and> now \<le> deadline s policy"
  by (simp add: signal_validate_def try_simps provenance_is_empty_def is_expired_def not_less)

text \<open>The implicit deadline is exact and saturates instead of wrapping.\<close>

lemma unat_deadline:
  "unat (deadline s p) =
     (if sig_valid_until s \<noteq> kNoTick then unat (sig_valid_until s)
      else min (unat (sig_issued_at s) + unat (pol_lifetime_ticks p)) (2 ^ 64 - 1))"
proof -
  have o: "sig_issued_at s > max_of_u64 - pol_lifetime_ticks p \<longleftrightarrow>
      unat (sig_issued_at s) + unat (pol_lifetime_ticks p) \<ge> 2 ^ 64"
    using add_overflows_u64_iff by (simp add: add_overflows_u64_def)
  have m: "unat max_of_u64 = 2 ^ 64 - 1"
    by (simp add: max_of_u64_def unsigned_minus_1_eq_mask mask_eq_exp_minus_1)
  show ?thesis unfolding deadline_def o
    by (auto simp: m unat_add_no_overflow)
qed

section \<open>Provenance chains stay bounded\<close>

lemma provenance_push_bounded:
  "length (prov_hops p) \<le> kMaxChain \<Longrightarrow> length (prov_hops (provenance_push p h)) \<le> kMaxChain"
  by (auto simp: provenance_push_def kMaxChain_def)

lemma latest_push: "length (prov_hops p) \<le> kMaxChain \<Longrightarrow> latest (provenance_push p h) = h"
  by (auto simp: provenance_push_def latest_def nth_append kMaxChain_def)

text \<open>After any number of pushes the chain is the last sixteen hops, the rest are counted.\<close>

lemma provenance_push_all:
  "prov_hops (foldl provenance_push provenance_empty hs) = drop (length hs - kMaxChain) hs \<and>
   prov_evictions (foldl provenance_push provenance_empty hs) = of_nat (length hs - kMaxChain)"
proof (induction hs rule: rev_induct)
  case Nil
  show ?case by (simp add: provenance_empty_def)
next
  case (snoc h hs)
  show ?case
  proof (cases "length hs < kMaxChain")
    case True
    with snoc show ?thesis by (simp add: provenance_push_def)
  next
    case False
    then have "Suc (length hs) - kMaxChain = Suc (length hs - kMaxChain)" by simp
    moreover have "length hs - (length hs - kMaxChain) = kMaxChain" using False by simp
    moreover have "Suc 0 - kMaxChain = 0" by (simp add: kMaxChain_def)
    ultimately show ?thesis using snoc False
      by (simp add: provenance_push_def tl_drop drop_Suc add.commute)
  qed
qed

lemma bind_lineage_bound: "bind_lineage s = (d, s') \<Longrightarrow> \<not> digest_is_zero (sig_lineage s') \<and> d = sig_lineage s'"
  by (auto simp: bind_lineage_def Let_def compute_lineage_def)

end
