(* ===== verification/Fence.thy ===== *)
theory Fence
  imports Generations
begin

text \<open>
  Fences and the bounded fence table: \<open>include/backpressure/model/fence.hpp\<close>.

  A \<open>FenceTable\<close> is its vector of fences. The methods that change it return the new table,
  and the count or status the method returns.
\<close>

section \<open>Fences\<close>

datatype FenceKind = RefuseIngress | RefuseEgress | FK_Barrier | FK_Count

fun fence_kind_value :: "FenceKind \<Rightarrow> u8" where
  "fence_kind_value RefuseIngress = 0"
| "fence_kind_value RefuseEgress = 1"
| "fence_kind_value FK_Barrier = 2"
| "fence_kind_value FK_Count = 3"

fun fence_kind_to_string :: "FenceKind \<Rightarrow> string" where
  "fence_kind_to_string RefuseIngress = ''RefuseIngress''"
| "fence_kind_to_string RefuseEgress = ''RefuseEgress''"
| "fence_kind_to_string FK_Barrier = ''Barrier''"
| "fence_kind_to_string FK_Count = ''Invalid''"

record Fence =
  fence_id :: FenceId
  fence_resource :: ResourceId
  fence_kind :: FenceKind
  fence_epoch :: Epoch
  fence_dependency_generation :: Generation
  fence_expires_at :: Tick
  fence_durable :: bool
  fence_provenance :: Digest128

definition fence_validate :: "Fence \<Rightarrow> Status" where
  "fence_validate f =
     (if \<not> id_valid (fence_id f) then status_error InvalidArgument ''fence id'' 0
      else if \<not> id_valid (fence_resource f) then status_error InvalidArgument ''fence resource'' 0
      else if fence_kind f = FK_Count then
        status_error InvalidArgument ''fence kind'' (ucast (fence_kind_value (fence_kind f)))
      else if \<not> epoch_known (fence_epoch f) then status_error StaleEpoch ''fence epoch unbound'' 0
      else status_success)"

definition refuses_ingress :: "Fence \<Rightarrow> bool" where
  "refuses_ingress f \<longleftrightarrow> fence_kind f = RefuseIngress \<or> fence_kind f = FK_Barrier"

definition refuses_egress :: "Fence \<Rightarrow> bool" where
  "refuses_egress f \<longleftrightarrow> fence_kind f = RefuseEgress \<or> fence_kind f = FK_Barrier"

definition fence_expired_at :: "Fence \<Rightarrow> Tick \<Rightarrow> bool" where
  "fence_expired_at f now \<longleftrightarrow> fence_expires_at f \<noteq> kNoTick \<and> now > fence_expires_at f"

definition strength :: "Fence \<Rightarrow> int" where
  "strength f = (if fence_kind f = FK_Barrier then 2 else 1)"

section \<open>The fence table\<close>

type_synonym FenceTable = "Fence list"

definition kMaxFences :: nat where
  "kMaxFences = 4096"

fun fence_replace :: "FenceTable \<Rightarrow> Fence \<Rightarrow> FenceTable option" where
  "fence_replace [] f = None"
| "fence_replace (e # es) f =
     (if fence_id e = fence_id f then Some (f # es) else map_option ((#) e) (fence_replace es f))"

definition fence_add :: "FenceTable \<Rightarrow> Fence \<Rightarrow> Status \<times> FenceTable" where
  "fence_add fs f =
     (if \<not> status_ok (fence_validate f) then (fence_validate f, fs)
      else case fence_replace fs f of
        Some fs' \<Rightarrow> (status_success, fs')
      | None \<Rightarrow>
          if length fs \<ge> kMaxFences then (status_error LimitExceeded ''fence table'' (of_nat (length fs)), fs)
          else (status_success, fs @ [f]))"

fun fence_erase :: "FenceTable \<Rightarrow> FenceId \<Rightarrow> FenceTable option" where
  "fence_erase [] i = None"
| "fence_erase (e # es) i =
     (if fence_id e = i then Some es else map_option ((#) e) (fence_erase es i))"

definition fence_remove :: "FenceTable \<Rightarrow> FenceId \<Rightarrow> Status \<times> FenceTable" where
  "fence_remove fs i =
     (case fence_erase fs i of
        None \<Rightarrow> (status_error NotFound ''fence'' (id_value i), fs)
      | Some fs' \<Rightarrow> (status_success, fs'))"

fun governing_loop :: "ResourceId \<Rightarrow> Tick \<Rightarrow> FenceTable \<Rightarrow> Fence option \<Rightarrow> Fence option" where
  "governing_loop resource now [] best = best"
| "governing_loop resource now (f # fs) best =
     (if fence_resource f \<noteq> resource \<or> fence_expired_at f now then governing_loop resource now fs best
      else governing_loop resource now fs
        (case best of
           None \<Rightarrow> Some f
         | Some b \<Rightarrow> if strength f > strength b then Some f else Some b))"

definition governing :: "FenceTable \<Rightarrow> ResourceId \<Rightarrow> Tick \<Rightarrow> Fence option" where
  "governing fs resource now = governing_loop resource now fs None"

definition purge_stale :: "FenceTable \<Rightarrow> Epoch \<Rightarrow> nat \<times> FenceTable" where
  "purge_stale fs live_epoch =
     (let fs' = filter (\<lambda>f. \<not> (\<not> fence_durable f \<and> fence_epoch f \<noteq> live_epoch)) fs
      in (length fs - length fs', fs'))"

fun rebind_durable :: "FenceTable \<Rightarrow> Epoch \<Rightarrow> nat \<times> FenceTable" where
  "rebind_durable [] live_epoch = (0, [])"
| "rebind_durable (f # fs) live_epoch =
     (let (rebound, fs') = rebind_durable fs live_epoch
      in if fence_durable f \<and> fence_epoch f \<noteq> live_epoch
         then (Suc rebound, f\<lparr>fence_epoch := live_epoch\<rparr> # fs') else (rebound, f # fs'))"

definition fence_expire :: "FenceTable \<Rightarrow> Tick \<Rightarrow> nat \<times> FenceTable" where
  "fence_expire fs now =
     (let fs' = filter (\<lambda>f. \<not> fence_expired_at f now) fs in (length fs - length fs', fs'))"

section \<open>The table invariant\<close>

definition fence_table_inv :: "FenceTable \<Rightarrow> bool" where
  "fence_table_inv fs \<longleftrightarrow>
     distinct (map fence_id fs) \<and> length fs \<le> kMaxFences \<and> (\<forall>f \<in> set fs. status_ok (fence_validate f))"

lemma fence_validate_ok:
  "status_ok (fence_validate f) \<longleftrightarrow>
     id_valid (fence_id f) \<and> id_valid (fence_resource f) \<and> fence_kind f \<noteq> FK_Count \<and>
     epoch_known (fence_epoch f)"
  by (auto simp: fence_validate_def)

lemma fence_replace_None: "fence_replace fs f = None \<longleftrightarrow> fence_id f \<notin> fence_id ` set fs"
  by (induction fs) auto

lemma fence_replace_Some:
  "fence_replace fs f = Some fs' \<Longrightarrow>
     map fence_id fs' = map fence_id fs \<and> set fs' \<subseteq> insert f (set fs) \<and> f \<in> set fs' \<and>
     {x \<in> set fs. fence_id x \<noteq> fence_id f} \<subseteq> set fs'"
  by (induction fs arbitrary: fs') (auto split: if_splits)

lemma fence_erase_Some:
  "fence_erase fs i = Some fs' \<Longrightarrow> distinct (map fence_id fs) \<Longrightarrow>
     fs' = filter (\<lambda>f. fence_id f \<noteq> i) fs \<and> i \<in> fence_id ` set fs"
proof (induction fs arbitrary: fs')
  case (Cons e es)
  show ?case
  proof (cases "fence_id e = i")
    case True
    with Cons.prems have "fs' = es" "\<forall>f \<in> set es. fence_id f \<noteq> i" by (auto simp: image_iff)
    with True show ?thesis by (simp add: filter_id_conv)
  next
    case False
    with Cons show ?thesis by auto
  qed
qed simp

lemma fence_erase_None: "fence_erase fs i = None \<longleftrightarrow> i \<notin> fence_id ` set fs"
  by (induction fs) auto

lemma fence_add_inv:
  assumes "fence_table_inv fs"
  shows "fence_table_inv (snd (fence_add fs f))"
proof (cases "fence_replace fs f")
  case None
  moreover from None have "fence_id f \<notin> fence_id ` set fs" by (simp add: fence_replace_None)
  ultimately show ?thesis using assms by (auto simp: fence_add_def fence_table_inv_def)
next
  case (Some fs')
  have "length fs' = length fs" using fence_replace_Some [OF Some] by (metis length_map)
  with fence_replace_Some [OF Some] assms show ?thesis
    by (auto simp: fence_add_def fence_table_inv_def Some)
qed

lemma fence_remove_inv: "fence_table_inv fs \<Longrightarrow> fence_table_inv (snd (fence_remove fs i))"
  by (auto simp: fence_remove_def fence_table_inv_def distinct_map_filterI le_trans [OF length_filter_le]
      dest: fence_erase_Some split: option.splits)

lemma purge_stale_inv: "fence_table_inv fs \<Longrightarrow> fence_table_inv (snd (purge_stale fs e))"
  by (auto simp: purge_stale_def fence_table_inv_def Let_def distinct_map_filterI
      le_trans [OF length_filter_le])

lemma fence_expire_inv: "fence_table_inv fs \<Longrightarrow> fence_table_inv (snd (fence_expire fs now))"
  by (auto simp: fence_expire_def fence_table_inv_def Let_def distinct_map_filterI
      le_trans [OF length_filter_le])

lemma rebind_durable_map:
  "snd (rebind_durable fs e) =
     map (\<lambda>f. if fence_durable f \<and> fence_epoch f \<noteq> e then f\<lparr>fence_epoch := e\<rparr> else f) fs"
  "fst (rebind_durable fs e) = length (filter (\<lambda>f. fence_durable f \<and> fence_epoch f \<noteq> e) fs)"
  by (induction fs) (auto simp: Let_def split: prod.splits)

lemma rebind_durable_inv:
  assumes "fence_table_inv fs" and "epoch_known e"
  shows "fence_table_inv (snd (rebind_durable fs e))"
proof -
  have "map fence_id (snd (rebind_durable fs e)) = map fence_id fs"
    by (simp add: rebind_durable_map)
  then have "distinct (map fence_id (snd (rebind_durable fs e)))"
    using assms(1) by (simp only: fence_table_inv_def)
  with assms show ?thesis
    by (auto simp: fence_table_inv_def rebind_durable_map(1) fence_validate_ok simp del: map_map)
qed

section \<open>The governing fence\<close>

definition fence_live :: "Fence \<Rightarrow> ResourceId \<Rightarrow> Tick \<Rightarrow> bool" where
  "fence_live f resource now \<longleftrightarrow> fence_resource f = resource \<and> \<not> fence_expired_at f now"

lemma governing_loop_spec:
  "case governing_loop resource now fs best of
     None \<Rightarrow> best = None \<and> (\<forall>f \<in> set fs. \<not> fence_live f resource now)
   | Some b \<Rightarrow> (best = Some b \<or> (b \<in> set fs \<and> fence_live b resource now)) \<and>
       (\<forall>f \<in> set fs. fence_live f resource now \<longrightarrow> strength f \<le> strength b) \<and>
       (\<forall>b0. best = Some b0 \<longrightarrow> strength b0 \<le> strength b)"
proof (induction fs arbitrary: best)
  case (Cons f fs)
  show ?case
  proof (cases "fence_live f resource now")
    case True
    define best' where "best' = (case best of None \<Rightarrow> Some f | Some b \<Rightarrow> if strength f > strength b then Some f else Some b)"
    from True have "governing_loop resource now (f # fs) best = governing_loop resource now fs best'"
      by (simp add: fence_live_def best'_def)
    with Cons.IH [of best'] True show ?thesis
      by (fastforce simp: best'_def split: option.splits if_splits)
  next
    case False
    with Cons.IH [of best] show ?thesis by (auto simp: fence_live_def split: option.splits)
  qed
qed (simp split: option.splits)

lemma governing_None_iff:
  "governing fs resource now = None \<longleftrightarrow> (\<forall>f \<in> set fs. \<not> fence_live f resource now)"
  using governing_loop_spec [where resource = resource and now = now and fs = fs and best = None]
  by (auto simp: governing_def split: option.splits)

lemma governing_strongest:
  assumes "governing fs resource now = Some b"
  shows "b \<in> set fs" and "fence_live b resource now"
    and "\<And>f. f \<in> set fs \<Longrightarrow> fence_live f resource now \<Longrightarrow> strength f \<le> strength b"
  using governing_loop_spec [where resource = resource and now = now and fs = fs and best = None] assms
  by (auto simp: governing_def)

text \<open>A live barrier always governs, so neither refusal is lost to a weaker fence.\<close>

lemma governing_barrier:
  assumes "f \<in> set fs" and "fence_live f resource now" and "fence_kind f = FK_Barrier"
  shows "\<exists>b. governing fs resource now = Some b \<and> refuses_ingress b \<and> refuses_egress b"
proof -
  obtain b where b: "governing fs resource now = Some b"
    using assms governing_None_iff [of fs resource now] by (cases "governing fs resource now") auto
  with governing_strongest(3) [OF b assms(1,2)] assms(3) have "fence_kind b = FK_Barrier"
    by (auto simp: strength_def split: if_splits)
  with b show ?thesis by (auto simp: refuses_ingress_def refuses_egress_def)
qed

end
