(* ===== verification/Explain.thy ===== *)
theory Explain
  imports Signal Fence
begin

text \<open>
  Explanation records: \<open>include/backpressure/engine/explain.hpp\<close> and
  \<open>src/engine/explain.cpp\<close>. \<open>finalize\<close> commits an explanation to its fingerprint.
\<close>

section \<open>Verdicts and reasons\<close>

datatype HopVerdict =
  HV_Propagated | HV_Amplified | HV_Clamped | HV_Suppressed | HV_Fenced | HV_LoopPrevented
  | HV_Idempotent | HV_Stale | HV_Unauthorized | HV_Count

fun hop_verdict_value :: "HopVerdict \<Rightarrow> u8" where
  "hop_verdict_value HV_Propagated = 0"
| "hop_verdict_value HV_Amplified = 1"
| "hop_verdict_value HV_Clamped = 2"
| "hop_verdict_value HV_Suppressed = 3"
| "hop_verdict_value HV_Fenced = 4"
| "hop_verdict_value HV_LoopPrevented = 5"
| "hop_verdict_value HV_Idempotent = 6"
| "hop_verdict_value HV_Stale = 7"
| "hop_verdict_value HV_Unauthorized = 8"
| "hop_verdict_value HV_Count = 9"

fun hop_verdict_to_string :: "HopVerdict \<Rightarrow> string" where
  "hop_verdict_to_string HV_Propagated = ''Propagated''"
| "hop_verdict_to_string HV_Amplified = ''Amplified''"
| "hop_verdict_to_string HV_Clamped = ''Clamped''"
| "hop_verdict_to_string HV_Suppressed = ''Suppressed''"
| "hop_verdict_to_string HV_Fenced = ''Fenced''"
| "hop_verdict_to_string HV_LoopPrevented = ''LoopPrevented''"
| "hop_verdict_to_string HV_Idempotent = ''Idempotent''"
| "hop_verdict_to_string HV_Stale = ''Stale''"
| "hop_verdict_to_string HV_Unauthorized = ''Unauthorized''"
| "hop_verdict_to_string HV_Count = ''Invalid''"

datatype SuppressionReason =
  SR_None | SR_BelowFloor | SR_MaxHops | SR_MaxFanout | SR_NodeAlreadySettled | SR_DuplicateLineage
  | SR_ProtectedBoundary | SR_SealedResource | SR_ObservedOnlyResource | SR_MissingResource
  | SR_StaleDependencyGeneration | SR_StaleTopology | SR_Fenced | SR_CooldownActive
  | SR_HysteresisNotExceeded | SR_UnauthorizedScope | SR_AmplificationNotAuthorized
  | SR_AmplificationBudgetExhausted | SR_LifetimeExpired | SR_ExpansionBudgetExhausted
  | SR_VisitedBudgetExhausted | SR_RecordBudgetExhausted | SR_RecoveryOnlyEdge | SR_ZeroAttenuation
  | SR_SourceLimitExceeded | SR_DuplicateSource | SR_Count

definition all_reasons :: "SuppressionReason list" where
  "all_reasons =
     [SR_None, SR_BelowFloor, SR_MaxHops, SR_MaxFanout, SR_NodeAlreadySettled, SR_DuplicateLineage,
      SR_ProtectedBoundary, SR_SealedResource, SR_ObservedOnlyResource, SR_MissingResource,
      SR_StaleDependencyGeneration, SR_StaleTopology, SR_Fenced, SR_CooldownActive,
      SR_HysteresisNotExceeded, SR_UnauthorizedScope, SR_AmplificationNotAuthorized,
      SR_AmplificationBudgetExhausted, SR_LifetimeExpired, SR_ExpansionBudgetExhausted,
      SR_VisitedBudgetExhausted, SR_RecordBudgetExhausted, SR_RecoveryOnlyEdge, SR_ZeroAttenuation,
      SR_SourceLimitExceeded, SR_DuplicateSource]"

fun reason_value :: "SuppressionReason \<Rightarrow> nat" where
  "reason_value SR_None = 0"
| "reason_value SR_BelowFloor = 1"
| "reason_value SR_MaxHops = 2"
| "reason_value SR_MaxFanout = 3"
| "reason_value SR_NodeAlreadySettled = 4"
| "reason_value SR_DuplicateLineage = 5"
| "reason_value SR_ProtectedBoundary = 6"
| "reason_value SR_SealedResource = 7"
| "reason_value SR_ObservedOnlyResource = 8"
| "reason_value SR_MissingResource = 9"
| "reason_value SR_StaleDependencyGeneration = 10"
| "reason_value SR_StaleTopology = 11"
| "reason_value SR_Fenced = 12"
| "reason_value SR_CooldownActive = 13"
| "reason_value SR_HysteresisNotExceeded = 14"
| "reason_value SR_UnauthorizedScope = 15"
| "reason_value SR_AmplificationNotAuthorized = 16"
| "reason_value SR_AmplificationBudgetExhausted = 17"
| "reason_value SR_LifetimeExpired = 18"
| "reason_value SR_ExpansionBudgetExhausted = 19"
| "reason_value SR_VisitedBudgetExhausted = 20"
| "reason_value SR_RecordBudgetExhausted = 21"
| "reason_value SR_RecoveryOnlyEdge = 22"
| "reason_value SR_ZeroAttenuation = 23"
| "reason_value SR_SourceLimitExceeded = 24"
| "reason_value SR_DuplicateSource = 25"
| "reason_value SR_Count = 26"

fun reason_to_string :: "SuppressionReason \<Rightarrow> string" where
  "reason_to_string SR_None = ''None''"
| "reason_to_string SR_BelowFloor = ''BelowFloor''"
| "reason_to_string SR_MaxHops = ''MaxHops''"
| "reason_to_string SR_MaxFanout = ''MaxFanout''"
| "reason_to_string SR_NodeAlreadySettled = ''NodeAlreadySettled''"
| "reason_to_string SR_DuplicateLineage = ''DuplicateLineage''"
| "reason_to_string SR_ProtectedBoundary = ''ProtectedBoundary''"
| "reason_to_string SR_SealedResource = ''SealedResource''"
| "reason_to_string SR_ObservedOnlyResource = ''ObservedOnlyResource''"
| "reason_to_string SR_MissingResource = ''MissingResource''"
| "reason_to_string SR_StaleDependencyGeneration = ''StaleDependencyGeneration''"
| "reason_to_string SR_StaleTopology = ''StaleTopology''"
| "reason_to_string SR_Fenced = ''Fenced''"
| "reason_to_string SR_CooldownActive = ''CooldownActive''"
| "reason_to_string SR_HysteresisNotExceeded = ''HysteresisNotExceeded''"
| "reason_to_string SR_UnauthorizedScope = ''UnauthorizedScope''"
| "reason_to_string SR_AmplificationNotAuthorized = ''AmplificationNotAuthorized''"
| "reason_to_string SR_AmplificationBudgetExhausted = ''AmplificationBudgetExhausted''"
| "reason_to_string SR_LifetimeExpired = ''LifetimeExpired''"
| "reason_to_string SR_ExpansionBudgetExhausted = ''ExpansionBudgetExhausted''"
| "reason_to_string SR_VisitedBudgetExhausted = ''VisitedBudgetExhausted''"
| "reason_to_string SR_RecordBudgetExhausted = ''RecordBudgetExhausted''"
| "reason_to_string SR_RecoveryOnlyEdge = ''RecoveryOnlyEdge''"
| "reason_to_string SR_ZeroAttenuation = ''ZeroAttenuation''"
| "reason_to_string SR_SourceLimitExceeded = ''SourceLimitExceeded''"
| "reason_to_string SR_DuplicateSource = ''DuplicateSource''"
| "reason_to_string SR_Count = ''Invalid''"

definition kSuppressionReasonCount :: nat where
  "kSuppressionReasonCount = reason_value SR_Count"

section \<open>Records\<close>

record HopRecord =
  hr_from :: ResourceId
  hr_to :: ResourceId
  hr_edge :: EdgeId
  hr_depth :: u32
  hr_attenuation :: Attenuation
  hr_gain :: Gain
  hr_potential_before :: Potential
  hr_potential_after :: Potential
  hr_cumulative_gain_q16 :: u32
  hr_verdict :: HopVerdict
  hr_reason :: SuppressionReason

record SuppressedEdgeRecord =
  se_from :: ResourceId
  se_to :: ResourceId
  se_edge :: EdgeId
  se_depth :: u32
  se_count :: u32
  se_reason :: SuppressionReason

record Contribution =
  con_source :: SourceId
  con_propagation :: PropagationId
  con_signal :: SignalId
  con_magnitude :: Magnitude
  con_weighted :: Magnitude
  con_depth :: u32
  con_source_priority :: u32

record NodeOutcome =
  no_resource :: ResourceId
  no_applied :: Magnitude
  no_severity :: Severity
  no_strongest_single :: Magnitude
  no_received :: bool
  no_forwarded :: bool
  no_recovery :: bool
  no_best_depth :: u32
  no_best_source :: SourceId
  no_best_propagation :: PropagationId
  no_parent :: ResourceId
  no_parent_edge :: EdgeId
  no_contributions :: "Contribution list"
  no_contributions_truncated :: bool
  no_contribution_count :: u64
  no_blocked_reason :: SuppressionReason
  no_governing_fence :: FenceId

definition node_outcome :: NodeOutcome where
  "node_outcome =
     \<lparr>no_resource = id_invalid, no_applied = mag_zero, no_severity = Sev_Unknown,
      no_strongest_single = mag_zero, no_received = False, no_forwarded = False, no_recovery = False,
      no_best_depth = 0, no_best_source = id_invalid, no_best_propagation = id_invalid,
      no_parent = id_invalid, no_parent_edge = id_invalid, no_contributions = [],
      no_contributions_truncated = False, no_contribution_count = 0, no_blocked_reason = SR_None,
      no_governing_fence = id_invalid\<rparr>"

record EngineCounters =
  signals_received :: u64
  signals_accepted :: u64
  signals_rejected :: u64
  signals_idempotent :: u64
  propagations :: u64
  nodes_settled :: u64
  hops_considered :: u64
  hops_propagated :: u64
  hops_suppressed :: u64
  loop_preventions :: u64
  stale_rejections :: u64
  fence_rejections :: u64
  unauthorized_rejections :: u64
  amplifications :: u64
  clamps :: u64
  budget_exhaustions :: u64
  record_truncations :: u64
  ctr_lineage_evictions :: u64
  ctr_peak_depth :: u32

definition engine_counters :: EngineCounters where
  "engine_counters =
     \<lparr>signals_received = 0, signals_accepted = 0, signals_rejected = 0, signals_idempotent = 0,
      propagations = 0, nodes_settled = 0, hops_considered = 0, hops_propagated = 0,
      hops_suppressed = 0, loop_preventions = 0, stale_rejections = 0, fence_rejections = 0,
      unauthorized_rejections = 0, amplifications = 0, clamps = 0, budget_exhaustions = 0,
      record_truncations = 0, ctr_lineage_evictions = 0, ctr_peak_depth = 0\<rparr>"

record PropagationExplanation =
  ex_id :: PropagationId
  ex_signal :: SignalId
  ex_source :: SourceId
  ex_origin :: ResourceId
  ex_source_severity :: Severity
  ex_source_magnitude :: Magnitude
  ex_lineage :: Digest128
  ex_topology_digest :: Digest128
  ex_topology_generation :: Generation
  ex_epoch :: Epoch
  ex_authority :: AuthorityVector
  ex_issued_at :: Tick
  ex_deadline :: Tick
  ex_effective_ceiling :: Magnitude
  ex_granted_gain_q16 :: u32
  ex_amplification_granted :: bool
  ex_amplification_used :: bool
  ex_max_depth_reached :: u32
  ex_hops :: "HopRecord list"
  ex_suppressed :: "SuppressedEdgeRecord list"
  ex_truncated :: bool
  ex_counters :: EngineCounters
  ex_fingerprint :: Digest128

definition propagation_explanation :: PropagationExplanation where
  "propagation_explanation =
     \<lparr>ex_id = id_invalid, ex_signal = id_invalid, ex_source = id_invalid, ex_origin = id_invalid,
      ex_source_severity = Sev_Unknown, ex_source_magnitude = mag_zero, ex_lineage = digest_zero,
      ex_topology_digest = digest_zero, ex_topology_generation = gen_unknown, ex_epoch = epoch_none,
      ex_authority = authority_none, ex_issued_at = kNoTick, ex_deadline = kNoTick,
      ex_effective_ceiling = mag_zero, ex_granted_gain_q16 = 65536, ex_amplification_granted = False,
      ex_amplification_used = False, ex_max_depth_reached = 0, ex_hops = [], ex_suppressed = [],
      ex_truncated = False, ex_counters = engine_counters, ex_fingerprint = digest_zero\<rparr>"

section \<open>Fingerprints\<close>

definition hop_updates :: "HopRecord \<Rightarrow> (DigestBuilder \<Rightarrow> DigestBuilder) list" where
  "hop_updates h =
     [update_u64 (id_value (hr_from h)), update_u64 (id_value (hr_to h)),
      update_u64 (id_value (hr_edge h)), update_u32 (hr_depth h),
      update_u32 (q16_raw (att_q16 (hr_attenuation h))), update_u32 (gain_raw (hr_gain h)),
      update_u64 (pot_raw (hr_potential_before h)), update_u64 (pot_raw (hr_potential_after h)),
      update_u32 (hr_cumulative_gain_q16 h), update_u8 (hop_verdict_value (hr_verdict h)),
      update_u8 (of_nat (reason_value (hr_reason h)))]"

definition suppressed_updates :: "SuppressedEdgeRecord \<Rightarrow> (DigestBuilder \<Rightarrow> DigestBuilder) list" where
  "suppressed_updates s =
     [update_u64 (id_value (se_from s)), update_u64 (id_value (se_to s)),
      update_u64 (id_value (se_edge s)), update_u32 (se_depth s),
      update_u8 (of_nat (reason_value (se_reason s)))]"

definition explanation_finalize :: "PropagationExplanation \<Rightarrow> PropagationExplanation" where
  "explanation_finalize e = e\<lparr>ex_fingerprint :=
     finish (feed
       ([domain 0x80, update_u64 (id_value (ex_id e)), update_u64 (id_value (ex_signal e)),
         update_u64 (id_value (ex_source e)), update_u64 (id_value (ex_origin e)),
         update_u8 (severity_value (ex_source_severity e)), update_u32 (mag_raw (ex_source_magnitude e)),
         update_digest (ex_lineage e), update_digest (ex_topology_digest e),
         digest_generation (ex_topology_generation e), digest_epoch (ex_epoch e),
         update_digest (authority_digest (ex_authority e)), update_u64 (ex_issued_at e),
         update_u64 (ex_deadline e), update_u32 (mag_raw (ex_effective_ceiling e)),
         update_u32 (ex_granted_gain_q16 e), update_bool (ex_amplification_granted e),
         update_bool (ex_amplification_used e), update_u32 (ex_max_depth_reached e),
         update_bool (ex_truncated e)] @
        concat (map hop_updates (ex_hops e)) @ concat (map suppressed_updates (ex_suppressed e)))
       digest_builder)\<rparr>"

section \<open>Facts\<close>

lemma length_all_reasons [simp]: "length all_reasons = 26"
  by (simp add: all_reasons_def)

lemma reason_value_bound: "r \<noteq> SR_Count \<Longrightarrow> reason_value r < 26"
  by (cases r) simp_all

lemma all_reasons_nth: "r \<noteq> SR_Count \<Longrightarrow> all_reasons ! reason_value r = r"
  by (cases r) (simp_all add: all_reasons_def)

lemma reason_value_inject: "reason_value a = reason_value b \<longleftrightarrow> a = b"
  by (cases "a = SR_Count"; cases "b = SR_Count")
    (metis all_reasons_nth reason_value_bound reason_value.simps(27) less_irrefl)+

lemma explanation_finalize_sel [simp]:
  "ex_hops (explanation_finalize e) = ex_hops e"
  "ex_suppressed (explanation_finalize e) = ex_suppressed e"
  "ex_truncated (explanation_finalize e) = ex_truncated e"
  by (simp_all add: explanation_finalize_def)

end
