(* ===== verification/Ledger.thy ===== *)
theory Ledger
  imports Explain "HOL-Library.AList"
begin

text \<open>
  The propagation ledger: \<open>PropagationLedger\<close> of \<open>include/backpressure/engine/engine.hpp\<close> and
  \<open>src/engine/engine.cpp\<close>.

  The lineage set is a set and the deque of its insertion order; the two hash maps are
  association lists with distinct keys, because \<open>recover\<close> iterates over one of them. The
  order of that list is not observable: \<open>recover\<close> sorts what it collects.

  The locale \<open>bounded_table\<close> is the contract of a capacity-bounded map; it is interpreted
  for the applied pressure and for the damping history.
\<close>

section \<open>The ledger\<close>

record TableRecord =
  rec_magnitude :: Magnitude
  rec_tick :: Tick
  rec_present :: bool

definition table_record :: TableRecord where
  "table_record = \<lparr>rec_magnitude = mag_zero, rec_tick = kNoTick, rec_present = False\<rparr>"

type_synonym SourceResourceKey = "SourceId \<times> ResourceId"
type_synonym EdgeTargetKey = "ResourceId \<times> EdgeId"

record PropagationLedger =
  lineage_capacity :: nat
  application_capacity :: nat
  damping_capacity :: nat
  lineage_order :: "Digest128 list"
  lineage_index :: "Digest128 set"
  lineage_evictions :: u64
  led_applications :: "(SourceResourceKey \<times> TableRecord) list"
  application_rejections :: u64
  led_damping :: "(EdgeTargetKey \<times> TableRecord) list"
  damping_rejections :: u64

definition propagation_ledger :: "nat \<Rightarrow> nat \<Rightarrow> nat \<Rightarrow> PropagationLedger" where
  "propagation_ledger lc ac dc =
     \<lparr>lineage_capacity = (if lc = 0 then 1 else lc),
      application_capacity = (if ac = 0 then 1 else ac),
      damping_capacity = (if dc = 0 then 1 else dc),
      lineage_order = [], lineage_index = {}, lineage_evictions = 0, led_applications = [],
      application_rejections = 0, led_damping = [], damping_rejections = 0\<rparr>"

fun evict_lineages ::
  "nat \<Rightarrow> Digest128 list \<Rightarrow> Digest128 set \<Rightarrow> u64 \<Rightarrow> Digest128 list \<times> Digest128 set \<times> u64" where
  "evict_lineages capacity [] index evictions = ([], index, evictions)"
| "evict_lineages capacity (d # order) index evictions =
     (if length (d # order) > capacity then evict_lineages capacity order (index - {d}) (evictions + 1)
      else (d # order, index, evictions))"

definition mark_lineage :: "PropagationLedger \<Rightarrow> Digest128 \<Rightarrow> bool \<times> PropagationLedger" where
  "mark_lineage l lineage =
     (if lineage \<in> lineage_index l then (False, l)
      else
        let (order, index, evictions) =
              evict_lineages (lineage_capacity l) (lineage_order l @ [lineage])
                (insert lineage (lineage_index l)) (lineage_evictions l)
        in (True, l\<lparr>lineage_order := order, lineage_index := index, lineage_evictions := evictions\<rparr>))"

definition has_lineage :: "PropagationLedger \<Rightarrow> Digest128 \<Rightarrow> bool" where
  "has_lineage l lineage \<longleftrightarrow> lineage \<in> lineage_index l"

definition application :: "PropagationLedger \<Rightarrow> SourceId \<Rightarrow> ResourceId \<Rightarrow> TableRecord" where
  "application l source resource =
     (case map_of (led_applications l) (source, resource) of None \<Rightarrow> table_record | Some r \<Rightarrow> r)"

definition record_application ::
  "PropagationLedger \<Rightarrow> SourceId \<Rightarrow> ResourceId \<Rightarrow> Magnitude \<Rightarrow> Tick \<Rightarrow> Status \<times> PropagationLedger" where
  "record_application l source resource m tick =
     (if map_of (led_applications l) (source, resource) = None \<and>
         length (led_applications l) \<ge> application_capacity l then
        (status_error LimitExceeded ''application ledger'' (of_nat (length (led_applications l))),
         l\<lparr>application_rejections := application_rejections l + 1\<rparr>)
      else
        (status_success,
         l\<lparr>led_applications := AList.update (source, resource)
             \<lparr>rec_magnitude = m, rec_tick = tick, rec_present = True\<rparr> (led_applications l)\<rparr>))"

definition damping :: "PropagationLedger \<Rightarrow> ResourceId \<Rightarrow> EdgeId \<Rightarrow> TableRecord" where
  "damping l target edge =
     (case map_of (led_damping l) (target, edge) of None \<Rightarrow> table_record | Some r \<Rightarrow> r)"

definition record_damping ::
  "PropagationLedger \<Rightarrow> ResourceId \<Rightarrow> EdgeId \<Rightarrow> Magnitude \<Rightarrow> Tick \<Rightarrow> Status \<times> PropagationLedger" where
  "record_damping l target edge m tick =
     (if map_of (led_damping l) (target, edge) = None \<and> length (led_damping l) \<ge> damping_capacity l then
        (status_error LimitExceeded ''damping ledger'' (of_nat (length (led_damping l))),
         l\<lparr>damping_rejections := damping_rejections l + 1\<rparr>)
      else
        (status_success,
         l\<lparr>led_damping := AList.update (target, edge)
             \<lparr>rec_magnitude = m, rec_tick = tick, rec_present = True\<rparr> (led_damping l)\<rparr>))"

definition ledger_clear :: "PropagationLedger \<Rightarrow> PropagationLedger" where
  "ledger_clear l =
     l\<lparr>lineage_order := [], lineage_index := {}, led_applications := [], led_damping := []\<rparr>"

section \<open>The ledger invariant\<close>

definition ledger_inv :: "PropagationLedger \<Rightarrow> bool" where
  "ledger_inv l \<longleftrightarrow>
     0 < lineage_capacity l \<and> distinct (lineage_order l) \<and> lineage_index l = set (lineage_order l) \<and>
     length (lineage_order l) \<le> lineage_capacity l \<and>
     distinct (map fst (led_applications l)) \<and> length (led_applications l) \<le> application_capacity l \<and>
     distinct (map fst (led_damping l)) \<and> length (led_damping l) \<le> damping_capacity l"

lemma ledger_inv_start: "ledger_inv (propagation_ledger lc ac dc)"
  by (simp add: ledger_inv_def propagation_ledger_def)

lemma ledger_clear_inv: "ledger_inv l \<Longrightarrow> ledger_inv (ledger_clear l)"
  by (simp add: ledger_inv_def ledger_clear_def)

subsection \<open>Lineages\<close>

text \<open>With the invariant, at most one lineage is evicted, the oldest one.\<close>

lemma evict_lineages_fits:
  "length order \<le> capacity \<Longrightarrow> evict_lineages capacity order index ev = (order, index, ev)"
  by (cases order) auto

lemma mark_lineage_eq:
  assumes "ledger_inv l"
  shows "mark_lineage l d =
    (if has_lineage l d then (False, l)
     else if length (lineage_order l) < lineage_capacity l
       then (True, l\<lparr>lineage_order := lineage_order l @ [d], lineage_index := insert d (lineage_index l)\<rparr>)
     else (True, l\<lparr>lineage_order := tl (lineage_order l) @ [d],
                   lineage_index := insert d (lineage_index l) - {hd (lineage_order l)},
                   lineage_evictions := lineage_evictions l + 1\<rparr>))"
proof (cases "length (lineage_order l) < lineage_capacity l")
  case True
  then show ?thesis by (simp add: mark_lineage_def has_lineage_def evict_lineages_fits)
next
  case False
  then obtain x xs where "lineage_order l = x # xs"
    using assms by (cases "lineage_order l") (auto simp: ledger_inv_def)
  with False assms show ?thesis
    by (auto simp: mark_lineage_def has_lineage_def evict_lineages_fits ledger_inv_def)
qed

lemma mark_lineage_inv:
  assumes "ledger_inv l" shows "ledger_inv (snd (mark_lineage l d))"
proof (cases "length (lineage_order l) < lineage_capacity l")
  case True
  with assms show ?thesis
    by (auto simp: mark_lineage_eq [OF assms] ledger_inv_def has_lineage_def)
next
  case False
  then obtain x xs where "lineage_order l = x # xs"
    using assms by (cases "lineage_order l") (auto simp: ledger_inv_def)
  with False assms show ?thesis
    by (auto simp: mark_lineage_eq [OF assms] ledger_inv_def has_lineage_def)
qed

lemma mark_lineage_marked:
  assumes "ledger_inv l" shows "has_lineage (snd (mark_lineage l d)) d"
proof (cases "length (lineage_order l) < lineage_capacity l")
  case False
  then obtain x xs where "lineage_order l = x # xs"
    using assms by (cases "lineage_order l") (auto simp: ledger_inv_def)
  with assms show ?thesis by (auto simp: mark_lineage_eq [OF assms] has_lineage_def ledger_inv_def)
qed (simp add: mark_lineage_eq [OF assms] has_lineage_def)

lemma mark_lineage_new: "fst (mark_lineage l d) \<longleftrightarrow> \<not> has_lineage l d"
  by (auto simp: mark_lineage_def has_lineage_def Let_def split: prod.splits)

text \<open>Marking a lineage again changes nothing and reports the replay.\<close>

lemma mark_lineage_idempotent:
  assumes "ledger_inv l"
  shows "mark_lineage (snd (mark_lineage l d)) d = (False, snd (mark_lineage l d))"
  using mark_lineage_marked [OF assms, of d] by (simp add: mark_lineage_def has_lineage_def)

text \<open>Until the capacity is reached nothing is forgotten.\<close>

lemma mark_lineage_keeps:
  assumes "ledger_inv l" and "length (lineage_order l) < lineage_capacity l" and "has_lineage l e"
  shows "has_lineage (snd (mark_lineage l d)) e"
  using assms by (auto simp: mark_lineage_eq [OF assms(1)] has_lineage_def)

subsection \<open>Bounded tables\<close>

locale bounded_table =
  fixes inv :: "'s \<Rightarrow> bool"
    and lookup :: "'s \<Rightarrow> 'k \<Rightarrow> 'v option"
    and put :: "'s \<Rightarrow> 'k \<Rightarrow> 'v \<Rightarrow> Status \<times> 's"
    and count :: "'s \<Rightarrow> nat"
    and capacity :: "'s \<Rightarrow> nat"
  assumes put_inv: "inv s \<Longrightarrow> inv (snd (put s k v))"
    and put_stored: "inv s \<Longrightarrow> status_ok (fst (put s k v)) \<Longrightarrow> lookup (snd (put s k v)) = (lookup s)(k \<mapsto> v)"
    and put_refused: "inv s \<Longrightarrow> \<not> status_ok (fst (put s k v)) \<Longrightarrow>
      lookup (snd (put s k v)) = lookup s \<and> lookup s k = None \<and> count s = capacity s"
    and put_capacity: "capacity (snd (put s k v)) = capacity s"
    and count_bound: "inv s \<Longrightarrow> count s \<le> capacity s"
    and count_dom: "inv s \<Longrightarrow> count s = card (dom (lookup s))"
begin

lemma put_existing: "inv s \<Longrightarrow> lookup s k \<noteq> None \<Longrightarrow> status_ok (fst (put s k v))"
  by (rule ccontr) (use put_refused [of s k v] in auto)

lemma put_other: "inv s \<Longrightarrow> k' \<noteq> k \<Longrightarrow> lookup (snd (put s k v)) k' = lookup s k'"
  by (cases "status_ok (fst (put s k v))") (simp_all add: put_stored put_refused)

fun put_all :: "'s \<Rightarrow> ('k \<times> 'v) list \<Rightarrow> 's" where
  "put_all s [] = s"
| "put_all s ((k, v) # kvs) = put_all (snd (put s k v)) kvs"

lemma put_all_inv: "inv s \<Longrightarrow> inv (put_all s kvs)"
  by (induction s kvs rule: put_all.induct) (simp_all add: put_inv)

lemma put_all_count: "inv s \<Longrightarrow> count (put_all s kvs) \<le> capacity s"
proof (induction s kvs rule: put_all.induct)
  case (2 s k v kvs)
  then show ?case using put_inv [of s k v] put_capacity [of s k v] by simp
qed (simp add: count_bound)

lemma put_all_other: "inv s \<Longrightarrow> k \<notin> fst ` set kvs \<Longrightarrow> lookup (put_all s kvs) k = lookup s k"
  by (induction s kvs rule: put_all.induct) (auto simp: put_inv put_other)

end

lemma length_alist_update:
  "distinct (map fst al) \<Longrightarrow>
     length (AList.update k v al) = (if map_of al k = None then Suc (length al) else length al)"
  by (induction al) (auto simp: map_of_eq_None_iff image_iff split: prod.splits)

lemma card_dom_map_of: "distinct (map fst al) \<Longrightarrow> card (dom (map_of al)) = length al"
  by (simp add: dom_map_of_conv_image_fst distinct_card flip: set_map)

text \<open>A record written by the ledger carries its magnitude and tick and is present.\<close>

definition put_application ::
  "PropagationLedger \<Rightarrow> SourceResourceKey \<Rightarrow> Magnitude \<times> Tick \<Rightarrow> Status \<times> PropagationLedger" where
  "put_application l k v = record_application l (fst k) (snd k) (fst v) (snd v)"

definition put_damping ::
  "PropagationLedger \<Rightarrow> EdgeTargetKey \<Rightarrow> Magnitude \<times> Tick \<Rightarrow> Status \<times> PropagationLedger" where
  "put_damping l k v = record_damping l (fst k) (snd k) (fst v) (snd v)"

definition rec_entry :: "TableRecord \<Rightarrow> Magnitude \<times> Tick" where
  "rec_entry r = (rec_magnitude r, rec_tick r)"

definition app_lookup :: "PropagationLedger \<Rightarrow> SourceResourceKey \<Rightarrow> (Magnitude \<times> Tick) option" where
  "app_lookup l k = map_option rec_entry (map_of (led_applications l) k)"

definition damp_lookup :: "PropagationLedger \<Rightarrow> EdgeTargetKey \<Rightarrow> (Magnitude \<times> Tick) option" where
  "damp_lookup l k = map_option rec_entry (map_of (led_damping l) k)"

lemma dom_app_lookup: "dom (app_lookup l) = dom (map_of (led_applications l))"
  by (auto simp: app_lookup_def dom_def)

lemma dom_damp_lookup: "dom (damp_lookup l) = dom (map_of (led_damping l))"
  by (auto simp: damp_lookup_def dom_def)

interpretation apps: bounded_table ledger_inv app_lookup put_application
  "\<lambda>l. length (led_applications l)" application_capacity
proof
  fix l k and v :: "Magnitude \<times> Tick"
  show "ledger_inv l \<Longrightarrow> ledger_inv (snd (put_application l k v))"
    by (auto simp: put_application_def record_application_def ledger_inv_def length_alist_update
        distinct_update)
  show "ledger_inv l \<Longrightarrow> status_ok (fst (put_application l k v)) \<Longrightarrow>
      app_lookup (snd (put_application l k v)) = (app_lookup l)(k \<mapsto> v)"
    by (auto simp: put_application_def record_application_def app_lookup_def rec_entry_def update_conv
        split: if_splits)
  show "ledger_inv l \<Longrightarrow> \<not> status_ok (fst (put_application l k v)) \<Longrightarrow>
      app_lookup (snd (put_application l k v)) = app_lookup l \<and> app_lookup l k = None \<and>
      length (led_applications l) = application_capacity l"
    by (auto simp: put_application_def record_application_def app_lookup_def ledger_inv_def split: if_splits)
  show "application_capacity (snd (put_application l k v)) = application_capacity l"
    by (simp add: put_application_def record_application_def)
  show "ledger_inv l \<Longrightarrow> length (led_applications l) \<le> application_capacity l"
    by (simp add: ledger_inv_def)
  show "ledger_inv l \<Longrightarrow> length (led_applications l) = card (dom (app_lookup l))"
    by (simp add: ledger_inv_def dom_app_lookup card_dom_map_of)
qed

interpretation damps: bounded_table ledger_inv damp_lookup put_damping
  "\<lambda>l. length (led_damping l)" damping_capacity
proof
  fix l k and v :: "Magnitude \<times> Tick"
  show "ledger_inv l \<Longrightarrow> ledger_inv (snd (put_damping l k v))"
    by (auto simp: put_damping_def record_damping_def ledger_inv_def length_alist_update
        distinct_update)
  show "ledger_inv l \<Longrightarrow> status_ok (fst (put_damping l k v)) \<Longrightarrow>
      damp_lookup (snd (put_damping l k v)) = (damp_lookup l)(k \<mapsto> v)"
    by (auto simp: put_damping_def record_damping_def damp_lookup_def rec_entry_def update_conv
        split: if_splits)
  show "ledger_inv l \<Longrightarrow> \<not> status_ok (fst (put_damping l k v)) \<Longrightarrow>
      damp_lookup (snd (put_damping l k v)) = damp_lookup l \<and> damp_lookup l k = None \<and>
      length (led_damping l) = damping_capacity l"
    by (auto simp: put_damping_def record_damping_def damp_lookup_def ledger_inv_def split: if_splits)
  show "damping_capacity (snd (put_damping l k v)) = damping_capacity l"
    by (simp add: put_damping_def record_damping_def)
  show "ledger_inv l \<Longrightarrow> length (led_damping l) \<le> damping_capacity l"
    by (simp add: ledger_inv_def)
  show "ledger_inv l \<Longrightarrow> length (led_damping l) = card (dom (damp_lookup l))"
    by (simp add: ledger_inv_def dom_damp_lookup card_dom_map_of)
qed

end
