(* ===== verification/Traversal.thy ===== *)
theory Traversal
  imports Topology_Build Ledger
begin

text \<open>
  One bounded propagation: the anonymous types and the class \<open>Traversal\<close> of
  \<open>src/engine/engine.cpp\<close>.

  The members of the class are the record \<open>Traversal\<close>; what it only reads (context, policy,
  clock, pins) is \<open>TraversalEnv\<close>. A method takes and returns \<open>Run\<close>, which bundles the
  members with the objects the code passes by reference (accumulators, counters,
  explanation, the truncation flag) and the local counters of the main loop. The sentinel
  \<open>kNoIndex\<close> is \<open>None\<close>. The body of the loop over a node's edges is split in two: the
  sequence of guards is the pure function \<open>edge_decision\<close>, and \<open>expand_edge\<close> carries out
  the decision.

  \<open>std::priority_queue\<close> is a list with the operations of the locale \<open>priority_queue\<close>. The
  comparator of the code leaves entries of equal potential, depth and node equivalent (they
  can differ in parent and gain), and the standard leaves open which of them comes first;
  \<open>pq_top\<close> takes the one pushed first. The theorems use the locale's laws only.

  The main loop has fuel; \<open>run_traversal_returns\<close> shows that one more than the number of edges and
  the origin suffices.
\<close>

section \<open>The priority queue\<close>

definition kUnityGainQ16 :: u32 where
  "kUnityGainQ16 = 65536"

record QueueEntry =
  qe_potential :: Potential
  qe_node :: nat
  qe_depth :: u32
  qe_cumulative_gain_q16 :: u32
  qe_parent :: "nat option"
  qe_parent_edge :: "nat option"
  qe_amplified :: bool

definition queue_entry_less :: "QueueEntry \<Rightarrow> QueueEntry \<Rightarrow> bool" where
  "queue_entry_less a b =
     (if qe_potential a \<noteq> qe_potential b then qe_potential a < qe_potential b
      else if qe_depth a \<noteq> qe_depth b then qe_depth a > qe_depth b
      else qe_node a > qe_node b)"

fun pq_top :: "('a \<Rightarrow> 'a \<Rightarrow> bool) \<Rightarrow> 'a list \<Rightarrow> 'a option" where
  "pq_top lt [] = None"
| "pq_top lt (x # xs) =
     (case pq_top lt xs of None \<Rightarrow> Some x | Some t \<Rightarrow> if lt x t then Some t else Some x)"

definition pq_push :: "'a \<Rightarrow> 'a list \<Rightarrow> 'a list" where
  "pq_push x q = q @ [x]"

definition pq_pop :: "('a \<Rightarrow> 'a \<Rightarrow> bool) \<Rightarrow> 'a list \<Rightarrow> 'a list" where
  "pq_pop lt q = (case pq_top lt q of None \<Rightarrow> q | Some t \<Rightarrow> remove1 t q)"

locale priority_queue =
  fixes lt :: "'a \<Rightarrow> 'a \<Rightarrow> bool"
    and push :: "'a \<Rightarrow> 'q \<Rightarrow> 'q"
    and top :: "'q \<Rightarrow> 'a option"
    and pop :: "'q \<Rightarrow> 'q"
    and elems :: "'q \<Rightarrow> 'a multiset"
  assumes elems_push: "elems (push x q) = add_mset x (elems q)"
    and top_None: "top q = None \<longleftrightarrow> elems q = {#}"
    and top_elem: "top q = Some x \<Longrightarrow> x \<in># elems q"
    and top_max: "top q = Some x \<Longrightarrow> y \<in># elems q \<Longrightarrow> \<not> lt x y"
    and elems_pop: "top q = Some x \<Longrightarrow> elems (pop q) = elems q - {#x#}"
begin

lemma size_pop: "top q = Some x \<Longrightarrow> size (elems q) = Suc (size (elems (pop q)))"
  using top_elem [of q x] by (simp add: elems_pop size_Diff_singleton) (metis Suc_pred nonempty_has_size empty_not_add_mset insert_DiffM)

lemma pop_subset: "top q = Some x \<Longrightarrow> set_mset (elems (pop q)) \<subseteq> set_mset (elems q)"
  by (auto simp: elems_pop dest: in_diffD)

end

lemma pq_top_None [simp]: "pq_top lt q = None \<longleftrightarrow> q = []"
  by (cases q) (auto split: option.splits)

lemma pq_top_in: "pq_top lt q = Some x \<Longrightarrow> x \<in> set q"
  by (induction q arbitrary: x) (auto split: option.splits if_splits)

context comparator begin

lemma pq_top_max: "pq_top lt q = Some x \<Longrightarrow> y \<in> set q \<Longrightarrow> \<not> lt x y"
proof (induction q arbitrary: x)
  case (Cons z q)
  show ?case
  proof (cases "pq_top lt q")
    case None
    with Cons.prems show ?thesis by (auto simp: lt_irrefl)
  next
    case (Some t)
    with Cons.prems Cons.IH [OF Some] show ?thesis
      by (auto simp: lt_irrefl dest: lt_asym lt_negative_trans split: if_splits)
  qed
qed simp

end

interpretation queue_order: comparator queue_entry_less
  by unfold_locales (auto simp: queue_entry_less_def split: if_splits)

interpretation pq: priority_queue queue_entry_less pq_push "pq_top queue_entry_less"
  "pq_pop queue_entry_less" mset
proof
  fix q :: "QueueEntry list" and x y
  show "mset (pq_push x q) = add_mset x (mset q)" by (simp add: pq_push_def)
  show "pq_top queue_entry_less q = None \<longleftrightarrow> mset q = {#}" by simp
  show "pq_top queue_entry_less q = Some x \<Longrightarrow> x \<in># mset q" by (simp add: pq_top_in)
  show "pq_top queue_entry_less q = Some x \<Longrightarrow> y \<in># mset q \<Longrightarrow> \<not> queue_entry_less x y"
    by (simp add: queue_order.pq_top_max)
  show "pq_top queue_entry_less q = Some x \<Longrightarrow> mset (pq_pop queue_entry_less q) = mset q - {#x#}"
    by (simp add: pq_pop_def)
qed

section \<open>Per-node state\<close>

definition kMaxContributionsPerNode :: nat where
  "kMaxContributionsPerNode = 16"

definition kMaxDependencyPins :: nat where
  "kMaxDependencyPins = 4096"

record TraversalState =
  tst_settled :: bool
  tst_potential :: Potential
  tst_depth :: u32
  tst_parent :: "nat option"
  tst_parent_edge :: "nat option"
  tst_cumulative_gain_q16 :: u32
  tst_amplified :: bool

definition traversal_state :: TraversalState where
  "traversal_state =
     \<lparr>tst_settled = False, tst_potential = potential_ctor 0, tst_depth = 0, tst_parent = None,
      tst_parent_edge = None, tst_cumulative_gain_q16 = kUnityGainQ16, tst_amplified = False\<rparr>"

record NodeAccumulator =
  na_resource :: ResourceId
  na_best_potential :: Potential
  na_strongest :: Magnitude
  na_received :: bool
  na_forwarded :: bool
  na_best_depth :: u32
  na_best_source :: SourceId
  na_best_propagation :: PropagationId
  na_parent :: ResourceId
  na_parent_edge :: EdgeId
  na_contributions :: "Contribution list"
  na_contributions_truncated :: bool
  na_contribution_count :: u64
  na_blocked_reason :: SuppressionReason
  na_governing_fence :: FenceId

definition node_accumulator :: "ResourceId \<Rightarrow> NodeAccumulator" where
  "node_accumulator i =
     \<lparr>na_resource = i, na_best_potential = potential_ctor 0, na_strongest = mag_zero,
      na_received = False, na_forwarded = False, na_best_depth = 0, na_best_source = id_invalid,
      na_best_propagation = id_invalid, na_parent = id_invalid, na_parent_edge = id_invalid,
      na_contributions = [], na_contributions_truncated = False, na_contribution_count = 0,
      na_blocked_reason = SR_None, na_governing_fence = id_invalid\<rparr>"

text \<open>
  \<open>Accumulators::by_node\<close>. \<open>acc_at\<close> is \<open>acc.at(index, id)\<close> followed by an update through
  the returned reference; with the identity it only creates the entry.
\<close>

type_synonym Accumulators = "(nat \<times> NodeAccumulator) list"

definition acc_at ::
  "nat \<Rightarrow> ResourceId \<Rightarrow> (NodeAccumulator \<Rightarrow> NodeAccumulator) \<Rightarrow> Accumulators \<Rightarrow> Accumulators" where
  "acc_at index i f acc =
     AList.update index
       (f (case map_of acc index of Some a \<Rightarrow> a | None \<Rightarrow> node_accumulator i)) acc"

definition weighted_magnitude :: "PressureSignal \<Rightarrow> Magnitude \<Rightarrow> Magnitude" where
  "weighted_magnitude signal m =
     (let product = (ucast (mag_raw m) :: u64) * ucast (sig_weight_q16 signal);
          scaled = drop_bit 16 product
      in mag_from_raw_q16_saturating
           (ucast (if scaled > ucast (mag_raw mag_full) then ucast (mag_raw mag_full) else scaled)))"

section \<open>The members and the run state\<close>

record SuppressionAggregate =
  agg_from :: ResourceId
  agg_to :: ResourceId
  agg_edge :: EdgeId
  agg_depth :: u32
  agg_count :: u32

definition suppression_aggregate :: SuppressionAggregate where
  "suppression_aggregate =
     \<lparr>agg_from = id_invalid, agg_to = id_invalid, agg_edge = id_invalid, agg_depth = 0, agg_count = 0\<rparr>"

record TraversalEnv =
  env_topology :: Topology
  env_policy :: PropagationPolicy
  env_ledger :: PropagationLedger
  env_fences :: "FenceTable option"
  env_now :: Tick
  env_pin_present :: "bool list"
  env_pin_generation :: "Generation list"

record Traversal =
  tr_record_budget :: u32
  tr_current_node :: "nat option"
  tr_pending :: "SuppressionAggregate list"
  tr_state :: "TraversalState list"
  tr_stamp :: "u32 list"
  tr_epoch_stamp :: u32
  tr_queue :: "QueueEntry list"

definition traversal :: "TraversalEnv \<Rightarrow> u32 \<Rightarrow> Traversal" where
  "traversal env record_budget =
     (let n = length (top_resources (env_topology env))
      in \<lparr>tr_record_budget = record_budget, tr_current_node = None,
          tr_pending = replicate kSuppressionReasonCount suppression_aggregate,
          tr_state = replicate n traversal_state, tr_stamp = replicate n 0, tr_epoch_stamp = 1,
          tr_queue = []\<rparr>)"

record Run =
  run_tr :: Traversal
  run_acc :: Accumulators
  run_counters :: EngineCounters
  run_expl :: PropagationExplanation
  run_truncated :: bool
  run_visited :: nat
  run_expansions :: nat
  run_budget_stop :: bool
  run_record_stop :: bool

definition count_up :: "((u64 \<Rightarrow> u64) \<Rightarrow> EngineCounters \<Rightarrow> EngineCounters) \<Rightarrow> Run \<Rightarrow> Run" where
  "count_up field r = r\<lparr>run_counters := field (\<lambda>x. x + 1) (run_counters r)\<rparr>"

definition set_truncated :: "Run \<Rightarrow> Run" where
  "set_truncated r = count_up record_truncations_update (r\<lparr>run_truncated := True\<rparr>)"

text \<open>\<open>state_at\<close>: the stamp array makes a fresh state on the first access of a run.\<close>

definition state_at :: "nat \<Rightarrow> Traversal \<Rightarrow> TraversalState \<times> Traversal" where
  "state_at i tr =
     (if tr_stamp tr ! i \<noteq> tr_epoch_stamp tr then
        (traversal_state, tr\<lparr>tr_stamp := (tr_stamp tr)[i := tr_epoch_stamp tr],
                             tr_state := (tr_state tr)[i := traversal_state]\<rparr>)
      else (tr_state tr ! i, tr))"

definition push_queue ::
  "nat \<Rightarrow> Potential \<Rightarrow> u32 \<Rightarrow> u32 \<Rightarrow> bool \<Rightarrow> nat option \<Rightarrow> nat option \<Rightarrow> Traversal \<Rightarrow> Traversal" where
  "push_queue node potential depth gain amp parent parent_edge tr =
     (let (st, tr1) = state_at node tr
      in if tst_settled st then tr1
         else tr1
           \<lparr>tr_queue := pq_push
              \<lparr>qe_potential = potential, qe_node = node, qe_depth = depth,
               qe_cumulative_gain_q16 = gain, qe_parent = parent, qe_parent_edge = parent_edge,
               qe_amplified = amp\<rparr> (tr_queue tr1),
            tr_state := (tr_state tr1)[node := st
              \<lparr>tst_potential := potential, tst_depth := depth, tst_cumulative_gain_q16 := gain,
               tst_parent := parent, tst_parent_edge := parent_edge, tst_amplified := amp\<rparr>]\<rparr>)"

definition record_settlement ::
  "TraversalEnv \<Rightarrow> QueueEntry \<Rightarrow> ResourceId \<Rightarrow> PressureSignal \<Rightarrow> PropagationId \<Rightarrow> Accumulators \<Rightarrow> Accumulators" where
  "record_settlement env entry i signal pid acc =
     acc_at (qe_node entry) i (\<lambda>a.
       let potential = qe_potential entry;
           parent_res = Option.bind (qe_parent entry) (resource_at (env_topology env));
           parent_ed = Option.bind (qe_parent_edge entry) (edge_at (env_topology env));
           a1 = (if \<not> na_received a \<or> potential > na_best_potential a
                 then a\<lparr>na_received := True, na_best_potential := potential,
                        na_strongest := to_magnitude potential, na_best_depth := qe_depth entry,
                        na_best_source := sig_source signal, na_best_propagation := pid,
                        na_parent := (case parent_res of Some r \<Rightarrow> res_id r | None \<Rightarrow> id_invalid),
                        na_parent_edge := (case parent_ed of Some e \<Rightarrow> edge_id e | None \<Rightarrow> id_invalid),
                        na_blocked_reason := SR_None\<rparr>
                 else a);
           m = to_magnitude potential;
           c = \<lparr>con_source = sig_source signal, con_propagation = pid, con_signal = sig_id signal,
                con_magnitude = m, con_weighted = weighted_magnitude signal m,
                con_depth = qe_depth entry, con_source_priority = sig_source_priority signal\<rparr>;
           a2 = a1\<lparr>na_contribution_count := na_contribution_count a1 + 1\<rparr>
       in if length (na_contributions a2) < kMaxContributionsPerNode
          then a2\<lparr>na_contributions := na_contributions a2 @ [c]\<rparr>
          else a2\<lparr>na_contributions_truncated := True\<rparr>) acc"

definition push_hop :: "HopRecord \<Rightarrow> Run \<Rightarrow> bool \<times> Run" where
  "push_hop h r =
     (if tr_record_budget (run_tr r) = 0 then (False, r)
      else (True, r
        \<lparr>run_tr := (run_tr r)\<lparr>tr_record_budget := tr_record_budget (run_tr r) - 1\<rparr>,
         run_expl := (run_expl r)\<lparr>ex_hops := ex_hops (run_expl r) @ [h]\<rparr>\<rparr>))"

section \<open>Refusals\<close>

definition reject_counters :: "SuppressionReason \<Rightarrow> HopVerdict \<Rightarrow> EngineCounters \<Rightarrow> EngineCounters" where
  "reject_counters reason verdict c0 =
     (let c1 = c0\<lparr>hops_suppressed := hops_suppressed c0 + 1\<rparr>;
          c2 = (if verdict = HV_LoopPrevented then c1\<lparr>loop_preventions := loop_preventions c1 + 1\<rparr> else c1);
          c3 = (if reason = SR_StaleDependencyGeneration
                then c2\<lparr>stale_rejections := stale_rejections c2 + 1\<rparr> else c2);
          c4 = (if reason = SR_Fenced then c3\<lparr>fence_rejections := fence_rejections c3 + 1\<rparr> else c3);
          c5 = (if reason = SR_UnauthorizedScope \<or> reason = SR_AmplificationNotAuthorized \<or>
                   reason = SR_AmplificationBudgetExhausted
                then c4\<lparr>unauthorized_rejections := unauthorized_rejections c4 + 1\<rparr> else c4)
      in if reason = SR_ExpansionBudgetExhausted \<or> reason = SR_VisitedBudgetExhausted
         then c5\<lparr>budget_exhaustions := budget_exhaustions c5 + 1\<rparr> else c5)"

definition reject :: "DependencyEdge \<Rightarrow> u32 \<Rightarrow> SuppressionReason \<Rightarrow> HopVerdict \<Rightarrow> Run \<Rightarrow> Run" where
  "reject edge depth reason verdict r =
     (let tr = run_tr r; slot = reason_value reason; g0 = tr_pending tr ! slot;
          g1 = (if agg_count g0 = 0
                then g0\<lparr>agg_from := edge_from edge, agg_to := edge_to edge,
                        agg_edge := edge_id edge, agg_depth := depth\<rparr>
                else g0);
          g2 = (if agg_count g1 \<noteq> 0xFFFFFFFF then g1\<lparr>agg_count := agg_count g1 + 1\<rparr> else g1)
      in r\<lparr>run_tr := tr\<lparr>tr_pending := (tr_pending tr)[slot := g2]\<rparr>,
           run_counters := reject_counters reason verdict (run_counters r)\<rparr>)"

text \<open>The loop over the pending slots: the records it emits and the budget it leaves.\<close>

fun flush_slots ::
  "nat \<Rightarrow> SuppressionAggregate list \<Rightarrow> u32 \<Rightarrow>
   bool \<times> SuppressionAggregate list \<times> u32 \<times> SuppressedEdgeRecord list" where
  "flush_slots slot [] budget = (True, [], budget, [])"
| "flush_slots slot (g # gs) budget =
     (if agg_count g = 0 then
        let (ok, gs', budget', recs) = flush_slots (Suc slot) gs budget in (ok, g # gs', budget', recs)
      else if budget = 0 then
        let (ok, gs', budget', recs) = flush_slots (Suc slot) gs budget
        in (False, g\<lparr>agg_count := 0\<rparr> # gs', budget', recs)
      else
        let (ok, gs', budget', recs) = flush_slots (Suc slot) gs (budget - 1)
        in (ok, g\<lparr>agg_count := 0\<rparr> # gs', budget',
            \<lparr>se_from = agg_from g, se_to = agg_to g, se_edge = agg_edge g, se_depth = agg_depth g,
             se_count = agg_count g, se_reason = all_reasons ! slot\<rparr> # recs))"

definition flush_suppressions :: "Run \<Rightarrow> bool \<times> Run" where
  "flush_suppressions r =
     (let (ok, gs, budget, recs) = flush_slots 0 (tr_pending (run_tr r)) (tr_record_budget (run_tr r))
      in (ok, r\<lparr>run_tr := (run_tr r)\<lparr>tr_pending := gs, tr_record_budget := budget\<rparr>,
                run_expl := (run_expl r)\<lparr>ex_suppressed := ex_suppressed (run_expl r) @ recs\<rparr>\<rparr>))"

definition begin_node :: "nat \<Rightarrow> Run \<Rightarrow> bool \<times> Run" where
  "begin_node node r =
     (if tr_current_node (run_tr r) = Some node then (True, r)
      else let (ok, r1) = flush_suppressions r
           in (ok, r1\<lparr>run_tr := (run_tr r1)\<lparr>tr_current_node := Some node\<rparr>\<rparr>))"

fun suppress_edges ::
  "Topology \<Rightarrow> u32 \<Rightarrow> SuppressionReason \<Rightarrow> nat list \<Rightarrow> Run \<Rightarrow> Run" where
  "suppress_edges t depth reason [] r = r"
| "suppress_edges t depth reason (e # es) r =
     (let r1 = count_up hops_considered_update r
      in suppress_edges t depth reason es
           (case edge_at t e of None \<Rightarrow> r1 | Some edge \<Rightarrow> reject edge depth reason HV_Suppressed r1))"

definition suppress_all ::
  "TraversalEnv \<Rightarrow> nat \<Rightarrow> u32 \<Rightarrow> SuppressionReason \<Rightarrow> Run \<Rightarrow> Run" where
  "suppress_all env node_index depth reason r =
     (let t = env_topology env;
          r1 = suppress_edges t depth reason (out_edge_indices_at t node_index) r;
          (ok, r2) = flush_suppressions r1
      in if ok then r2 else set_truncated r2)"

section \<open>The decision at one edge\<close>

definition governing_fence :: "TraversalEnv \<Rightarrow> ResourceId \<Rightarrow> Fence option" where
  "governing_fence env i =
     (case env_fences env of None \<Rightarrow> None | Some fs \<Rightarrow> governing fs i (env_now env))"

definition ingress_refused :: "TraversalEnv \<Rightarrow> ResourceId \<Rightarrow> bool" where
  "ingress_refused env i =
     (case governing_fence env i of None \<Rightarrow> False | Some f \<Rightarrow> refuses_ingress f)"

definition egress_refused :: "TraversalEnv \<Rightarrow> ResourceId \<Rightarrow> bool" where
  "egress_refused env i =
     (case governing_fence env i of None \<Rightarrow> False | Some f \<Rightarrow> refuses_egress f)"

definition authority_hops :: "PropagationPolicy \<Rightarrow> PressureSignal \<Rightarrow> u32" where
  "authority_hops policy signal =
     (let g = auth_max_hops_granted (sig_authority signal)
      in if g = 0 then pol_max_hops policy
         else if g < pol_max_hops policy then g else pol_max_hops policy)"

definition amplification_granted :: "PropagationPolicy \<Rightarrow> PressureSignal \<Rightarrow> bool" where
  "amplification_granted policy signal \<longleftrightarrow>
     pol_allow_amplification policy \<and> auth_amplification_authorized (sig_authority signal)"

definition granted_gain :: "PropagationPolicy \<Rightarrow> PressureSignal \<Rightarrow> u32" where
  "granted_gain policy signal =
     (if amplification_granted policy signal
      then min (gain_raw (pol_max_cumulative_gain policy)) (gain_raw (auth_max_gain (sig_authority signal)))
      else kUnityGainQ16)"

text \<open>Is the edge damped: within its cooldown and not above the hysteresis threshold?\<close>

definition hysteresis_refused :: "TraversalEnv \<Rightarrow> DependencyEdge \<Rightarrow> Potential \<Rightarrow> bool" where
  "hysteresis_refused env edge next =
     (let policy = env_policy env; cooldown = effective_cooldown policy (edge_cooldown_ticks edge)
      in if cooldown > 0 then
           let dr = damping (env_ledger env) (edge_to edge) (edge_id edge)
           in if rec_present dr then
                let elapsed = (if env_now env > rec_tick dr then env_now env - rec_tick dr else 0)
                in if elapsed < cooldown then
                     let candidate = to_magnitude next;
                         required = mag_from_raw_q16_saturating (ucast
                           (min (ucast (mag_raw mag_full))
                              ((ucast (mag_raw (rec_magnitude dr)) :: u64)
                                + ucast (mag_raw (pol_hysteresis_delta policy)))))
                     in candidate \<le> required
                   else False
              else False
         else False)"

text \<open>
  A refusal carries its reason and verdict; a crossing the target, the potential that
  arrives, the cumulative gain and whether the path is amplified. Both say whether the edge's
  own amplification was applied, which the code counts before its last two guards.
\<close>

datatype EdgeDecision =
    Refuse SuppressionReason HopVerdict bool
  | Cross nat Potential u32 bool bool

definition amplify ::
  "TraversalEnv \<Rightarrow> PressureSignal \<Rightarrow> QueueEntry \<Rightarrow> DependencyEdge \<Rightarrow>
   SuppressionReason + (Potential \<times> u32 \<times> bool \<times> bool)" where
  "amplify env signal entry edge =
     (let next = attenuated (qe_potential entry) (edge_attenuation edge);
          gain = qe_cumulative_gain_q16 entry; policy = env_policy env
      in if is_amplifying edge then
           if \<not> pol_allow_amplification policy \<or> \<not> auth_amplification_authorized (sig_authority signal)
           then Inl SR_AmplificationNotAuthorized
           else
             let requested = drop_bit 16 ((ucast gain :: u64) * ucast (gain_raw (edge_amplification edge)))
             in if requested > ucast (granted_gain policy signal) then Inl SR_AmplificationBudgetExhausted
                else case amplified next (edge_amplification edge) of
                       Inl _ \<Rightarrow> Inl SR_AmplificationBudgetExhausted
                     | Inr p \<Rightarrow> Inr (p, ucast requested, True, True)
         else Inr (next, gain, qe_amplified entry, False))"

definition edge_decision ::
  "TraversalEnv \<Rightarrow> PressureSignal \<Rightarrow> QueueEntry \<Rightarrow> (nat \<Rightarrow> bool) \<Rightarrow> u32 \<Rightarrow> nat \<Rightarrow> nat \<Rightarrow> DependencyEdge \<Rightarrow> EdgeDecision" where
  "edge_decision env signal entry settled fanout expansions edge_index edge =
     (let policy = env_policy env; topo = env_topology env
      in if fanout \<ge> pol_max_fanout policy then Refuse SR_MaxFanout HV_Suppressed False
         else if expansions \<ge> unat (pol_max_expansions policy) then
           Refuse SR_ExpansionBudgetExhausted HV_Suppressed False
         else if edge_index < length (env_pin_present env) \<and> env_pin_present env ! edge_index \<and>
                 env_pin_generation env ! edge_index \<noteq> edge_dependency_generation edge then
           Refuse SR_StaleDependencyGeneration HV_Stale False
         else if att_is_zero (edge_attenuation edge) then Refuse SR_ZeroAttenuation HV_Suppressed False
         else if flags_has (edge_flags edge) EF_RecoveryOnly then
           Refuse SR_RecoveryOnlyEdge HV_Suppressed False
         else case index_of topo (edge_to edge) of
           None \<Rightarrow> Refuse SR_MissingResource HV_Suppressed False
         | Some to_index \<Rightarrow>
           (case resource_at topo to_index of
              None \<Rightarrow> Refuse SR_MissingResource HV_Suppressed False
            | Some to_res \<Rightarrow>
              if \<not> can_receive to_res then
                Refuse (if res_protection to_res = Sealed then SR_SealedResource
                        else SR_ObservedOnlyResource) HV_Suppressed False
              else if settled to_index then Refuse SR_NodeAlreadySettled HV_LoopPrevented False
              else if \<not> covers (sig_authority signal) (edge_to edge) then
                Refuse SR_UnauthorizedScope HV_Unauthorized False
              else if ingress_refused env (edge_to edge) then Refuse SR_Fenced HV_Fenced False
              else if qe_depth entry + 1 >
                      (if effective_max_hops policy (edge_max_hops edge) < authority_hops policy signal
                       then effective_max_hops policy (edge_max_hops edge)
                       else authority_hops policy signal) then
                Refuse SR_MaxHops HV_Suppressed False
              else case amplify env signal entry edge of
                  Inl reason \<Rightarrow> Refuse reason HV_Unauthorized False
                | Inr (next, gain, amp, counted) \<Rightarrow>
                    if next < potential_from_magnitude (pol_min_propagatable policy) then
                      Refuse SR_BelowFloor HV_Suppressed counted
                    else if hysteresis_refused env edge next then
                      Refuse SR_HysteresisNotExceeded HV_Suppressed counted
                    else Cross to_index next gain amp counted))"

section \<open>The loop over a node's edges\<close>

definition count_amplification :: "bool \<Rightarrow> Run \<Rightarrow> Run" where
  "count_amplification counted r =
     (if counted then count_up amplifications_update
        (r\<lparr>run_expl := (run_expl r)\<lparr>ex_amplification_used := True\<rparr>\<rparr>) else r)"

definition settled_at :: "Traversal \<Rightarrow> nat \<Rightarrow> bool" where
  "settled_at tr i = tst_settled (fst (state_at i tr))"

definition cross_edge ::
  "Resource \<Rightarrow> QueueEntry \<Rightarrow> nat \<Rightarrow> DependencyEdge \<Rightarrow> nat \<Rightarrow> Potential \<Rightarrow> u32 \<Rightarrow> bool \<Rightarrow> Run \<Rightarrow> Run" where
  "cross_edge res entry edge_index edge to_index next gain amp r =
     (let (ok, r1) = push_hop
            \<lparr>hr_from = res_id res, hr_to = edge_to edge, hr_edge = edge_id edge,
             hr_depth = qe_depth entry, hr_attenuation = edge_attenuation edge,
             hr_gain = edge_amplification edge, hr_potential_before = qe_potential entry,
             hr_potential_after = next, hr_cumulative_gain_q16 = gain,
             hr_verdict = (if amp then HV_Amplified else HV_Propagated), hr_reason = SR_None\<rparr> r
      in if \<not> ok then (set_truncated r1)\<lparr>run_record_stop := True\<rparr>
         else
           let r2 = r1\<lparr>run_acc := acc_at (qe_node entry) (res_id res)
                         (\<lambda>a. a\<lparr>na_forwarded := True\<rparr>) (run_acc r1),
                       run_tr := push_queue to_index next (qe_depth entry + 1) gain amp
                         (Some (qe_node entry)) (Some edge_index) (run_tr r1),
                       run_expansions := run_expansions r1 + 1\<rparr>
           in count_up hops_propagated_update r2)"

text \<open>
  \<open>state_at(to_index)\<close> also stamps the entry it reads; a node already stamped in this run
  keeps its state, so reading it early or not at all makes no difference, and the model
  stamps when it pushes.
\<close>

fun expand_edges ::
  "TraversalEnv \<Rightarrow> PressureSignal \<Rightarrow> Resource \<Rightarrow> QueueEntry \<Rightarrow> nat list \<Rightarrow> u32 \<Rightarrow> Run \<Rightarrow> Run" where
  "expand_edges env signal res entry [] fanout r = r"
| "expand_edges env signal res entry (e # es) fanout r =
     (let r1 = count_up hops_considered_update r
      in case edge_at (env_topology env) e of
           None \<Rightarrow> expand_edges env signal res entry es fanout r1
         | Some edge \<Rightarrow>
           (case edge_decision env signal entry (settled_at (run_tr r1)) fanout (run_expansions r1) e edge of
              Refuse reason verdict counted \<Rightarrow>
                (let r2 = reject edge (qe_depth entry) reason verdict (count_amplification counted r1);
                     r3 = (if reason = SR_ExpansionBudgetExhausted
                           then r2\<lparr>run_budget_stop := True\<rparr> else r2)
                 in expand_edges env signal res entry es fanout r3)
            | Cross to_index next gain amp counted \<Rightarrow>
                (let r2 = cross_edge res entry e edge to_index next gain amp
                            (count_amplification counted r1)
                 in if run_record_stop r2 then r2
                    else expand_edges env signal res entry es (fanout + 1) r2)))"

section \<open>Settling one node\<close>

text \<open>Lines 374 to 567: the work at a node that has just been settled.\<close>

definition process_node ::
  "TraversalEnv \<Rightarrow> PressureSignal \<Rightarrow> PropagationId \<Rightarrow> QueueEntry \<Rightarrow> Run \<Rightarrow> Run" where
  "process_node env signal pid entry r =
     (case resource_at (env_topology env) (qe_node entry) of
        None \<Rightarrow> r
      | Some res \<Rightarrow>
          (let r1 = r\<lparr>run_acc := record_settlement env entry (res_id res) signal pid (run_acc r)\<rparr>
           in if qe_depth entry \<ge> authority_hops (env_policy env) signal then
                suppress_all env (qe_node entry) (qe_depth entry) SR_MaxHops r1
              else if \<not> can_forward res then
                suppress_all env (qe_node entry) (qe_depth entry) SR_ProtectedBoundary
                  (r1\<lparr>run_acc := acc_at (qe_node entry) (res_id res)
                         (\<lambda>a. a\<lparr>na_blocked_reason := SR_ProtectedBoundary\<rparr>) (run_acc r1)\<rparr>)
              else case governing_fence env (res_id res) of
                Some f \<Rightarrow>
                  if refuses_egress f then
                    suppress_all env (qe_node entry) (qe_depth entry) SR_Fenced
                      (count_up fence_rejections_update
                        (r1\<lparr>run_acc := acc_at (qe_node entry) (res_id res)
                          (\<lambda>a. a\<lparr>na_blocked_reason := SR_Fenced, na_governing_fence := fence_id f\<rparr>)
                          (run_acc r1)\<rparr>))
                  else expand_edges env signal res entry
                         (out_edge_indices_at (env_topology env) (qe_node entry)) 0 r1
              | None \<Rightarrow> expand_edges env signal res entry
                         (out_edge_indices_at (env_topology env) (qe_node entry)) 0 r1))"

definition settle :: "nat \<Rightarrow> Traversal \<Rightarrow> Traversal" where
  "settle i tr = (let (st, tr1) = state_at i tr
     in tr1\<lparr>tr_state := (tr_state tr1)[i := st\<lparr>tst_settled := True\<rparr>]\<rparr>)"

definition note_depth :: "u32 \<Rightarrow> Run \<Rightarrow> Run" where
  "note_depth d r =
     (let c = run_counters r; x = run_expl r
      in r\<lparr>run_counters := (if d > ctr_peak_depth c then c\<lparr>ctr_peak_depth := d\<rparr> else c),
           run_expl := (if d > ex_max_depth_reached x then x\<lparr>ex_max_depth_reached := d\<rparr> else x)\<rparr>)"

text \<open>One iteration of the main loop, after its emptiness test.\<close>

definition traverse_step ::
  "TraversalEnv \<Rightarrow> PressureSignal \<Rightarrow> PropagationId \<Rightarrow> Run \<Rightarrow> Run" where
  "traverse_step env signal pid r =
     (if run_visited r \<ge> unat (pol_max_visited (env_policy env)) then
        (count_up budget_exhaustions_update r)\<lparr>run_budget_stop := True\<rparr>
      else case pq_top queue_entry_less (tr_queue (run_tr r)) of
        None \<Rightarrow> r
      | Some entry \<Rightarrow>
          (let r1 = r\<lparr>run_tr := (run_tr r)\<lparr>tr_queue := pq_pop queue_entry_less (tr_queue (run_tr r))\<rparr>\<rparr>
           in if qe_node entry \<ge> length (tr_state (run_tr r1)) then r1
              else if settled_at (run_tr r1) (qe_node entry) then r1
              else
                let r2 = r1\<lparr>run_tr := settle (qe_node entry) (run_tr r1)\<rparr>;
                    (ok, r3) = begin_node (qe_node entry) r2
                in if \<not> ok then (set_truncated r3)\<lparr>run_record_stop := True\<rparr>
                   else process_node env signal pid entry
                     (note_depth (qe_depth entry)
                       (count_up nodes_settled_update (r3\<lparr>run_visited := run_visited r3 + 1\<rparr>)))))"

fun traverse :: "nat \<Rightarrow> TraversalEnv \<Rightarrow> PressureSignal \<Rightarrow> PropagationId \<Rightarrow> Run \<Rightarrow> Run option" where
  "traverse 0 env signal pid r = (if tr_queue (run_tr r) = [] then Some r else None)"
| "traverse (Suc fuel) env signal pid r =
     (if tr_queue (run_tr r) = [] then Some r
      else
        let r' = traverse_step env signal pid r
        in if run_record_stop r' \<or> run_budget_stop r' then Some r'
           else traverse fuel env signal pid r')"

section \<open>One run\<close>

text \<open>\<open>run\<close> with the references it is given: accumulators, counters, explanation, flag.\<close>

definition run_start ::
  "TraversalEnv \<Rightarrow> u32 \<Rightarrow> PressureSignal \<Rightarrow> Accumulators \<Rightarrow> EngineCounters \<Rightarrow>
   PropagationExplanation \<Rightarrow> bool \<Rightarrow> Run" where
  "run_start env record_budget signal acc counters expl truncated =
     (let tr = traversal env record_budget; stamp = tr_epoch_stamp tr + 1
      in \<lparr>run_tr = (if stamp = 0 then tr\<lparr>tr_stamp := map (\<lambda>_. 0) (tr_stamp tr), tr_epoch_stamp := 1, tr_queue := []\<rparr>
                    else tr\<lparr>tr_epoch_stamp := stamp, tr_queue := []\<rparr>),
          run_acc = acc, run_counters = counters, run_expl = expl, run_truncated = truncated,
          run_visited = 0, run_expansions = 0, run_budget_stop = False, run_record_stop = False\<rparr>)"

definition run_traversal ::
  "TraversalEnv \<Rightarrow> u32 \<Rightarrow> PressureSignal \<Rightarrow> PropagationId \<Rightarrow> Accumulators \<Rightarrow> EngineCounters \<Rightarrow>
   PropagationExplanation \<Rightarrow> bool \<Rightarrow> (Status \<times> Run) option" where
  "run_traversal env record_budget signal pid acc counters expl truncated =
     (let topo = env_topology env; policy = env_policy env;
          r0 = run_start env record_budget signal acc counters expl truncated
      in case Option.bind (index_of topo (sig_origin signal))
                (\<lambda>i. map_option (Pair i) (resource_at topo i)) of
           None \<Rightarrow>
             Some (status_error NotFound ''signal origin resource'' (id_value (sig_origin signal)), r0)
         | Some (origin_index, origin) \<Rightarrow>
             let seed = potential_from_magnitude (obs_magnitude (sig_observation signal))
             in if potential_is_zero seed then
                  Some (status_error UnknownPressure ''signal magnitude is zero'' 0, r0)
                else
                  let r1 = r0\<lparr>run_expl := (run_expl r0)
                        \<lparr>ex_amplification_granted := amplification_granted policy signal,
                         ex_granted_gain_q16 := granted_gain policy signal,
                         ex_effective_ceiling := pol_aggregation_ceiling policy\<rparr>,
                        run_acc := acc_at origin_index (res_id origin) (\<lambda>a. a) (run_acc r0)\<rparr>
                  in if ingress_refused env (res_id origin) then
                       let f = the (governing_fence env (res_id origin));
                           r2 = count_up fence_rejections_update
                             (r1\<lparr>run_acc := acc_at origin_index (res_id origin)
                                (\<lambda>a. a\<lparr>na_governing_fence := fence_id f, na_received := False,
                                       na_blocked_reason := SR_Fenced\<rparr>) (run_acc r1)\<rparr>)
                       in Some (status_success, suppress_all env origin_index 0 SR_Fenced r2)
                     else if \<not> can_receive origin then
                       let block = (if res_protection origin = Sealed then SR_SealedResource
                                    else SR_ObservedOnlyResource);
                           r2 = r1\<lparr>run_acc := acc_at origin_index (res_id origin)
                                (\<lambda>a. a\<lparr>na_received := False, na_blocked_reason := block\<rparr>) (run_acc r1)\<rparr>
                       in Some (status_success, suppress_all env origin_index 0 block r2)
                     else
                       let r2 = r1\<lparr>run_tr := push_queue origin_index seed 0 kUnityGainQ16 False
                                 None None (run_tr r1)\<rparr>
                       in case traverse (Suc (Suc (length (top_edges topo)))) env signal pid r2 of
                            None \<Rightarrow> None
                          | Some r3 \<Rightarrow>
                              let (ok, r4) = flush_suppressions r3
                              in Some (status_success, if ok then r4 else set_truncated r4))"

end
