(* ===== verification/Traversal_Facts.thy ===== *)
theory Traversal_Facts
  imports Traversal
begin

text \<open>
  What one traversal guarantees: it terminates; it settles a resource at most once; every
  hop it records respects the topology, the protection classes, the fences, the authority
  and the budgets; it never increases pressure without a granted amplification; and its
  counters account for every edge it considered.
\<close>

section \<open>Which part of the run each helper changes\<close>

lemma count_up_sel [simp]:
  "run_tr (count_up f r) = run_tr r" "run_acc (count_up f r) = run_acc r"
  "run_expl (count_up f r) = run_expl r" "run_truncated (count_up f r) = run_truncated r"
  "run_visited (count_up f r) = run_visited r" "run_expansions (count_up f r) = run_expansions r"
  "run_budget_stop (count_up f r) = run_budget_stop r" "run_record_stop (count_up f r) = run_record_stop r"
  "run_counters (count_up f r) = f (\<lambda>x. x + 1) (run_counters r)"
  by (simp_all add: count_up_def)

lemma set_truncated_sel [simp]:
  "run_tr (set_truncated r) = run_tr r" "run_acc (set_truncated r) = run_acc r"
  "run_expl (set_truncated r) = run_expl r" "run_truncated (set_truncated r)"
  "run_visited (set_truncated r) = run_visited r" "run_expansions (set_truncated r) = run_expansions r"
  "run_budget_stop (set_truncated r) = run_budget_stop r"
  "run_record_stop (set_truncated r) = run_record_stop r"
  "run_counters (set_truncated r) = record_truncations_update (\<lambda>x. x + 1) (run_counters r)"
  by (simp_all add: set_truncated_def)

lemma count_amplification_sel [simp]:
  "run_tr (count_amplification b r) = run_tr r" "run_acc (count_amplification b r) = run_acc r"
  "run_truncated (count_amplification b r) = run_truncated r"
  "run_visited (count_amplification b r) = run_visited r"
  "run_expansions (count_amplification b r) = run_expansions r"
  "run_budget_stop (count_amplification b r) = run_budget_stop r"
  "run_record_stop (count_amplification b r) = run_record_stop r"
  "ex_hops (run_expl (count_amplification b r)) = ex_hops (run_expl r)"
  "ex_suppressed (run_expl (count_amplification b r)) = ex_suppressed (run_expl r)"
  "hops_considered (run_counters (count_amplification b r)) = hops_considered (run_counters r)"
  "hops_propagated (run_counters (count_amplification b r)) = hops_propagated (run_counters r)"
  "hops_suppressed (run_counters (count_amplification b r)) = hops_suppressed (run_counters r)"
  by (simp_all add: count_amplification_def)

lemma reject_counters_sel [simp]:
  "hops_considered (reject_counters reason verdict c) = hops_considered c"
  "hops_propagated (reject_counters reason verdict c) = hops_propagated c"
  "hops_suppressed (reject_counters reason verdict c) = hops_suppressed c + 1"
  "signals_accepted (reject_counters reason verdict c) = signals_accepted c"
  by (simp_all add: reject_counters_def Let_def)

lemma reject_sel [simp]:
  "tr_queue (run_tr (reject e d reason v r)) = tr_queue (run_tr r)"
  "tr_state (run_tr (reject e d reason v r)) = tr_state (run_tr r)"
  "tr_stamp (run_tr (reject e d reason v r)) = tr_stamp (run_tr r)"
  "tr_epoch_stamp (run_tr (reject e d reason v r)) = tr_epoch_stamp (run_tr r)"
  "tr_record_budget (run_tr (reject e d reason v r)) = tr_record_budget (run_tr r)"
  "length (tr_pending (run_tr (reject e d reason v r))) = length (tr_pending (run_tr r))"
  "run_acc (reject e d reason v r) = run_acc r" "run_expl (reject e d reason v r) = run_expl r"
  "run_truncated (reject e d reason v r) = run_truncated r"
  "run_visited (reject e d reason v r) = run_visited r"
  "run_expansions (reject e d reason v r) = run_expansions r"
  "run_budget_stop (reject e d reason v r) = run_budget_stop r"
  "run_record_stop (reject e d reason v r) = run_record_stop r"
  "run_counters (reject e d reason v r) = reject_counters reason v (run_counters r)"
  by (simp_all add: reject_def Let_def)

text \<open>
  \<open>same_core r r'\<close>: nothing but the pending refusals, the record budget, the current node,
  the suppression records, the counters and the truncation flag differs.
\<close>

definition same_core :: "Run \<Rightarrow> Run \<Rightarrow> bool" where
  "same_core r r' \<longleftrightarrow>
     tr_queue (run_tr r') = tr_queue (run_tr r) \<and> tr_state (run_tr r') = tr_state (run_tr r) \<and>
     tr_stamp (run_tr r') = tr_stamp (run_tr r) \<and> tr_epoch_stamp (run_tr r') = tr_epoch_stamp (run_tr r) \<and>
     run_acc r' = run_acc r \<and> ex_hops (run_expl r') = ex_hops (run_expl r) \<and>
     run_visited r' = run_visited r \<and> run_expansions r' = run_expansions r \<and>
     run_budget_stop r' = run_budget_stop r \<and> run_record_stop r' = run_record_stop r"

lemma same_core_refl [simp]: "same_core r r"
  by (simp add: same_core_def)

lemma same_core_trans: "same_core a b \<Longrightarrow> same_core b c \<Longrightarrow> same_core a c"
  by (simp add: same_core_def)

lemma flush_core: "flush_suppressions r = (ok, r') \<Longrightarrow> same_core r r' \<and> run_counters r' = run_counters r \<and> run_truncated r' = run_truncated r"
  by (auto simp: flush_suppressions_def same_core_def Let_def split: prod.splits)

lemma begin_node_core: "begin_node i r = (ok, r') \<Longrightarrow> same_core r r' \<and> run_counters r' = run_counters r \<and> run_truncated r' = run_truncated r"
  by (auto simp: begin_node_def Let_def same_core_def split: prod.splits if_splits dest!: flush_core)

lemma suppress_edges_core: "same_core r (suppress_edges t d reason es r)"
proof (induction es arbitrary: r)
  case (Cons e es)
  have "same_core r (case edge_at t e of None \<Rightarrow> count_up hops_considered_update r
      | Some edge \<Rightarrow> reject edge d reason HV_Suppressed (count_up hops_considered_update r))"
    by (simp add: same_core_def split: option.splits)
  with Cons.IH show ?case by (auto simp: Let_def intro: same_core_trans)
qed simp

lemma suppress_all_core: "same_core r (suppress_all env i d reason r)"
proof -
  let ?r1 = "suppress_edges (env_topology env) d reason (out_edge_indices_at (env_topology env) i) r"
  obtain ok r2 where f: "flush_suppressions ?r1 = (ok, r2)" by (rule prod.exhaust)
  have "same_core r r2" using suppress_edges_core flush_core [OF f] same_core_trans by blast
  then show ?thesis by (auto simp: suppress_all_def Let_def f same_core_def)
qed

lemma note_depth_frame [simp]:
  "run_tr (note_depth d r) = run_tr r" "run_acc (note_depth d r) = run_acc r"
  "run_visited (note_depth d r) = run_visited r" "run_expansions (note_depth d r) = run_expansions r"
  "run_truncated (note_depth d r) = run_truncated r" "run_record_stop (note_depth d r) = run_record_stop r"
  "run_budget_stop (note_depth d r) = run_budget_stop r"
  "ex_hops (run_expl (note_depth d r)) = ex_hops (run_expl r)"
  "ex_suppressed (run_expl (note_depth d r)) = ex_suppressed (run_expl r)"
  "hops_considered (run_counters (note_depth d r)) = hops_considered (run_counters r)"
  "hops_propagated (run_counters (note_depth d r)) = hops_propagated (run_counters r)"
  "hops_suppressed (run_counters (note_depth d r)) = hops_suppressed (run_counters r)"
  by (simp_all add: note_depth_def Let_def)

lemma note_depth_core: "same_core r (note_depth d r)"
  by (simp add: note_depth_def Let_def same_core_def)

section \<open>Settled resources\<close>

definition tr_wf :: "nat \<Rightarrow> Traversal \<Rightarrow> bool" where
  "tr_wf n tr \<longleftrightarrow> length (tr_state tr) = n \<and> length (tr_stamp tr) = n"

lemma settled_at_eq:
  "settled_at tr i \<longleftrightarrow> tr_stamp tr ! i = tr_epoch_stamp tr \<and> tst_settled (tr_state tr ! i)"
  by (simp add: settled_at_def state_at_def traversal_state_def)

lemma settled_at_cong:
  "tr_state tr' = tr_state tr \<Longrightarrow> tr_stamp tr' = tr_stamp tr \<Longrightarrow> tr_epoch_stamp tr' = tr_epoch_stamp tr \<Longrightarrow>
     settled_at tr' = settled_at tr"
  by (rule ext) (simp only: settled_at_eq)

lemma same_core_settled: "same_core r r' \<Longrightarrow> settled_at (run_tr r') = settled_at (run_tr r)"
  unfolding same_core_def by (elim conjE) (rule settled_at_cong)

lemma same_core_wf: "same_core r r' \<Longrightarrow> tr_wf n (run_tr r') = tr_wf n (run_tr r)"
  by (simp add: same_core_def tr_wf_def)

lemma settle_settled:
  assumes "tr_wf n tr" and "i < n"
  shows "settled_at (settle i tr) j \<longleftrightarrow> j = i \<or> settled_at tr j" and "tr_wf n (settle i tr)"
    and "tr_queue (settle i tr) = tr_queue tr" and "tr_record_budget (settle i tr) = tr_record_budget tr"
    and "tr_current_node (settle i tr) = tr_current_node tr" and "tr_pending (settle i tr) = tr_pending tr"
  using assms
  by (auto simp: settle_def state_at_def settled_at_eq tr_wf_def Let_def nth_list_update)

lemma push_queue_props:
  assumes "tr_wf n tr" and "i < n"
  shows "settled_at (push_queue i p d g a pa pe tr) = settled_at tr" and "tr_wf n (push_queue i p d g a pa pe tr)"
    and "tr_record_budget (push_queue i p d g a pa pe tr) = tr_record_budget tr"
    and "tr_pending (push_queue i p d g a pa pe tr) = tr_pending tr"
    and "tr_queue (push_queue i p d g a pa pe tr) =
      (if settled_at tr i then tr_queue tr
       else tr_queue tr @ [\<lparr>qe_potential = p, qe_node = i, qe_depth = d, qe_cumulative_gain_q16 = g,
         qe_parent = pa, qe_parent_edge = pe, qe_amplified = a\<rparr>])"
  using assms
  by (auto simp: push_queue_def state_at_def settled_at_eq tr_wf_def Let_def nth_list_update
      fun_eq_iff traversal_state_def pq_push_def)

section \<open>What the decision to cross an edge implies\<close>

lemma amplify_Inr:
  assumes "amplify env signal entry edge = Inr (next, gain, amp, counted)"
  shows "\<not> is_amplifying edge \<Longrightarrow>
      next = attenuated (qe_potential entry) (edge_attenuation edge) \<and> gain = qe_cumulative_gain_q16 entry"
    and "is_amplifying edge \<Longrightarrow>
      amplification_granted (env_policy env) signal \<and> gain \<le> granted_gain (env_policy env) signal \<and>
      amplified (attenuated (qe_potential entry) (edge_attenuation edge)) (edge_amplification edge) = Inr next"
proof -
  show "\<not> is_amplifying edge \<Longrightarrow>
      next = attenuated (qe_potential entry) (edge_attenuation edge) \<and> gain = qe_cumulative_gain_q16 entry"
    using assms by (simp add: amplify_def Let_def)
  assume amp: "is_amplifying edge"
  let ?q = "drop_bit 16 ((ucast (qe_cumulative_gain_q16 entry) :: u64) * ucast (gain_raw (edge_amplification edge)))"
  from assms amp have le: "?q \<le> ucast (granted_gain (env_policy env) signal)" and g: "gain = ucast ?q"
    and rest: "amplification_granted (env_policy env) signal"
      "amplified (attenuated (qe_potential entry) (edge_attenuation edge)) (edge_amplification edge) = Inr next"
    by (auto simp: amplify_def Let_def amplification_granted_def split: if_splits sum.splits)
  have "unat ?q < 2 ^ 32"
    using le unat_u32_bound [of "granted_gain (env_policy env) signal"] by (simp add: word_le_nat_alt)
  then have "unat gain = unat ?q" unfolding g by (rule unat_u64_to_u32)
  with le rest show "amplification_granted (env_policy env) signal \<and> gain \<le> granted_gain (env_policy env) signal \<and>
      amplified (attenuated (qe_potential entry) (edge_attenuation edge)) (edge_amplification edge) = Inr next"
    by (simp add: word_le_nat_alt)
qed

text \<open>The static permission for an edge: what the guards check about edge, target and pins.\<close>

definition edge_permitted :: "TraversalEnv \<Rightarrow> PressureSignal \<Rightarrow> nat \<Rightarrow> DependencyEdge \<Rightarrow> bool" where
  "edge_permitted env signal edge_index edge \<longleftrightarrow>
     \<not> att_is_zero (edge_attenuation edge) \<and> \<not> flags_has (edge_flags edge) EF_RecoveryOnly \<and>
     (\<exists>k res. index_of (env_topology env) (edge_to edge) = Some k \<and>
        resource_at (env_topology env) k = Some res \<and> can_receive res) \<and>
     covers (sig_authority signal) (edge_to edge) \<and> \<not> ingress_refused env (edge_to edge) \<and>
     (edge_index < length (env_pin_present env) \<and> env_pin_present env ! edge_index \<longrightarrow>
        env_pin_generation env ! edge_index = edge_dependency_generation edge)"

lemma edge_decision_Cross:
  assumes "edge_decision env signal entry settled fanout expansions e edge = Cross k next gain amp counted"
  shows "edge_permitted env signal e edge" and "index_of (env_topology env) (edge_to edge) = Some k"
    and "k < length (top_resources (env_topology env))" and "\<not> settled k"
    and "fanout < pol_max_fanout (env_policy env)"
    and "expansions < unat (pol_max_expansions (env_policy env))"
    and "qe_depth entry + 1 \<le> authority_hops (env_policy env) signal"
    and "qe_depth entry + 1 \<le> effective_max_hops (env_policy env) (edge_max_hops edge)"
    and "potential_from_magnitude (pol_min_propagatable (env_policy env)) \<le> next"
    and "\<not> hysteresis_refused env edge next"
    and "amplify env signal entry edge = Inr (next, gain, amp, counted)"
proof -
  note e = assms [unfolded edge_decision_def Let_def]
  from e obtain res where idx: "index_of (env_topology env) (edge_to edge) = Some k"
    and res: "resource_at (env_topology env) k = Some res"
    by (auto split: if_splits option.splits sum.splits)
  note d = e [unfolded idx option.case res]
  show "index_of (env_topology env) (edge_to edge) = Some k" by (rule idx)
  show "k < length (top_resources (env_topology env))" using res by (simp add: resource_at_def split: if_splits)
  show "edge_permitted env signal e edge"
    unfolding edge_permitted_def using d idx res by (auto split: if_splits sum.splits)
  show "\<not> settled k" "fanout < pol_max_fanout (env_policy env)"
    "expansions < unat (pol_max_expansions (env_policy env))"
    "amplify env signal entry edge = Inr (next, gain, amp, counted)"
    "potential_from_magnitude (pol_min_propagatable (env_policy env)) \<le> next"
    "\<not> hysteresis_refused env edge next"
    using d by (auto split: if_splits sum.splits)
  have "\<not> qe_depth entry + 1 > (if effective_max_hops (env_policy env) (edge_max_hops edge) < authority_hops (env_policy env) signal
       then effective_max_hops (env_policy env) (edge_max_hops edge) else authority_hops (env_policy env) signal)"
    using d by (auto split: if_splits sum.splits)
  then show "qe_depth entry + 1 \<le> authority_hops (env_policy env) signal"
    "qe_depth entry + 1 \<le> effective_max_hops (env_policy env) (edge_max_hops edge)"
    by (auto split: if_splits)
qed

section \<open>Termination\<close>

definition out_deg :: "Topology \<Rightarrow> nat \<Rightarrow> nat" where
  "out_deg t i = length (out_edge_indices_at t i)"

definition traversal_measure :: "Topology \<Rightarrow> Run \<Rightarrow> nat" where
  "traversal_measure t r =
     length (tr_queue (run_tr r)) +
     (\<Sum>i < length (top_resources t). if settled_at (run_tr r) i then 0 else out_deg t i)"

lemma cross_edge_core:
  assumes "tr_wf n (run_tr r)" and "k < n"
  shows "settled_at (run_tr (cross_edge res entry e edge k nxt gain amp r)) = settled_at (run_tr r)"
    and "tr_wf n (run_tr (cross_edge res entry e edge k nxt gain amp r))"
    and "length (tr_queue (run_tr (cross_edge res entry e edge k nxt gain amp r)))
      \<le> Suc (length (tr_queue (run_tr r)))"
proof -
  let ?tr = "(run_tr r)\<lparr>tr_record_budget := tr_record_budget (run_tr r) - 1\<rparr>"
  have w: "tr_wf n ?tr" using assms(1) by (simp add: tr_wf_def)
  have s: "settled_at ?tr = settled_at (run_tr r)" by (rule settled_at_cong) simp_all
  note p = push_queue_props [OF w assms(2)]
  show "settled_at (run_tr (cross_edge res entry e edge k nxt gain amp r)) = settled_at (run_tr r)"
    using p(1) s by (simp add: cross_edge_def push_hop_def Let_def)
  show "tr_wf n (run_tr (cross_edge res entry e edge k nxt gain amp r))"
    using p(2) assms(1) by (simp add: cross_edge_def push_hop_def Let_def)
  show "length (tr_queue (run_tr (cross_edge res entry e edge k nxt gain amp r)))
      \<le> Suc (length (tr_queue (run_tr r)))"
    by (simp add: cross_edge_def push_hop_def Let_def p(5))
qed

lemma expand_edges_core:
  assumes "n = length (top_resources (env_topology env))"
  shows "tr_wf n (run_tr r) \<Longrightarrow>
    tr_wf n (run_tr (expand_edges env signal res entry es fanout r)) \<and>
    settled_at (run_tr (expand_edges env signal res entry es fanout r)) = settled_at (run_tr r) \<and>
    length (tr_queue (run_tr (expand_edges env signal res entry es fanout r)))
      \<le> length (tr_queue (run_tr r)) + length es"
proof (induction es arbitrary: fanout r)
  case (Cons e es)
  let ?r1 = "count_up hops_considered_update r"
  show ?case
  proof (cases "edge_at (env_topology env) e")
    case None
    with Cons.IH [of ?r1 fanout] Cons.prems show ?thesis by (simp add: Let_def)
  next
    case (Some edge)
    show ?thesis
    proof (cases "edge_decision env signal entry (settled_at (run_tr ?r1)) fanout (run_expansions ?r1) e edge")
      case (Refuse reason verdict counted)
      let ?r2 = "reject edge (qe_depth entry) reason verdict (count_amplification counted ?r1)"
      let ?r3 = "if reason = SR_ExpansionBudgetExhausted then ?r2\<lparr>run_budget_stop := True\<rparr> else ?r2"
      have "settled_at (run_tr ?r3) = settled_at (run_tr r)" "tr_wf n (run_tr ?r3)"
        "tr_queue (run_tr ?r3) = tr_queue (run_tr r)"
        using Cons.prems by (auto simp: tr_wf_def intro!: settled_at_cong)
      with Cons.IH [of ?r3 fanout] Some Refuse show ?thesis by (simp add: Let_def)
    next
      case (Cross k nxt gain amp counted)
      let ?r2 = "cross_edge res entry e edge k nxt gain amp (count_amplification counted ?r1)"
      have k: "k < n" using edge_decision_Cross(3) [OF Cross] assms by simp
      have w: "tr_wf n (run_tr (count_amplification counted ?r1))" using Cons.prems by simp
      note c = cross_edge_core [OF w k, where res = res and entry = entry and e = e and edge = edge
          and nxt = nxt and gain = gain and amp = amp, simplified]
      show ?thesis
        using Cons.IH [OF c(2), of "fanout + 1"] Some Cross c by (auto simp: Let_def)
    qed
  qed
qed simp

text \<open>Processing a node either leaves the core alone or expands the node's edges.\<close>

lemma process_node_cases:
  obtains (absent) "resource_at (env_topology env) (qe_node entry) = None" "process_node env signal pid entry r = r"
  | (blocked) res reason r1 where "resource_at (env_topology env) (qe_node entry) = Some res"
      "process_node env signal pid entry r = suppress_all env (qe_node entry) (qe_depth entry) reason r1"
      "run_tr r1 = run_tr r" "run_expl r1 = run_expl r" "run_expansions r1 = run_expansions r"
      "run_visited r1 = run_visited r" "run_budget_stop r1 = run_budget_stop r"
      "run_record_stop r1 = run_record_stop r" "run_truncated r1 = run_truncated r"
      "hops_considered (run_counters r1) = hops_considered (run_counters r)"
      "hops_propagated (run_counters r1) = hops_propagated (run_counters r)"
      "hops_suppressed (run_counters r1) = hops_suppressed (run_counters r)"
      "\<exists>f. (\<forall>a. na_contributions (f a) = na_contributions a \<and> na_contribution_count (f a) = na_contribution_count a \<and>
            na_resource (f a) = na_resource a \<and> na_received (f a) = na_received a) \<and>
          (run_acc r1 = record_settlement env entry (res_id res) signal pid (run_acc r) \<or>
           run_acc r1 = acc_at (qe_node entry) (res_id res) f (record_settlement env entry (res_id res) signal pid (run_acc r)))"
  | (expanded) res where "resource_at (env_topology env) (qe_node entry) = Some res" "can_forward res"
      "\<not> egress_refused env (res_id res)" "qe_depth entry < authority_hops (env_policy env) signal"
      "process_node env signal pid entry r = expand_edges env signal res entry
         (out_edge_indices_at (env_topology env) (qe_node entry)) 0
         (r\<lparr>run_acc := record_settlement env entry (res_id res) signal pid (run_acc r)\<rparr>)"
proof (cases "resource_at (env_topology env) (qe_node entry)")
  case None
  then show ?thesis using absent by (simp add: process_node_def)
next
  case (Some res)
  let ?acc = "record_settlement env entry (res_id res) signal pid (run_acc r)"
  let ?r1 = "r\<lparr>run_acc := ?acc\<rparr>"
  consider (hops) "authority_hops (env_policy env) signal \<le> qe_depth entry"
    | (boundary) "qe_depth entry < authority_hops (env_policy env) signal" "\<not> can_forward res"
    | (fence) f where "qe_depth entry < authority_hops (env_policy env) signal" "can_forward res"
        "governing_fence env (res_id res) = Some f" "refuses_egress f"
    | (free) "qe_depth entry < authority_hops (env_policy env) signal" "can_forward res"
        "\<not> egress_refused env (res_id res)"
    by (cases "authority_hops (env_policy env) signal \<le> qe_depth entry"; cases "can_forward res";
        cases "governing_fence env (res_id res)"; cases "egress_refused env (res_id res)")
      (auto simp: egress_refused_def not_le)
  then show ?thesis
  proof cases
    case hops
    show ?thesis by (rule blocked [OF Some, of SR_MaxHops ?r1])
        (use hops Some in \<open>auto simp: process_node_def Let_def intro: exI [of _ "\<lambda>a. a"]\<close>)
  next
    case boundary
    show ?thesis by (rule blocked [OF Some, of SR_ProtectedBoundary "?r1\<lparr>run_acc := acc_at (qe_node entry) (res_id res)
          (\<lambda>a. a\<lparr>na_blocked_reason := SR_ProtectedBoundary\<rparr>) ?acc\<rparr>"])
        (use boundary Some in \<open>auto simp: process_node_def Let_def
          intro!: exI [of _ "\<lambda>a. a\<lparr>na_blocked_reason := SR_ProtectedBoundary\<rparr>"]\<close>)
  next
    case fence
    show ?thesis by (rule blocked [OF Some, of SR_Fenced "count_up fence_rejections_update (?r1\<lparr>run_acc := acc_at (qe_node entry) (res_id res)
          (\<lambda>a. a\<lparr>na_blocked_reason := SR_Fenced, na_governing_fence := fence_id f\<rparr>) ?acc\<rparr>)"])
        (use fence Some in \<open>auto simp: process_node_def Let_def
          intro!: exI [of _ "\<lambda>a. a\<lparr>na_blocked_reason := SR_Fenced, na_governing_fence := fence_id f\<rparr>"]\<close>)
  next
    case free
    then show ?thesis using expanded [OF Some] Some
      by (auto simp: process_node_def Let_def egress_refused_def split: option.splits)
  qed
qed

lemma process_node_core:
  assumes n: "n = length (top_resources (env_topology env))" and w: "tr_wf n (run_tr r)"
  shows "tr_wf n (run_tr (process_node env signal pid entry r))"
    and "settled_at (run_tr (process_node env signal pid entry r)) = settled_at (run_tr r)"
    and "length (tr_queue (run_tr (process_node env signal pid entry r)))
      \<le> length (tr_queue (run_tr r)) + out_deg (env_topology env) (qe_node entry)"
proof -
  let ?r' = "process_node env signal pid entry r"
  have "tr_wf n (run_tr ?r') \<and> settled_at (run_tr ?r') = settled_at (run_tr r) \<and>
      length (tr_queue (run_tr ?r')) \<le> length (tr_queue (run_tr r)) + out_deg (env_topology env) (qe_node entry)"
  proof (cases rule: process_node_cases [of env entry signal pid r])
    case absent
    then show ?thesis using w by simp
  next
    case (blocked res reason r1)
    note core = suppress_all_core [of r1 env "qe_node entry" "qe_depth entry" reason]
    show ?thesis using same_core_settled [OF core] same_core_wf [OF core] core w blocked(2,3)
      by (simp add: same_core_def)
  next
    case (expanded res)
    show ?thesis using expand_edges_core [OF n, where signal = signal and res = res and entry = entry
        and es = "out_edge_indices_at (env_topology env) (qe_node entry)" and fanout = 0
        and r = "r\<lparr>run_acc := record_settlement env entry (res_id res) signal pid (run_acc r)\<rparr>"] w
      by (simp add: expanded(5) out_deg_def)
  qed
  then show "tr_wf n (run_tr ?r')" "settled_at (run_tr ?r') = settled_at (run_tr r)"
    "length (tr_queue (run_tr ?r')) \<le> length (tr_queue (run_tr r)) + out_deg (env_topology env) (qe_node entry)"
    by simp_all
qed

text \<open>
  One iteration of the main loop: it stops at a budget, drops an entry for a settled node,
  stops because the pending records do not fit, or settles a node and processes it.
\<close>

lemma traverse_step_cases:
  assumes n: "n = length (top_resources (env_topology env))" and w: "tr_wf n (run_tr r)"
    and ne: "tr_queue (run_tr r) \<noteq> []"
  obtains (budget) "traverse_step env signal pid r = (count_up budget_exhaustions_update r)\<lparr>run_budget_stop := True\<rparr>"
  | (stale) entry where "pq_top queue_entry_less (tr_queue (run_tr r)) = Some entry"
      "n \<le> qe_node entry \<or> settled_at (run_tr r) (qe_node entry)"
      "traverse_step env signal pid r =
         r\<lparr>run_tr := (run_tr r)\<lparr>tr_queue := pq_pop queue_entry_less (tr_queue (run_tr r))\<rparr>\<rparr>"
  | (records) entry r3 where "pq_top queue_entry_less (tr_queue (run_tr r)) = Some entry"
      "qe_node entry < n" "\<not> settled_at (run_tr r) (qe_node entry)"
      "same_core (r\<lparr>run_tr := settle (qe_node entry)
         ((run_tr r)\<lparr>tr_queue := pq_pop queue_entry_less (tr_queue (run_tr r))\<rparr>)\<rparr>) r3"
      "run_counters r3 = run_counters r"
      "traverse_step env signal pid r = (set_truncated r3)\<lparr>run_record_stop := True\<rparr>"
      "begin_node (qe_node entry) (r\<lparr>run_tr := settle (qe_node entry)
         ((run_tr r)\<lparr>tr_queue := pq_pop queue_entry_less (tr_queue (run_tr r))\<rparr>)\<rparr>) = (False, r3)"
  | (settles) entry r3 where "pq_top queue_entry_less (tr_queue (run_tr r)) = Some entry"
      "qe_node entry < n" "\<not> settled_at (run_tr r) (qe_node entry)"
      "run_visited r < unat (pol_max_visited (env_policy env))"
      "same_core (r\<lparr>run_tr := settle (qe_node entry)
         ((run_tr r)\<lparr>tr_queue := pq_pop queue_entry_less (tr_queue (run_tr r))\<rparr>)\<rparr>) r3"
      "run_counters r3 = run_counters r" "run_truncated r3 = run_truncated r"
      "begin_node (qe_node entry) (r\<lparr>run_tr := settle (qe_node entry)
         ((run_tr r)\<lparr>tr_queue := pq_pop queue_entry_less (tr_queue (run_tr r))\<rparr>)\<rparr>) = (True, r3)"
      "traverse_step env signal pid r = process_node env signal pid entry
         (note_depth (qe_depth entry) (count_up nodes_settled_update (r3\<lparr>run_visited := run_visited r3 + 1\<rparr>)))"
proof (cases "run_visited r \<ge> unat (pol_max_visited (env_policy env))")
  case True
  then show ?thesis using budget by (simp add: traverse_step_def)
next
  case False
  obtain entry where top: "pq_top queue_entry_less (tr_queue (run_tr r)) = Some entry"
    using ne by (cases "pq_top queue_entry_less (tr_queue (run_tr r))") auto
  let ?tr = "(run_tr r)\<lparr>tr_queue := pq_pop queue_entry_less (tr_queue (run_tr r))\<rparr>"
  have s: "settled_at ?tr = settled_at (run_tr r)" by (rule settled_at_cong) simp_all
  have l: "length (tr_state ?tr) = n" using w by (simp add: tr_wf_def)
  show ?thesis
  proof (cases "n \<le> qe_node entry \<or> settled_at (run_tr r) (qe_node entry)")
    case True
    then show ?thesis using stale [OF top] False l s by (auto simp: traverse_step_def top Let_def)
  next
    case live: False
    let ?r2 = "r\<lparr>run_tr := settle (qe_node entry) ?tr\<rparr>"
    obtain ok r3 where b: "begin_node (qe_node entry) ?r2 = (ok, r3)" by (rule prod.exhaust)
    note core = begin_node_core [OF b]
    show ?thesis
    proof (cases ok)
      case True
      show ?thesis by (rule settles [OF top, of r3])
          (use True b core live False l s in \<open>auto simp: traverse_step_def top Let_def\<close>)
    next
      case no: False
      show ?thesis by (rule records [OF top, of r3])
          (use no b core live False l s in \<open>auto simp: traverse_step_def top Let_def\<close>)
    qed
  qed
qed

lemma length_pq_pop: "pq_top lt q = Some x \<Longrightarrow> length q = Suc (length (pq_pop lt q))"
  using pq_top_in [of lt q x] by (auto simp: pq_pop_def length_remove1 split: option.splits dest: length_pos_if_in_set)

lemma traverse_step_decreases:
  assumes n: "n = length (top_resources (env_topology env))" and w: "tr_wf n (run_tr r)"
    and ne: "tr_queue (run_tr r) \<noteq> []" and r'_def: "r' = traverse_step env signal pid r"
  shows "tr_wf n (run_tr r') \<and>
    (run_record_stop r' \<or> run_budget_stop r' \<or> traversal_measure (env_topology env) r' < traversal_measure (env_topology env) r)"
proof (cases rule: traverse_step_cases [OF n w ne, of signal pid])
  case 1
  then show ?thesis using w by (simp add: r'_def)
next
  case (2 entry)
  have s: "settled_at ((run_tr r)\<lparr>tr_queue := pq_pop queue_entry_less (tr_queue (run_tr r))\<rparr>) = settled_at (run_tr r)"
    by (rule settled_at_cong) simp_all
  show ?thesis using w length_pq_pop [OF 2(1)] by (simp add: r'_def 2(3) traversal_measure_def s tr_wf_def)
next
  case (3 entry r3)
  show ?thesis using same_core_wf [OF 3(4)] settle_settled(2) [of n _ "qe_node entry"] w 3(2)
    by (simp add: r'_def 3(6) tr_wf_def)
next
  case (4 entry r3)
  let ?tr = "(run_tr r)\<lparr>tr_queue := pq_pop queue_entry_less (tr_queue (run_tr r))\<rparr>"
  let ?i = "qe_node entry" and ?N = "length (top_resources (env_topology env))"
  let ?r4 = "note_depth (qe_depth entry) (count_up nodes_settled_update (r3\<lparr>run_visited := run_visited r3 + 1\<rparr>))"
  have wt: "tr_wf n ?tr" using w by (simp add: tr_wf_def)
  note st = settle_settled [OF wt 4(2)]
  have tr3: "settled_at (run_tr r3) = settled_at (settle ?i ?tr)" "tr_wf n (run_tr r3)"
    "tr_queue (run_tr r3) = pq_pop queue_entry_less (tr_queue (run_tr r))"
    using same_core_settled [OF 4(5)] same_core_wf [OF 4(5)] st 4(5) by (simp_all add: same_core_def)
  note nd = note_depth_core [of "count_up nodes_settled_update (r3\<lparr>run_visited := run_visited r3 + 1\<rparr>)" "qe_depth entry"]
  have r4: "settled_at (run_tr ?r4) = settled_at (settle ?i ?tr)" "tr_wf n (run_tr ?r4)"
    "tr_queue (run_tr ?r4) = pq_pop queue_entry_less (tr_queue (run_tr r))"
    using same_core_settled [OF nd] same_core_wf [OF nd] nd tr3 by (simp_all add: same_core_def)
  note pn = process_node_core [OF n r4(2), of signal pid entry]
  have s: "settled_at ?tr = settled_at (run_tr r)" by (rule settled_at_cong) simp_all
  have "(\<Sum>j < ?N. if settled_at (run_tr r) j then 0 else out_deg (env_topology env) j)
      = (\<Sum>j < ?N. (if settled_at (settle ?i ?tr) j then 0 else out_deg (env_topology env) j)
           + (if j = ?i then out_deg (env_topology env) ?i else 0))"
    using 4(3) by (intro sum.cong) (auto simp: st(1) s)
  also have "\<dots> = (\<Sum>j < ?N. if settled_at (settle ?i ?tr) j then 0 else out_deg (env_topology env) j)
      + out_deg (env_topology env) ?i"
    using 4(2) n by (simp add: sum.distrib)
  finally show ?thesis
    using pn r4 length_pq_pop [OF 4(1)] by (simp add: r'_def 4(9) traversal_measure_def)
qed

lemma traverse_total:
  "n = length (top_resources (env_topology env)) \<Longrightarrow> tr_wf n (run_tr r) \<Longrightarrow>
   traversal_measure (env_topology env) r \<le> fuel \<Longrightarrow> \<exists>r'. traverse fuel env signal pid r = Some r'"
proof (induction fuel arbitrary: r)
  case 0
  then show ?case by (simp add: traversal_measure_def)
next
  case (Suc fuel)
  show ?case
  proof (cases "tr_queue (run_tr r) = []")
    case False
    from traverse_step_decreases [OF Suc.prems(1,2) False refl, of signal pid] Suc.IH [OF Suc.prems(1)] Suc.prems(3) False
    show ?thesis by (auto simp: Let_def)
  qed simp
qed

end
