(* ===== verification/Traversal_Inv.thy ===== *)
theory Traversal_Inv
  imports Traversal_Facts
begin

text \<open>
  Invariants of a traversal. The locale \<open>traversal_invariant\<close> is the induction principle of
  the main loop: its assumptions are the elementary changes the loop makes to the run, its
  theorem is that an invariant of those is an invariant of the whole traversal. It is
  interpreted for the five invariants below: what a recorded hop respects, the budgets, the
  accounting of the counters, the bound on pressure, and one settlement per resource.
\<close>

section \<open>The traversal returns\<close>

lemma out_edges_bound:
  assumes "topology_wf t" and "i < length (top_resources t)" and "e \<in> set (out_edge_indices_at t i)"
  shows "e < length (top_edges t)" and "edge_from (top_edges t ! e) = res_id (top_resources t ! i)"
  using assms unfolding topology_wf_def by auto

lemma topology_wf_distinct: "topology_wf t \<Longrightarrow> distinct (map res_id (top_resources t))"
  unfolding topology_wf_def by (blast intro: sorted_distinct_ids)

lemma sum_out_deg:
  assumes "topology_wf t"
  shows "(\<Sum>i < length (top_resources t). out_deg t i) = length (top_edges t)"
proof -
  let ?n = "length (top_resources t)" and ?es = "top_edges t"
  let ?src = "\<lambda>e. the (index_of t (edge_from e))"
  have src: "?src e < ?n \<and> (\<forall>i < ?n. edge_from e = res_id (top_resources t ! i) \<longleftrightarrow> ?src e = i)"
    if "e \<in> set ?es" for e
  proof -
    have "edge_from e \<in> res_id ` set (top_resources t)" using assms that by (simp add: topology_wf_def)
    then obtain k where k: "k < ?n" "res_id (top_resources t ! k) = edge_from e"
      by (auto simp: in_set_conv_nth)
    then have "index_of t (edge_from e) = Some k" by (simp add: topology_wf_index [OF assms])
    moreover have "edge_from e = res_id (top_resources t ! i) \<longleftrightarrow> k = i" if "i < ?n" for i
      using nth_eq_iff_index_eq [OF topology_wf_distinct [OF assms], of k i] k that by auto
    ultimately show ?thesis using k by simp
  qed
  have len: "out_deg t i = length (filter (\<lambda>e. ?src e = i) ?es)" if "i < ?n" for i
  proof -
    have "out_edge_indices_at t i = filter (\<lambda>e. ?src (?es ! e) = i) [0..<length ?es]"
    proof -
      have "out_edge_indices_at t i = filter (\<lambda>e. edge_from (?es ! e) = res_id (top_resources t ! i)) [0..<length ?es]"
        using assms that unfolding topology_wf_def by simp
      also have "\<dots> = filter (\<lambda>e. ?src (?es ! e) = i) [0..<length ?es]"
        by (rule filter_cong) (use src that in auto)
      finally show ?thesis .
    qed
    moreover have "map ((!) ?es) (filter (\<lambda>e. ?src (?es ! e) = i) [0..<length ?es]) = filter (\<lambda>e. ?src e = i) ?es"
      using filter_map [of "\<lambda>e. ?src e = i" "(!) ?es" "[0..<length ?es]"] by (simp add: map_nth o_def)
    ultimately show ?thesis unfolding out_deg_def by (metis length_map)
  qed
  have "(\<Sum>i < ?n. out_deg t i) = sum_list (map (\<lambda>i. length (filter (\<lambda>e. ?src e = i) ?es)) [0..<?n])"
    by (simp add: len interv_sum_list_conv_sum_set_nat atLeast0LessThan)
  also have "\<dots> = length ?es" by (rule sum_out_degrees) (use src in auto)
  finally show ?thesis .
qed

definition env_size :: "TraversalEnv \<Rightarrow> nat" where
  "env_size env = length (top_resources (env_topology env))"

lemma run_start_wf: "tr_wf (env_size env) (run_tr (run_start env b signal acc c x t))"
  by (simp add: run_start_def traversal_def tr_wf_def env_size_def Let_def)

lemma run_start_settled: "i < env_size env \<Longrightarrow> \<not> settled_at (run_tr (run_start env b signal acc c x t)) i"
  by (simp add: run_start_def traversal_def settled_at_eq env_size_def Let_def traversal_state_def)

lemma origin_cases:
  assumes "Option.bind (index_of topo i) (\<lambda>i. map_option (Pair i) (resource_at topo i)) = Some (k, origin)"
  shows "index_of topo i = Some k" and "k < length (top_resources topo)" and "origin = top_resources topo ! k"
  using assms by (auto simp: bind_eq_Some_conv resource_at_def split: if_splits)

text \<open>
  The shape of a run: it fails, is blocked at the origin, or traverses from a queue that
  holds the origin alone.
\<close>

definition origin_run :: "TraversalEnv \<Rightarrow> PressureSignal \<Rightarrow> nat \<Rightarrow> Resource \<Rightarrow> Run \<Rightarrow> Run" where
  "origin_run env signal k origin r0 = r0\<lparr>run_expl := (run_expl r0)
       \<lparr>ex_amplification_granted := amplification_granted (env_policy env) signal,
        ex_granted_gain_q16 := granted_gain (env_policy env) signal,
        ex_effective_ceiling := pol_aggregation_ceiling (env_policy env)\<rparr>,
      run_acc := acc_at k (res_id origin) (\<lambda>a. a) (run_acc r0)\<rparr>"

definition seed_run :: "TraversalEnv \<Rightarrow> PressureSignal \<Rightarrow> nat \<Rightarrow> Resource \<Rightarrow> Run \<Rightarrow> Run" where
  "seed_run env signal k origin r0 = (origin_run env signal k origin r0)\<lparr>run_tr :=
     push_queue k (potential_from_magnitude (obs_magnitude (sig_observation signal))) 0 kUnityGainQ16 False
       None None (run_tr (origin_run env signal k origin r0))\<rparr>"

lemma run_traversal_cases:
  fixes b acc c x t
  defines "r0 \<equiv> \<lambda>env signal. run_start env b signal acc c x t"
  obtains (failed) s where "run_traversal env b signal pid acc c x t = Some (s, r0 env signal)" "\<not> status_ok s"
  | (blocked) k origin f reason r2 where "index_of (env_topology env) (sig_origin signal) = Some k"
      "k < env_size env" "origin = top_resources (env_topology env) ! k"
      "r2 = (origin_run env signal k origin (r0 env signal))\<lparr>run_acc := acc_at k (res_id origin) f
         (run_acc (origin_run env signal k origin (r0 env signal)))\<rparr>"
      "\<And>a. na_contributions (f a) = na_contributions a \<and> na_contribution_count (f a) = na_contribution_count a \<and>
         na_resource (f a) = na_resource a"
      "run_traversal env b signal pid acc c x t = Some (status_success, suppress_all env k 0 reason r2) \<or>
       run_traversal env b signal pid acc c x t =
         Some (status_success, suppress_all env k 0 reason (count_up fence_rejections_update r2))"
      "reason \<noteq> SR_Count"
  | (ran) k origin where "index_of (env_topology env) (sig_origin signal) = Some k"
      "k < env_size env" "origin = top_resources (env_topology env) ! k"
      "can_receive origin" "\<not> ingress_refused env (res_id origin)"
      "run_traversal env b signal pid acc c x t =
         (case traverse (Suc (Suc (length (top_edges (env_topology env))))) env signal pid
                 (seed_run env signal k origin (r0 env signal)) of
            None \<Rightarrow> None
          | Some r3 \<Rightarrow> (case flush_suppressions r3 of (ok, r4) \<Rightarrow>
              Some (status_success, if ok then r4 else set_truncated r4)))"
proof (cases "Option.bind (index_of (env_topology env) (sig_origin signal))
    (\<lambda>i. map_option (Pair i) (resource_at (env_topology env) i))")
  case None
  then show ?thesis using failed by (simp add: run_traversal_def r0_def)
next
  case (Some p)
  obtain k origin where p: "p = (k, origin)" by (cases p)
  note o = origin_cases [OF Some [unfolded p]]
  have k: "k < env_size env" using o(2) by (simp add: env_size_def)
  let ?seed = "potential_from_magnitude (obs_magnitude (sig_observation signal))"
  note unf = run_traversal_def Some p Let_def r0_def
  consider (zero) "potential_is_zero ?seed" | (fence) "\<not> potential_is_zero ?seed" "ingress_refused env (res_id origin)"
    | (closed) "\<not> potential_is_zero ?seed" "\<not> ingress_refused env (res_id origin)" "\<not> can_receive origin"
    | (receives) "\<not> potential_is_zero ?seed" "\<not> ingress_refused env (res_id origin)" "can_receive origin" by blast
  then show ?thesis
  proof cases
    case zero
    then show ?thesis using failed by (simp add: unf)
  next
    case fence
    let ?f = "\<lambda>a. a\<lparr>na_governing_fence := fence_id (the (governing_fence env (res_id origin))),
      na_received := False, na_blocked_reason := SR_Fenced\<rparr>"
    show ?thesis by (rule blocked [OF o(1) k o(3) refl, of ?f SR_Fenced])
        (use fence in \<open>simp_all add: unf origin_run_def\<close>)
  next
    case closed
    let ?b = "if res_protection origin = Sealed then SR_SealedResource else SR_ObservedOnlyResource"
    let ?f = "\<lambda>a. a\<lparr>na_received := False, na_blocked_reason := ?b\<rparr>"
    show ?thesis by (rule blocked [OF o(1) k o(3) refl, of ?f ?b])
        (use closed in \<open>simp_all add: unf origin_run_def\<close>)
  next
    case receives
    show ?thesis by (rule ran [OF o(1) k o(3)])
        (use receives in \<open>simp_all add: unf origin_run_def seed_run_def split: option.splits prod.splits\<close>)
  qed
qed

lemma seed_run_props:
  assumes "k < env_size env" and "r0 = run_start env b signal acc c x t"
  shows "tr_wf (env_size env) (run_tr (seed_run env signal k origin r0))"
    and "settled_at (run_tr (seed_run env signal k origin r0)) = settled_at (run_tr r0)"
    and "tr_queue (run_tr (seed_run env signal k origin r0)) =
      [\<lparr>qe_potential = potential_from_magnitude (obs_magnitude (sig_observation signal)), qe_node = k,
        qe_depth = 0, qe_cumulative_gain_q16 = kUnityGainQ16, qe_parent = None, qe_parent_edge = None,
        qe_amplified = False\<rparr>]"
proof -
  have tr: "run_tr (origin_run env signal k origin r0) = run_tr r0" by (simp add: origin_run_def)
  have w: "tr_wf (env_size env) (run_tr r0)" by (simp add: assms(2) run_start_wf)
  note p = push_queue_props [OF w assms(1)]
  show "tr_wf (env_size env) (run_tr (seed_run env signal k origin r0))"
    "settled_at (run_tr (seed_run env signal k origin r0)) = settled_at (run_tr r0)"
    using p by (simp_all add: seed_run_def tr)
  have "tr_queue (run_tr r0) = []" by (simp add: assms(2) run_start_def traversal_def Let_def)
  moreover have "\<not> settled_at (run_tr r0) k" by (simp add: assms(2) run_start_settled [OF assms(1)])
  ultimately show "tr_queue (run_tr (seed_run env signal k origin r0)) =
      [\<lparr>qe_potential = potential_from_magnitude (obs_magnitude (sig_observation signal)), qe_node = k,
        qe_depth = 0, qe_cumulative_gain_q16 = kUnityGainQ16, qe_parent = None, qe_parent_edge = None,
        qe_amplified = False\<rparr>]"
    using p(5) by (simp add: seed_run_def tr)
qed

lemma run_traversal_returns:
  assumes "topology_wf (env_topology env)"
  shows "\<exists>s r. run_traversal env b signal pid acc c x t = Some (s, r)"
proof (cases rule: run_traversal_cases [of env b signal pid acc c x t])
  case (ran k origin)
  let ?r = "seed_run env signal k origin (run_start env b signal acc c x t)"
  note sr = seed_run_props [OF ran(2) refl]
  have "traversal_measure (env_topology env) ?r \<le> 1 + (\<Sum>i < env_size env. out_deg (env_topology env) i)"
    by (simp add: traversal_measure_def sr(3) env_size_def sum_mono)
  also have "\<dots> = 1 + length (top_edges (env_topology env))"
    using sum_out_deg [OF assms] by (simp add: env_size_def)
  finally have m: "traversal_measure (env_topology env) ?r \<le> Suc (Suc (length (top_edges (env_topology env))))"
    by simp
  obtain r3 where r3: "traverse (Suc (Suc (length (top_edges (env_topology env))))) env signal pid ?r = Some r3"
    using traverse_total [OF env_size_def sr(1) m] by blast
  then show ?thesis unfolding ran(6) by (auto split: prod.splits)
qed auto

section \<open>The induction principle of the main loop\<close>

definition crossing ::
  "TraversalEnv \<Rightarrow> PressureSignal \<Rightarrow> QueueEntry \<Rightarrow> Resource \<Rightarrow> nat \<Rightarrow> DependencyEdge \<Rightarrow>
   nat \<Rightarrow> Potential \<Rightarrow> u32 \<Rightarrow> bool \<Rightarrow> bool \<Rightarrow> u32 \<Rightarrow> Run \<Rightarrow> bool" where
  "crossing env signal entry res e edge k nxt gain amp counted fanout r \<longleftrightarrow>
     edge_decision env signal entry (settled_at (run_tr r)) fanout (run_expansions r) e edge
       = Cross k nxt gain amp counted \<and>
     resource_at (env_topology env) (qe_node entry) = Some res \<and> can_forward res \<and>
     \<not> egress_refused env (res_id res) \<and> qe_depth entry < authority_hops (env_policy env) signal \<and>
     edge_at (env_topology env) e = Some edge \<and> edge_from edge = res_id res"

definition neutral :: "(NodeAccumulator \<Rightarrow> NodeAccumulator) \<Rightarrow> bool" where
  "neutral f \<longleftrightarrow> (\<forall>a. na_contributions (f a) = na_contributions a \<and>
     na_contribution_count (f a) = na_contribution_count a \<and> na_resource (f a) = na_resource a)"

definition popped :: "Run \<Rightarrow> Run" where
  "popped r = r\<lparr>run_tr := (run_tr r)\<lparr>tr_queue := pq_pop queue_entry_less (tr_queue (run_tr r))\<rparr>\<rparr>"

definition settle_run :: "QueueEntry \<Rightarrow> Run \<Rightarrow> Run" where
  "settle_run entry r = (popped r)\<lparr>run_tr := settle (qe_node entry) (run_tr (popped r))\<rparr>"

definition settled_run ::
  "TraversalEnv \<Rightarrow> PressureSignal \<Rightarrow> PropagationId \<Rightarrow> QueueEntry \<Rightarrow> Run \<Rightarrow> Run" where
  "settled_run env signal pid entry r3 =
     (note_depth (qe_depth entry) (count_up nodes_settled_update (r3\<lparr>run_visited := run_visited r3 + 1\<rparr>)))
       \<lparr>run_acc := record_settlement env entry
          (res_id (top_resources (env_topology env) ! qe_node entry)) signal pid (run_acc r3)\<rparr>"

lemma edge_decision_Refuse:
  assumes "edge_decision env signal entry settled fanout expansions e edge = Refuse reason verdict counted"
  shows "reason \<noteq> SR_Count"
proof -
  have "amplify env signal entry edge \<noteq> Inl SR_Count"
    by (auto simp: amplify_def Let_def split: sum.splits)
  with assms show ?thesis
    by (auto simp: edge_decision_def Let_def split: if_splits option.splits sum.splits)
qed

locale traversal_invariant =
  fixes env :: TraversalEnv and signal :: PressureSignal and pid :: PropagationId
    and E :: "QueueEntry \<Rightarrow> bool" and I :: "Run \<Rightarrow> bool"
  assumes queue_entries: "I r \<Longrightarrow> q \<in> set (tr_queue (run_tr r)) \<Longrightarrow> E q"
    and refuse: "I r \<Longrightarrow> \<not> run_record_stop r \<Longrightarrow> reason \<noteq> SR_Count \<Longrightarrow>
      I (reject edge d reason v (count_amplification b (count_up hops_considered_update r)))"
    and cross: "I r \<Longrightarrow> \<not> run_record_stop r \<Longrightarrow> tr_wf (env_size env) (run_tr r) \<Longrightarrow> E entry \<Longrightarrow>
      crossing env signal entry res e edge k nxt gain amp counted fanout r \<Longrightarrow>
      I (cross_edge res entry e edge k nxt gain amp
           (count_amplification counted (count_up hops_considered_update r)))"
    and budget_flag: "I r \<Longrightarrow> I (r\<lparr>run_budget_stop := True\<rparr>)"
    and budget_step: "I r \<Longrightarrow> I (count_up budget_exhaustions_update r)"
    and flush: "I r \<Longrightarrow> flush_suppressions r = (True, r') \<Longrightarrow> I r'"
    and flush_fail: "I r \<Longrightarrow> flush_suppressions r = (False, r') \<Longrightarrow> I (set_truncated r')"
    and tweak: "I r \<Longrightarrow> neutral f \<Longrightarrow> i < env_size env \<Longrightarrow>
      I (r\<lparr>run_acc := acc_at i (res_id (top_resources (env_topology env) ! i)) f (run_acc r)\<rparr>)"
    and fence_count: "I r \<Longrightarrow> I (count_up fence_rejections_update r)"
    and settle_node: "I r \<Longrightarrow> \<not> run_record_stop r \<Longrightarrow> tr_wf (env_size env) (run_tr r) \<Longrightarrow>
      pq_top queue_entry_less (tr_queue (run_tr r)) = Some entry \<Longrightarrow> qe_node entry < env_size env \<Longrightarrow>
      \<not> settled_at (run_tr r) (qe_node entry) \<Longrightarrow> run_visited r < unat (pol_max_visited (env_policy env)) \<Longrightarrow>
      begin_node (qe_node entry) (settle_run entry r) = (True, r3) \<Longrightarrow>
      I (settled_run env signal pid entry r3)"
    and settle_fail: "I r \<Longrightarrow> \<not> run_record_stop r \<Longrightarrow> tr_wf (env_size env) (run_tr r) \<Longrightarrow>
      pq_top queue_entry_less (tr_queue (run_tr r)) = Some entry \<Longrightarrow> qe_node entry < env_size env \<Longrightarrow>
      \<not> settled_at (run_tr r) (qe_node entry) \<Longrightarrow>
      begin_node (qe_node entry) (settle_run entry r) = (False, r3) \<Longrightarrow>
      I ((set_truncated r3)\<lparr>run_record_stop := True\<rparr>)"
    and pop_stale: "I r \<Longrightarrow> pq_top queue_entry_less (tr_queue (run_tr r)) = Some entry \<Longrightarrow> I (popped r)"
begin

lemma suppress_edges_I:
  assumes "\<forall>e \<in> set es. e < length (top_edges (env_topology env))" and "reason \<noteq> SR_Count"
  shows "I r \<Longrightarrow> \<not> run_record_stop r \<Longrightarrow> I (suppress_edges (env_topology env) d reason es r)"
  using assms(1)
proof (induction es arbitrary: r)
  case (Cons e es)
  let ?edge = "top_edges (env_topology env) ! e"
  let ?r = "reject ?edge d reason HV_Suppressed (count_up hops_considered_update r)"
  have at: "edge_at (env_topology env) e = Some ?edge" using Cons.prems(3) by (simp add: edge_at_def)
  have "I ?r" using refuse [OF Cons.prems(1,2) assms(2), of ?edge d HV_Suppressed False]
    by (simp add: count_amplification_def)
  then show ?case using Cons by (simp add: at Let_def)
qed simp

lemma suppress_all_I:
  assumes "\<forall>e \<in> set (out_edge_indices_at (env_topology env) i). e < length (top_edges (env_topology env))"
    and "reason \<noteq> SR_Count" and "I r" and "\<not> run_record_stop r"
  shows "I (suppress_all env i d reason r)"
proof -
  let ?r1 = "suppress_edges (env_topology env) d reason (out_edge_indices_at (env_topology env) i) r"
  obtain ok r2 where f: "flush_suppressions ?r1 = (ok, r2)" by (rule prod.exhaust)
  have "I ?r1" by (rule suppress_edges_I [OF assms])
  then show ?thesis using flush flush_fail f by (cases ok) (simp_all add: suppress_all_def Let_def)
qed

lemma expand_edges_I:
  assumes E: "E entry" and res: "resource_at (env_topology env) (qe_node entry) = Some res" "can_forward res"
      "\<not> egress_refused env (res_id res)" "qe_depth entry < authority_hops (env_policy env) signal"
  shows "I r \<Longrightarrow> \<not> run_record_stop r \<Longrightarrow> tr_wf (env_size env) (run_tr r) \<Longrightarrow>
    \<forall>e \<in> set es. e < length (top_edges (env_topology env)) \<and> edge_from (top_edges (env_topology env) ! e) = res_id res \<Longrightarrow>
    I (expand_edges env signal res entry es fanout r)"
proof (induction es arbitrary: fanout r)
  case (Cons e es)
  let ?edge = "top_edges (env_topology env) ! e" and ?r1 = "count_up hops_considered_update r"
  have at: "edge_at (env_topology env) e = Some ?edge" using Cons.prems(4) by (simp add: edge_at_def)
  show ?case
  proof (cases "edge_decision env signal entry (settled_at (run_tr ?r1)) fanout (run_expansions ?r1) e ?edge")
    case (Refuse reason verdict counted)
    let ?r2 = "reject ?edge (qe_depth entry) reason verdict (count_amplification counted ?r1)"
    let ?r3 = "if reason = SR_ExpansionBudgetExhausted then ?r2\<lparr>run_budget_stop := True\<rparr> else ?r2"
    have "I ?r2" by (rule refuse [OF Cons.prems(1,2) edge_decision_Refuse [OF Refuse]])
    then have "I ?r3" using budget_flag by presburger
    moreover have "tr_wf (env_size env) (run_tr ?r3)" "\<not> run_record_stop ?r3"
      using Cons.prems(2,3) by (auto simp: tr_wf_def)
    ultimately show ?thesis using Cons.IH [of ?r3 fanout] Cons.prems(4) at Refuse by (simp add: Let_def)
  next
    case (Cross k nxt gain amp counted)
    let ?r2 = "cross_edge res entry e ?edge k nxt gain amp (count_amplification counted ?r1)"
    have c: "crossing env signal entry res e ?edge k nxt gain amp counted fanout r"
      using Cross res at Cons.prems(4) by (simp add: crossing_def)
    have I2: "I ?r2" by (rule cross [OF Cons.prems(1-3) E c])
    have k: "k < env_size env" using edge_decision_Cross(3) [OF Cross] by (simp add: env_size_def)
    have w: "tr_wf (env_size env) (run_tr ?r2)"
      by (rule cross_edge_core(2) [OF _ k]) (use Cons.prems(3) in simp)
    show ?thesis using Cons.IH [OF I2 _ w, of "fanout + 1"] I2 Cons.prems(4) at Cross
      by (simp add: Let_def)
  qed
qed simp

text \<open>Processing a node, given that the invariant holds once its settlement is recorded.\<close>

lemma process_node_I:
  assumes wf: "topology_wf (env_topology env)" and n: "qe_node entry < env_size env" and E: "E entry"
    and I: "I (r\<lparr>run_acc := record_settlement env entry
          (res_id (top_resources (env_topology env) ! qe_node entry)) signal pid (run_acc r)\<rparr>)"
    and stop: "\<not> run_record_stop r" and w: "tr_wf (env_size env) (run_tr r)"
  shows "I (process_node env signal pid entry r)"
proof -
  let ?res = "top_resources (env_topology env) ! qe_node entry"
  let ?acc = "record_settlement env entry (res_id ?res) signal pid (run_acc r)"
  let ?r1 = "r\<lparr>run_acc := ?acc\<rparr>"
  have at: "resource_at (env_topology env) (qe_node entry) = Some ?res"
    using n by (simp add: resource_at_def env_size_def)
  have outs: "\<forall>e \<in> set (out_edge_indices_at (env_topology env) (qe_node entry)).
      e < length (top_edges (env_topology env)) \<and> edge_from (top_edges (env_topology env) ! e) = res_id ?res"
    using out_edges_bound [OF wf] n by (simp add: env_size_def)
  have sup: "I (suppress_all env (qe_node entry) (qe_depth entry) reason r')"
    if "I r'" "\<not> run_record_stop r'" "reason \<noteq> SR_Count" for r' reason
    by (rule suppress_all_I) (use outs that in auto)
  have tw: "I (?r1\<lparr>run_acc := acc_at (qe_node entry) (res_id ?res) f ?acc\<rparr>)" if "neutral f" for f
    using tweak [OF I that n] by simp
  have exp: "I (expand_edges env signal ?res entry (out_edge_indices_at (env_topology env) (qe_node entry)) 0 ?r1)"
    if "can_forward ?res" "\<not> egress_refused env (res_id ?res)" "qe_depth entry < authority_hops (env_policy env) signal"
    by (rule expand_edges_I [OF E at that I]) (use stop w outs in auto)
  show ?thesis
  proof (cases "authority_hops (env_policy env) signal \<le> qe_depth entry")
    case True
    then show ?thesis using sup [OF I, of SR_MaxHops] stop by (simp add: process_node_def at Let_def)
  next
    case hops: False
    show ?thesis
    proof (cases "can_forward ?res")
      case False
      then show ?thesis using hops stop sup [OF tw [of "\<lambda>a. a\<lparr>na_blocked_reason := SR_ProtectedBoundary\<rparr>"]]
        by (simp add: process_node_def at Let_def neutral_def)
    next
      case fwd: True
      show ?thesis
      proof (cases "egress_refused env (res_id ?res)")
        case True
        then obtain f where f: "governing_fence env (res_id ?res) = Some f" "refuses_egress f"
          by (auto simp: egress_refused_def split: option.splits)
        then show ?thesis using hops fwd stop
            sup [OF fence_count [OF tw [of "\<lambda>a. a\<lparr>na_blocked_reason := SR_Fenced, na_governing_fence := fence_id f\<rparr>"]]]
          by (simp add: process_node_def at Let_def neutral_def)
      next
        case False
        then show ?thesis using hops fwd exp
          by (auto simp: process_node_def at Let_def egress_refused_def split: option.splits)
      qed
    qed
  qed
qed

lemma traverse_step_I:
  assumes wf: "topology_wf (env_topology env)" and I: "I r" and stop: "\<not> run_record_stop r"
    and w: "tr_wf (env_size env) (run_tr r)" and ne: "tr_queue (run_tr r) \<noteq> []"
  shows "I (traverse_step env signal pid r)"
proof (cases rule: traverse_step_cases [OF env_size_def w ne, of signal pid])
  case 1
  then show ?thesis using budget_flag [OF budget_step [OF I]] by simp
next
  case (2 entry)
  then show ?thesis using pop_stale [OF I] by (simp add: popped_def)
next
  case (3 entry r3)
  then have b: "begin_node (qe_node entry) (settle_run entry r) = (False, r3)"
    by (simp add: settle_run_def popped_def)
  show ?thesis unfolding 3(6) by (rule settle_fail [OF I stop w 3(1-3) b])
next
  case (4 entry r3)
  then have b: "begin_node (qe_node entry) (settle_run entry r) = (True, r3)"
    by (simp add: settle_run_def popped_def)
  have S: "I (settled_run env signal pid entry r3)"
    by (rule settle_node [OF I stop w 4(1-3) 4(4) b])
  have E: "E entry" using queue_entries [OF I pq_top_in [OF 4(1)]] .
  have w3: "tr_wf (env_size env) (run_tr r3)"
    using same_core_wf [OF 4(5)] settle_settled(2) [of "env_size env" _ "qe_node entry"] w 4(2)
    by (simp add: tr_wf_def)
  have stop3: "\<not> run_record_stop r3" using 4(5) stop by (simp add: same_core_def)
  show ?thesis unfolding 4(9)
    by (rule process_node_I [OF wf 4(2) E]) (use S w3 stop3 in \<open>simp_all add: settled_run_def\<close>)
qed

lemma traverse_I:
  assumes wf: "topology_wf (env_topology env)"
  shows "I r \<Longrightarrow> \<not> run_record_stop r \<Longrightarrow> tr_wf (env_size env) (run_tr r) \<Longrightarrow>
    traverse fuel env signal pid r = Some r' \<Longrightarrow> I r'"
proof (induction fuel arbitrary: r)
  case (Suc fuel)
  show ?case
  proof (cases "tr_queue (run_tr r) = []")
    case False
    let ?r = "traverse_step env signal pid r"
    have I: "I ?r" by (rule traverse_step_I [OF wf Suc.prems(1-3) False])
    have w: "tr_wf (env_size env) (run_tr ?r)"
      using traverse_step_decreases [OF env_size_def Suc.prems(3) False refl] by blast
    show ?thesis using Suc.IH [OF I _ w] I Suc.prems(4) False by (auto simp: Let_def split: if_splits)
  qed (use Suc.prems in simp)
qed (simp split: if_splits)

text \<open>An invariant that holds where a run starts holds where it ends.\<close>

theorem run_traversal_I:
  assumes wf: "topology_wf (env_topology env)"
    and start: "I (run_start env b signal acc c x t)"
    and origin: "\<And>k origin. index_of (env_topology env) (sig_origin signal) = Some k \<Longrightarrow> k < env_size env \<Longrightarrow>
      origin = top_resources (env_topology env) ! k \<Longrightarrow>
      I (origin_run env signal k origin (run_start env b signal acc c x t))"
    and seed: "\<And>k origin. index_of (env_topology env) (sig_origin signal) = Some k \<Longrightarrow> k < env_size env \<Longrightarrow>
      origin = top_resources (env_topology env) ! k \<Longrightarrow>
      I (seed_run env signal k origin (run_start env b signal acc c x t))"
    and run: "run_traversal env b signal pid acc c x t = Some (s, r)"
  shows "I r"
proof (cases rule: run_traversal_cases [of env b signal pid acc c x t])
  case (failed s)
  then show ?thesis using run start by simp
next
  case (blocked k origin f reason r2)
  have r2: "I r2" using tweak [OF origin [OF blocked(1-3)] _ blocked(2), of f] blocked(4,5)
    by (simp add: neutral_def blocked(3))
  have ns: "\<not> run_record_stop r2"
    by (simp add: blocked(4) origin_run_def run_start_def Let_def)
  have outs: "\<forall>e \<in> set (out_edge_indices_at (env_topology env) k). e < length (top_edges (env_topology env))"
    using out_edges_bound [OF wf] blocked(2) by (simp add: env_size_def)
  have "I (suppress_all env k 0 reason r2)" "I (suppress_all env k 0 reason (count_up fence_rejections_update r2))"
    using suppress_all_I [OF outs blocked(7)] r2 fence_count [OF r2] ns by simp_all
  then show ?thesis using blocked(6) run by auto
next
  case (ran k origin)
  let ?r = "seed_run env signal k origin (run_start env b signal acc c x t)"
  have w: "tr_wf (env_size env) (run_tr ?r)" by (rule seed_run_props(1) [OF ran(2) refl])
  have ns: "\<not> run_record_stop ?r" by (simp add: seed_run_def origin_run_def run_start_def Let_def)
  from run ran(6) obtain r3 ok r4
    where t: "traverse (Suc (Suc (length (top_edges (env_topology env))))) env signal pid ?r = Some r3"
      and f: "flush_suppressions r3 = (ok, r4)" "r = (if ok then r4 else set_truncated r4)"
    by (auto split: option.splits prod.splits)
  have "I r3" by (rule traverse_I [OF wf seed [OF ran(1-3)] ns w t])
  then show ?thesis using f flush flush_fail by (cases ok) simp_all
qed

end

end
