(* ===== verification/Traversal_Safety.thy ===== *)
theory Traversal_Safety
  imports Traversal_Inv
begin


text \<open>
  The invariants of one traversal, each an interpretation of \<open>traversal_invariant\<close>.
\<close>

section \<open>Shared facts about the elementary changes\<close>

lemma cross_edge_cases:
  assumes "tr_wf n (run_tr r)" and "k < n" and "\<not> settled_at (run_tr r) k"
  obtains (full) "tr_record_budget (run_tr r) = 0"
      "cross_edge res entry e edge k nxt gain amp r = (set_truncated r)\<lparr>run_record_stop := True\<rparr>"
  | (crossed) "tr_record_budget (run_tr r) \<noteq> 0"
      "tr_queue (run_tr (cross_edge res entry e edge k nxt gain amp r)) = tr_queue (run_tr r) @
         [\<lparr>qe_potential = nxt, qe_node = k, qe_depth = qe_depth entry + 1, qe_cumulative_gain_q16 = gain,
           qe_parent = Some (qe_node entry), qe_parent_edge = Some e, qe_amplified = amp\<rparr>]"
      "settled_at (run_tr (cross_edge res entry e edge k nxt gain amp r)) = settled_at (run_tr r)"
      "tr_pending (run_tr (cross_edge res entry e edge k nxt gain amp r)) = tr_pending (run_tr r)"
      "tr_record_budget (run_tr (cross_edge res entry e edge k nxt gain amp r)) = tr_record_budget (run_tr r) - 1"
      "run_acc (cross_edge res entry e edge k nxt gain amp r) =
         acc_at (qe_node entry) (res_id res) (\<lambda>a. a\<lparr>na_forwarded := True\<rparr>) (run_acc r)"
      "run_expansions (cross_edge res entry e edge k nxt gain amp r) = run_expansions r + 1"
      "run_visited (cross_edge res entry e edge k nxt gain amp r) = run_visited r"
      "run_truncated (cross_edge res entry e edge k nxt gain amp r) = run_truncated r"
      "run_record_stop (cross_edge res entry e edge k nxt gain amp r) = run_record_stop r"
      "run_counters (cross_edge res entry e edge k nxt gain amp r) = hops_propagated_update (\<lambda>x. x + 1) (run_counters r)"
      "ex_suppressed (run_expl (cross_edge res entry e edge k nxt gain amp r)) = ex_suppressed (run_expl r)"
      "ex_hops (run_expl (cross_edge res entry e edge k nxt gain amp r)) = ex_hops (run_expl r) @
         [\<lparr>hr_from = res_id res, hr_to = edge_to edge, hr_edge = edge_id edge,
           hr_depth = qe_depth entry, hr_attenuation = edge_attenuation edge,
           hr_gain = edge_amplification edge, hr_potential_before = qe_potential entry,
           hr_potential_after = nxt, hr_cumulative_gain_q16 = gain,
           hr_verdict = (if amp then HV_Amplified else HV_Propagated), hr_reason = SR_None\<rparr>]"
proof (cases "tr_record_budget (run_tr r) = 0")
  case True
  then show ?thesis using full by (simp add: cross_edge_def push_hop_def)
next
  case False
  let ?tr = "(run_tr r)\<lparr>tr_record_budget := tr_record_budget (run_tr r) - 1\<rparr>"
  have w: "tr_wf n ?tr" using assms(1) by (simp add: tr_wf_def)
  have s: "settled_at ?tr = settled_at (run_tr r)" by (rule settled_at_cong) simp_all
  note p = push_queue_props [OF w assms(2)]
  show ?thesis
    by (rule crossed) (use False p assms(3) s in \<open>simp_all add: cross_edge_def push_hop_def Let_def\<close>)
qed

text \<open>The run in which a crossing is carried out satisfies the premises above.\<close>

lemma crossing_run:
  assumes "crossing env signal entry res e edge k nxt gain amp counted fanout r" and "tr_wf (env_size env) (run_tr r)"
  shows "tr_wf (env_size env) (run_tr (count_amplification counted (count_up hops_considered_update r)))"
    and "k < env_size env"
    and "\<not> settled_at (run_tr (count_amplification counted (count_up hops_considered_update r))) k"
  using assms(2) edge_decision_Cross(3,4) [OF conjunct1 [OF assms(1) [unfolded crossing_def]]]
  by (simp_all add: env_size_def)

lemma unat_pred: "(b::u32) \<noteq> 0 \<Longrightarrow> Suc (unat (b - 1)) = unat b"
  using unat_minus_one [of b] unat_gt_0 [of b] by simp

definition emitted :: "SuppressedEdgeRecord list \<Rightarrow> nat" where
  "emitted recs = sum_list (map (\<lambda>s. unat (se_count s)) recs)"

definition withheld :: "SuppressionAggregate list \<Rightarrow> nat" where
  "withheld gs = sum_list (map (\<lambda>g. unat (agg_count g)) gs)"

lemma flush_slots_props:
  assumes "flush_slots slot gs b = (ok, gs', b', recs)"
  shows "unat b' + length recs = unat b \<and> length gs' = length gs \<and> (\<forall>g \<in> set gs'. agg_count g = 0) \<and>
    (ok \<longrightarrow> emitted recs = withheld gs \<and>
      (\<forall>g \<in> set gs. agg_count g \<noteq> 0 \<longrightarrow> (\<exists>s \<in> set recs. se_count s = agg_count g)))"
  using assms
proof (induction gs arbitrary: slot b ok gs' b' recs)
  case (Cons g gs)
  let ?b = "if agg_count g = 0 \<or> b = 0 then b else b - 1"
  obtain ok1 gs1 b1 recs1 where f: "flush_slots (Suc slot) gs ?b = (ok1, gs1, b1, recs1)"
    by (metis prod_cases4)
  note IH = Cons.IH [OF f]
  consider (zero) "agg_count g = 0" | (full) "agg_count g \<noteq> 0" "b = 0" | (emit) "agg_count g \<noteq> 0" "b \<noteq> 0" by blast
  then show ?case
  proof cases
    case zero
    with Cons.prems f IH show ?thesis by (auto simp: withheld_def)
  next
    case full
    with Cons.prems f IH show ?thesis by (auto simp: withheld_def)
  next
    case emit
    with Cons.prems f IH unat_pred [OF emit(2)] show ?thesis by (auto simp: withheld_def emitted_def)
  qed
qed (simp add: withheld_def emitted_def)

lemma flush_suppressions_props:
  assumes "flush_suppressions r = (ok, r')"
  shows "unat (tr_record_budget (run_tr r')) + length (ex_suppressed (run_expl r')) =
      unat (tr_record_budget (run_tr r)) + length (ex_suppressed (run_expl r))"
    and "length (tr_pending (run_tr r')) = length (tr_pending (run_tr r))"
    and "\<forall>g \<in> set (tr_pending (run_tr r')). agg_count g = 0"
    and "\<exists>recs. ex_suppressed (run_expl r') = ex_suppressed (run_expl r) @ recs"
    and "ok \<Longrightarrow> emitted (ex_suppressed (run_expl r')) = emitted (ex_suppressed (run_expl r)) + withheld (tr_pending (run_tr r))"
    and "ok \<Longrightarrow> g \<in> set (tr_pending (run_tr r)) \<Longrightarrow> agg_count g \<noteq> 0 \<Longrightarrow>
      \<exists>s \<in> set (ex_suppressed (run_expl r')). se_count s = agg_count g"
proof -
  obtain gs b recs where f: "flush_slots 0 (tr_pending (run_tr r)) (tr_record_budget (run_tr r)) = (ok, gs, b, recs)"
    and r': "r' = r\<lparr>run_tr := (run_tr r)\<lparr>tr_pending := gs, tr_record_budget := b\<rparr>,
                run_expl := (run_expl r)\<lparr>ex_suppressed := ex_suppressed (run_expl r) @ recs\<rparr>\<rparr>"
    using assms by (auto simp: flush_suppressions_def Let_def split: prod.splits)
  note p = flush_slots_props [OF f]
  show "unat (tr_record_budget (run_tr r')) + length (ex_suppressed (run_expl r')) =
      unat (tr_record_budget (run_tr r)) + length (ex_suppressed (run_expl r))"
    "length (tr_pending (run_tr r')) = length (tr_pending (run_tr r))"
    "\<forall>g \<in> set (tr_pending (run_tr r')). agg_count g = 0"
    "\<exists>recs. ex_suppressed (run_expl r') = ex_suppressed (run_expl r) @ recs"
    using p by (auto simp: r')
  show "ok \<Longrightarrow> emitted (ex_suppressed (run_expl r')) = emitted (ex_suppressed (run_expl r)) + withheld (tr_pending (run_tr r))"
    using p by (auto simp: r' emitted_def)
  show "ok \<Longrightarrow> g \<in> set (tr_pending (run_tr r)) \<Longrightarrow> agg_count g \<noteq> 0 \<Longrightarrow>
      \<exists>s \<in> set (ex_suppressed (run_expl r')). se_count s = agg_count g"
    using p by (auto simp: r')
qed


lemma begin_node_cases:
  assumes "begin_node i r = (ok, r')"
  obtains (same) "ok" "r' = r"
  | (flushed) r1 where "flush_suppressions r = (ok, r1)" "r' = r1\<lparr>run_tr := (run_tr r1)\<lparr>tr_current_node := Some i\<rparr>\<rparr>"
  using assms by (auto simp: begin_node_def Let_def split: if_splits prod.splits)

lemma map_of_acc_at:
  "map_of (acc_at i rid f acc) = (map_of acc)(i \<mapsto> f (case map_of acc i of Some a \<Rightarrow> a | None \<Rightarrow> node_accumulator rid))"
  by (simp add: acc_at_def update_conv')

lemma pq_pop_subset: "set (pq_pop lt q) \<subseteq> set q"
  by (auto simp: pq_pop_def split: option.splits dest: set_mp [OF set_remove1_subset])

text \<open>What is left of the run when a node is settled, whether or not its records fit.\<close>

lemma settle_begin_core:
  assumes "tr_wf n (run_tr r)" and "qe_node entry < n"
    and "begin_node (qe_node entry) (settle_run entry r) = (ok, r3)"
  shows "set (tr_queue (run_tr r3)) \<subseteq> set (tr_queue (run_tr r))"
    and "settled_at (run_tr r3) j \<longleftrightarrow> j = qe_node entry \<or> settled_at (run_tr r) j"
    and "run_acc r3 = run_acc r" and "ex_hops (run_expl r3) = ex_hops (run_expl r)"
    and "run_visited r3 = run_visited r" and "run_expansions r3 = run_expansions r"
    and "run_truncated r3 = run_truncated r" and "run_record_stop r3 = run_record_stop r"
    and "run_counters r3 = run_counters r"
proof -
  have w: "tr_wf n (run_tr (popped r))" using assms(1) by (simp add: popped_def tr_wf_def)
  have s: "settled_at (run_tr (popped r)) = settled_at (run_tr r)"
    by (rule settled_at_cong) (simp_all add: popped_def)
  note st = settle_settled [OF w assms(2)]
  note core = begin_node_core [OF assms(3)]
  then have c: "same_core (settle_run entry r) r3" by blast
  show "settled_at (run_tr r3) j \<longleftrightarrow> j = qe_node entry \<or> settled_at (run_tr r) j"
    using same_core_settled [OF c] st(1) [of j] s by (simp add: settle_run_def)
  show "set (tr_queue (run_tr r3)) \<subseteq> set (tr_queue (run_tr r))"
    using c st(3) pq_pop_subset [of queue_entry_less "tr_queue (run_tr r)"]
    by (simp add: same_core_def settle_run_def popped_def)
  show "run_acc r3 = run_acc r" "ex_hops (run_expl r3) = ex_hops (run_expl r)"
    "run_visited r3 = run_visited r" "run_expansions r3 = run_expansions r"
    "run_truncated r3 = run_truncated r" "run_record_stop r3 = run_record_stop r"
    "run_counters r3 = run_counters r"
    using c core by (simp_all add: same_core_def settle_run_def popped_def)
qed

section \<open>What a recorded hop respects\<close>

definition hop_safe :: "TraversalEnv \<Rightarrow> PressureSignal \<Rightarrow> HopRecord \<Rightarrow> bool" where
  "hop_safe env signal h \<longleftrightarrow>
     (\<exists>e edge res. edge_at (env_topology env) e = Some edge \<and> res \<in> set (top_resources (env_topology env)) \<and>
        edge_from edge = res_id res \<and> hr_from h = edge_from edge \<and> hr_to h = edge_to edge \<and> hr_edge h = edge_id edge \<and>
        edge_permitted env signal e edge \<and> can_forward res \<and> \<not> egress_refused env (res_id res) \<and>
        hr_depth h < authority_hops (env_policy env) signal \<and>
        hr_depth h + 1 \<le> effective_max_hops (env_policy env) (edge_max_hops edge) \<and>
        potential_from_magnitude (pol_min_propagatable (env_policy env)) \<le> hr_potential_after h \<and>
        \<not> hysteresis_refused env edge (hr_potential_after h) \<and>
        hr_cumulative_gain_q16 h \<le> granted_gain (env_policy env) signal \<and>
        (if is_amplifying edge
         then amplification_granted (env_policy env) signal \<and>
           amplified (attenuated (hr_potential_before h) (edge_attenuation edge)) (edge_amplification edge)
             = Inr (hr_potential_after h)
         else hr_potential_after h = attenuated (hr_potential_before h) (edge_attenuation edge)))"

definition gain_within :: "TraversalEnv \<Rightarrow> PressureSignal \<Rightarrow> QueueEntry \<Rightarrow> bool" where
  "gain_within env signal q \<longleftrightarrow> qe_cumulative_gain_q16 q \<le> granted_gain (env_policy env) signal"

definition hops_inv :: "TraversalEnv \<Rightarrow> PressureSignal \<Rightarrow> HopRecord list \<Rightarrow> Run \<Rightarrow> bool" where
  "hops_inv env signal H0 r \<longleftrightarrow>
     (\<forall>q \<in> set (tr_queue (run_tr r)). gain_within env signal q) \<and>
     (\<exists>hs. ex_hops (run_expl r) = H0 @ hs \<and> (\<forall>h \<in> set hs. hop_safe env signal h))"

lemma hops_inv_mono:
  "hops_inv env signal H0 r \<Longrightarrow> set (tr_queue (run_tr r')) \<subseteq> set (tr_queue (run_tr r)) \<Longrightarrow>
   ex_hops (run_expl r') = ex_hops (run_expl r) \<Longrightarrow> hops_inv env signal H0 r'"
  by (auto simp: hops_inv_def)

lemma hops_inv_cross:
  assumes "hops_inv env signal H0 r" and "tr_wf (env_size env) (run_tr r)" and "gain_within env signal entry"
    and "crossing env signal entry res e edge k nxt gain amp counted fanout r"
  shows "hops_inv env signal H0 (cross_edge res entry e edge k nxt gain amp
           (count_amplification counted (count_up hops_considered_update r)))"
proof -
  let ?r = "count_amplification counted (count_up hops_considered_update r)"
  have d: "edge_decision env signal entry (settled_at (run_tr r)) fanout (run_expansions r) e edge = Cross k nxt gain amp counted"
    and res: "resource_at (env_topology env) (qe_node entry) = Some res" "can_forward res"
      "\<not> egress_refused env (res_id res)" "qe_depth entry < authority_hops (env_policy env) signal"
      "edge_at (env_topology env) e = Some edge" "edge_from edge = res_id res"
    using assms(4) by (auto simp: crossing_def)
  note D = edge_decision_Cross [OF d]
  have g: "gain \<le> granted_gain (env_policy env) signal"
    using amplify_Inr [OF D(11)] assms(3) by (cases "is_amplifying edge") (auto simp: gain_within_def)
  have rin: "res \<in> set (top_resources (env_topology env))" using res(1) by (auto simp: resource_at_def split: if_splits)
  have safe: "hop_safe env signal \<lparr>hr_from = res_id res, hr_to = edge_to edge, hr_edge = edge_id edge,
           hr_depth = qe_depth entry, hr_attenuation = edge_attenuation edge,
           hr_gain = edge_amplification edge, hr_potential_before = qe_potential entry,
           hr_potential_after = nxt, hr_cumulative_gain_q16 = gain,
           hr_verdict = (if amp then HV_Amplified else HV_Propagated), hr_reason = SR_None\<rparr>"
    unfolding hop_safe_def
    by (intro exI [of _ e] exI [of _ edge] exI [of _ res])
      (use res rin g D(1,8-10) amplify_Inr [OF D(11)] in auto)
  show ?thesis
  proof (cases rule: cross_edge_cases [OF crossing_run [OF assms(4,2)], of res entry e edge nxt gain amp])
    case 1
    then show ?thesis using assms(1) by (simp add: hops_inv_def)
  next
    case 2
    then show ?thesis using assms(1) safe g by (auto simp: hops_inv_def gain_within_def)
  qed
qed

interpretation hops: traversal_invariant env signal pid "gain_within env signal" "hops_inv env signal H0"
  for env signal pid H0
proof
  fix r r3 :: Run and entry :: QueueEntry
  assume a: "hops_inv env signal H0 r" "tr_wf (env_size env) (run_tr r)" "qe_node entry < env_size env"
  { assume b: "begin_node (qe_node entry) (settle_run entry r) = (True, r3)"
    show "hops_inv env signal H0 (settled_run env signal pid entry r3)"
      by (rule hops_inv_mono [OF a(1)])
        (use settle_begin_core [OF a(2,3) b] in \<open>simp_all add: settled_run_def\<close>) }
  { assume b: "begin_node (qe_node entry) (settle_run entry r) = (False, r3)"
    show "hops_inv env signal H0 (set_truncated r3\<lparr>run_record_stop := True\<rparr>)"
      by (rule hops_inv_mono [OF a(1)])
        (use settle_begin_core [OF a(2,3) b] in simp_all) }
qed (auto simp: hops_inv_cross, (auto simp: hops_inv_def popped_def same_core_def dest!: flush_core pq_pop_subset [THEN subsetD])+)


section \<open>Budgets\<close>

definition budget_inv :: "TraversalEnv \<Rightarrow> nat \<Rightarrow> nat \<Rightarrow> Run \<Rightarrow> bool" where
  "budget_inv env B0 L0 r \<longleftrightarrow>
     length (ex_hops (run_expl r)) = L0 + run_expansions r \<and>
     run_expansions r \<le> unat (pol_max_expansions (env_policy env)) \<and>
     run_visited r \<le> unat (pol_max_visited (env_policy env)) \<and>
     unat (tr_record_budget (run_tr r)) + length (ex_hops (run_expl r)) + length (ex_suppressed (run_expl r)) = B0"

lemma settle_begin_budget:
  assumes "tr_wf n (run_tr r)" and "qe_node entry < n"
    and "begin_node (qe_node entry) (settle_run entry r) = (ok, r3)"
  shows "unat (tr_record_budget (run_tr r3)) + length (ex_suppressed (run_expl r3)) =
      unat (tr_record_budget (run_tr r)) + length (ex_suppressed (run_expl r))"
proof -
  have w: "tr_wf n (run_tr (popped r))" using assms(1) by (simp add: popped_def tr_wf_def)
  have "tr_record_budget (run_tr (settle_run entry r)) = tr_record_budget (run_tr r)"
    "ex_suppressed (run_expl (settle_run entry r)) = ex_suppressed (run_expl r)"
    using settle_settled(4) [OF w assms(2)] by (simp_all add: settle_run_def popped_def)
  with assms(3) show ?thesis
    by (cases rule: begin_node_cases [OF assms(3)]) (auto dest: flush_suppressions_props(1))
qed

lemma flush_hops: "flush_suppressions r = (ok, r') \<Longrightarrow> ex_hops (run_expl r') = ex_hops (run_expl r) \<and>
  run_expansions r' = run_expansions r \<and> run_visited r' = run_visited r"
  using flush_core by (auto simp: same_core_def)

lemma budget_inv_flush:
  "budget_inv env B0 L0 r \<Longrightarrow> flush_suppressions r = (ok, r') \<Longrightarrow> budget_inv env B0 L0 r'"
  using flush_suppressions_props(1) [of r ok r'] flush_hops [of r ok r'] by (simp add: budget_inv_def)

lemma budget_inv_truncated: "budget_inv env B0 L0 (set_truncated r) = budget_inv env B0 L0 r"
  by (simp add: budget_inv_def)

interpretation budgets: traversal_invariant env signal pid "\<lambda>_. True" "budget_inv env B0 L0"
  for env signal pid B0 L0
proof
  fix r r3 :: Run and entry :: QueueEntry
  assume a: "budget_inv env B0 L0 r" "tr_wf (env_size env) (run_tr r)" "qe_node entry < env_size env"
  { assume b: "begin_node (qe_node entry) (settle_run entry r) = (True, r3)"
      "run_visited r < unat (pol_max_visited (env_policy env))"
    show "budget_inv env B0 L0 (settled_run env signal pid entry r3)"
      using settle_begin_core [OF a(2,3) b(1)] settle_begin_budget [OF a(2,3) b(1)] a(1) b(2)
      by (simp add: settled_run_def budget_inv_def) }
  { assume b: "begin_node (qe_node entry) (settle_run entry r) = (False, r3)"
    show "budget_inv env B0 L0 (set_truncated r3\<lparr>run_record_stop := True\<rparr>)"
      using settle_begin_core [OF a(2,3) b(1)] settle_begin_budget [OF a(2,3) b(1)] a(1)
      by (simp add: budget_inv_def) }
next
  fix r :: Run and entry res e edge k nxt gain amp counted fanout
  assume a: "budget_inv env B0 L0 r" "tr_wf (env_size env) (run_tr r)"
    and c: "crossing env signal entry res e edge k nxt gain amp counted fanout r"
  let ?r = "count_amplification counted (count_up hops_considered_update r)"
  note D = edge_decision_Cross [OF conjunct1 [OF c [unfolded crossing_def]]]
  show "budget_inv env B0 L0 (cross_edge res entry e edge k nxt gain amp ?r)"
  proof (cases rule: cross_edge_cases [OF crossing_run [OF c a(2)], of res entry e edge nxt gain amp])
    case 2
    then show ?thesis using a(1) D(6) unat_pred [of "tr_record_budget (run_tr r)"] by (simp add: budget_inv_def)
  qed (use a(1) in \<open>simp add: budget_inv_def\<close>)
next
  fix r r' ok
  assume "budget_inv env B0 L0 r"
  then show "flush_suppressions r = (True, r') \<Longrightarrow> budget_inv env B0 L0 r'"
    "flush_suppressions r = (False, r') \<Longrightarrow> budget_inv env B0 L0 (set_truncated r')"
    by (auto simp: budget_inv_truncated intro: budget_inv_flush)
qed (auto simp: budget_inv_def popped_def)

section \<open>Accounting\<close>

text \<open>
  Every edge considered is either propagated or suppressed, except the one at which the
  record budget ran out.
\<close>

definition account_inv :: "u64 \<Rightarrow> u64 \<Rightarrow> Run \<Rightarrow> bool" where
  "account_inv K P r \<longleftrightarrow>
     (\<exists>d. hops_considered (run_counters r) = K + hops_propagated (run_counters r) + hops_suppressed (run_counters r) + d \<and>
        (d = 0 \<or> run_record_stop r)) \<and>
     (run_record_stop r \<longrightarrow> run_truncated r) \<and>
     hops_propagated (run_counters r) = P + of_nat (length (ex_hops (run_expl r)))"

interpretation accounting: traversal_invariant env signal pid "\<lambda>_. True" "account_inv K P"
  for env signal pid K P
proof
  fix r r3 :: Run and entry :: QueueEntry
  assume a: "account_inv K P r" "tr_wf (env_size env) (run_tr r)" "qe_node entry < env_size env"
  { assume b: "begin_node (qe_node entry) (settle_run entry r) = (True, r3)"
    show "account_inv K P (settled_run env signal pid entry r3)"
      using settle_begin_core [OF a(2,3) b(1)] a(1) by (auto simp: settled_run_def account_inv_def) }
  { assume b: "begin_node (qe_node entry) (settle_run entry r) = (False, r3)"
    show "account_inv K P (set_truncated r3\<lparr>run_record_stop := True\<rparr>)"
      using settle_begin_core [OF a(2,3) b(1)] a(1) by (auto simp: account_inv_def) }
next
  fix r :: Run and entry res e edge k nxt gain amp counted fanout
  assume a: "account_inv K P r" "tr_wf (env_size env) (run_tr r)" "\<not> run_record_stop r"
    and c: "crossing env signal entry res e edge k nxt gain amp counted fanout r"
  let ?r = "count_amplification counted (count_up hops_considered_update r)"
  show "account_inv K P (cross_edge res entry e edge k nxt gain amp ?r)"
  proof (cases rule: cross_edge_cases [OF crossing_run [OF c a(2)], of res entry e edge nxt gain amp])
    case 1
    then show ?thesis using a(1,3) by (simp add: account_inv_def)
  next
    case 2
    then show ?thesis using a(1,3) by (auto simp: account_inv_def)
  qed
next
  fix r r'
  assume "account_inv K P r" "flush_suppressions r = (False, r')"
  then show "account_inv K P (set_truncated r')"
    using flush_core [of r False r'] by (auto simp: account_inv_def same_core_def)
next
  fix r r'
  assume "account_inv K P r" "flush_suppressions r = (True, r')"
  then show "account_inv K P r'"
    using flush_core [of r True r'] by (auto simp: account_inv_def same_core_def)
qed (auto simp: account_inv_def popped_def)


section \<open>The explanation accounts for every refusal\<close>

text \<open>
  Unless records were dropped or a 32-bit count saturated, the counts in the emitted records
  and in the pending slots add up to the counter of suppressed hops.
\<close>

definition saturated :: "Run \<Rightarrow> bool" where
  "saturated r \<longleftrightarrow> (\<exists>g \<in> set (tr_pending (run_tr r)). agg_count g = 0xFFFFFFFF) \<or>
     (\<exists>s \<in> set (ex_suppressed (run_expl r)). se_count s = 0xFFFFFFFF)"

definition complete_inv :: "u64 \<Rightarrow> Run \<Rightarrow> bool" where
  "complete_inv S r \<longleftrightarrow> length (tr_pending (run_tr r)) = kSuppressionReasonCount \<and>
     (run_truncated r \<or> saturated r \<or>
      hops_suppressed (run_counters r) =
        S + of_nat (emitted (ex_suppressed (run_expl r)) + withheld (tr_pending (run_tr r))))"

lemma complete_inv_cong:
  assumes "complete_inv S r" and "tr_pending (run_tr r') = tr_pending (run_tr r)"
    and "ex_suppressed (run_expl r') = ex_suppressed (run_expl r)" and "run_truncated r \<Longrightarrow> run_truncated r'"
    and "hops_suppressed (run_counters r') = hops_suppressed (run_counters r)"
  shows "complete_inv S r'"
  using assms by (auto simp: complete_inv_def saturated_def)

lemma withheld_update:
  assumes "i < length gs" and "agg_count g = agg_count (gs ! i) + 1" and "agg_count (gs ! i) \<noteq> 0xFFFFFFFF"
  shows "withheld (gs[i := g]) = Suc (withheld gs)"
proof -
  have "unat (agg_count (gs ! i)) + 1 < 2 ^ 32"
  proof -
    have "unat (agg_count (gs ! i)) \<noteq> unat (0xFFFFFFFF :: u32)"
      using assms(3) by (simp only: word_unat_eq_iff not_False_eq_True)
    then show ?thesis using unat_u32_bound [of "agg_count (gs ! i)"] by simp
  qed
  then have s: "unat (agg_count g) = unat (agg_count (gs ! i)) + 1" using assms(2)
    by (simp add: unat_plus_if')
  have m: "map (\<lambda>g. unat (agg_count g)) (gs[i := g]) = (map (\<lambda>g. unat (agg_count g)) gs)[i := unat (agg_count g)]"
    by (simp add: map_update)
  have "unat (agg_count (gs ! i)) \<le> withheld gs"
    unfolding withheld_def using assms(1) by (intro member_le_sum_list) auto
  then show ?thesis using assms(1) s by (simp add: withheld_def m sum_list_update)
qed

lemma complete_inv_reject:
  assumes "complete_inv S r" and "reason \<noteq> SR_Count"
  shows "complete_inv S (reject edge d reason v r)"
proof -
  let ?i = "reason_value reason" and ?gs = "tr_pending (run_tr r)"
  have i: "?i < length ?gs" using assms by (cases reason) (simp_all add: complete_inv_def kSuppressionReasonCount_def)
  obtain g where p: "tr_pending (run_tr (reject edge d reason v r)) = ?gs[?i := g]"
    and c: "agg_count g = (if agg_count (?gs ! ?i) = 0xFFFFFFFF then 0xFFFFFFFF else agg_count (?gs ! ?i) + 1)"
    by (simp add: reject_def Let_def)
  show ?thesis
  proof (cases "saturated r")
    case True
    have "saturated (reject edge d reason v r)"
    proof (cases "\<exists>s \<in> set (ex_suppressed (run_expl r)). se_count s = 0xFFFFFFFF")
      case False
      then obtain j where j: "j < length ?gs" "agg_count (?gs ! j) = 0xFFFFFFFF"
        using True by (auto simp: saturated_def in_set_conv_nth)
      then have "agg_count ((?gs[?i := g]) ! j) = 0xFFFFFFFF" using c by (cases "j = ?i") simp_all
      then have "\<exists>g \<in> set (?gs[?i := g]). agg_count g = 0xFFFFFFFF"
        using j(1) by (metis length_list_update nth_mem)
      then show ?thesis unfolding saturated_def p by blast
    qed (simp add: saturated_def)
    then show ?thesis using assms(1) by (simp add: complete_inv_def)
  next
    case False
    then have ne: "agg_count (?gs ! ?i) \<noteq> 0xFFFFFFFF" using i by (auto simp: saturated_def)
    have "withheld (?gs[?i := g]) = Suc (withheld ?gs)"
      by (rule withheld_update [OF i _ ne]) (use c ne in simp)
    then show ?thesis using assms(1) False unfolding complete_inv_def p by (auto simp: p)
  qed
qed

lemma complete_inv_flush:
  assumes "complete_inv S r" and f: "flush_suppressions r = (True, r')"
  shows "complete_inv S r'"
proof -
  note p = flush_suppressions_props [OF f]
  have z: "withheld (tr_pending (run_tr r')) = 0" using p(3) by (simp add: withheld_def)
  have sat: "saturated r'" if "saturated r"
    using that p(4) p(6) [OF TrueI] unfolding saturated_def by fastforce
  show ?thesis using assms(1) p(2,5) z sat flush_core [OF f]
    by (auto simp: complete_inv_def same_core_def)
qed

lemma complete_inv_truncated:
  "length (tr_pending (run_tr r)) = kSuppressionReasonCount \<Longrightarrow> run_truncated r \<Longrightarrow> complete_inv S r"
  by (simp add: complete_inv_def)

lemma complete_inv_begin:
  assumes "complete_inv S r" and b: "begin_node i r = (ok, r')"
  shows "ok \<Longrightarrow> complete_inv S r'" and "\<not> ok \<Longrightarrow> complete_inv S ((set_truncated r')\<lparr>run_record_stop := True\<rparr>)"
proof -
  show "complete_inv S r'" if ok
  proof (cases rule: begin_node_cases [OF b])
    case (2 r1)
    then show ?thesis using complete_inv_flush [OF assms(1), of r1] that
      by (auto intro: complete_inv_cong)
  qed (use assms(1) in simp)
  show "complete_inv S ((set_truncated r')\<lparr>run_record_stop := True\<rparr>)" if "\<not> ok"
  proof (cases rule: begin_node_cases [OF b])
    case (2 r1)
    then show ?thesis using flush_suppressions_props(2) [OF 2(1)] assms(1) by (simp add: complete_inv_def)
  qed (use that in simp)
qed

lemma complete_inv_settle:
  assumes "complete_inv S r" and "tr_wf n (run_tr r)" and "qe_node entry < n"
  shows "complete_inv S (settle_run entry r)"
proof -
  have w: "tr_wf n (run_tr (popped r))" using assms(2) by (simp add: popped_def tr_wf_def)
  show ?thesis by (rule complete_inv_cong [OF assms(1)])
      (use settle_settled(6) [OF w assms(3)] in \<open>simp_all add: settle_run_def popped_def\<close>)
qed

interpretation completeness: traversal_invariant env signal pid "\<lambda>_. True" "complete_inv S"
  for env signal pid S
proof
  fix r r3 :: Run and entry :: QueueEntry
  assume a: "complete_inv S r" "tr_wf (env_size env) (run_tr r)" "qe_node entry < env_size env"
  note s = complete_inv_settle [OF a]
  { assume b: "begin_node (qe_node entry) (settle_run entry r) = (True, r3)"
    show "complete_inv S (settled_run env signal pid entry r3)"
      by (rule complete_inv_cong [OF complete_inv_begin(1) [OF s b TrueI]]) (simp_all add: settled_run_def) }
  { assume b: "begin_node (qe_node entry) (settle_run entry r) = (False, r3)"
    show "complete_inv S (set_truncated r3\<lparr>run_record_stop := True\<rparr>)"
      by (rule complete_inv_begin(2) [OF s b]) simp }
next
  fix r :: Run and entry res e edge k nxt gain amp counted fanout
  assume a: "complete_inv S r" "tr_wf (env_size env) (run_tr r)"
    and c: "crossing env signal entry res e edge k nxt gain amp counted fanout r"
  let ?r = "count_amplification counted (count_up hops_considered_update r)"
  show "complete_inv S (cross_edge res entry e edge k nxt gain amp ?r)"
  proof (cases rule: cross_edge_cases [OF crossing_run [OF c a(2)], of res entry e edge nxt gain amp])
    case 1
    then show ?thesis using a(1) by (simp add: complete_inv_def)
  next
    case 2
    show ?thesis by (rule complete_inv_cong [OF a(1)]) (use 2 in simp_all)
  qed
next
  fix r :: Run and reason edge d v b
  assume a: "complete_inv S r" "reason \<noteq> SR_Count"
  have "complete_inv S (count_amplification b (count_up hops_considered_update r))"
    by (rule complete_inv_cong [OF a(1)]) simp_all
  then show "complete_inv S (reject edge d reason v (count_amplification b (count_up hops_considered_update r)))"
    by (rule complete_inv_reject [OF _ a(2)])
next
  fix r r'
  assume a: "complete_inv S r"
  { assume f: "flush_suppressions r = (True, r')" show "complete_inv S r'" by (rule complete_inv_flush [OF a f]) }
  { assume f: "flush_suppressions r = (False, r')" show "complete_inv S (set_truncated r')"
      using flush_suppressions_props(2) [OF f] a by (simp add: complete_inv_def) }
qed (auto simp: popped_def intro: complete_inv_cong)


section \<open>Pressure never increases without a granted amplification\<close>

definition con_within :: "Magnitude \<Rightarrow> Contribution \<Rightarrow> bool" where
  "con_within M c \<longleftrightarrow> con_magnitude c \<le> M \<and> con_weighted c \<le> M"

definition acc_bounded :: "Magnitude \<Rightarrow> Accumulators \<Rightarrow> bool" where
  "acc_bounded M acc \<longleftrightarrow> (\<forall>p \<in> set acc. list_all (con_within M) (na_contributions (snd p)))"

lemma set_alist_update: "set (AList.update k v al) \<subseteq> insert (k, v) (set al)"
  by (induction al) auto

lemma acc_bounded_at:
  assumes "acc_bounded M acc"
    and "\<And>a. list_all (con_within M) (na_contributions a) \<Longrightarrow> list_all (con_within M) (na_contributions (f a))"
  shows "acc_bounded M (acc_at i rid f acc)"
proof -
  let ?a = "case map_of acc i of Some a \<Rightarrow> a | None \<Rightarrow> node_accumulator rid"
  have "list_all (con_within M) (na_contributions ?a)"
  proof (cases "map_of acc i")
    case (Some a)
    then show ?thesis using assms(1) map_of_SomeD [OF Some] by (auto simp: acc_bounded_def)
  qed (simp add: node_accumulator_def)
  then have "list_all (con_within M) (na_contributions (f ?a))" by (rule assms(2))
  then show ?thesis using assms(1) set_alist_update [of i "f ?a" acc]
    unfolding acc_bounded_def acc_at_def by fastforce
qed

lemma weighted_magnitude_le:
  assumes "sig_weight_q16 signal \<le> 65536"
  shows "weighted_magnitude signal m \<le> m"
proof -
  let ?p = "(ucast (mag_raw m) :: u64) * ucast (sig_weight_q16 signal)"
  have w: "unat (sig_weight_q16 signal) \<le> 65536" using assms by (simp add: word_le_nat_alt)
  have le: "unat (mag_raw m) * unat (sig_weight_q16 signal) \<le> unat (mag_raw m) * 65536" using w by simp
  also have "\<dots> \<le> 65536 * 65536" using unat_mag_raw_le [of m] by simp
  finally have p: "unat ?p = unat (mag_raw m) * unat (sig_weight_q16 signal)"
    by (simp add: unat_mult_no_overflow)
  have "unat (drop_bit 16 ?p) \<le> unat (mag_raw m)"
    using div_le_mono [OF le, of 65536] by (simp add: unat_drop_bit p)
  then have "unat (if drop_bit 16 ?p > ucast (mag_raw mag_full) then ucast (mag_raw mag_full) else drop_bit 16 ?p) \<le> unat (mag_raw m)"
    (is "unat ?q \<le> _")
    using unat_mag_raw_le [of mag_full] by (simp add: word_less_nat_alt)
  moreover have "unat (ucast ?q :: u32) = unat ?q"
    by (rule unat_u64_to_u32) (use calculation unat_mag_raw_le [of m] in simp)
  ultimately show ?thesis
    by (simp only: mag_le_iff weighted_magnitude_def Let_def unat_mag_from_raw_saturating)
qed

definition potential_within :: "Magnitude \<Rightarrow> QueueEntry \<Rightarrow> bool" where
  "potential_within M q \<longleftrightarrow> qe_potential q \<le> potential_from_magnitude M"

definition pressure_inv :: "TraversalEnv \<Rightarrow> PressureSignal \<Rightarrow> Magnitude \<Rightarrow> Run \<Rightarrow> bool" where
  "pressure_inv env signal M r \<longleftrightarrow>
     amplification_granted (env_policy env) signal \<or> \<not> sig_weight_q16 signal \<le> 65536 \<or>
     ((\<forall>q \<in> set (tr_queue (run_tr r)). potential_within M q) \<and> acc_bounded M (run_acc r))"

lemma to_magnitude_le: "potential_within M q \<Longrightarrow> to_magnitude (qe_potential q) \<le> M"
  unfolding potential_within_def using to_magnitude_mono by fastforce

lemma pressure_inv_cong:
  "pressure_inv env signal M r \<Longrightarrow> set (tr_queue (run_tr r')) \<subseteq> set (tr_queue (run_tr r)) \<Longrightarrow>
   run_acc r' = run_acc r \<Longrightarrow> pressure_inv env signal M r'"
  by (auto simp: pressure_inv_def)

lemma acc_bounded_settlement:
  assumes "acc_bounded M acc" and "potential_within M entry" and "sig_weight_q16 signal \<le> 65536"
  shows "acc_bounded M (record_settlement env entry i signal pid acc)"
proof -
  have m: "to_magnitude (qe_potential entry) \<le> M" by (rule to_magnitude_le [OF assms(2)])
  have "weighted_magnitude signal (to_magnitude (qe_potential entry)) \<le> M"
    using weighted_magnitude_le [OF assms(3)] m order_trans by blast
  with m show ?thesis unfolding record_settlement_def
    by (intro acc_bounded_at [OF assms(1)]) (simp add: Let_def con_within_def)
qed

lemma pressure_cross:
  assumes "pressure_inv env signal M r" and "tr_wf (env_size env) (run_tr r)"
    and "\<not> amplification_granted (env_policy env) signal \<Longrightarrow> sig_weight_q16 signal \<le> 65536 \<Longrightarrow> potential_within M entry"
    and c: "crossing env signal entry res e edge k nxt gain amp counted fanout r"
  shows "pressure_inv env signal M (cross_edge res entry e edge k nxt gain amp
           (count_amplification counted (count_up hops_considered_update r)))"
proof (cases rule: cross_edge_cases [OF crossing_run [OF c assms(2)], of res entry e edge nxt gain amp])
  case 1
  then show ?thesis using assms(1) by (simp add: pressure_inv_def)
next
  case 2
  note D = edge_decision_Cross [OF conjunct1 [OF c [unfolded crossing_def]]]
  have "nxt \<le> potential_from_magnitude M"
    if "\<not> amplification_granted (env_policy env) signal" "potential_within M entry"
    using amplify_Inr [OF D(11)] that attenuated_le [of "qe_potential entry" "edge_attenuation edge"]
    unfolding potential_within_def by (cases "is_amplifying edge") (auto dest: order_trans)
  moreover have "acc_bounded M (run_acc r) \<Longrightarrow>
      acc_bounded M (acc_at (qe_node entry) (res_id res) (\<lambda>a. a\<lparr>na_forwarded := True\<rparr>) (run_acc r))"
    by (rule acc_bounded_at) auto
  ultimately show ?thesis using assms(1,3) 2 by (auto simp: pressure_inv_def potential_within_def)
qed

interpretation pressure: traversal_invariant env signal pid
  "\<lambda>q. amplification_granted (env_policy env) signal \<or> \<not> sig_weight_q16 signal \<le> 65536 \<or> potential_within M q"
  "pressure_inv env signal M"
  for env signal pid M
proof
  fix r r3 :: Run and entry :: QueueEntry
  assume a: "pressure_inv env signal M r" "tr_wf (env_size env) (run_tr r)" "qe_node entry < env_size env"
    and t: "pq_top queue_entry_less (tr_queue (run_tr r)) = Some entry"
  show "pressure_inv env signal M (settled_run env signal pid entry r3)"
    if b: "begin_node (qe_node entry) (settle_run entry r) = (True, r3)"
    using settle_begin_core [OF a(2,3) b] a(1) pq_top_in [OF t] acc_bounded_settlement
    by (auto simp: pressure_inv_def settled_run_def)
  show "pressure_inv env signal M (set_truncated r3\<lparr>run_record_stop := True\<rparr>)"
    if b: "begin_node (qe_node entry) (settle_run entry r) = (False, r3)"
    by (rule pressure_inv_cong [OF a(1)]) (use settle_begin_core [OF a(2,3) b] in simp_all)
next
  fix r :: Run and f i
  assume a: "pressure_inv env signal M r" "neutral f"
  have "acc_bounded M (run_acc r) \<Longrightarrow>
      acc_bounded M (acc_at i (res_id (top_resources (env_topology env) ! i)) f (run_acc r))"
    by (rule acc_bounded_at) (use a(2) in \<open>simp_all add: neutral_def\<close>)
  then show "pressure_inv env signal M (r\<lparr>run_acc := acc_at i (res_id (top_resources (env_topology env) ! i)) f (run_acc r)\<rparr>)"
    using a(1) by (auto simp: pressure_inv_def)
next
  fix r r' :: Run
  assume a: "pressure_inv env signal M r"
  show "pressure_inv env signal M r'" if f: "flush_suppressions r = (True, r')"
    by (rule pressure_inv_cong [OF a]) (use flush_core [OF f] in \<open>simp_all add: same_core_def\<close>)
  show "pressure_inv env signal M (set_truncated r')" if f: "flush_suppressions r = (False, r')"
    by (rule pressure_inv_cong [OF a]) (use flush_core [OF f] in \<open>simp_all add: same_core_def\<close>)
next
  fix r :: Run and entry res e edge k nxt gain amp counted fanout
  show "pressure_inv env signal M r \<Longrightarrow> tr_wf (env_size env) (run_tr r) \<Longrightarrow>
      amplification_granted (env_policy env) signal \<or> \<not> sig_weight_q16 signal \<le> 65536 \<or> potential_within M entry \<Longrightarrow>
      crossing env signal entry res e edge k nxt gain amp counted fanout r \<Longrightarrow>
      pressure_inv env signal M (cross_edge res entry e edge k nxt gain amp
        (count_amplification counted (count_up hops_considered_update r)))"
    by (rule pressure_cross) auto
qed (auto simp: pressure_inv_def popped_def dest: pq_pop_subset [THEN subsetD])


section \<open>One settlement per resource, justified by the hops\<close>

text \<open>
  \<open>justified env signal hs q\<close>: the queue entry is the seed at the origin, or the last hop into
  its node that carried its potential is among \<open>hs\<close>.
\<close>

definition justified :: "TraversalEnv \<Rightarrow> PressureSignal \<Rightarrow> HopRecord list \<Rightarrow> QueueEntry \<Rightarrow> bool" where
  "justified env signal hs q \<longleftrightarrow>
     (index_of (env_topology env) (sig_origin signal) = Some (qe_node q) \<and> qe_depth q = 0 \<and>
        qe_potential q = potential_from_magnitude (obs_magnitude (sig_observation signal))) \<or>
     (\<exists>h \<in> set hs. index_of (env_topology env) (hr_to h) = Some (qe_node q) \<and>
        hr_potential_after h = qe_potential q \<and> hr_depth h + 1 = qe_depth q)"

definition contribution_from :: "PressureSignal \<Rightarrow> PropagationId \<Rightarrow> QueueEntry \<Rightarrow> Contribution" where
  "contribution_from signal pid q =
     \<lparr>con_source = sig_source signal, con_propagation = pid, con_signal = sig_id signal,
      con_magnitude = to_magnitude (qe_potential q),
      con_weighted = weighted_magnitude signal (to_magnitude (qe_potential q)),
      con_depth = qe_depth q, con_source_priority = sig_source_priority signal\<rparr>"

definition contributions_at :: "Accumulators \<Rightarrow> nat \<Rightarrow> u64 \<times> Contribution list" where
  "contributions_at acc i =
     (case map_of acc i of None \<Rightarrow> (0, []) | Some a \<Rightarrow> (na_contribution_count a, na_contributions a))"

definition add_contribution :: "Contribution \<Rightarrow> u64 \<times> Contribution list \<Rightarrow> u64 \<times> Contribution list" where
  "add_contribution c v = (fst v + 1, if length (snd v) < kMaxContributionsPerNode then snd v @ [c] else snd v)"

definition once_inv ::
  "TraversalEnv \<Rightarrow> PressureSignal \<Rightarrow> PropagationId \<Rightarrow> Accumulators \<Rightarrow> Run \<Rightarrow> bool" where
  "once_inv env signal pid acc0 r \<longleftrightarrow>
     (\<forall>q \<in> set (tr_queue (run_tr r)). justified env signal (ex_hops (run_expl r)) q) \<and>
     (\<forall>i. contributions_at (run_acc r) i = contributions_at acc0 i \<or>
        settled_at (run_tr r) i \<and>
        (\<exists>q. qe_node q = i \<and> justified env signal (ex_hops (run_expl r)) q \<and>
           contributions_at (run_acc r) i = add_contribution (contribution_from signal pid q) (contributions_at acc0 i)))"

lemma justified_mono: "justified env signal hs q \<Longrightarrow> set hs \<subseteq> set hs' \<Longrightarrow> justified env signal hs' q"
  by (auto simp: justified_def)

lemma contributions_at_acc_at:
  assumes "\<And>a. na_contributions (f a) = na_contributions a \<and> na_contribution_count (f a) = na_contribution_count a"
  shows "contributions_at (acc_at i rid f acc) = contributions_at acc"
  by (rule ext) (auto simp: contributions_at_def map_of_acc_at assms node_accumulator_def split: option.splits)

lemma contributions_at_settlement:
  "contributions_at (record_settlement env q rid signal pid acc) j =
     (if j = qe_node q then add_contribution (contribution_from signal pid q) (contributions_at acc j)
      else contributions_at acc j)"
  by (auto simp: record_settlement_def contributions_at_def map_of_acc_at add_contribution_def contribution_from_def
      node_accumulator_def Let_def split: option.splits)

lemma once_inv_cong:
  assumes "once_inv env signal pid acc0 r" and "set (tr_queue (run_tr r')) \<subseteq> set (tr_queue (run_tr r))"
    and "contributions_at (run_acc r') = contributions_at (run_acc r)"
    and "\<And>i. settled_at (run_tr r) i \<Longrightarrow> settled_at (run_tr r') i"
    and "ex_hops (run_expl r') = ex_hops (run_expl r)"
  shows "once_inv env signal pid acc0 r'"
  using assms(1,2,4) unfolding once_inv_def assms(3,5) by (meson subsetD)

lemma once_inv_cross:
  assumes a: "once_inv env signal pid acc0 r" "tr_wf (env_size env) (run_tr r)"
    and c: "crossing env signal entry res e edge k nxt gain amp counted fanout r"
  shows "once_inv env signal pid acc0 (cross_edge res entry e edge k nxt gain amp
           (count_amplification counted (count_up hops_considered_update r)))"
    (is "once_inv _ _ _ _ ?r")
proof (cases rule: cross_edge_cases [OF crossing_run [OF c a(2)], of res entry e edge nxt gain amp])
  case 1
  show ?thesis by (rule once_inv_cong [OF a(1)]) (simp_all add: 1)
next
  case 2
  note D = edge_decision_Cross [OF conjunct1 [OF c [unfolded crossing_def]]]
  have mono: "justified env signal (ex_hops (run_expl r)) q \<Longrightarrow> justified env signal (ex_hops (run_expl ?r)) q" for q
    by (erule justified_mono) (auto simp: 2)
  have acc: "contributions_at (run_acc ?r) = contributions_at (run_acc r)"
    unfolding 2(6) by (simp add: contributions_at_acc_at)
  have "justified env signal (ex_hops (run_expl ?r)) q"
    if "q \<in> set (tr_queue (run_tr ?r))" for q
  proof (cases "q \<in> set (tr_queue (run_tr r))")
    case True
    then show ?thesis using a(1) mono by (simp add: once_inv_def)
  next
    case False
    then have "q = \<lparr>qe_potential = nxt, qe_node = k, qe_depth = qe_depth entry + 1, qe_cumulative_gain_q16 = gain,
           qe_parent = Some (qe_node entry), qe_parent_edge = Some e, qe_amplified = amp\<rparr>"
      using that 2(2) by simp
    then show ?thesis using D(2) by (auto simp: justified_def 2(13))
  qed
  moreover have "contributions_at (run_acc ?r) i = contributions_at acc0 i \<or>
        settled_at (run_tr ?r) i \<and>
        (\<exists>q. qe_node q = i \<and> justified env signal (ex_hops (run_expl ?r)) q \<and>
           contributions_at (run_acc ?r) i = add_contribution (contribution_from signal pid q) (contributions_at acc0 i))" for i
    using a(1) mono unfolding once_inv_def acc 2(3) by simp metis
  ultimately show ?thesis unfolding once_inv_def by blast
qed

lemma once_inv_settle:
  assumes a: "once_inv env signal pid acc0 r" and t: "entry \<in> set (tr_queue (run_tr r))"
    and s: "\<not> settled_at (run_tr r) (qe_node entry)"
    and q: "set (tr_queue (run_tr r')) \<subseteq> set (tr_queue (run_tr r))"
    and st: "\<And>j. settled_at (run_tr r') j \<longleftrightarrow> j = qe_node entry \<or> settled_at (run_tr r) j"
    and acc: "run_acc r' = record_settlement env entry rid signal pid (run_acc r)"
    and h: "ex_hops (run_expl r') = ex_hops (run_expl r)"
  shows "once_inv env signal pid acc0 r'"
proof -
  have j: "justified env signal (ex_hops (run_expl r)) entry" using a t by (simp add: once_inv_def)
  have o: "contributions_at (run_acc r) (qe_node entry) = contributions_at acc0 (qe_node entry)"
    using a s unfolding once_inv_def by blast
  have "contributions_at (run_acc r') i = contributions_at acc0 i \<or>
        settled_at (run_tr r') i \<and>
        (\<exists>q. qe_node q = i \<and> justified env signal (ex_hops (run_expl r)) q \<and>
           contributions_at (run_acc r') i = add_contribution (contribution_from signal pid q) (contributions_at acc0 i))" for i
  proof (cases "i = qe_node entry")
    case True
    then show ?thesis using j o st by (auto simp: acc contributions_at_settlement)
  next
    case False
    then have "contributions_at (run_acc r') i = contributions_at (run_acc r) i"
      by (simp add: acc contributions_at_settlement)
    then show ?thesis using a st unfolding once_inv_def by metis
  qed
  moreover have "\<forall>q \<in> set (tr_queue (run_tr r')). justified env signal (ex_hops (run_expl r)) q"
    using a q unfolding once_inv_def by blast
  ultimately show ?thesis unfolding once_inv_def h by blast
qed

interpretation once: traversal_invariant env signal pid "\<lambda>_. True" "once_inv env signal pid acc0"
  for env signal pid acc0
proof
  fix r r3 :: Run and entry :: QueueEntry
  assume a: "once_inv env signal pid acc0 r" "tr_wf (env_size env) (run_tr r)" "qe_node entry < env_size env"
    and t: "pq_top queue_entry_less (tr_queue (run_tr r)) = Some entry" and s: "\<not> settled_at (run_tr r) (qe_node entry)"
  show "once_inv env signal pid acc0 (settled_run env signal pid entry r3)"
    if b: "begin_node (qe_node entry) (settle_run entry r) = (True, r3)"
    by (rule once_inv_settle [OF a(1) pq_top_in [OF t] s])
      (use settle_begin_core [OF a(2,3) b] in \<open>simp_all add: settled_run_def\<close>)
  show "once_inv env signal pid acc0 (set_truncated r3\<lparr>run_record_stop := True\<rparr>)"
    if b: "begin_node (qe_node entry) (settle_run entry r) = (False, r3)"
    by (rule once_inv_cong [OF a(1)]) (use settle_begin_core [OF a(2,3) b] in simp_all)
next
  fix r :: Run and f i
  assume a: "once_inv env signal pid acc0 r" "neutral f"
  show "once_inv env signal pid acc0 (r\<lparr>run_acc := acc_at i (res_id (top_resources (env_topology env) ! i)) f (run_acc r)\<rparr>)"
    by (rule once_inv_cong [OF a(1)]) (use a(2) in \<open>simp_all add: neutral_def contributions_at_acc_at\<close>)
next
  fix r r' :: Run
  assume a: "once_inv env signal pid acc0 r"
  show "once_inv env signal pid acc0 r'" if f: "flush_suppressions r = (True, r')"
    by (rule once_inv_cong [OF a])
      (use flush_core [OF f] same_core_settled [of r r'] in \<open>simp_all add: same_core_def\<close>)
  show "once_inv env signal pid acc0 (set_truncated r')" if f: "flush_suppressions r = (False, r')"
    by (rule once_inv_cong [OF a])
      (use flush_core [OF f] same_core_settled [of r r'] in \<open>simp_all add: same_core_def\<close>)
next
  fix r :: Run and entry
  assume a: "once_inv env signal pid acc0 r"
  have "settled_at (run_tr (popped r)) = settled_at (run_tr r)"
    by (rule settled_at_cong) (simp_all add: popped_def)
  then show "once_inv env signal pid acc0 (popped r)"
    by (intro once_inv_cong [OF a]) (simp_all add: popped_def pq_pop_subset)
next
  fix r :: Run and edge d reason v b
  assume a: "once_inv env signal pid acc0 r"
  have "settled_at (run_tr (reject edge d reason v (count_amplification b (count_up hops_considered_update r)))) = settled_at (run_tr r)"
    by (rule settled_at_cong) simp_all
  then show "once_inv env signal pid acc0 (reject edge d reason v (count_amplification b (count_up hops_considered_update r)))"
    by (intro once_inv_cong [OF a]) simp_all
qed (simp_all add: once_inv_cross, (simp_all add: once_inv_def)?)


section \<open>What a whole run guarantees\<close>

lemma run_start_sel [simp]:
  "tr_queue (run_tr (run_start env b signal acc c x t)) = []"
  "tr_pending (run_tr (run_start env b signal acc c x t)) = replicate kSuppressionReasonCount suppression_aggregate"
  "tr_record_budget (run_tr (run_start env b signal acc c x t)) = b"
  "run_acc (run_start env b signal acc c x t) = acc" "run_counters (run_start env b signal acc c x t) = c"
  "run_expl (run_start env b signal acc c x t) = x" "run_truncated (run_start env b signal acc c x t) = t"
  "run_visited (run_start env b signal acc c x t) = 0" "run_expansions (run_start env b signal acc c x t) = 0"
  "\<not> run_record_stop (run_start env b signal acc c x t)"
  by (simp_all add: run_start_def traversal_def Let_def)

lemma origin_run_sel [simp]:
  "run_tr (origin_run env signal k origin r) = run_tr r" "run_counters (origin_run env signal k origin r) = run_counters r"
  "ex_hops (run_expl (origin_run env signal k origin r)) = ex_hops (run_expl r)"
  "ex_suppressed (run_expl (origin_run env signal k origin r)) = ex_suppressed (run_expl r)"
  "run_acc (origin_run env signal k origin r) = acc_at k (res_id origin) (\<lambda>a. a) (run_acc r)"
  "run_truncated (origin_run env signal k origin r) = run_truncated r"
  "run_visited (origin_run env signal k origin r) = run_visited r"
  "run_expansions (origin_run env signal k origin r) = run_expansions r"
  "run_record_stop (origin_run env signal k origin r) = run_record_stop r"
  by (simp_all add: origin_run_def)

lemma seed_run_sel [simp]:
  "run_counters (seed_run env signal k origin r) = run_counters r"
  "ex_hops (run_expl (seed_run env signal k origin r)) = ex_hops (run_expl r)"
  "ex_suppressed (run_expl (seed_run env signal k origin r)) = ex_suppressed (run_expl r)"
  "run_acc (seed_run env signal k origin r) = acc_at k (res_id origin) (\<lambda>a. a) (run_acc r)"
  "run_truncated (seed_run env signal k origin r) = run_truncated r"
  "run_visited (seed_run env signal k origin r) = run_visited r"
  "run_expansions (seed_run env signal k origin r) = run_expansions r"
  "run_record_stop (seed_run env signal k origin r) = run_record_stop r"
  by (simp_all add: seed_run_def)

lemma seed_run_pending [simp]:
  "tr_pending (run_tr (seed_run env signal k origin r)) = tr_pending (run_tr r)"
  "tr_record_budget (run_tr (seed_run env signal k origin r)) = tr_record_budget (run_tr r)"
  by (simp_all add: seed_run_def push_queue_def state_at_def Let_def split: prod.splits)

lemma unity_granted: "kUnityGainQ16 \<le> granted_gain policy signal"
  by (simp add: granted_gain_def kUnityGainQ16_def)

lemma run_hops_safe:
  assumes "topology_wf (env_topology env)" and "run_traversal env b signal pid acc c x t = Some (s, r)"
  shows "\<exists>hs. ex_hops (run_expl r) = ex_hops x @ hs \<and> (\<forall>h \<in> set hs. hop_safe env signal h)"
proof -
  have "hops_inv env signal (ex_hops x) r"
    by (rule hops.run_traversal_I [OF assms(1) _ _ _ assms(2)])
      (auto simp: hops_inv_def seed_run_props(3) gain_within_def unity_granted)
  then show ?thesis by (simp add: hops_inv_def)
qed

lemma run_budget:
  assumes "topology_wf (env_topology env)" and "run_traversal env b signal pid acc c x t = Some (s, r)"
  shows "length (ex_hops (run_expl r)) \<le> length (ex_hops x) + unat (pol_max_expansions (env_policy env))"
    and "run_visited r \<le> unat (pol_max_visited (env_policy env))"
    and "length (ex_hops (run_expl r)) + length (ex_suppressed (run_expl r))
      \<le> length (ex_hops x) + length (ex_suppressed x) + unat b"
proof -
  have "budget_inv env (unat b + length (ex_hops x) + length (ex_suppressed x)) (length (ex_hops x)) r"
    by (rule budgets.run_traversal_I [OF assms(1) _ _ _ assms(2)]) (auto simp: budget_inv_def)
  then show "length (ex_hops (run_expl r)) \<le> length (ex_hops x) + unat (pol_max_expansions (env_policy env))"
    "run_visited r \<le> unat (pol_max_visited (env_policy env))"
    "length (ex_hops (run_expl r)) + length (ex_suppressed (run_expl r))
      \<le> length (ex_hops x) + length (ex_suppressed x) + unat b"
    by (simp_all add: budget_inv_def)
qed

lemma suppress_all_flushed: "\<forall>g \<in> set (tr_pending (run_tr (suppress_all env i d reason r))). agg_count g = 0"
proof -
  let ?r1 = "suppress_edges (env_topology env) d reason (out_edge_indices_at (env_topology env) i) r"
  obtain ok r2 where f: "flush_suppressions ?r1 = (ok, r2)" by (rule prod.exhaust)
  show ?thesis using flush_suppressions_props(3) [OF f] by (simp add: suppress_all_def Let_def f)
qed

lemma run_flushed:
  assumes "run_traversal env b signal pid acc c x t = Some (s, r)"
  shows "\<forall>g \<in> set (tr_pending (run_tr r)). agg_count g = 0"
proof (cases rule: run_traversal_cases [of env b signal pid acc c x t])
  case (failed s)
  then show ?thesis using assms by (auto simp: suppression_aggregate_def)
next
  case (blocked k origin f reason r2)
  then show ?thesis using assms suppress_all_flushed by auto
next
  case (ran k origin)
  from assms ran(6) obtain r3 ok r4
    where "flush_suppressions r3 = (ok, r4)" "r = (if ok then r4 else set_truncated r4)"
    by (auto split: option.splits prod.splits)
  then show ?thesis using flush_suppressions_props(3) by (cases ok) simp_all
qed

lemma run_account:
  assumes "topology_wf (env_topology env)" and "run_traversal env b signal pid acc c x t = Some (s, r)"
    and "\<not> run_truncated r" and "ex_hops x = []"
  shows "hops_considered (run_counters r) - hops_considered c =
      of_nat (length (ex_hops (run_expl r))) + (hops_suppressed (run_counters r) - hops_suppressed c)"
proof -
  have "account_inv (hops_considered c - hops_propagated c - hops_suppressed c) (hops_propagated c) r"
    by (rule accounting.run_traversal_I [OF assms(1) _ _ _ assms(2)])
      (auto simp: account_inv_def algebra_simps assms(4))
  then show ?thesis using assms(3) by (auto simp: account_inv_def algebra_simps)
qed

lemma run_complete:
  assumes "topology_wf (env_topology env)" and "run_traversal env b signal pid acc c x t = Some (s, r)"
    and "\<not> run_truncated r" and "ex_suppressed x = []"
    and "\<forall>s \<in> set (ex_suppressed (run_expl r)). se_count s \<noteq> 0xFFFFFFFF"
  shows "hops_suppressed (run_counters r) - hops_suppressed c = of_nat (emitted (ex_suppressed (run_expl r)))"
proof -
  note fl = run_flushed [OF assms(2)]
  have z: "withheld (replicate kSuppressionReasonCount suppression_aggregate) = 0"
    by (simp add: withheld_def suppression_aggregate_def sum_list_replicate)
  have "complete_inv (hops_suppressed c) r"
    by (rule completeness.run_traversal_I [OF assms(1) _ _ _ assms(2)])
      (auto simp: complete_inv_def z emitted_def assms(4))
  moreover have "\<not> saturated r" using assms(5) fl by (auto simp: saturated_def)
  moreover have "withheld (tr_pending (run_tr r)) = 0" using fl by (simp add: withheld_def)
  ultimately show ?thesis using assms(3) by (simp add: complete_inv_def)
qed

lemma run_pressure:
  assumes "topology_wf (env_topology env)" and "run_traversal env b signal pid acc c x t = Some (s, r)"
    and "\<not> amplification_granted (env_policy env) signal" and "sig_weight_q16 signal \<le> 65536"
    and "acc_bounded M acc" and "obs_magnitude (sig_observation signal) \<le> M"
  shows "acc_bounded M (run_acc r)"
proof -
  have acc: "acc_bounded M (acc_at k i (\<lambda>a. a) acc)" for k i by (rule acc_bounded_at [OF assms(5)])
  have p: "potential_from_magnitude (obs_magnitude (sig_observation signal)) \<le> potential_from_magnitude M"
    using assms(6) by (simp add: pot_le_iff mag_le_iff unat_from_magnitude)
  have "pressure_inv env signal M r"
    by (rule pressure.run_traversal_I [OF assms(1) _ _ _ assms(2)])
      (auto simp: pressure_inv_def acc assms(5) seed_run_props(3) potential_within_def p)
  then show ?thesis using assms(3,4) by (simp add: pressure_inv_def)
qed

lemma run_once:
  assumes "topology_wf (env_topology env)" and "run_traversal env b signal pid acc c x t = Some (s, r)"
  shows "contributions_at (run_acc r) i = contributions_at acc i \<or>
    (\<exists>q. qe_node q = i \<and> justified env signal (ex_hops (run_expl r)) q \<and>
       contributions_at (run_acc r) i = add_contribution (contribution_from signal pid q) (contributions_at acc i))"
proof -
  have "once_inv env signal pid acc r"
    by (rule once.run_traversal_I [OF assms(1) _ _ _ assms(2)])
      (auto simp: once_inv_def contributions_at_acc_at seed_run_props(3) justified_def)
  then show ?thesis by (auto simp: once_inv_def)
qed

end
