(* ===== verification/Engine.thy ===== *)
theory Engine
  imports Traversal
begin

text \<open>
  The engine's entry points \<open>propagate\<close> and \<open>recover\<close>, and the assembly of their outcome:
  \<open>src/engine/engine.cpp\<close> and the request types of \<open>include/backpressure/engine/engine.hpp\<close>.

  The pointers of an \<open>EngineContext\<close> are options. The ledger is the only thing behind them
  that changes, so an entry point returns the outcome and the ledger. \<open>propagate\<close> is split
  at its section comments: request checks, pins, admission, idempotency, traversal,
  aggregation, commit. The outer option of the result is the fuel of the traversals.
\<close>

section \<open>Requests and outcomes\<close>

record DependencyPin =
  pin_edge :: EdgeId
  pin_generation :: Generation

record PropagationRequest =
  req_id :: PropagationId
  req_policy_id :: PolicyId
  req_policy_generation :: Generation
  req_topology_digest :: Digest128
  req_epoch :: Epoch
  req_now :: Tick
  req_signals :: "PressureSignal list"
  req_pins :: "DependencyPin list"
  req_dry_run :: bool
  req_record_budget_override :: u32

record RecoveryRequest =
  rcv_id :: PropagationId
  rcv_source :: SourceId
  rcv_origin :: ResourceId
  rcv_origin_generation :: Generation
  rcv_topology_digest :: Digest128
  rcv_epoch :: Epoch
  rcv_now :: Tick
  rcv_residual :: Magnitude
  rcv_authority :: AuthorityVector
  rcv_dry_run :: bool

record RejectionRecord =
  rej_signal :: SignalId
  rej_source :: SourceId
  rej_status :: Status

record PropagationOutcome =
  out_status :: Status
  out_id :: PropagationId
  out_epoch :: Epoch
  out_topology_digest :: Digest128
  out_topology_generation :: Generation
  out_now :: Tick
  out_explanations :: "PropagationExplanation list"
  out_rejections :: "RejectionRecord list"
  out_nodes :: "NodeOutcome list"
  out_recovery_nodes :: "NodeOutcome list"
  out_counters :: EngineCounters
  out_complete :: bool
  out_peak_depth :: u32
  out_fingerprint :: Digest128

record EngineContext =
  ctx_topology :: "Topology option"
  ctx_policy :: "PropagationPolicy option"
  ctx_ledger :: "PropagationLedger option"
  ctx_fences :: "FenceTable option"
  ctx_live_epoch :: Epoch

definition propagation_outcome :: "PropagationId \<Rightarrow> Epoch \<Rightarrow> Digest128 \<Rightarrow> Tick \<Rightarrow> PropagationOutcome" where
  "propagation_outcome i epoch digest now =
     \<lparr>out_status = status_success, out_id = i, out_epoch = epoch, out_topology_digest = digest,
      out_topology_generation = gen_unknown, out_now = now, out_explanations = [],
      out_rejections = [], out_nodes = [], out_recovery_nodes = [], out_counters = engine_counters,
      out_complete = True, out_peak_depth = 0, out_fingerprint = digest_zero\<rparr>"

definition node_updates :: "NodeOutcome \<Rightarrow> (DigestBuilder \<Rightarrow> DigestBuilder) list" where
  "node_updates n =
     [update_u64 (id_value (no_resource n)), update_u32 (mag_raw (no_applied n)),
      update_bool (no_received n), update_bool (no_forwarded n), update_u32 (no_best_depth n),
      update_u64 (id_value (no_best_source n)), update_u8 (severity_value (no_severity n))]"

definition outcome_finalize :: "PropagationOutcome \<Rightarrow> PropagationOutcome" where
  "outcome_finalize o1 = o1\<lparr>out_fingerprint :=
     finish (feed
       ([domain 0x81, update_u64 (id_value (out_id o1)), digest_epoch (out_epoch o1),
         update_digest (out_topology_digest o1), digest_generation (out_topology_generation o1),
         update_u64 (out_now o1), update_u16 (errorcode_value (st_code (out_status o1))),
         update_bool (out_complete o1), update_u32 (out_peak_depth o1)] @
        map (\<lambda>e. update_digest (ex_fingerprint e)) (out_explanations o1) @
        concat (map (\<lambda>r. [update_u64 (id_value (rej_signal r)), update_u64 (id_value (rej_source r)),
          update_u16 (errorcode_value (st_code (rej_status r)))]) (out_rejections o1)) @
        concat (map node_updates (out_nodes o1)) @
        concat (map (\<lambda>n. [update_u64 (id_value (no_resource n)), update_u32 (mag_raw (no_applied n)),
          update_bool (no_recovery n)]) (out_recovery_nodes o1)) @
        [update_u64 (signals_accepted (out_counters o1)), update_u64 (signals_rejected (out_counters o1)),
         update_u64 (hops_propagated (out_counters o1)), update_u64 (hops_suppressed (out_counters o1))])
       digest_builder)\<rparr>"

definition outcome_fail :: "Status \<Rightarrow> PropagationOutcome \<Rightarrow> PropagationOutcome" where
  "outcome_fail s o1 = outcome_finalize (o1\<lparr>out_status := s\<rparr>)"

section \<open>Aggregation\<close>

definition max_magnitude :: "(Contribution \<Rightarrow> Magnitude) \<Rightarrow> Contribution list \<Rightarrow> Magnitude" where
  "max_magnitude f cs = foldl (\<lambda>best c. if f c > best then f c else best) (f (hd cs)) cs"

definition priority_winner :: "Contribution list \<Rightarrow> Contribution" where
  "priority_winner cs = foldl (\<lambda>winner c.
     if con_source_priority c < con_source_priority winner then c
     else if con_source_priority c = con_source_priority winner then
       if con_magnitude c > con_magnitude winner then c
       else if con_magnitude c = con_magnitude winner \<and> con_source c < con_source winner then c
       else winner
     else winner) (hd cs) cs"

fun saturating_sum :: "Contribution list \<Rightarrow> u64 \<Rightarrow> u64" where
  "saturating_sum [] acc = acc"
| "saturating_sum (c # cs) acc =
     (let sum1 = acc + ucast (mag_raw (con_magnitude c))
      in if sum1 > ucast (mag_raw mag_full) then ucast (mag_raw mag_full) else saturating_sum cs sum1)"

definition aggregate_contributions :: "PropagationPolicy \<Rightarrow> Contribution list \<Rightarrow> Magnitude" where
  "aggregate_contributions policy cs =
     (if cs = [] then mag_zero
      else case pol_aggregation policy of
        AR_Max \<Rightarrow> max_magnitude con_magnitude cs
      | WeightedMax \<Rightarrow> max_magnitude con_weighted cs
      | PriorityFirst \<Rightarrow> con_magnitude (priority_winner cs)
      | SaturatingSum \<Rightarrow> mag_from_raw_q16_saturating (ucast (saturating_sum cs 0))
      | AR_Count \<Rightarrow> mag_zero)"

definition aggregate_node ::
  "PropagationPolicy \<Rightarrow> NodeAccumulator \<Rightarrow> EngineCounters \<Rightarrow> NodeOutcome \<times> EngineCounters" where
  "aggregate_node policy a c =
     (let raw = aggregate_contributions policy (na_contributions a);
          (aggregated, c1) =
            (if raw > pol_aggregation_ceiling policy
             then (pol_aggregation_ceiling policy, c\<lparr>clamps := clamps c + 1\<rparr>) else (raw, c));
          applied = (if na_received a then aggregated else mag_zero)
      in (node_outcome
            \<lparr>no_resource := na_resource a, no_strongest_single := na_strongest a,
             no_received := na_received a, no_forwarded := na_forwarded a,
             no_best_depth := na_best_depth a, no_best_source := na_best_source a,
             no_best_propagation := na_best_propagation a, no_parent := na_parent a,
             no_parent_edge := na_parent_edge a, no_contributions := na_contributions a,
             no_contributions_truncated := na_contributions_truncated a,
             no_contribution_count := na_contribution_count a,
             no_blocked_reason := na_blocked_reason a, no_governing_fence := na_governing_fence a,
             no_applied := applied,
             no_severity := (if na_received a then severity_from_magnitude applied (pol_thresholds policy)
                             else Sev_Unknown)\<rparr>, c1))"

fun aggregate_all ::
  "PropagationPolicy \<Rightarrow> Accumulators \<Rightarrow> EngineCounters \<Rightarrow> NodeOutcome list \<times> EngineCounters" where
  "aggregate_all policy [] c = ([], c)"
| "aggregate_all policy ((_, a) # acc) c =
     (let (n, c1) = aggregate_node policy a c; (ns, c2) = aggregate_all policy acc c1 in (n # ns, c2))"

section \<open>Admission\<close>

definition request_check ::
  "Topology \<Rightarrow> PropagationPolicy \<Rightarrow> Epoch \<Rightarrow> PropagationRequest \<Rightarrow> Status" where
  "request_check topo policy live_epoch req =
     bpfab_try (policy_validate policy)
      (if \<not> id_valid (req_id req) then status_error InvalidArgument ''propagation id'' 0
       else if req_policy_id req \<noteq> pol_id policy then
         status_error NotFound ''policy id'' (id_value (req_policy_id req))
       else if req_policy_generation req \<noteq> pol_generation policy then
         status_error StaleGeneration ''policy generation'' (gen_value (req_policy_generation req))
       else if req_topology_digest req \<noteq> top_digest topo then
         status_error StaleGeneration ''topology digest mismatch'' 0
       else if req_epoch req \<noteq> live_epoch then
         status_error StaleEpoch ''request epoch'' (epoch_value (req_epoch req))
       else if req_signals req = [] then status_error InvalidArgument ''no signals'' 0
       else status_success)"

fun pinned_index :: "EdgeId \<Rightarrow> nat \<Rightarrow> DependencyEdge list \<Rightarrow> nat option" where
  "pinned_index i k [] = None"
| "pinned_index i k (e # es) = (if edge_id e = i then Some k else pinned_index i (Suc k) es)"

fun resolve_pins ::
  "Topology \<Rightarrow> DependencyPin list \<Rightarrow> bool list \<times> Generation list \<Rightarrow> (bool list \<times> Generation list) result" where
  "resolve_pins topo [] st = Inr st"
| "resolve_pins topo (pin # pins) (present, gens) =
     (case pinned_index (pin_edge pin) 0 (top_edges topo) of
        None \<Rightarrow> fail NotFound ''pinned edge'' (id_value (pin_edge pin))
      | Some i \<Rightarrow> resolve_pins topo pins (present[i := True], gens[i := pin_generation pin]))"

definition admission_check ::
  "PropagationPolicy \<Rightarrow> PropagationRequest \<Rightarrow> PressureSignal list \<Rightarrow> PressureSignal \<Rightarrow> Status" where
  "admission_check policy req accepted signal =
     (let s1 = signal_validate signal policy (req_now req);
          s2 = (if status_ok s1 \<and> sig_topology_digest signal \<noteq> req_topology_digest req
                then status_error StaleGeneration ''signal topology digest'' (id_value (sig_origin signal))
                else s1);
          s3 = (if status_ok s2 \<and> sig_epoch signal \<noteq> req_epoch req
                then status_error StaleEpoch ''signal epoch'' (epoch_value (sig_epoch signal)) else s2)
      in if status_ok s3 \<and> list_ex (\<lambda>x. sig_source x = sig_source signal) accepted
         then status_error Conflict ''duplicate source in request'' (id_value (sig_source signal))
         else s3)"

definition rejection_record :: "PressureSignal \<Rightarrow> Status \<Rightarrow> RejectionRecord" where
  "rejection_record signal s =
     \<lparr>rej_signal = sig_id signal, rej_source = sig_source signal, rej_status = s\<rparr>"

definition rejection_counters :: "Status \<Rightarrow> EngineCounters \<Rightarrow> EngineCounters" where
  "rejection_counters s c0 =
     (let c1 = c0\<lparr>signals_rejected := signals_rejected c0 + 1\<rparr>;
          c2 = (if is_staleness (st_code s) then c1\<lparr>stale_rejections := stale_rejections c1 + 1\<rparr> else c1);
          c3 = (if st_code s = Fenced then c2\<lparr>fence_rejections := fence_rejections c2 + 1\<rparr> else c2)
      in if st_code s = Unauthorized \<or> st_code s = UnknownPressure
         then c3\<lparr>unauthorized_rejections := unauthorized_rejections c3 + 1\<rparr> else c3)"

fun admit ::
  "PropagationPolicy \<Rightarrow> PropagationRequest \<Rightarrow> PressureSignal list \<Rightarrow>
   PressureSignal list \<times> PropagationOutcome \<Rightarrow> PressureSignal list \<times> PropagationOutcome" where
  "admit policy req [] st = st"
| "admit policy req (signal # signals) (accepted, o1) =
     (let s = admission_check policy req accepted signal
      in if \<not> status_ok s then
           admit policy req signals (accepted,
             o1\<lparr>out_rejections := out_rejections o1 @ [rejection_record signal s],
                out_counters := rejection_counters s (out_counters o1)\<rparr>)
         else admit policy req signals (accepted @ [signal], o1))"

section \<open>Idempotency\<close>

definition explanation_for ::
  "Topology \<Rightarrow> PropagationPolicy \<Rightarrow> PropagationRequest \<Rightarrow> PressureSignal \<Rightarrow> PropagationExplanation" where
  "explanation_for topo policy req signal = propagation_explanation
     \<lparr>ex_id := req_id req, ex_signal := sig_id signal, ex_source := sig_source signal,
      ex_origin := sig_origin signal,
      ex_source_severity := obs_severity (sig_observation signal),
      ex_source_magnitude := obs_magnitude (sig_observation signal),
      ex_lineage := sig_lineage signal, ex_topology_digest := req_topology_digest req,
      ex_topology_generation := top_generation topo, ex_epoch := req_epoch req,
      ex_authority := sig_authority signal, ex_issued_at := sig_issued_at signal,
      ex_deadline := deadline signal policy\<rparr>"

fun split_live ::
  "Topology \<Rightarrow> PropagationPolicy \<Rightarrow> PropagationLedger \<Rightarrow> PropagationRequest \<Rightarrow> PressureSignal list \<Rightarrow>
   PressureSignal list \<times> PropagationOutcome \<Rightarrow> PressureSignal list \<times> PropagationOutcome" where
  "split_live topo policy ledger req [] st = st"
| "split_live topo policy ledger req (signal # signals) (live, o1) =
     (if has_lineage ledger (sig_lineage signal) then
        split_live topo policy ledger req signals (live,
          o1\<lparr>out_counters := (out_counters o1)\<lparr>signals_idempotent := signals_idempotent (out_counters o1) + 1\<rparr>,
             out_explanations := out_explanations o1 @ [explanation_finalize
               ((explanation_for topo policy req signal)\<lparr>ex_truncated := False\<rparr>)]\<rparr>)
      else split_live topo policy ledger req signals (live @ [signal], o1))"

section \<open>Traversals\<close>

definition counters_since :: "EngineCounters \<Rightarrow> EngineCounters \<Rightarrow> EngineCounters" where
  "counters_since before now = engine_counters
     \<lparr>signals_received := signals_received now,
      nodes_settled := nodes_settled now - nodes_settled before,
      hops_considered := hops_considered now - hops_considered before,
      hops_propagated := hops_propagated now - hops_propagated before,
      hops_suppressed := hops_suppressed now - hops_suppressed before,
      loop_preventions := loop_preventions now - loop_preventions before,
      stale_rejections := stale_rejections now - stale_rejections before,
      fence_rejections := fence_rejections now - fence_rejections before,
      unauthorized_rejections := unauthorized_rejections now - unauthorized_rejections before,
      amplifications := amplifications now - amplifications before,
      budget_exhaustions := budget_exhaustions now - budget_exhaustions before,
      record_truncations := record_truncations now - record_truncations before\<rparr>"

definition record_budget_for :: "PropagationPolicy \<Rightarrow> PropagationRequest \<Rightarrow> u32" where
  "record_budget_for policy req =
     (if req_record_budget_override req = 0 then pol_max_records policy
      else if req_record_budget_override req < pol_max_records policy then req_record_budget_override req
      else pol_max_records policy)"

record PropagateState =
  ps_acc :: Accumulators
  ps_outcome :: PropagationOutcome
  ps_truncated :: bool

definition traverse_signal ::
  "TraversalEnv \<Rightarrow> PropagationRequest \<Rightarrow> PressureSignal \<Rightarrow> PropagateState \<Rightarrow> PropagateState option" where
  "traverse_signal env req signal ps =
     (let before = out_counters (ps_outcome ps); policy = env_policy env
      in case run_traversal env (record_budget_for policy req) signal (req_id req) (ps_acc ps) before
                (explanation_for (env_topology env) policy req signal) (ps_truncated ps) of
           None \<Rightarrow> None
         | Some (st, r) \<Rightarrow>
             let o1 = (ps_outcome ps)\<lparr>out_counters := run_counters r\<rparr>
             in if \<not> status_ok st then
                  Some \<lparr>ps_acc = run_acc r,
                    ps_outcome = o1
                      \<lparr>out_rejections := out_rejections o1 @ [rejection_record signal st],
                       out_counters := (run_counters r)\<lparr>signals_rejected := signals_rejected (run_counters r) + 1\<rparr>\<rparr>,
                    ps_truncated = run_truncated r\<rparr>
                else
                  let c = (run_counters r)\<lparr>signals_accepted := signals_accepted (run_counters r) + 1,
                                          propagations := propagations (run_counters r) + 1\<rparr>;
                      x = (run_expl r)\<lparr>ex_counters := counters_since before c,
                                      ex_truncated := run_truncated r\<rparr>
                  in Some \<lparr>ps_acc = run_acc r,
                    ps_outcome = o1\<lparr>out_counters := c,
                      out_explanations := out_explanations o1 @ [explanation_finalize x]\<rparr>,
                    ps_truncated = run_truncated r\<rparr>)"

fun traverse_all ::
  "TraversalEnv \<Rightarrow> PropagationRequest \<Rightarrow> PressureSignal list \<Rightarrow> PropagateState \<Rightarrow> PropagateState option" where
  "traverse_all env req [] ps = Some ps"
| "traverse_all env req (signal # signals) ps =
     (case traverse_signal env req signal ps of
        None \<Rightarrow> None
      | Some ps' \<Rightarrow> traverse_all env req signals ps')"

section \<open>Commit\<close>

fun commit_nodes ::
  "Tick \<Rightarrow> NodeOutcome list \<Rightarrow> PropagationOutcome \<times> PropagationLedger \<Rightarrow> PropagationOutcome \<times> PropagationLedger" where
  "commit_nodes now [] st = st"
| "commit_nodes now (n # ns) (o1, l) =
     (if \<not> no_received n \<or> mag_is_zero (no_applied n) then commit_nodes now ns (o1, l)
      else
        let (s, l') = record_application l (no_best_source n) (no_resource n) (no_applied n) now
        in if \<not> status_ok s then (o1\<lparr>out_status := s, out_complete := False\<rparr>, l')
           else commit_nodes now ns (o1, l'))"

fun commit_hops :: "Tick \<Rightarrow> HopRecord list \<Rightarrow> PropagationLedger \<Rightarrow> PropagationLedger" where
  "commit_hops now [] l = l"
| "commit_hops now (h # hs) l =
     (if hr_verdict h \<noteq> HV_Propagated \<and> hr_verdict h \<noteq> HV_Amplified then commit_hops now hs l
      else
        let (s, l') = record_damping l (hr_to h) (hr_edge h) (to_magnitude (hr_potential_after h)) now
        in if \<not> status_ok s then l' else commit_hops now hs l')"

definition commit_lineages :: "PressureSignal list \<Rightarrow> PropagationLedger \<Rightarrow> PropagationLedger" where
  "commit_lineages live l = fold (\<lambda>signal l. snd (mark_lineage l (sig_lineage signal))) live l"

definition commit ::
  "PropagationRequest \<Rightarrow> PressureSignal list \<Rightarrow> PropagationOutcome \<Rightarrow> PropagationLedger \<Rightarrow>
   PropagationOutcome \<times> PropagationLedger" where
  "commit req live o1 l =
     (let l1 = commit_lineages live l;
          (o2, l2) = commit_nodes (req_now req) (out_nodes o1) (o1, l1);
          l3 = fold (\<lambda>x l. commit_hops (req_now req) (ex_hops x) l) (out_explanations o2) l2
      in (o2, l3))"

section \<open>Propagate\<close>

definition peak_depth_of :: "NodeOutcome list \<Rightarrow> u32 \<Rightarrow> u32" where
  "peak_depth_of ns start =
     fold (\<lambda>n d. if no_received n \<and> no_best_depth n > d then no_best_depth n else d) ns start"

text \<open>Lines 1077 to 1160, after the traversals.\<close>

definition conclude ::
  "PropagationPolicy \<Rightarrow> PropagationRequest \<Rightarrow> PressureSignal list \<Rightarrow> PropagationLedger \<Rightarrow>
   PropagateState \<Rightarrow> PropagationOutcome \<times> PropagationLedger" where
  "conclude policy req live ledger ps =
     (let o1 = (if ps_truncated ps then (ps_outcome ps)\<lparr>out_complete := False\<rparr> else ps_outcome ps);
          (ns, c) = aggregate_all policy (ps_acc ps) (out_counters o1);
          nodes = std_sort (\<lambda>a b. no_resource a < no_resource b) ns;
          o2 = o1\<lparr>out_nodes := nodes, out_counters := c,
                  out_peak_depth := peak_depth_of nodes (out_peak_depth o1)\<rparr>
      in if signals_accepted c = 0 \<and> out_rejections o2 \<noteq> [] then
           (outcome_fail (rej_status (hd (out_rejections o2))) o2, ledger)
         else
           let (o3, l3) = (if \<not> req_dry_run req \<and> \<not> ps_truncated ps
                           then commit req live o2 ledger else (o2, ledger))
           in (outcome_finalize (o3\<lparr>out_counters := (out_counters o3)
                 \<lparr>ctr_lineage_evictions := lineage_evictions l3\<rparr>\<rparr>), l3))"

text \<open>Lines 934 to 1075: admission, idempotency and the traversals.\<close>

definition propagate_signals ::
  "TraversalEnv \<Rightarrow> PropagationRequest \<Rightarrow> PropagationOutcome \<Rightarrow> (PropagationOutcome \<times> PropagationLedger) option" where
  "propagate_signals env req o0 =
     (let topo = env_topology env; policy = env_policy env; ledger = env_ledger env;
          (accepted, o1) = admit policy req (req_signals req) ([], o0)
      in if accepted = [] then
           Some (outcome_fail
             (case out_rejections o1 of
                [] \<Rightarrow> status_error UnknownPressure ''no admissible signals'' 0
              | r # _ \<Rightarrow> rej_status r) o1, ledger)
         else
           let (live, o2) = split_live topo policy ledger req accepted ([], o1)
           in map_option (conclude policy req live ledger)
                (traverse_all env req live \<lparr>ps_acc = [], ps_outcome = o2, ps_truncated = False\<rparr>))"

definition propagate_valid ::
  "Topology \<Rightarrow> PropagationPolicy \<Rightarrow> PropagationLedger \<Rightarrow> FenceTable option \<Rightarrow> Epoch \<Rightarrow>
   PropagationRequest \<Rightarrow> (PropagationOutcome \<times> PropagationLedger) option" where
  "propagate_valid topo policy ledger fences live_epoch req =
     (let o0 = (propagation_outcome (req_id req) (req_epoch req) (req_topology_digest req) (req_now req))
                 \<lparr>out_topology_generation := top_generation topo\<rparr>;
          n = of_nat (length (req_signals req));
          s = request_check topo policy live_epoch req
      in if \<not> status_ok s then Some (outcome_fail s o0, ledger)
         else if length (req_signals req) > unat (pol_max_sources policy) then
           Some (outcome_fail (status_error LimitExceeded ''source limit'' n)
             (o0\<lparr>out_counters := (out_counters o0)\<lparr>signals_received := n, signals_rejected := n\<rparr>\<rparr>), ledger)
         else
           let o1 = o0\<lparr>out_counters := (out_counters o0)\<lparr>signals_received := n\<rparr>\<rparr>
           in if length (req_pins req) > kMaxDependencyPins then
                Some (outcome_fail (status_error LimitExceeded ''dependency pins''
                  (of_nat (length (req_pins req)))) o1, ledger)
              else
                let m = length (top_edges topo)
                in case resolve_pins topo (req_pins req) (replicate m False, replicate m gen_unknown) of
                     Inl e \<Rightarrow> Some (outcome_fail e o1, ledger)
                   | Inr (present, gens) \<Rightarrow>
                       propagate_signals
                         \<lparr>env_topology = topo, env_policy = policy, env_ledger = ledger,
                          env_fences = fences, env_now = req_now req, env_pin_present = present,
                          env_pin_generation = gens\<rparr> req o1)"

definition propagate ::
  "EngineContext \<Rightarrow> PropagationRequest \<Rightarrow> (PropagationOutcome \<times> PropagationLedger option) option" where
  "propagate ctx req =
     (case (ctx_topology ctx, ctx_policy ctx, ctx_ledger ctx) of
        (Some topo, Some policy, Some ledger) \<Rightarrow>
          map_option (apsnd Some)
            (propagate_valid topo policy ledger (ctx_fences ctx) (ctx_live_epoch ctx) req)
      | _ \<Rightarrow> Some (outcome_fail (status_error InvalidArgument ''engine context'' 0)
          (propagation_outcome (req_id req) (req_epoch req) (req_topology_digest req) (req_now req)),
          ctx_ledger ctx))"

section \<open>Recover\<close>

definition recovery_check ::
  "Topology \<Rightarrow> PropagationPolicy \<Rightarrow> Epoch \<Rightarrow> RecoveryRequest \<Rightarrow> Status" where
  "recovery_check topo policy live_epoch req =
     bpfab_try (policy_validate policy)
      (if \<not> id_valid (rcv_id req) then status_error InvalidArgument ''recovery id'' 0
       else if \<not> id_valid (rcv_source req) then status_error InvalidArgument ''recovery source'' 0
       else if \<not> gen_known (rcv_origin_generation req) then
         status_error StaleGeneration ''recovery origin generation'' 0
       else if rcv_topology_digest req \<noteq> top_digest topo then
         status_error StaleGeneration ''recovery topology digest'' 0
       else if rcv_epoch req \<noteq> live_epoch then
         status_error StaleEpoch ''recovery epoch'' (epoch_value (rcv_epoch req))
       else bpfab_try
         (if auth_level (rcv_authority req) \<noteq> AL_None
          then authority_check (rcv_authority req) (rcv_now req) live_epoch (rcv_origin req)
          else status_success)
         (if Option.bind (index_of topo (rcv_origin req)) (resource_at topo) = None
          then status_error NotFound ''recovery origin'' (id_value (rcv_origin req))
          else status_success))"

definition decayed_magnitude ::
  "PropagationPolicy \<Rightarrow> RecoveryRequest \<Rightarrow> ResourceId \<Rightarrow> TableRecord \<Rightarrow> Magnitude" where
  "decayed_magnitude policy req resource rec =
     (let d = pol_recovery_decay policy;
          steps = (if rcv_now req > rec_tick rec
                   then (rcv_now req - rec_tick rec) div dec_step_ticks d else 0);
          bounded_steps = (ucast (min steps (ucast (dec_max_steps d))) :: u32);
          m1 = decay d (rec_magnitude rec) bounded_steps;
          m2 = (if resource = rcv_origin req then (if rcv_residual req < m1 then rcv_residual req else m1)
                else m1);
          m3 = (if m2 > rec_magnitude rec then rec_magnitude rec else m2)
      in if m3 > rcv_residual req then rcv_residual req else m3)"

definition recovery_node ::
  "PropagationPolicy \<Rightarrow> RecoveryRequest \<Rightarrow> SourceResourceKey \<Rightarrow> TableRecord \<Rightarrow> NodeOutcome" where
  "recovery_node policy req key rec =
     (let m = decayed_magnitude policy req (snd key) rec
      in node_outcome
           \<lparr>no_resource := snd key, no_applied := m, no_received := \<not> mag_is_zero m,
            no_recovery := True, no_strongest_single := rec_magnitude rec, no_best_source := fst key,
            no_best_propagation := rcv_id req,
            no_severity := (if \<not> mag_is_zero m then severity_from_magnitude m (pol_thresholds policy)
                            else Sev_Unknown)\<rparr>)"

fun recover_targets ::
  "PropagationPolicy \<Rightarrow> RecoveryRequest \<Rightarrow> SourceResourceKey list \<Rightarrow>
   PropagationOutcome \<times> PropagationLedger \<Rightarrow> PropagationOutcome \<times> PropagationLedger" where
  "recover_targets policy req [] st = st"
| "recover_targets policy req (key # keys) (o1, l) =
     (let rec = application l (fst key) (snd key)
      in if \<not> rec_present rec then recover_targets policy req keys (o1, l)
         else
           let node = recovery_node policy req key rec;
               o2 = o1\<lparr>out_recovery_nodes := out_recovery_nodes o1 @ [node]\<rparr>
           in if rcv_dry_run req then recover_targets policy req keys (o2, l)
              else
                let (s, l') = record_application l (fst key) (snd key) (no_applied node) (rcv_now req)
                in if \<not> status_ok s then (o2\<lparr>out_status := s, out_complete := False\<rparr>, l')
                   else recover_targets policy req keys (o2, l'))"

definition recovery_targets :: "RecoveryRequest \<Rightarrow> PropagationLedger \<Rightarrow> SourceResourceKey list" where
  "recovery_targets req l =
     std_sort (\<lambda>a b. snd a < snd b) (filter (\<lambda>k. fst k = rcv_source req) (map fst (led_applications l)))"

definition recover_valid ::
  "Topology \<Rightarrow> PropagationPolicy \<Rightarrow> PropagationLedger \<Rightarrow> Epoch \<Rightarrow> RecoveryRequest \<Rightarrow>
   PropagationOutcome \<times> PropagationLedger" where
  "recover_valid topo policy ledger live_epoch req =
     (let o0 = (propagation_outcome (rcv_id req) (rcv_epoch req) (rcv_topology_digest req) (rcv_now req))
                 \<lparr>out_topology_generation := top_generation topo\<rparr>;
          s = recovery_check topo policy live_epoch req
      in if \<not> status_ok s then (outcome_fail s o0, ledger)
         else
           let (o1, l1) = recover_targets policy req (recovery_targets req ledger) (o0, ledger);
               n = of_nat (length (out_recovery_nodes o1))
           in (outcome_finalize (o1\<lparr>out_counters := (out_counters o1)
                 \<lparr>signals_received := 1, signals_accepted := 1, propagations := n, nodes_settled := n\<rparr>\<rparr>), l1))"

definition recover :: "EngineContext \<Rightarrow> RecoveryRequest \<Rightarrow> PropagationOutcome \<times> PropagationLedger option" where
  "recover ctx req =
     (case (ctx_topology ctx, ctx_policy ctx, ctx_ledger ctx) of
        (Some topo, Some policy, Some ledger) \<Rightarrow>
          apsnd Some (recover_valid topo policy ledger (ctx_live_epoch ctx) req)
      | _ \<Rightarrow> (outcome_fail (status_error InvalidArgument ''engine context'' 0)
          (propagation_outcome (rcv_id req) (rcv_epoch req) (rcv_topology_digest req) (rcv_now req)),
          ctx_ledger ctx))"

end
