(* ===== verification/Engine_Facts.thy ===== *)
theory Engine_Facts
  imports Traversal_Safety Engine
begin


text \<open>
  What the engine's entry points guarantee: they return; what they commit keeps the ledger's
  invariant; a request that is refused, dry or truncated commits nothing; a replay has no
  effect; aggregation stays below its ceiling; recovery only lowers pressure.
\<close>

section \<open>The entry points return\<close>

lemma traverse_signal_returns:
  assumes "topology_wf (env_topology env)"
  shows "\<exists>ps'. traverse_signal env req signal ps = Some ps'"
proof -
  obtain s r where "run_traversal env (record_budget_for (env_policy env) req) signal (req_id req) (ps_acc ps)
      (out_counters (ps_outcome ps)) (explanation_for (env_topology env) (env_policy env) req signal)
      (ps_truncated ps) = Some (s, r)"
    using run_traversal_returns [OF assms] by blast
  then show ?thesis by (simp add: traverse_signal_def Let_def)
qed

lemma traverse_all_returns:
  assumes "topology_wf (env_topology env)"
  shows "\<exists>ps'. traverse_all env req signals ps = Some ps'"
proof (induction signals arbitrary: ps)
  case (Cons signal signals)
  obtain ps1 where "traverse_signal env req signal ps = Some ps1"
    using traverse_signal_returns [OF assms] by blast
  with Cons.IH [of ps1] show ?case by simp
qed simp

lemma propagate_valid_returns:
  assumes "topology_wf topo"
  shows "\<exists>p. propagate_valid topo policy ledger fences live_epoch req = Some p"
proof -
  have sig: "\<exists>p. propagate_signals env req o0 = Some p" if wf: "topology_wf (env_topology env)" for env o0
  proof -
    obtain accepted o1 where a: "admit (env_policy env) req (req_signals req) ([], o0) = (accepted, o1)"
      by (rule prod.exhaust)
    obtain live o2 where s: "split_live (env_topology env) (env_policy env) (env_ledger env) req accepted ([], o1) = (live, o2)"
      by (rule prod.exhaust)
    obtain ps where "traverse_all env req live \<lparr>ps_acc = [], ps_outcome = o2, ps_truncated = False\<rparr> = Some ps"
      using traverse_all_returns [OF wf] by blast
    then show ?thesis by (simp add: propagate_signals_def a s Let_def)
  qed
  show ?thesis
    by (cases "resolve_pins topo (req_pins req)
          (replicate (length (top_edges topo)) False, replicate (length (top_edges topo)) gen_unknown)")
      (use sig assms in \<open>auto simp: propagate_valid_def Let_def\<close>)
qed

lemma propagate_total:
  assumes "\<And>t. ctx_topology ctx = Some t \<Longrightarrow> topology_wf t"
  shows "\<exists>o1 l. propagate ctx req = Some (o1, l)"
proof (cases "(ctx_topology ctx, ctx_policy ctx, ctx_ledger ctx)")
  case (fields t p l)
  show ?thesis
  proof (cases "\<exists>topo policy ledger. t = Some topo \<and> p = Some policy \<and> l = Some ledger")
    case True
    then obtain topo policy ledger where tpl: "t = Some topo" "p = Some policy" "l = Some ledger" by blast
    then obtain q where "propagate_valid topo policy ledger (ctx_fences ctx) (ctx_live_epoch ctx) req = Some q"
      using propagate_valid_returns assms fields by fastforce
    then show ?thesis using fields tpl by (simp add: propagate_def apsnd_def map_prod_def split: prod.splits)
  qed (use fields in \<open>auto simp: propagate_def split: option.splits\<close>)
qed

lemma admit_keeps:
  "admit policy req ss (acc, w) = (accepted, w') \<Longrightarrow>
     out_nodes w' = out_nodes w \<and> out_explanations w' = out_explanations w \<and>
     signals_accepted (out_counters w') = signals_accepted (out_counters w)"
proof (induction ss arbitrary: acc w)
  case (Cons s ss)
  then show ?case by (auto simp: Let_def rejection_counters_def split: if_splits)
qed simp

section \<open>The shape of a propagation\<close>

text \<open>
  Every run of \<open>propagate\<close> ends in one of three ways: it is refused with the ledger as it
  was, it concludes without commit, or it commits.
\<close>

lemma propagate_valid_cases:
  assumes "propagate_valid topo policy ledger fences live_epoch req = Some (o1, l)"
  obtains (refused) o0 s where "o1 = outcome_fail s o0" "l = ledger" "out_nodes o0 = []" "out_explanations o0 = []"
  | (concluded) present gens accepted o2 live o3 ps where
      "status_ok (request_check topo policy live_epoch req)"
      "length (req_signals req) \<le> unat (pol_max_sources policy)"
      "admit policy req (req_signals req)
         ([], (propagation_outcome (req_id req) (req_epoch req) (req_topology_digest req) (req_now req))
            \<lparr>out_topology_generation := top_generation topo,
             out_counters := engine_counters\<lparr>signals_received := of_nat (length (req_signals req))\<rparr>\<rparr>) = (accepted, o2)"
      "accepted \<noteq> []" "split_live topo policy ledger req accepted ([], o2) = (live, o3)"
      "traverse_all \<lparr>env_topology = topo, env_policy = policy, env_ledger = ledger, env_fences = fences,
          env_now = req_now req, env_pin_present = present, env_pin_generation = gens\<rparr> req live
         \<lparr>ps_acc = [], ps_outcome = o3, ps_truncated = False\<rparr> = Some ps"
      "(o1, l) = conclude policy req live ledger ps"
proof -
  let ?o0 = "(propagation_outcome (req_id req) (req_epoch req) (req_topology_digest req) (req_now req))
                 \<lparr>out_topology_generation := top_generation topo\<rparr>"
  let ?n = "of_nat (length (req_signals req)) :: u64"
  let ?o1 = "?o0\<lparr>out_counters := (out_counters ?o0)\<lparr>signals_received := ?n\<rparr>\<rparr>"
  let ?m = "length (top_edges topo)"
  let ?pins = "resolve_pins topo (req_pins req) (replicate ?m False, replicate ?m gen_unknown)"
  have init: "out_nodes ?o1 = []" "out_explanations ?o1 = []" "out_nodes ?o0 = []" "out_explanations ?o0 = []"
    "out_counters ?o0 = engine_counters"
    by (simp_all add: propagation_outcome_def)
  consider (bad) s where "o1 = outcome_fail s ?o0" "l = ledger"
    | (many) s where "o1 = outcome_fail s (?o0\<lparr>out_counters := (out_counters ?o0)\<lparr>signals_received := ?n, signals_rejected := ?n\<rparr>\<rparr>)" "l = ledger"
    | (pins) s where "o1 = outcome_fail s ?o1" "l = ledger"
    | (go) present gens where "status_ok (request_check topo policy live_epoch req)"
        "length (req_signals req) \<le> unat (pol_max_sources policy)"
        "propagate_signals \<lparr>env_topology = topo, env_policy = policy, env_ledger = ledger, env_fences = fences,
          env_now = req_now req, env_pin_present = present, env_pin_generation = gens\<rparr> req ?o1 = Some (o1, l)"
    using assms unfolding propagate_valid_def Let_def
    by (cases ?pins) (auto split: if_splits)
  then show ?thesis
  proof cases
    case (go present gens)
    obtain accepted o2 where a: "admit policy req (req_signals req) ([], ?o1) = (accepted, o2)" by (rule prod.exhaust)
    obtain live o3 where s: "split_live topo policy ledger req accepted ([], o2) = (live, o3)" by (rule prod.exhaust)
    note keep = admit_keeps [OF a]
    show ?thesis
    proof (cases "accepted = []")
      case True
      with go(3) a have "l = ledger" "\<exists>s. o1 = outcome_fail s o2" by (auto simp: propagate_signals_def)
      then show ?thesis using refused keep init by metis
    next
      case False
      with go(3) a s obtain ps where
        "traverse_all \<lparr>env_topology = topo, env_policy = policy, env_ledger = ledger, env_fences = fences,
          env_now = req_now req, env_pin_present = present, env_pin_generation = gens\<rparr> req live
         \<lparr>ps_acc = [], ps_outcome = o3, ps_truncated = False\<rparr> = Some ps" "(o1, l) = conclude policy req live ledger ps"
        by (auto simp: propagate_signals_def Let_def)
      then show ?thesis using concluded go(1,2) False s a init(5) by simp
    qed
  qed (use refused init in auto)
qed


section \<open>What is committed\<close>

lemma record_application_inv: "ledger_inv l \<Longrightarrow> ledger_inv (snd (record_application l s r m t))"
  using apps.put_inv [of l "(s, r)" "(m, t)"] by (simp add: put_application_def)

lemma record_damping_inv: "ledger_inv l \<Longrightarrow> ledger_inv (snd (record_damping l r e m t))"
  using damps.put_inv [of l "(r, e)" "(m, t)"] by (simp add: put_damping_def)

lemma commit_nodes_inv: "ledger_inv l \<Longrightarrow> ledger_inv (snd (commit_nodes now ns (o1, l)))"
proof (induction ns arbitrary: o1 l)
  case (Cons n ns)
  show ?case using Cons record_application_inv [OF Cons.prems, of "no_best_source n" "no_resource n" "no_applied n" now]
    by (auto split: prod.splits)
qed simp

lemma commit_hops_inv: "ledger_inv l \<Longrightarrow> ledger_inv (commit_hops now hs l)"
proof (induction hs arbitrary: l)
  case (Cons h hs)
  show ?case
    using Cons record_damping_inv [OF Cons.prems, of "hr_to h" "hr_edge h" "to_magnitude (hr_potential_after h)" now]
    by (auto split: prod.splits)
qed simp

lemma commit_lineages_inv: "ledger_inv l \<Longrightarrow> ledger_inv (commit_lineages live l)"
  unfolding commit_lineages_def by (induction live arbitrary: l) (simp_all add: mark_lineage_inv)

lemma commit_inv: "ledger_inv l \<Longrightarrow> ledger_inv (snd (commit req live o1 l))"
proof -
  assume l: "ledger_inv l"
  obtain o2 l2 where c: "commit_nodes (req_now req) (out_nodes o1) (o1, commit_lineages live l) = (o2, l2)"
    by (rule prod.exhaust)
  have "ledger_inv l2" using commit_nodes_inv [OF commit_lineages_inv [OF l]] c by (metis snd_conv)
  moreover have "ledger_inv l' \<Longrightarrow> ledger_inv (fold (\<lambda>x l. commit_hops now (ex_hops x) l) xs l')" for xs l' now
    by (induction xs arbitrary: l') (simp_all add: commit_hops_inv)
  ultimately show ?thesis by (simp add: commit_def c)
qed

lemma conclude_ledger:
  "conclude policy req live ledger ps = (o1, l) \<Longrightarrow>
     l = ledger \<or> \<not> req_dry_run req \<and> \<not> ps_truncated ps \<and> (\<exists>o2. l = snd (commit req live o2 ledger))"
  by (auto simp: conclude_def Let_def split: prod.splits if_splits) (metis snd_conv)+

lemma propagate_ledger:
  assumes "propagate ctx req = Some (o1, l)"
  obtains (same) "l = ctx_ledger ctx"
  | (committed) ledger live o2 where "ctx_ledger ctx = Some ledger" "\<not> req_dry_run req"
      "l = Some (snd (commit req live o2 ledger))"
proof (cases "\<exists>topo policy ledger. ctx_topology ctx = Some topo \<and> ctx_policy ctx = Some policy \<and> ctx_ledger ctx = Some ledger")
  case True
  then obtain topo policy ledger where c: "ctx_topology ctx = Some topo" "ctx_policy ctx = Some policy" "ctx_ledger ctx = Some ledger"
    by blast
  then obtain l' where p: "propagate_valid topo policy ledger (ctx_fences ctx) (ctx_live_epoch ctx) req = Some (o1, l')"
    and l: "l = Some l'" using assms by (auto simp: propagate_def)
  show ?thesis
  proof (cases rule: propagate_valid_cases [OF p])
    case (1 o0 s)
    then show ?thesis using same c l by simp
  next
    case (2 present gens accepted o2 live o3 ps)
    then show ?thesis using conclude_ledger [of policy req live ledger ps o1 l'] same committed c l by auto
  qed
next
  case False
  then show ?thesis using assms same by (auto simp: propagate_def split: option.splits)
qed

lemma propagate_ledger_inv:
  assumes "propagate ctx req = Some (o1, Some l)" and "ctx_ledger ctx = Some l0" and "ledger_inv l0"
  shows "ledger_inv l"
  by (cases rule: propagate_ledger [OF assms(1)]) (use assms in \<open>auto simp: commit_inv\<close>)

section \<open>Admission\<close>

definition admitted :: "PropagationPolicy \<Rightarrow> PropagationRequest \<Rightarrow> PressureSignal \<Rightarrow> bool" where
  "admitted policy req s \<longleftrightarrow> status_ok (signal_validate s policy (req_now req)) \<and>
     sig_topology_digest s = req_topology_digest req \<and> sig_epoch s = req_epoch req"

lemma status_error_not_ok [simp]: "c \<noteq> Ok \<Longrightarrow> \<not> status_ok (status_error c d n)"
  by (simp add: status_ok_def status_error_def)

lemma admission_check_ok:
  "status_ok (admission_check policy req accepted s) \<longleftrightarrow>
     admitted policy req s \<and> sig_source s \<notin> sig_source ` set accepted"
  proof -
  have "list_ex (\<lambda>x. sig_source x = sig_source s) accepted \<longleftrightarrow> sig_source s \<in> sig_source ` set accepted"
    by (auto simp: list_ex_iff intro: rev_image_eqI)
  then show ?thesis by (simp add: admission_check_def admitted_def Let_def) blast
qed

text \<open>
  The admitted signals are those that are valid for the request and whose source was not
  admitted before, in the order of the request; every other signal has a rejection.
\<close>

lemma admit_spec:
  assumes "admit policy req ss (acc, w) = (accepted, w')"
  shows "\<exists>new rej. accepted = acc @ new \<and> out_rejections w' = out_rejections w @ rej \<and>
    length new + length rej = length ss \<and> set new \<subseteq> set ss \<and> (\<forall>s \<in> set new. admitted policy req s) \<and>
    (distinct (map sig_source acc) \<longrightarrow> distinct (map sig_source accepted)) \<and>
    (\<forall>r \<in> set rej. \<not> status_ok (rej_status r))"
  using assms
proof (induction ss arbitrary: acc w)
  case (Cons s ss)
  show ?case
  proof (cases "status_ok (admission_check policy req acc s)")
    case True
    with Cons.prems have "admit policy req ss (acc @ [s], w) = (accepted, w')" by simp
    from Cons.IH [OF this] obtain new rej where n: "accepted = (acc @ [s]) @ new"
      "out_rejections w' = out_rejections w @ rej" "length new + length rej = length ss" "set new \<subseteq> set ss"
      "\<forall>s \<in> set new. admitted policy req s"
      "distinct (map sig_source (acc @ [s])) \<longrightarrow> distinct (map sig_source accepted)"
      "\<forall>r \<in> set rej. \<not> status_ok (rej_status r)" by blast
    then show ?thesis using True by (intro exI [of _ "s # new"] exI [of _ rej]) (auto simp: admission_check_ok)
  next
    case False
    let ?r = "rejection_record s (admission_check policy req acc s)"
    from False Cons.prems have "admit policy req ss (acc, w\<lparr>out_rejections := out_rejections w @ [?r],
        out_counters := rejection_counters (admission_check policy req acc s) (out_counters w)\<rparr>) = (accepted, w')" by (simp add: Let_def)
    from Cons.IH [OF this] obtain new rej where n: "accepted = acc @ new"
      "out_rejections w' = (out_rejections w @ [?r]) @ rej" "length new + length rej = length ss" "set new \<subseteq> set ss"
      "\<forall>s \<in> set new. admitted policy req s"
      "distinct (map sig_source acc) \<longrightarrow> distinct (map sig_source accepted)"
      "\<forall>r \<in> set rej. \<not> status_ok (rej_status r)" by auto
    then show ?thesis using False by (intro exI [of _ new] exI [of _ "?r # rej"]) (auto simp: rejection_record_def)
  qed
qed auto

lemma split_live_spec:
  assumes "split_live topo policy ledger req ss (live0, w) = (live, w')"
  shows "live = live0 @ filter (\<lambda>s. \<not> has_lineage ledger (sig_lineage s)) ss"
    and "out_nodes w' = out_nodes w" and "out_rejections w' = out_rejections w"
    and "signals_accepted (out_counters w') = signals_accepted (out_counters w)"
    and "\<forall>x \<in> set (out_explanations w'). x \<in> set (out_explanations w) \<or> ex_hops x = []"
  using assms
proof (induction ss arbitrary: live0 w)
  case (Cons s ss)
  { case 1 then show ?case using Cons.IH(1) [of live0] Cons.IH(1) [of "live0 @ [s]"] by (auto split: if_splits) }
  { case 2 then show ?case using Cons.IH(2) by (auto split: if_splits) }
  { case 3 then show ?case using Cons.IH(3) by (auto split: if_splits) }
  { case 4 then show ?case using Cons.IH(4) by (auto split: if_splits) }
  { case 5
    have "ex_hops (explanation_finalize ((explanation_for topo policy req s)\<lparr>ex_truncated := False\<rparr>)) = []"
      by (simp add: explanation_finalize_def explanation_for_def propagation_explanation_def)
    with 5 show ?case using Cons.IH(5) by (fastforce split: if_splits) }
qed auto


section \<open>Aggregation\<close>

lemma foldl_max_spec:
  fixes f :: "'a \<Rightarrow> Magnitude"
  shows "foldl (\<lambda>best c. if f c > best then f c else best) b cs \<in> insert b (f ` set cs) \<and>
    (\<forall>x \<in> insert b (f ` set cs). x \<le> foldl (\<lambda>best c. if f c > best then f c else best) b cs)"
proof (induction cs arbitrary: b)
  case (Cons c cs)
  show ?case using Cons.IH [of "f c"] Cons.IH [of b] by (cases "f c > b") (auto intro: order_trans less_imp_le)
qed simp

lemma max_magnitude_spec:
  assumes "cs \<noteq> []"
  shows "max_magnitude f cs \<in> f ` set cs" and "c \<in> set cs \<Longrightarrow> f c \<le> max_magnitude f cs"
  using foldl_max_spec [of f "f (hd cs)" cs] assms hd_in_set [OF assms] unfolding max_magnitude_def by auto

definition outranks :: "Contribution \<Rightarrow> Contribution \<Rightarrow> Contribution" where
  "outranks winner c =
     (if con_source_priority c < con_source_priority winner then c
      else if con_source_priority c = con_source_priority winner then
        if con_magnitude c > con_magnitude winner then c
        else if con_magnitude c = con_magnitude winner \<and> con_source c < con_source winner then c
        else winner
      else winner)"

lemma outranks_spec:
  "outranks w d = w \<or> outranks w d = d" "con_source_priority (outranks w d) \<le> con_source_priority w"
  "con_source_priority (outranks w d) \<le> con_source_priority d"
  by (auto simp: outranks_def not_less)

lemma foldl_outranks:
  "(foldl outranks w ds = w \<or> foldl outranks w ds \<in> set ds) \<and>
   con_source_priority (foldl outranks w ds) \<le> con_source_priority w \<and>
   (\<forall>c \<in> set ds. con_source_priority (foldl outranks w ds) \<le> con_source_priority c)"
proof (induction ds arbitrary: w)
  case (Cons d ds)
  note IH = Cons.IH [of "outranks w d"]
  have "foldl outranks (outranks w d) ds = w \<or> foldl outranks (outranks w d) ds = d \<or> foldl outranks (outranks w d) ds \<in> set ds"
    using IH outranks_spec(1) [of w d] by metis
  moreover have "con_source_priority (foldl outranks (outranks w d) ds) \<le> con_source_priority w"
    using IH outranks_spec(2) [of w d] order_trans by blast
  moreover have "con_source_priority (foldl outranks (outranks w d) ds) \<le> con_source_priority d"
    using IH outranks_spec(3) [of w d] order_trans by blast
  ultimately show ?case using IH by simp
qed simp

lemma priority_winner_spec:
  assumes "cs \<noteq> []"
  shows "priority_winner cs \<in> set cs \<and>
    (\<forall>c \<in> set cs. con_source_priority (priority_winner cs) \<le> con_source_priority c)"
proof -
  have "priority_winner cs = foldl outranks (hd cs) cs"
    unfolding priority_winner_def outranks_def by (rule refl)
  then show ?thesis using foldl_outranks [of "hd cs" cs] hd_in_set [OF assms] by auto
qed

lemma unat_saturating_sum:
  "unat acc \<le> 65536 \<Longrightarrow>
   unat (saturating_sum cs acc) = min 65536 (unat acc + sum_list (map (\<lambda>c. unat (mag_raw (con_magnitude c))) cs))"
proof (induction cs arbitrary: acc)
  case (Cons c cs)
  let ?m = "unat (mag_raw (con_magnitude c))"
  have s: "unat (acc + ucast (mag_raw (con_magnitude c))) = unat acc + ?m"
    using Cons.prems unat_mag_raw_le [of "con_magnitude c"] by (simp add: unat_add_no_overflow)
  show ?case
  proof (cases "unat acc + ?m \<le> 65536")
    case True
    then have "\<not> acc + ucast (mag_raw (con_magnitude c)) > ucast (mag_raw mag_full)"
      by (simp add: word_less_nat_alt s)
    then show ?thesis using Cons.IH [of "acc + ucast (mag_raw (con_magnitude c))"] True s by (simp add: Let_def)
  next
    case False
    then have "acc + ucast (mag_raw (con_magnitude c)) > ucast (mag_raw mag_full)"
      by (simp add: word_less_nat_alt s)
    then show ?thesis using False by (simp add: Let_def)
  qed
qed simp

text \<open>
  The aggregate of a node's contributions. No rule but \<open>SaturatingSum\<close> yields more than the
  largest contribution, and that one yields the sum cut at full scale.
\<close>

lemma aggregate_saturating:
  assumes "pol_aggregation policy = SaturatingSum" and "cs \<noteq> []"
  shows "unat (mag_raw (aggregate_contributions policy cs)) =
    min 65536 (sum_list (map (\<lambda>c. unat (mag_raw (con_magnitude c))) cs))"
proof -
  have s: "unat (saturating_sum cs 0) = min 65536 (sum_list (map (\<lambda>c. unat (mag_raw (con_magnitude c))) cs))"
    using unat_saturating_sum [of 0 cs] by simp
  then have "unat (ucast (saturating_sum cs 0) :: u32) = unat (saturating_sum cs 0)"
    by (intro unat_u64_to_u32) simp
  then show ?thesis using assms s
    by (simp add: aggregate_contributions_def unat_mag_from_raw_saturating)
qed

lemma aggregate_bounded:
  assumes "pol_aggregation policy \<noteq> SaturatingSum" and "list_all (con_within M) cs"
  shows "aggregate_contributions policy cs \<le> M"
proof (cases "cs = []")
  case False
  have m: "max_magnitude con_magnitude cs \<le> M" "max_magnitude con_weighted cs \<le> M"
    using max_magnitude_spec(1) [OF False, of con_magnitude] max_magnitude_spec(1) [OF False, of con_weighted] assms(2)
    by (auto simp: list_all_iff con_within_def)
  show ?thesis using assms m priority_winner_spec [OF False]
    by (cases "pol_aggregation policy") (simp_all add: aggregate_contributions_def list_all_iff con_within_def)
qed (simp add: aggregate_contributions_def)

lemma aggregate_node_applied:
  "no_applied (fst (aggregate_node policy a c)) =
     (if na_received a then min (aggregate_contributions policy (na_contributions a)) (pol_aggregation_ceiling policy)
      else mag_zero)"
  by (auto simp: aggregate_node_def Let_def min_def not_le less_imp_le node_outcome_def)

lemma aggregate_all_nodes:
  "n \<in> set (fst (aggregate_all policy acc c)) \<Longrightarrow> \<exists>i a c'. (i, a) \<in> set acc \<and> n = fst (aggregate_node policy a c')"
proof (induction acc arbitrary: c)
  case (Cons p acc)
  obtain i a where p: "p = (i, a)" by (cases p)
  obtain m c1 where m: "aggregate_node policy a c = (m, c1)" by (rule prod.exhaust)
  obtain ns c2 where ns: "aggregate_all policy acc c1 = (ns, c2)" by (rule prod.exhaust)
  consider "n = fst (aggregate_node policy a c)" | "n \<in> set (fst (aggregate_all policy acc c1))"
    using Cons.prems by (auto simp: p m ns)
  then show ?case using Cons.IH [of c1] by cases (auto simp: p)
qed simp

section \<open>The nodes of an outcome\<close>

lemma finalize_sel [simp]:
  "out_nodes (outcome_finalize w) = out_nodes w" "out_status (outcome_finalize w) = out_status w"
  "out_explanations (outcome_finalize w) = out_explanations w" "out_rejections (outcome_finalize w) = out_rejections w"
  "out_complete (outcome_finalize w) = out_complete w" "out_counters (outcome_finalize w) = out_counters w"
  "out_recovery_nodes (outcome_finalize w) = out_recovery_nodes w"
  by (simp_all add: outcome_finalize_def)

lemma fail_sel [simp]:
  "out_nodes (outcome_fail s w) = out_nodes w" "out_status (outcome_fail s w) = s"
  "out_explanations (outcome_fail s w) = out_explanations w" "out_recovery_nodes (outcome_fail s w) = out_recovery_nodes w"
  by (simp_all add: outcome_fail_def)

lemma commit_nodes_keeps:
  "out_nodes (fst (commit_nodes now ns (w, l))) = out_nodes w \<and>
   out_explanations (fst (commit_nodes now ns (w, l))) = out_explanations w"
  by (induction ns arbitrary: w l) (auto split: prod.splits)

lemma commit_keeps:
  "out_nodes (fst (commit req live w l)) = out_nodes w \<and> out_explanations (fst (commit req live w l)) = out_explanations w"
  using commit_nodes_keeps [of "req_now req" "out_nodes w" w "commit_lineages live l"]
  by (auto simp: commit_def Let_def split: prod.splits)

lemma conclude_nodes:
  assumes "conclude policy req live ledger ps = (w, l)"
  shows "set (out_nodes w) = set (fst (aggregate_all policy (ps_acc ps) (out_counters (ps_outcome ps))))"
    and "out_explanations w = out_explanations (ps_outcome ps)"
proof -
  obtain ns c where a: "aggregate_all policy (ps_acc ps) (out_counters (ps_outcome ps)) = (ns, c)" by (rule prod.exhaust)
  let ?o1 = "if ps_truncated ps then (ps_outcome ps)\<lparr>out_complete := False\<rparr> else ps_outcome ps"
  let ?nodes = "std_sort (\<lambda>a b. no_resource a < no_resource b) ns"
  let ?o2 = "?o1\<lparr>out_nodes := ?nodes, out_counters := c, out_peak_depth := peak_depth_of ?nodes (out_peak_depth ?o1)\<rparr>"
  have a': "aggregate_all policy (ps_acc ps) (out_counters ?o1) = (ns, c)" using a by simp
  obtain o3 l3 where c3: "commit req live ?o2 ledger = (o3, l3)" by (rule prod.exhaust)
  have k: "out_nodes o3 = ?nodes" "out_explanations o3 = out_explanations (ps_outcome ps)"
    using commit_keeps [of req live ?o2 ledger] c3 by simp_all
  have "out_nodes w = ?nodes \<and> out_explanations w = out_explanations (ps_outcome ps)"
    using assms k unfolding conclude_def a' Let_def prod.case c3 by (auto split: if_splits)
  then show "set (out_nodes w) = set (fst (aggregate_all policy (ps_acc ps) (out_counters (ps_outcome ps))))"
    "out_explanations w = out_explanations (ps_outcome ps)" by (simp_all add: a)
qed

end
