(* ===== verification/Engine_Safety.thy ===== *)
theory Engine_Safety
  imports Engine_Facts
begin

text \<open>
  What a propagation and a recovery guarantee, from the invariants of the traversals and the
  ledger: hop safety and budgets of every explanation, no increase of pressure, replays
  without effect, and the exact effect of a recovery on the ledger.
\<close>


section \<open>What holds of every traversal of a request\<close>

lemma traverse_all_invariant:
  assumes "\<And>s ps ps'. s \<in> set signals \<Longrightarrow> P ps \<Longrightarrow> traverse_signal env req s ps = Some ps' \<Longrightarrow> P ps'"
    and "P ps" and "traverse_all env req signals ps = Some ps'"
  shows "P ps'"
  using assms
proof (induction signals arbitrary: ps)
  case (Cons s signals)
  from Cons.prems(3) obtain ps1 where s: "traverse_signal env req s ps = Some ps1"
    and r: "traverse_all env req signals ps1 = Some ps'" by (auto split: option.splits)
  have "P ps1" using Cons.prems(1) [OF _ Cons.prems(2) s] by simp
  then show ?case using Cons.IH [of ps1] Cons.prems(1) r by (meson list.set_intros(2))
qed simp

lemma explanation_for_empty [simp]:
  "ex_hops (explanation_for topo policy req s) = []" "ex_suppressed (explanation_for topo policy req s) = []"
  by (simp_all add: explanation_for_def propagation_explanation_def)

lemma explanation_finalize_keeps [simp]:
  "ex_hops (explanation_finalize x) = ex_hops x" "ex_suppressed (explanation_finalize x) = ex_suppressed x"
  "ex_truncated (explanation_finalize x) = ex_truncated x" "ex_counters (explanation_finalize x) = ex_counters x"
  "ex_signal (explanation_finalize x) = ex_signal x"
  by (simp_all add: explanation_finalize_def)

lemma traverse_signal_run:
  assumes "traverse_signal env req s ps = Some ps'"
  obtains st r where "run_traversal env (record_budget_for (env_policy env) req) s (req_id req) (ps_acc ps)
      (out_counters (ps_outcome ps)) (explanation_for (env_topology env) (env_policy env) req s) (ps_truncated ps) = Some (st, r)"
    "ps_acc ps' = run_acc r" "ps_truncated ps' = run_truncated r" "out_nodes (ps_outcome ps') = out_nodes (ps_outcome ps)"
    "out_explanations (ps_outcome ps') = out_explanations (ps_outcome ps) \<or>
     (\<exists>x. out_explanations (ps_outcome ps') = out_explanations (ps_outcome ps) @ [x] \<and>
        ex_hops x = ex_hops (run_expl r) \<and> ex_suppressed x = ex_suppressed (run_expl r) \<and>
        ex_truncated x = run_truncated r \<and> hops_considered (ex_counters x) =
          hops_considered (run_counters r) - hops_considered (out_counters (ps_outcome ps)))"
  using assms by (auto simp: traverse_signal_def Let_def counters_since_def split: option.splits prod.splits if_splits)

text \<open>An explanation of a propagation: its hops are safe and within the budgets.\<close>

definition explanation_safe :: "TraversalEnv \<Rightarrow> PressureSignal list \<Rightarrow> PropagationExplanation \<Rightarrow> bool" where
  "explanation_safe env signals x \<longleftrightarrow>
     ex_hops x = [] \<or>
     (\<exists>s \<in> set signals. \<forall>h \<in> set (ex_hops x). hop_safe env s h) \<and>
       length (ex_hops x) \<le> unat (pol_max_expansions (env_policy env)) \<and>
       length (ex_hops x) + length (ex_suppressed x) \<le> unat (pol_max_records (env_policy env))"

lemma record_budget_le: "unat (record_budget_for policy req) \<le> unat (pol_max_records policy)"
  by (simp add: record_budget_for_def word_less_nat_alt)

lemma traverse_all_explanations:
  assumes wf: "topology_wf (env_topology env)" and t: "traverse_all env req signals ps = Some ps'"
    and start: "\<forall>x \<in> set (out_explanations (ps_outcome ps)). explanation_safe env signals x"
  shows "\<forall>x \<in> set (out_explanations (ps_outcome ps')). explanation_safe env signals x"
proof (rule traverse_all_invariant [where P = "\<lambda>ps. \<forall>x \<in> set (out_explanations (ps_outcome ps)). explanation_safe env signals x",
      OF _ start t])
  fix s ps ps'
  assume s: "s \<in> set signals" and IH: "\<forall>x \<in> set (out_explanations (ps_outcome ps)). explanation_safe env signals x"
    and ts: "traverse_signal env req s ps = Some ps'"
  obtain st r where run: "run_traversal env (record_budget_for (env_policy env) req) s (req_id req) (ps_acc ps)
      (out_counters (ps_outcome ps)) (explanation_for (env_topology env) (env_policy env) req s) (ps_truncated ps) = Some (st, r)"
    and x: "out_explanations (ps_outcome ps') = out_explanations (ps_outcome ps) \<or>
     (\<exists>x. out_explanations (ps_outcome ps') = out_explanations (ps_outcome ps) @ [x] \<and>
        ex_hops x = ex_hops (run_expl r) \<and> ex_suppressed x = ex_suppressed (run_expl r))"
    by (rule traverse_signal_run [OF ts]) blast
  have "\<forall>h \<in> set (ex_hops (run_expl r)). hop_safe env s h"
    using run_hops_safe [OF wf run] by auto
  moreover have "length (ex_hops (run_expl r)) \<le> unat (pol_max_expansions (env_policy env))"
    using run_budget(1) [OF wf run] by simp
  moreover have "length (ex_hops (run_expl r)) + length (ex_suppressed (run_expl r)) \<le> unat (pol_max_records (env_policy env))"
    using run_budget(3) [OF wf run] record_budget_le [of "env_policy env" req] by simp
  ultimately have "explanation_safe env signals x"
    if "ex_hops x = ex_hops (run_expl r)" "ex_suppressed x = ex_suppressed (run_expl r)" for x
    unfolding explanation_safe_def that using s by blast
  then show "\<forall>x \<in> set (out_explanations (ps_outcome ps')). explanation_safe env signals x"
    using x IH by auto
qed

lemma traverse_all_bounded:
  assumes wf: "topology_wf (env_topology env)" and t: "traverse_all env req signals ps = Some ps'"
    and sig: "\<And>s. s \<in> set signals \<Longrightarrow> \<not> amplification_granted (env_policy env) s \<and> sig_weight_q16 s \<le> 65536 \<and>
      obs_magnitude (sig_observation s) \<le> M"
    and start: "acc_bounded M (ps_acc ps)"
  shows "acc_bounded M (ps_acc ps')"
proof (rule traverse_all_invariant [where P = "\<lambda>ps. acc_bounded M (ps_acc ps)", OF _ start t])
  fix s ps ps'
  assume s: "s \<in> set signals" and b: "acc_bounded M (ps_acc ps)" and ts: "traverse_signal env req s ps = Some ps'"
  obtain st r where run: "run_traversal env (record_budget_for (env_policy env) req) s (req_id req) (ps_acc ps)
      (out_counters (ps_outcome ps)) (explanation_for (env_topology env) (env_policy env) req s) (ps_truncated ps) = Some (st, r)"
    and a: "ps_acc ps' = run_acc r"
    by (rule traverse_signal_run [OF ts])
  show "acc_bounded M (ps_acc ps')" unfolding a
    by (rule run_pressure [OF wf run]) (use sig [OF s] b in auto)
qed

section \<open>Properties of a propagation\<close>

lemma propagate_validI:
  assumes "propagate ctx req = Some (o1, l)" and "ctx_topology ctx = Some topo" and "ctx_policy ctx = Some policy"
    and "ctx_ledger ctx = Some ledger"
  obtains l' where "propagate_valid topo policy ledger (ctx_fences ctx) (ctx_live_epoch ctx) req = Some (o1, l')" "l = Some l'"
  using assms by (auto simp: propagate_def)

lemma propagate_absent:
  assumes "propagate ctx req = Some (o1, l)"
    and "\<not> (\<exists>topo policy ledger. ctx_topology ctx = Some topo \<and> ctx_policy ctx = Some policy \<and> ctx_ledger ctx = Some ledger)"
  shows "out_nodes o1 = []" and "out_explanations o1 = []" and "l = ctx_ledger ctx" and "\<not> status_ok (out_status o1)"
  using assms by (auto simp: propagate_def propagation_outcome_def split: option.splits)

lemma admit_live:
  assumes "admit policy req (req_signals req) ([], w) = (accepted, o2)"
    and "split_live topo policy ledger req accepted ([], o2) = (live, o3)" and "s \<in> set live"
  shows "s \<in> set (req_signals req)" and "admitted policy req s" and "\<not> has_lineage ledger (sig_lineage s)"
proof -
  have l: "live = filter (\<lambda>s. \<not> has_lineage ledger (sig_lineage s)) accepted"
    using split_live_spec(1) [OF assms(2)] by simp
  then have "s \<in> set accepted" using assms(3) by simp
  then show "s \<in> set (req_signals req)" "admitted policy req s" using admit_spec [OF assms(1)] by auto
  show "\<not> has_lineage ledger (sig_lineage s)" using assms(3) l by simp
qed

lemma propagate_applied_ceiling:
  assumes "propagate ctx req = Some (o1, l)" and "ctx_policy ctx = Some policy" and "n \<in> set (out_nodes o1)"
  shows "no_applied n \<le> pol_aggregation_ceiling policy" and "\<not> no_received n \<Longrightarrow> no_applied n = mag_zero"
proof -
  have "no_applied n \<le> pol_aggregation_ceiling policy \<and> (\<not> no_received n \<longrightarrow> no_applied n = mag_zero)"
  proof (cases "\<exists>topo policy ledger. ctx_topology ctx = Some topo \<and> ctx_policy ctx = Some policy \<and> ctx_ledger ctx = Some ledger")
    case True
    then obtain topo ledger where c: "ctx_topology ctx = Some topo" "ctx_ledger ctx = Some ledger" by blast
    obtain l' where p: "propagate_valid topo policy ledger (ctx_fences ctx) (ctx_live_epoch ctx) req = Some (o1, l')"
      by (rule propagate_validI [OF assms(1) c(1) assms(2) c(2)])
    show ?thesis
    proof (cases rule: propagate_valid_cases [OF p])
      case (1 o0 s)
      then show ?thesis using assms(3) by simp
    next
      case (2 present gens accepted o2 live o3 ps)
      have "n \<in> set (fst (aggregate_all policy (ps_acc ps) (out_counters (ps_outcome ps))))"
        using conclude_nodes(1) [OF 2(7) [symmetric]] assms(3) by simp
      then obtain i a c' where n: "n = fst (aggregate_node policy a c')" using aggregate_all_nodes by blast
      have "no_received n = na_received a" by (simp add: n aggregate_node_def Let_def)
      then show ?thesis using aggregate_node_applied [of policy a c'] by (simp add: n)
    qed
  next
    case False
    then show ?thesis using propagate_absent(1) [OF assms(1)] assms(3) by auto
  qed
  then show "no_applied n \<le> pol_aggregation_ceiling policy" "\<not> no_received n \<Longrightarrow> no_applied n = mag_zero" by auto
qed

lemma admitted_weight: "admitted policy req s \<Longrightarrow> sig_weight_q16 s \<le> 65536"
  by (simp add: admitted_def signal_validate_ok)

lemma propagate_no_increase:
  assumes p: "propagate_valid topo policy ledger fences live_epoch req = Some (o1, l)"
    and wf: "topology_wf topo" and rule: "pol_aggregation policy \<noteq> SaturatingSum"
    and sig: "\<And>s. s \<in> set (req_signals req) \<Longrightarrow> \<not> amplification_granted policy s \<and> obs_magnitude (sig_observation s) \<le> M"
    and n: "n \<in> set (out_nodes o1)"
  shows "no_applied n \<le> M"
proof (cases rule: propagate_valid_cases [OF p])
  case (1 o0 s)
  then show ?thesis using n by simp
next
  case (2 present gens accepted o2 live o3 ps)
  have live: "\<not> amplification_granted policy s \<and> sig_weight_q16 s \<le> 65536 \<and> obs_magnitude (sig_observation s) \<le> M"
    if "s \<in> set live" for s
    using sig [OF admit_live(1) [OF 2(3,5) that]] admitted_weight [OF admit_live(2) [OF 2(3,5) that]] by simp
  have "acc_bounded M (ps_acc ps)"
    by (rule traverse_all_bounded [OF _ 2(6)]) (use wf live in \<open>auto simp: acc_bounded_def\<close>)
  moreover have "n \<in> set (fst (aggregate_all policy (ps_acc ps) (out_counters (ps_outcome ps))))"
    using conclude_nodes(1) [OF 2(7) [symmetric]] n by simp
  then obtain i a c' where a: "(i, a) \<in> set (ps_acc ps)" "n = fst (aggregate_node policy a c')" using aggregate_all_nodes by blast
  ultimately have "list_all (con_within M) (na_contributions a)" by (auto simp: acc_bounded_def)
  then have "aggregate_contributions policy (na_contributions a) \<le> M" by (rule aggregate_bounded [OF rule])
  then show ?thesis by (simp add: a(2) aggregate_node_applied min.coboundedI1)
qed

lemma propagate_hops_safe:
  assumes p: "propagate_valid topo policy ledger fences live_epoch req = Some (o1, l)"
    and wf: "topology_wf topo" and x: "x \<in> set (out_explanations o1)"
  shows "\<exists>env signals. env_topology env = topo \<and> env_policy env = policy \<and> env_ledger env = ledger \<and>
    env_fences env = fences \<and> env_now env = req_now req \<and> set signals \<subseteq> set (req_signals req) \<and>
    (\<forall>s \<in> set signals. admitted policy req s) \<and> explanation_safe env signals x"
proof (cases rule: propagate_valid_cases [OF p])
  case (1 o0 s)
  then show ?thesis using x by simp
next
  case (2 present gens accepted o2 live o3 ps)
  let ?env = "\<lparr>env_topology = topo, env_policy = policy, env_ledger = ledger, env_fences = fences,
          env_now = req_now req, env_pin_present = present, env_pin_generation = gens\<rparr>"
  have "out_explanations o2 = []" using admit_keeps [OF 2(3)] by (simp add: propagation_outcome_def)
  then have "\<forall>x \<in> set (out_explanations o3). explanation_safe ?env live x"
    using split_live_spec(5) [OF 2(5)] by (auto simp: explanation_safe_def)
  then have "\<forall>x \<in> set (out_explanations (ps_outcome ps)). explanation_safe ?env live x"
    by (intro traverse_all_explanations [OF _ 2(6)]) (use wf in auto)
  then have "explanation_safe ?env live x" using x conclude_nodes(2) [OF 2(7) [symmetric]] by simp
  moreover have "set live \<subseteq> set (req_signals req)" "\<forall>s \<in> set live. admitted policy req s"
    using admit_live [OF 2(3,5)] by auto
  ultimately show ?thesis by (intro exI [of _ ?env] exI [of _ live]) auto
qed


section \<open>Replays\<close>

lemma commit_hops_empty: "(\<forall>x \<in> set xs. ex_hops x = []) \<Longrightarrow> fold (\<lambda>x l. commit_hops now (ex_hops x) l) xs l = l"
  by (induction xs) auto

lemma conclude_nothing:
  assumes "\<forall>x \<in> set (out_explanations w). ex_hops x = []"
    and "conclude policy req [] ledger \<lparr>ps_acc = [], ps_outcome = w, ps_truncated = False\<rparr> = (o1, l)"
  shows "l = ledger" and "out_nodes o1 = []"
proof -
  have e: "commit_lineages [] ledger = ledger" by (simp add: commit_lineages_def)
  show "l = ledger" "out_nodes o1 = []"
    using assms(2) commit_hops_empty [OF assms(1)]
    by (auto simp: conclude_def commit_def e std_sort_def Let_def split: if_splits)
qed

text \<open>The signals a request admits; the outcome they are accumulated in plays no part.\<close>

definition admissible :: "PropagationPolicy \<Rightarrow> PropagationRequest \<Rightarrow> PressureSignal list" where
  "admissible policy req = fst (admit policy req (req_signals req) ([],
     propagation_outcome (req_id req) (req_epoch req) (req_topology_digest req) (req_now req)))"

lemma admit_fst: "fst (admit policy req ss (acc, w)) = fst (admit policy req ss (acc, w'))"
proof (induction ss arbitrary: acc w w')
  case (Cons s ss)
  show ?case
  proof (cases "status_ok (admission_check policy req acc s)")
    case True
    then show ?thesis using Cons.IH [of "acc @ [s]" w w'] by (simp add: Let_def)
  next
    case False
    then show ?thesis using Cons.IH [of acc] by (simp add: Let_def)
  qed
qed simp

lemma admissible_eq: "admit policy req (req_signals req) ([], w) = (accepted, w') \<Longrightarrow> accepted = admissible policy req"
  unfolding admissible_def using admit_fst [of policy req "req_signals req" "[]" w] by (metis fst_conv)

lemma propagate_valid_replay:
  assumes p: "propagate_valid topo policy ledger fences live_epoch req = Some (o1, l)"
    and seen: "\<And>s. s \<in> set (admissible policy req) \<Longrightarrow> has_lineage ledger (sig_lineage s)"
  shows "l = ledger" and "out_nodes o1 = []"
proof -
  have "l = ledger \<and> out_nodes o1 = []"
  proof (cases rule: propagate_valid_cases [OF p])
    case (1 o0 s)
    then show ?thesis by simp
  next
    case (2 present gens accepted o2 live o3 ps)
    have "filter (\<lambda>s. \<not> has_lineage ledger (sig_lineage s)) accepted = []"
      using seen admissible_eq [OF 2(3)] by (auto simp: filter_empty_conv)
    then have live: "live = []" using split_live_spec(1) [OF 2(5)] by simp
    have "out_explanations o2 = []" using admit_keeps [OF 2(3)] by (simp add: propagation_outcome_def)
    then have "\<forall>x \<in> set (out_explanations o3). ex_hops x = []" using split_live_spec(5) [OF 2(5)] by auto
    moreover have "ps = \<lparr>ps_acc = [], ps_outcome = o3, ps_truncated = False\<rparr>" using 2(6) by (simp add: live)
    ultimately show ?thesis using conclude_nothing [of o3 policy req ledger o1 l] 2(7) by (simp add: live)
  qed
  then show "l = ledger" "out_nodes o1 = []" by auto
qed

lemma record_lineages [simp]:
  "lineage_index (snd (record_application l s r m t)) = lineage_index l"
  "lineage_index (snd (record_damping l tg e m t)) = lineage_index l"
  by (simp_all add: record_application_def record_damping_def)

lemma commit_nodes_lineages: "lineage_index (snd (commit_nodes now ns (w, l))) = lineage_index l"
proof (induction ns arbitrary: w l)
  case (Cons n ns)
  obtain s l' where r: "record_application l (no_best_source n) (no_resource n) (no_applied n) now = (s, l')"
    by (rule prod.exhaust)
  then have "lineage_index l' = lineage_index l"
    using record_lineages(1) [of l "no_best_source n" "no_resource n" "no_applied n" now] by simp
  then show ?case using Cons.IH by (simp add: r)
qed simp

lemma commit_hops_lineages: "lineage_index (commit_hops now hs l) = lineage_index l"
proof (induction hs arbitrary: l)
  case (Cons h hs)
  obtain s l' where r: "record_damping l (hr_to h) (hr_edge h) (to_magnitude (hr_potential_after h)) now = (s, l')"
    by (rule prod.exhaust)
  then have "lineage_index l' = lineage_index l"
    using record_lineages(2) [of l "hr_to h" "hr_edge h" "to_magnitude (hr_potential_after h)" now] by simp
  then show ?case using Cons.IH by (simp add: r)
qed simp

lemma commit_lineage_index: "lineage_index (snd (commit req live w l)) = lineage_index (commit_lineages live l)"
proof -
  have f: "lineage_index (fold (\<lambda>x l. commit_hops now (ex_hops x) l) xs l') = lineage_index l'" for xs l' now
    by (induction xs arbitrary: l') (simp_all add: commit_hops_lineages)
  obtain w2 l2 where c: "commit_nodes (req_now req) (out_nodes w) (w, commit_lineages live l) = (w2, l2)"
    by (rule prod.exhaust)
  then have "lineage_index l2 = lineage_index (commit_lineages live l)"
    using commit_nodes_lineages [of "req_now req" "out_nodes w" w "commit_lineages live l"] by simp
  then show ?thesis by (simp add: commit_def c f)
qed

text \<open>With room for all of them, every lineage that is marked or was known stays known.\<close>

lemma commit_lineages_known:
  assumes "ledger_inv l" and "length (lineage_order l) + length live \<le> lineage_capacity l"
    and "has_lineage l d \<or> d \<in> sig_lineage ` set live"
  shows "has_lineage (commit_lineages live l) d"
  using assms
proof (induction live arbitrary: l)
  case (Cons s live)
  let ?l = "snd (mark_lineage l (sig_lineage s))"
  have room: "length (lineage_order l) < lineage_capacity l" using Cons.prems(2) by simp
  have len: "length (lineage_order ?l) \<le> Suc (length (lineage_order l))" "lineage_capacity ?l = lineage_capacity l"
    using room by (simp_all add: mark_lineage_eq [OF Cons.prems(1)])
  have "has_lineage ?l d \<or> d \<in> sig_lineage ` set live"
    using Cons.prems(3) mark_lineage_keeps [OF Cons.prems(1) room] mark_lineage_marked [OF Cons.prems(1)] by auto
  then have "has_lineage (commit_lineages live ?l) d"
    by (intro Cons.IH mark_lineage_inv) (use Cons.prems(1,2) len in auto)
  then show ?case by (simp add: commit_lineages_def)
qed (simp add: commit_lineages_def)

lemma propagate_valid_twice:
  assumes p: "propagate_valid topo policy ledger fences live_epoch req = Some (o1, l)" and "l \<noteq> ledger"
    and inv: "ledger_inv ledger"
    and room: "length (lineage_order ledger) + length (req_signals req) \<le> lineage_capacity ledger"
    and q: "propagate_valid topo policy l fences' live_epoch' req = Some (o2, l2)"
  shows "l2 = l" and "out_nodes o2 = []"
proof -
  have known: "has_lineage l (sig_lineage s)" if s: "s \<in> set (admissible policy req)" for s
  proof (cases rule: propagate_valid_cases [OF p])
    case (1 o0 s)
    then show ?thesis using assms(2) by simp
  next
    case (2 present gens accepted o2 live o3 ps)
    obtain o4 where l: "l = snd (commit req live o4 ledger)"
      using conclude_ledger [OF 2(7) [symmetric]] assms(2) by blast
    have live: "live = filter (\<lambda>s. \<not> has_lineage ledger (sig_lineage s)) accepted"
      using split_live_spec(1) [OF 2(5)] by simp
    have "length live \<le> length accepted" "length accepted \<le> length (req_signals req)"
      using live admit_spec [OF 2(3)] by auto
    then have "length (lineage_order ledger) + length live \<le> lineage_capacity ledger" using room by simp
    note k = commit_lineages_known [OF inv this]
    have "has_lineage ledger (sig_lineage s) \<or> sig_lineage s \<in> sig_lineage ` set live"
      using s admissible_eq [OF 2(3)] by (auto simp: live)
    from k [OF this] show ?thesis by (simp add: l has_lineage_def commit_lineage_index)
  qed
  show "l2 = l" "out_nodes o2 = []" using propagate_valid_replay [OF q] known by auto
qed


section \<open>Recovery\<close>

lemma decayed_magnitude_le:
  "decayed_magnitude policy req resource r \<le> rec_magnitude r"
  "decayed_magnitude policy req resource r \<le> rcv_residual req"
  by (simp_all add: decayed_magnitude_def Let_def not_less)
    (metis (no_types, lifting) order.trans linorder_le_cases not_le less_imp_le)

text \<open>The record recovery writes in place of a record that is present.\<close>

definition recovered :: "PropagationPolicy \<Rightarrow> RecoveryRequest \<Rightarrow> SourceResourceKey \<Rightarrow> TableRecord \<Rightarrow> TableRecord" where
  "recovered policy req key r =
     \<lparr>rec_magnitude = decayed_magnitude policy req (snd key) r, rec_tick = rcv_now req, rec_present = True\<rparr>"

lemma application_present: "rec_present (application l s r) \<Longrightarrow> map_of (led_applications l) (s, r) = Some (application l s r)"
  by (auto simp: application_def table_record_def split: option.splits)

lemma recover_step:
  assumes "rec_present (application l (fst key) (snd key))"
  shows "record_application l (fst key) (snd key) m t = (status_success,
    l\<lparr>led_applications := AList.update key \<lparr>rec_magnitude = m, rec_tick = t, rec_present = True\<rparr> (led_applications l)\<rparr>)"
  using application_present [OF assms] by (simp add: record_application_def)

lemma application_update:
  "application (l\<lparr>led_applications := AList.update key v (led_applications l)\<rparr>) s r =
     (if (s, r) = key then v else application l s r)"
  by (simp add: application_def update_conv')

lemma recover_targets_dry:
  "rcv_dry_run req \<Longrightarrow> snd (recover_targets policy req keys (w, l)) = l"
  by (induction keys arbitrary: w) (auto simp: Let_def)

lemma recover_targets_Cons:
  assumes "\<not> rcv_dry_run req"
  shows "recover_targets policy req (k # keys) (w, l) =
    (let r = application l (fst k) (snd k)
     in recover_targets policy req keys
       (if rec_present r
        then (w\<lparr>out_recovery_nodes := out_recovery_nodes w @ [recovery_node policy req k r]\<rparr>,
              l\<lparr>led_applications := AList.update k (recovered policy req k r) (led_applications l)\<rparr>)
        else (w, l)))"
proof (cases "rec_present (application l (fst k) (snd k))")
  case True
  have "no_applied (recovery_node policy req k r) = decayed_magnitude policy req (snd k) r" for r
    by (simp add: recovery_node_def Let_def node_outcome_def)
  then show ?thesis using assms True recover_step [OF True] by (simp add: Let_def recovered_def)
qed (use assms in \<open>simp add: Let_def\<close>)

lemma recover_targets_spec:
  assumes "distinct keys" and dry: "\<not> rcv_dry_run req" and "recover_targets policy req keys (w, l) = (w', l')"
  shows "(\<forall>key. map_of (led_applications l') key =
      (if key \<in> set keys \<and> rec_present (application l (fst key) (snd key))
       then Some (recovered policy req key (application l (fst key) (snd key)))
       else map_of (led_applications l) key)) \<and>
    out_status w' = out_status w \<and> out_complete w' = out_complete w \<and>
    lineage_order l' = lineage_order l \<and> led_damping l' = led_damping l"
  using assms(1,3)
proof (induction keys arbitrary: w l)
  case (Cons k keys)
  let ?rec = "application l (fst k) (snd k)"
  let ?l = "l\<lparr>led_applications := AList.update k (recovered policy req k ?rec) (led_applications l)\<rparr>"
  note go = Cons.prems(2) [unfolded recover_targets_Cons [OF dry] Let_def]
  have other: "application ?l (fst key) (snd key) = application l (fst key) (snd key)" if "key \<in> set keys" for key
    using that Cons.prems(1) by (auto simp: application_update)
  show ?case
  proof (cases "rec_present ?rec")
    case True
    note IH = Cons.IH [OF _ go [unfolded if_P [OF True]]]
    show ?thesis using IH Cons.prems(1) True other by (auto simp: update_conv')
  next
    case False
    note IH = Cons.IH [OF _ go [unfolded if_not_P [OF False]]]
    show ?thesis using IH Cons.prems(1) False by auto
  qed
qed simp

lemma recovery_targets_spec:
  assumes "ledger_inv l"
  shows "distinct (recovery_targets req l)"
    and "set (recovery_targets req l) = {k. fst k = rcv_source req \<and> map_of (led_applications l) k \<noteq> None}"
proof -
  let ?ks = "filter (\<lambda>k. fst k = rcv_source req) (map fst (led_applications l))"
  have m: "mset (recovery_targets req l) = mset ?ks" by (simp add: recovery_targets_def)
  have "distinct ?ks" using assms by (simp add: ledger_inv_def)
  then show "distinct (recovery_targets req l)" using mset_eq_imp_distinct_iff [OF m] by simp
  have "set (recovery_targets req l) = set ?ks" using m by (rule mset_eq_setD)
  then show "set (recovery_targets req l) = {k. fst k = rcv_source req \<and> map_of (led_applications l) k \<noteq> None}"
    by (auto simp: map_of_eq_None_iff image_iff)
qed

text \<open>
  What \<open>recover\<close> does to the ledger: the present records of the source are replaced by
  their decayed successors, everything else is left alone.
\<close>

lemma recover_valid_ledger:
  assumes "recover_valid topo policy ledger live_epoch req = (w, l)" and "ledger_inv ledger"
    and "status_ok (recovery_check topo policy live_epoch req)" and "\<not> rcv_dry_run req"
  shows "map_of (led_applications l) key =
      (if fst key = rcv_source req \<and> rec_present (application ledger (fst key) (snd key))
       then Some (recovered policy req key (application ledger (fst key) (snd key)))
       else map_of (led_applications ledger) key)"
    and "out_status w = status_success" and "out_complete w"
    and "lineage_order l = lineage_order ledger" and "led_damping l = led_damping ledger"
proof -
  let ?o0 = "(propagation_outcome (rcv_id req) (rcv_epoch req) (rcv_topology_digest req) (rcv_now req))
                 \<lparr>out_topology_generation := top_generation topo\<rparr>"
  obtain o1 l1 where r: "recover_targets policy req (recovery_targets req ledger) (?o0, ledger) = (o1, l1)"
    by (rule prod.exhaust)
  note t = recovery_targets_spec [OF assms(2), of req]
  note s = recover_targets_spec [OF t(1) assms(4) r]
  have w: "l = l1" "out_status w = out_status o1" "out_complete w = out_complete o1"
    using assms(1,3) by (auto simp: recover_valid_def r Let_def)
  have p: "rec_present (application ledger (fst key) (snd key)) \<Longrightarrow> map_of (led_applications ledger) key \<noteq> None" for key
    using application_present [of ledger "fst key" "snd key"] by simp
  show "map_of (led_applications l) key =
      (if fst key = rcv_source req \<and> rec_present (application ledger (fst key) (snd key))
       then Some (recovered policy req key (application ledger (fst key) (snd key)))
       else map_of (led_applications ledger) key)"
    using spec [OF conjunct1 [OF s], of key] p [of key] unfolding w(1) t(2)
    by (cases "rec_present (application ledger (fst key) (snd key))") simp_all
  show "out_status w = status_success" "out_complete w" "lineage_order l = lineage_order ledger"
    "led_damping l = led_damping ledger"
    using s by (simp_all add: w propagation_outcome_def)
qed

lemma recover_valid_dry:
  "rcv_dry_run req \<Longrightarrow> snd (recover_valid topo policy ledger live_epoch req) = ledger"
  using recover_targets_dry [of req policy "recovery_targets req ledger" _ ledger]
  by (auto simp: recover_valid_def Let_def split: prod.splits) (metis snd_conv)

lemma recover_valid_refused:
  "\<not> status_ok (recovery_check topo policy live_epoch req) \<Longrightarrow>
     snd (recover_valid topo policy ledger live_epoch req) = ledger \<and>
     out_recovery_nodes (fst (recover_valid topo policy ledger live_epoch req)) = []"
  by (simp add: recover_valid_def Let_def propagation_outcome_def)

lemma recover_targets_inv: "ledger_inv l \<Longrightarrow> ledger_inv (snd (recover_targets policy req keys (w, l)))"
proof (induction keys arbitrary: w l)
  case (Cons k keys)
  show ?case
  proof (cases "rec_present (application l (fst k) (snd k)) \<and> \<not> rcv_dry_run req")
    case True
    let ?m = "no_applied (recovery_node policy req k (application l (fst k) (snd k)))"
    have "ledger_inv (snd (record_application l (fst k) (snd k) ?m (rcv_now req)))"
      by (rule record_application_inv [OF Cons.prems])
    then show ?thesis using Cons.IH True recover_step [of l k] by (simp add: Let_def)
  qed (use Cons in \<open>auto simp: Let_def\<close>)
qed simp

lemma recover_ledger_inv:
  assumes "recover ctx req = (w, Some l)" and "ctx_ledger ctx = Some ledger" and "ledger_inv ledger"
  shows "ledger_inv l"
  using assms recover_targets_inv [OF assms(3)]
  by (auto simp: recover_def recover_valid_def Let_def split: option.splits if_splits prod.splits) (metis snd_conv)

lemma recover_dry: "rcv_dry_run req \<Longrightarrow> snd (recover ctx req) = ctx_ledger ctx"
  by (auto simp: recover_def recover_valid_dry split: option.splits)

end
