(* ===== verification/Demo.thy ===== *)
theory Demo
  imports Engine_Safety
begin

text \<open>
  A small concrete system on which the theorems are exercised: two ports joined by one
  edge that halves the pressure, a policy with amplification off, one signal at the first
  port with a global authority, and an empty ledger.
\<close>

definition demo_resource :: "u64 \<Rightarrow> Resource" where
  "demo_resource i =
     \<lparr>res_id = StrongId i, res_name = 0, res_klass = Port, res_protection = PC_None,
      res_definition_generation = Generation 1, res_accepts_propagation = True, res_provenance = digest_zero\<rparr>"

definition demo_edge :: DependencyEdge where
  "demo_edge =
     \<lparr>edge_id = StrongId 7, edge_from = StrongId 1, edge_to = StrongId 2,
      edge_attenuation = Attenuation (q16_ctor 32768), edge_amplification = gain_unity, edge_max_hops = 0,
      edge_dependency_generation = Generation 1, edge_cooldown_ticks = 0, edge_priority = 0,
      edge_flags = flags_none, edge_provenance = digest_zero\<rparr>"

definition demo_digest :: Digest128 where
  "demo_digest = \<lparr>dg_hi = 1, dg_lo = 2\<rparr>"

definition demo_topology :: Topology where
  "demo_topology =
     \<lparr>top_resources = [demo_resource 1, demo_resource 2], top_edges = [demo_edge], top_out_offsets = [0, 1, 1],
      top_out_edge_indices = [0], top_resource_index = [StrongId 1 \<mapsto> 0, StrongId 2 \<mapsto> 1],
      top_edge_index = [StrongId 7 \<mapsto> 0], top_issues = [], top_cyclic_resources = [], top_stats = topology_stats,
      top_digest = demo_digest, top_generation = Generation 1\<rparr>"

definition demo_policy :: PropagationPolicy where
  "demo_policy = policy_defaults
     \<lparr>pol_id := StrongId 1, pol_generation := Generation 1, pol_max_expansions := 4, pol_max_visited := 4,
      pol_max_records := 8, pol_max_path_records := 1\<rparr>"

definition demo_signal :: PressureSignal where
  "demo_signal =
     \<lparr>sig_id = StrongId 1, sig_source = StrongId 1, sig_origin = StrongId 1,
      sig_observation = observed (mag_from_raw_q16_saturating 65536) thresholds_defaults,
      sig_origin_generation = Generation 1, sig_topology_digest = demo_digest, sig_epoch = Epoch 1,
      sig_publisher = mint (boot_from_raw 1 1) 1 0, sig_issued_at = 1, sig_valid_until = 0,
      sig_authority = make_global (Epoch 1) (Generation 1) 4,
      sig_provenance = provenance_push provenance_empty provenance_hop, sig_lineage = demo_digest,
      sig_source_priority = 0, sig_weight_q16 = 65536\<rparr>"

definition demo_request :: "bool \<Rightarrow> PropagationRequest" where
  "demo_request dry =
     \<lparr>req_id = StrongId 1, req_policy_id = StrongId 1, req_policy_generation = Generation 1,
      req_topology_digest = demo_digest, req_epoch = Epoch 1, req_now = 1, req_signals = [demo_signal],
      req_pins = [], req_dry_run = dry, req_record_budget_override = 0\<rparr>"

definition demo_ledger :: PropagationLedger where
  "demo_ledger = propagation_ledger 4 4 4"

definition demo_context :: EngineContext where
  "demo_context =
     \<lparr>ctx_topology = Some demo_topology, ctx_policy = Some demo_policy, ctx_ledger = Some demo_ledger,
      ctx_fences = None, ctx_live_epoch = Epoch 1\<rparr>"

definition demo_env :: TraversalEnv where
  "demo_env =
     \<lparr>env_topology = demo_topology, env_policy = demo_policy, env_ledger = demo_ledger, env_fences = None,
      env_now = 1, env_pin_present = [False], env_pin_generation = [gen_unknown]\<rparr>"

definition demo_limits :: TopologyLimits where
  "demo_limits = \<lparr>lim_max_resources = 4, lim_max_edges = 4, lim_max_out_degree = 4, lim_max_in_degree = 4\<rparr>"

definition demo_fence :: Fence where
  "demo_fence =
     \<lparr>fence_id = StrongId 1, fence_resource = StrongId 2, fence_kind = FK_Barrier, fence_epoch = Epoch 1,
      fence_dependency_generation = gen_unknown, fence_expires_at = 0,
      fence_durable = True, fence_provenance = digest_zero\<rparr>"

text \<open>The first port alone; small enough to run a whole propagation by rewriting.\<close>

definition solo_topology :: Topology where
  "solo_topology =
     \<lparr>top_resources = [demo_resource 1], top_edges = [], top_out_offsets = [0, 0],
      top_out_edge_indices = [], top_resource_index = [StrongId 1 \<mapsto> 0],
      top_edge_index = Map.empty, top_issues = [], top_cyclic_resources = [], top_stats = topology_stats,
      top_digest = demo_digest, top_generation = Generation 1\<rparr>"

definition solo_env :: TraversalEnv where
  "solo_env =
     \<lparr>env_topology = solo_topology, env_policy = demo_policy, env_ledger = demo_ledger, env_fences = None,
      env_now = 1, env_pin_present = [], env_pin_generation = []\<rparr>"

definition solo_outcome :: PropagationOutcome where
  "solo_outcome = (propagation_outcome (StrongId 1) (Epoch 1) demo_digest 1)
     \<lparr>out_topology_generation := Generation 1, out_counters := engine_counters\<lparr>signals_received := 1\<rparr>\<rparr>"

lemma demo_topology_wf: "topology_wf demo_topology"
  unfolding topology_wf_def demo_topology_def
  by (auto simp: demo_resource_def demo_edge_def resource_validate_ok edge_validate_ok id_valid_def id_kInvalid_def
      gen_known_def gen_kUnknown_def is_amplifying_def flags_has_def flags_none_def index_of_def
      out_edge_indices_at_def less_StrongId_def less_Suc_eq nth_Cons' split: if_splits)

text \<open>The same two ports and edge, through \<open>build\<close>; the digest need not be computed for it.\<close>

lemma demo_build: "\<exists>t. build [demo_resource 1, demo_resource 2] [demo_edge] demo_limits True = Some (Inr t)"
proof -
  let ?rs = "[demo_resource 1, demo_resource 2]" and ?es = "[demo_edge]"
  have "\<not> isl (build_canonical ?rs ?es demo_limits)" by code_simp
  then obtain rs es idx where c: "build_canonical ?rs ?es demo_limits = Inr (rs, es, idx)"
    by (cases "build_canonical ?rs ?es demo_limits") auto
  have "case build_canonical ?rs ?es demo_limits of
      Inl s \<Rightarrow> False | Inr (rs, es, idx) \<Rightarrow> \<not> isl (build_tables rs es idx demo_limits)" by code_simp
  then obtain tables where t: "build_tables rs es idx demo_limits = Inr tables"
    by (cases "build_tables rs es idx demo_limits") (auto simp: c)
  obtain r where "build ?rs ?es demo_limits True = Some r" using build_returns by blast
  then show ?thesis by (auto simp: build_def c t build_finish_def Let_def split: option.splits prod.splits)
qed

text \<open>A whole propagation of the signal over the single port, which commits its lineage.\<close>

lemma solo_topology_wf: "topology_wf solo_topology"
  unfolding topology_wf_def solo_topology_def
  by (auto simp: demo_resource_def resource_validate_ok id_valid_def id_kInvalid_def
      gen_known_def gen_kUnknown_def index_of_def out_edge_indices_at_def less_Suc_eq nth_Cons' split: if_splits)

lemma solo_run:
  "case run_traversal solo_env (record_budget_for demo_policy (demo_request False)) demo_signal (StrongId 1) []
     (engine_counters\<lparr>signals_received := 1\<rparr>)
     (explanation_for solo_topology demo_policy (demo_request False) demo_signal) False of
   None \<Rightarrow> False | Some (s, r) \<Rightarrow> status_ok s \<and> \<not> run_truncated r \<and> run_acc r \<noteq> []"
  by code_simp

lemma demo_admits: "admit demo_policy (demo_request False) [demo_signal] ([], w) = ([demo_signal], w)"
proof -
  have "status_ok (signal_validate demo_signal demo_policy 1)" by code_simp
  then have "status_ok (admission_check demo_policy (demo_request False) [] demo_signal)"
    by (simp add: admission_check_ok admitted_def demo_request_def demo_signal_def)
  then show ?thesis by simp
qed

lemma solo_traverses:
  obtains ps where "traverse_all solo_env (demo_request False) [demo_signal]
      \<lparr>ps_acc = [], ps_outcome = solo_outcome, ps_truncated = False\<rparr> = Some ps"
    "\<not> ps_truncated ps" "out_rejections (ps_outcome ps) = []" "ps_acc ps \<noteq> []"
    "out_explanations (ps_outcome ps) \<noteq> []"
proof -
  have c: "out_counters solo_outcome = engine_counters\<lparr>signals_received := 1\<rparr>" "out_rejections solo_outcome = []"
    "req_id (demo_request False) = StrongId 1" "env_policy solo_env = demo_policy" "env_topology solo_env = solo_topology"
    by (simp_all add: solo_outcome_def propagation_outcome_def demo_request_def solo_env_def)
  obtain s r where "run_traversal solo_env (record_budget_for demo_policy (demo_request False)) demo_signal (StrongId 1) []
     (engine_counters\<lparr>signals_received := 1\<rparr>)
     (explanation_for solo_topology demo_policy (demo_request False) demo_signal) False = Some (s, r)"
    "status_ok s" "\<not> run_truncated r" "run_acc r \<noteq> []"
    using solo_run by (auto split: option.splits)
  then show ?thesis using that by (simp add: traverse_signal_def c Let_def)
qed

lemma solo_request_ok: "status_ok (request_check solo_topology demo_policy (Epoch 1) (demo_request False))"
proof -
  have "status_ok (policy_validate demo_policy)" by code_simp
  then show ?thesis
    by (simp add: request_check_def try_simps demo_request_def demo_policy_def solo_topology_def id_valid_def id_kInvalid_def)
qed

lemma solo_propagates:
  obtains w l where
    "propagate_valid solo_topology demo_policy demo_ledger None (Epoch 1) (demo_request False) = Some (w, l)"
    "has_lineage l demo_digest" "out_nodes w \<noteq> []" "out_explanations w \<noteq> []"
proof -
  obtain ps where ps: "traverse_all solo_env (demo_request False) [demo_signal]
      \<lparr>ps_acc = [], ps_outcome = solo_outcome, ps_truncated = False\<rparr> = Some ps"
    "\<not> ps_truncated ps" "out_rejections (ps_outcome ps) = []" "ps_acc ps \<noteq> []"
    "out_explanations (ps_outcome ps) \<noteq> []" by (rule solo_traverses)
  obtain w l where wl: "conclude demo_policy (demo_request False) [demo_signal] demo_ledger ps = (w, l)"
    by (rule prod.exhaust)
  have sig: "req_signals (demo_request False) = [demo_signal]" "req_pins (demo_request False) = []"
    "req_id (demo_request False) = StrongId 1" "req_epoch (demo_request False) = Epoch 1"
    "req_topology_digest (demo_request False) = demo_digest" "req_now (demo_request False) = 1"
    "top_generation solo_topology = Generation 1" "top_edges solo_topology = []"
    "\<not> req_dry_run (demo_request False)"
    by (simp_all add: demo_request_def solo_topology_def)
  have "1 \<le> unat (pol_max_sources demo_policy)" by code_simp
  have so: "split_live solo_topology demo_policy demo_ledger (demo_request False) [demo_signal] ([], w0) = ([demo_signal], w0)" for w0
    by (simp add: has_lineage_def demo_ledger_def propagation_ledger_def)
  have env: "env_topology solo_env = solo_topology" "env_policy solo_env = demo_policy" "env_ledger solo_env = demo_ledger"
    by (simp_all add: solo_env_def)
  have "propagate_signals solo_env (demo_request False) solo_outcome = Some (w, l)"
    using ps(1)
    unfolding propagate_signals_def env sig Let_def demo_admits so by (simp add: so wl del: split_live.simps traverse_all.simps)
  moreover have "propagate_valid solo_topology demo_policy demo_ledger None (Epoch 1) (demo_request False) =
      propagate_signals solo_env (demo_request False) solo_outcome"
    using \<open>1 \<le> unat _\<close> solo_request_ok
    by (simp add: propagate_valid_def sig Let_def solo_env_def solo_outcome_def propagation_outcome_def)
  ultimately have p: "propagate_valid solo_topology demo_policy demo_ledger None (Epoch 1) (demo_request False) = Some (w, l)"
    by simp
  have "\<exists>w2. l = snd (commit (demo_request False) [demo_signal] w2 demo_ledger)"
    using wl ps(2,3) by (auto simp: conclude_def Let_def sig split: prod.splits if_splits) (metis snd_conv)
  then obtain w2 where "l = snd (commit (demo_request False) [demo_signal] w2 demo_ledger)" ..
  then have "has_lineage l d \<longleftrightarrow> has_lineage (commit_lineages [demo_signal] demo_ledger) d" for d
    by (simp add: has_lineage_def commit_lineage_index)
  then have "has_lineage l demo_digest"
    using mark_lineage_marked [OF ledger_inv_start, of 4 4 4 demo_digest]
    by (simp add: commit_lineages_def demo_ledger_def demo_signal_def)
  moreover have "fst (aggregate_all demo_policy (ps_acc ps) c) \<noteq> []" for c
    using ps(4) by (cases "ps_acc ps") (auto simp: Let_def split: prod.splits)
  ultimately show ?thesis using that [OF p] conclude_nodes [OF wl] ps(5) by (metis set_empty)
qed

text \<open>A recovery request of the source, against a ledger that holds one application of it.\<close>

definition demo_recovery :: "bool \<Rightarrow> RecoveryRequest" where
  "demo_recovery dry =
     \<lparr>rcv_id = StrongId 2, rcv_source = StrongId 1, rcv_origin = StrongId 1, rcv_origin_generation = Generation 1,
      rcv_topology_digest = demo_digest, rcv_epoch = Epoch 1, rcv_now = 3, rcv_residual = mag_zero,
      rcv_authority = make_global (Epoch 1) (Generation 1) 4, rcv_dry_run = dry\<rparr>"

definition demo_pressed :: PropagationLedger where
  "demo_pressed = snd (record_application demo_ledger (StrongId 1) (StrongId 2) mag_full 1)"

end
