(* ===== verification/Properties_Model.thy ===== *)
theory Properties_Model
  imports Demo ByteIO
begin

text \<open>
  The properties of the core arithmetic, the codecs, the digests and the domain model,
  each with a concrete instance where it has hypotheses.
\<close>

section \<open>Topology\<close>

text \<open>
  C29. Whatever order the resources and the dependency edges are declared in, \<open>Topology::build\<close>
  produces the same topology.
\<close>

theorem build_order_independent:
  assumes "build resources edges lim allow = Some (Inr t)"
    and "mset resources' = mset resources" and "mset edges' = mset edges"
  shows "build resources' edges' lim allow = Some (Inr t)"
  using assms by (rule build_permutation)

theorem build_order_independent_witness:
  "\<exists>t. build [demo_resource 1, demo_resource 2] [demo_edge] demo_limits True = Some (Inr t) \<and>
     build [demo_resource 2, demo_resource 1] [demo_edge] demo_limits True = Some (Inr t)"
proof -
  obtain t where t: "build [demo_resource 1, demo_resource 2] [demo_edge] demo_limits True = Some (Inr t)"
    using demo_build by blast
  show ?thesis
    using build_order_independent [OF t, of "[demo_resource 2, demo_resource 1]" "[demo_edge]"] t
    by (simp add: add_mset_commute)
qed

text \<open>
  C30. A topology that \<open>build\<close> returns is well formed: its resources and edges are valid and
  strictly ordered, every edge joins declared resources, the index finds exactly the declared
  resources, and the compressed adjacency lists exactly the outgoing edges of each resource
  in the canonical order.
\<close>

theorem build_well_formed:
  assumes "build resources edges lim allow = Some (Inr t)"
  shows "topology_wf t"
  using assms by (rule build_wf)

theorem build_well_formed_witness:
  "\<exists>t. build [demo_resource 1, demo_resource 2] [demo_edge] demo_limits True = Some (Inr t) \<and> topology_wf t"
  using demo_build build_well_formed by blast

text \<open>
  C31. \<open>build\<close> terminates on every input: the search for strongly connected components needs at
  most one round per resource and per edge.
\<close>

theorem build_terminates: "\<exists>r. build resources edges lim allow = Some r"
  by (rule build_returns)

section \<open>Fixed-point pressure\<close>

text \<open>
  Attenuation is exact multiplication in 32.32 fixed point, rounded down; it never
  overflows and never increases a potential.
\<close>

theorem attenuated_exact:
  "unat (pot_raw (attenuated p att)) = unat (pot_raw p) * unat (q16_raw (att_q16 att)) div 65536 \<and>
   attenuated p att \<le> p"
  by (simp add: unat_attenuated attenuated_le)

text \<open>
  C38. Amplification is exact multiplication by the gain when the product fits in full scale,
  and otherwise fails with \<open>Overflow\<close>: it never saturates silently. A gain of one always
  succeeds.
\<close>

theorem amplified_exact_or_overflow:
  "(\<exists>p'. amplified p g = Inr p' \<and> unat (pot_raw p') = unat (pot_raw p) * unat (gain_raw g) div 65536 \<and> p \<le> p') \<or>
   (amplified p g = fail Overflow ''potential amplification'' (pot_raw p) \<and>
      unat (pot_raw p) * unat (gain_raw g) > 65536 * 2 ^ 32 \<and> \<not> gain_is_unity g)"
proof (cases "unat (pot_raw p) * unat (gain_raw g) > 281474976710656 \<and> \<not> gain_is_unity g")
  case True
  then show ?thesis by (simp add: amplified_result)
next
  case False
  then obtain p' where p': "amplified p g = Inr p'" by (auto simp: amplified_result)
  then show ?thesis using unat_amplified [OF p'] amplified_ge [OF p'] by blast
qed

text \<open>
  A potential converts back to the magnitude it came from, and the conversion of a
  potential to a magnitude is monotone.
\<close>

theorem potential_magnitude_roundtrip:
  "to_magnitude (potential_from_magnitude m) = m \<and> (p \<le> p' \<longrightarrow> to_magnitude p \<le> to_magnitude p')"
  by (simp add: to_magnitude_mono)

theorem potential_magnitude_roundtrip_witness:
  "potential_zero \<le> potential_one \<and> to_magnitude potential_zero \<le> to_magnitude potential_one"
  using potential_magnitude_roundtrip [of mag_full potential_zero potential_one]
  by (simp add: pot_le_iff potential_zero_def potential_one_def)

text \<open>
  Checked 64-bit and 32-bit arithmetic is exact: the result is the mathematical one, or
  the operation fails because it does not fit.
\<close>

theorem checked_arithmetic_exact:
  "exact_u64 (add_u64 a b what) (unat a + unat b) \<and> exact_u64 (mul_u64 a b what) (unat a * unat b) \<and>
   exact_u32 (add_u32 c d what) (unat c + unat d) \<and> exact_u32 (mul_u32 c d what) (unat c * unat d) \<and>
   unat (add_sat_u64 a b ceiling) = min (unat a + unat b) (unat ceiling) \<and>
   unat (mul_sat_u64 a b ceiling) = min (unat a * unat b) (unat ceiling)"
  by (simp add: add_u64_exact mul_u64_exact add_u32_exact mul_u32_exact add_sat_u64_exact mul_sat_u64_exact)

section \<open>Digests and codecs\<close>

text \<open>
  The table-driven CRC-32 computes the same value as the bitwise definition of the
  polynomial 0xEDB88320.
\<close>

theorem crc32_is_bitwise: "crc32_update seed bytes = crc32_bitwise seed bytes"
  by (rule crc32_update_bitwise)

text \<open>C39. CRC-32 detects every change of a single byte, wherever it is.\<close>

theorem crc32_detects_one_byte:
  "crc32 (xs @ b # ys) = crc32 (xs @ b' # ys) \<longleftrightarrow> b = b'"
  by (simp add: crc32_def crc32_one_byte)

text \<open>The hexadecimal form of a digest identifies it.\<close>

theorem to_hex_injective: "to_hex a = to_hex b \<longleftrightarrow> a = b"
  by (rule to_hex_inj)

text \<open>
  Length-prefixed byte strings survive a round trip: what was written within the
  capacity reads back unchanged and leaves the reader at its end.
\<close>

theorem bytes_prefixed_roundtrip:
  assumes "length bs \<le> max_len" and "max_len < 2 ^ 32"
    and "wr_bytes_prefixed bs (byte_writer cap) = (s, w)" and "status_ok s"
  shows "\<exists>r. rd_bytes_prefixed max_len (byte_reader (wr_buffer w)) = (Inr bs, r) \<and> status_ok (expect_end r)"
  using byte_codec.round_trip [OF bytes_prefixed_codec [OF assms(2)] assms(1,3,4)] .

theorem bytes_prefixed_roundtrip_witness:
  "\<exists>w r. wr_bytes_prefixed [1, 2, 3] (byte_writer 16) = (status_success, w) \<and>
     rd_bytes_prefixed 8 (byte_reader (wr_buffer w)) = (Inr [1, 2, 3], r) \<and> status_ok (expect_end r)"
proof -
  obtain s w where p: "wr_bytes_prefixed [1, 2, 3] (byte_writer 16) = (s, w)" by (rule prod.exhaust)
  moreover have "wr_bytes_prefixed [1, 2, 3] (byte_writer 16) =
      (status_success, snd (wr_bytes_prefixed [1, 2, 3] (byte_writer 16)))"
    by code_simp
  ultimately have "s = status_success" by simp
  then show ?thesis using bytes_prefixed_roundtrip [of "[1, 2, 3]" 8 16 s w] p by auto
qed

section \<open>Identities\<close>

text \<open>
  Interning a name yields a symbol that looks up to the name and that the name finds;
  symbols given out before keep their names; and the table stays a bijection.
\<close>

theorem intern_correct:
  assumes "symbol_inv t" and "capacity \<le> 2 ^ 32" and "intern t name capacity = (Inr s, t')"
  shows "symbol_inv t' \<and> symbol_lookup t' s = name \<and> symbol_find t' name = Inr s \<and>
    (\<forall>s'. unat s' < symbol_size t \<longrightarrow> symbol_lookup t' s' = symbol_lookup t s')"
  using intern_inv [OF assms] intern_lookup [OF assms] intern_stable [OF assms(3)] by blast

theorem intern_correct_witness:
  "\<exists>s t'. intern symbol_table ''ab'' 4 = (Inr s, t') \<and> symbol_lookup t' s = ''ab''"
proof -
  obtain r t' where i: "intern symbol_table ''ab'' 4 = (r, t')" by (rule prod.exhaust)
  have "\<not> isl (fst (intern symbol_table ''ab'' 4))" by code_simp
  with i obtain s where "r = Inr s" by (cases r) auto
  with i intern_correct [of symbol_table 4 "''ab''" s t'] show ?thesis by auto
qed

section \<open>Observation, authority and fences\<close>

text \<open>
  A declared severity never overstates the measured pressure, severity is monotone in the
  magnitude, and only a non-zero measured magnitude can authorise propagation.
\<close>

theorem severity_sound:
  assumes "status_ok (thresholds_validate t)"
  shows "obs_severity (observed_with_severity m declared t) \<le> severity_from_magnitude m t \<and>
    (m \<le> m' \<longrightarrow> severity_from_magnitude m t \<le> severity_from_magnitude m' t) \<and>
    (can_authorize_propagation (observed_with_severity m declared t) \<longleftrightarrow> m \<noteq> mag_zero) \<and>
    \<not> can_authorize_propagation observation_unknown"
  using assms by (simp add: obs_severity_never_overstated severity_from_magnitude_mono obs_authorises_iff
      observation_unknown_authorises_nothing)

theorem severity_sound_witness:
  "status_ok (thresholds_validate thresholds_defaults) \<and>
   obs_severity (observed_with_severity mag_zero Exhausted thresholds_defaults) \<le> severity_from_magnitude mag_zero thresholds_defaults"
proof -
  have "status_ok (thresholds_validate thresholds_defaults)" by code_simp
  then show ?thesis using severity_sound [of thresholds_defaults mag_zero Exhausted mag_full] by simp
qed

text \<open>
  \<open>AuthorityVector::check\<close> succeeds exactly for a well-formed authority of the live epoch
  that has not expired and whose scope covers the target.
\<close>

theorem authority_check_exact:
  "status_ok (authority_check a now live target) \<longleftrightarrow>
     status_ok (authority_validate a) \<and> auth_epoch a = live \<and>
     (auth_expires_at a = kNoTick \<or> now \<le> auth_expires_at a) \<and>
     (auth_level a = Global \<or> (auth_level a \<in> {Local, Scoped} \<and> target \<in> set (auth_scope a)))"
  by (simp add: authority_check_ok covers_iff)

text \<open>
  The governing fence of a resource is one of its live fences and none of them is
  stronger; in particular a live barrier fence always refuses both directions.
\<close>

theorem governing_fence_strongest:
  "(\<forall>b. governing fs resource now = Some b \<longrightarrow> b \<in> set fs \<and> fence_live b resource now \<and>
      (\<forall>f \<in> set fs. fence_live f resource now \<longrightarrow> strength f \<le> strength b)) \<and>
   (governing fs resource now = None \<longleftrightarrow> (\<forall>f \<in> set fs. \<not> fence_live f resource now)) \<and>
   ((\<exists>f \<in> set fs. fence_live f resource now \<and> fence_kind f = FK_Barrier) \<longrightarrow>
      (\<exists>b. governing fs resource now = Some b \<and> refuses_ingress b \<and> refuses_egress b))"
proof (intro conjI impI)
  show "\<forall>b. governing fs resource now = Some b \<longrightarrow> b \<in> set fs \<and> fence_live b resource now \<and>
      (\<forall>f \<in> set fs. fence_live f resource now \<longrightarrow> strength f \<le> strength b)"
    by (simp add: governing_strongest)
  show "governing fs resource now = None \<longleftrightarrow> (\<forall>f \<in> set fs. \<not> fence_live f resource now)"
    by (rule governing_None_iff)
  assume "\<exists>f \<in> set fs. fence_live f resource now \<and> fence_kind f = FK_Barrier"
  then show "\<exists>b. governing fs resource now = Some b \<and> refuses_ingress b \<and> refuses_egress b"
    using governing_barrier by blast
qed

theorem governing_fence_strongest_witness:
  "\<exists>b. governing [demo_fence] (StrongId 2) 5 = Some b \<and> refuses_ingress b \<and> refuses_egress b"
proof -
  have "fence_live demo_fence (StrongId 2) 5 \<and> fence_kind demo_fence = FK_Barrier"
    by (simp add: demo_fence_def fence_live_def fence_expired_at_def kNoTick_def)
  then show ?thesis using governing_fence_strongest [of "[demo_fence]" "StrongId 2" 5] by simp
qed

text \<open>
  C40. The fence table keeps its invariant (valid fences, distinct identities, bounded size)
  under every operation.
\<close>

theorem fence_table_invariant:
  assumes "fence_table_inv fs"
  shows "fence_table_inv (snd (fence_add fs f)) \<and> fence_table_inv (snd (fence_remove fs i)) \<and>
    fence_table_inv (snd (purge_stale fs e)) \<and> fence_table_inv (snd (fence_expire fs now)) \<and>
    (epoch_known e \<longrightarrow> fence_table_inv (snd (rebind_durable fs e)))"
  using assms by (simp add: fence_add_inv fence_remove_inv purge_stale_inv fence_expire_inv rebind_durable_inv)

theorem fence_table_invariant_witness:
  "fence_table_inv [] \<and> fence_table_inv (snd (fence_add [] demo_fence))"
  using fence_table_invariant [of "[]" demo_fence] by (simp add: fence_table_inv_def)

section \<open>Policies and signals\<close>

text \<open>
  A policy that validates has every traversal bound positive and limited, and its record
  budget covers its expansions and visits together.
\<close>

theorem policy_bounds:
  assumes "status_ok (policy_validate p)"
  shows "unat (pol_max_hops p) \<in> {1..64} \<and> unat (pol_max_expansions p) \<in> {1..2 ^ 24} \<and>
    unat (pol_max_visited p) \<in> {1..2 ^ 22} \<and> unat (pol_max_records p) \<in> {1..2 ^ 20} \<and>
    unat (pol_max_expansions p) + unat (pol_max_visited p) \<le> unat (pol_max_records p) \<and>
    (pol_allow_amplification p \<or> gain_is_unity (pol_max_cumulative_gain p)) \<and>
    effective_max_hops p h \<le> pol_max_hops p"
  using assms by (simp add: policy_validate_ok effective_max_hops_le)

theorem policy_bounds_witness: "unat (pol_max_hops demo_policy) \<in> {1..64}"
proof -
  have "status_ok (policy_validate demo_policy)" by code_simp
  then show ?thesis using policy_bounds [of demo_policy 0] by blast
qed

text \<open>
  Decay never raises a magnitude, never takes it below the floor (or below itself when it
  starts under the floor), and more steps or a smaller start never leave more pressure.
\<close>

theorem decay_bounds:
  "decay d m steps \<le> m \<and> min m (dec_floor d) \<le> decay d m steps \<and>
   (steps \<le> steps' \<longrightarrow> decay d m steps' \<le> decay d m steps) \<and>
   (m' \<le> m \<longrightarrow> decay d m' steps \<le> decay d m steps)"
  by (simp add: decay_le_start decay_ge_floor decay_antimono_steps decay_mono_start)

theorem decay_bounds_witness:
  "decay decay_schedule mag_full 3 \<le> decay decay_schedule mag_full 2"
  using decay_bounds [of decay_schedule mag_full 2 3 mag_full] by simp

text \<open>
  A signal's deadline is its explicit expiry, or its issue time plus the policy's
  lifetime, saturating at the largest tick rather than wrapping.
\<close>

theorem deadline_saturates:
  "unat (deadline s p) =
     (if sig_valid_until s \<noteq> kNoTick then unat (sig_valid_until s)
      else min (unat (sig_issued_at s) + unat (pol_lifetime_ticks p)) (2 ^ 64 - 1))"
  by (rule unat_deadline)

text \<open>
  A provenance chain keeps exactly the newest sixteen hops and counts the evicted ones.
\<close>

theorem provenance_keeps_newest:
  "prov_hops (foldl provenance_push provenance_empty hs) = drop (length hs - kMaxChain) hs \<and>
   prov_evictions (foldl provenance_push provenance_empty hs) = of_nat (length hs - kMaxChain)"
  by (rule provenance_push_all)

end
