(* ===== verification/Properties_Engine.thy ===== *)
theory Properties_Engine
  imports Demo
begin

text \<open>
  The properties of the engine: that propagation returns, what the hops it records satisfy,
  what an explanation accounts for, how pressure, budgets and the ledger behave, and what
  recovery does. The instances use the system of theory \<open>Demo\<close>.
\<close>

section \<open>Propagation\<close>

text \<open>
  C1. \<open>propagate\<close> terminates: on a well-formed topology (or none) the priority-queue
  traversals drain within their fuel and an outcome is returned, whatever the policy, ledger,
  fences and signals are.
\<close>

theorem propagate_terminates:
  assumes "\<And>t. ctx_topology ctx = Some t \<Longrightarrow> topology_wf t"
  shows "\<exists>w l. propagate ctx req = Some (w, l)"
  by (rule propagate_total [OF assms])

theorem propagate_terminates_witness: "\<exists>w l. propagate demo_context (demo_request False) = Some (w, l)"
  by (rule propagate_terminates) (auto simp: demo_context_def demo_topology_wf)




text \<open>
  One traversal never records more hops than the policy's expansions, never settles more
  nodes than its visits, and never emits more records than the record budget it was given.
\<close>

theorem traversal_budgets:
  assumes "topology_wf (env_topology env)" and "run_traversal env b signal pid acc c x t = Some (s, r)"
  shows "length (ex_hops (run_expl r)) \<le> length (ex_hops x) + unat (pol_max_expansions (env_policy env)) \<and>
    run_visited r \<le> unat (pol_max_visited (env_policy env)) \<and>
    length (ex_hops (run_expl r)) + length (ex_suppressed (run_expl r))
      \<le> length (ex_hops x) + length (ex_suppressed x) + unat b"
  using run_budget [OF assms] by simp

theorem traversal_budgets_witness:
  "\<exists>s r. run_traversal demo_env 8 demo_signal (StrongId 1) [] engine_counters propagation_explanation False = Some (s, r) \<and>
     run_visited r \<le> unat (pol_max_visited demo_policy)"
proof -
  have wf: "topology_wf (env_topology demo_env)" by (simp add: demo_env_def demo_topology_wf)
  then obtain s r where p: "run_traversal demo_env 8 demo_signal (StrongId 1) [] engine_counters
      propagation_explanation False = Some (s, r)"
    using run_traversal_returns [OF wf] by fast
  with traversal_budgets [OF wf p] show ?thesis by (auto simp: demo_env_def)
qed


text \<open>
  C23. A traversal that was not truncated explains every edge it considered: the number of
  edges considered is the number of hops recorded plus the counts of the suppression records,
  as long as no such count reached its 32-bit ceiling.
\<close>

theorem explanation_accounts_for_every_edge:
  assumes "topology_wf (env_topology env)" and "run_traversal env b signal pid acc c x t = Some (s, r)"
    and "\<not> run_truncated r" and "ex_hops x = []" and "ex_suppressed x = []"
    and "\<forall>s \<in> set (ex_suppressed (run_expl r)). se_count s \<noteq> 0xFFFFFFFF"
  shows "hops_considered (run_counters r) - hops_considered c =
    of_nat (length (ex_hops (run_expl r)) + emitted (ex_suppressed (run_expl r)))"
  using run_account [OF assms(1-4)] run_complete [OF assms(1-3,5,6)] by simp

theorem explanation_accounts_for_every_edge_witness:
  "\<exists>s r. run_traversal solo_env 8 demo_signal (StrongId 1) [] engine_counters propagation_explanation False = Some (s, r) \<and>
     hops_considered (run_counters r) =
       of_nat (length (ex_hops (run_expl r)) + emitted (ex_suppressed (run_expl r)))"
proof -
  have "case run_traversal solo_env 8 demo_signal (StrongId 1) [] engine_counters propagation_explanation False of
      None \<Rightarrow> False | Some (s, r) \<Rightarrow> \<not> run_truncated r \<and> ex_suppressed (run_expl r) = []"
    by code_simp
  then obtain s r where p: "run_traversal solo_env 8 demo_signal (StrongId 1) [] engine_counters
      propagation_explanation False = Some (s, r)" "\<not> run_truncated r" "ex_suppressed (run_expl r) = []"
    by (auto split: option.splits)
  have wf: "topology_wf (env_topology solo_env)" by (simp add: solo_env_def solo_topology_wf)
  from p explanation_accounts_for_every_edge [OF wf p(1,2)] show ?thesis
    by (simp add: propagation_explanation_def engine_counters_def)
qed


text \<open>
  C24. Each signal contributes at most once to a resource, and the contribution comes from the
  origin at the measured magnitude or from a recorded hop into the resource at the potential
  that hop carried.
\<close>

theorem contributes_once:
  assumes "topology_wf (env_topology env)" and "run_traversal env b signal pid acc c x t = Some (s, r)"
  shows "contributions_at (run_acc r) i = contributions_at acc i \<or>
    (\<exists>q. qe_node q = i \<and> justified env signal (ex_hops (run_expl r)) q \<and>
       contributions_at (run_acc r) i = add_contribution (contribution_from signal pid q) (contributions_at acc i))"
  by (rule run_once [OF assms])

theorem contributes_once_witness:
  "\<exists>s r. run_traversal demo_env 8 demo_signal (StrongId 1) [] engine_counters propagation_explanation False = Some (s, r) \<and>
     (contributions_at (run_acc r) 1 = (0, []) \<or>
       (\<exists>q. qe_node q = 1 \<and> justified demo_env demo_signal (ex_hops (run_expl r)) q \<and>
          contributions_at (run_acc r) 1 = (1, [contribution_from demo_signal (StrongId 1) q])))"
proof -
  have wf: "topology_wf (env_topology demo_env)" by (simp add: demo_env_def demo_topology_wf)
  then obtain s r where p: "run_traversal demo_env 8 demo_signal (StrongId 1) [] engine_counters
      propagation_explanation False = Some (s, r)"
    using run_traversal_returns [OF wf] by fast
  with contributes_once [OF wf p, of 1] show ?thesis by (auto simp: contributions_at_def add_contribution_def kMaxContributionsPerNode_def)
qed


text \<open>
  C22. Without a grant of amplification no resource receives more pressure than was measured
  somewhere: under every aggregation rule except the saturating sum, each applied magnitude
  is at most the largest observed magnitude of the request.
\<close>

theorem pressure_never_increases:
  assumes "propagate_valid topo policy ledger fences live_epoch req = Some (w, l)"
    and "topology_wf topo" and "pol_aggregation policy \<noteq> SaturatingSum"
    and "\<And>s. s \<in> set (req_signals req) \<Longrightarrow> \<not> amplification_granted policy s \<and> obs_magnitude (sig_observation s) \<le> m"
    and "n \<in> set (out_nodes w)"
  shows "no_applied n \<le> m"
  by (rule propagate_no_increase [OF assms])

theorem pressure_never_increases_witness:
  "\<exists>w l n. propagate_valid solo_topology demo_policy demo_ledger None (Epoch 1) (demo_request False) = Some (w, l) \<and>
     n \<in> set (out_nodes w) \<and> no_applied n \<le> mag_full"
proof -
  obtain w l where p: "propagate_valid solo_topology demo_policy demo_ledger None (Epoch 1) (demo_request False) = Some (w, l)"
    "out_nodes w \<noteq> []" by (rule solo_propagates)
  then obtain n where n: "n \<in> set (out_nodes w)" by (meson list.set_sel(1))
  have "pol_aggregation demo_policy \<noteq> SaturatingSum" "\<not> pol_allow_amplification demo_policy" by code_simp+
  then have "no_applied n \<le> mag_full"
    by (intro pressure_never_increases [OF p(1) solo_topology_wf _ _ n]) (auto simp: amplification_granted_def mag_le_full)
  with p n show ?thesis by blast
qed


text \<open>
  C32. Applied pressure never exceeds the policy's aggregation ceiling, and a resource that
  received nothing has none applied.
\<close>

theorem applied_within_ceiling:
  assumes "propagate ctx req = Some (w, l)" and "ctx_policy ctx = Some policy" and "n \<in> set (out_nodes w)"
  shows "no_applied n \<le> pol_aggregation_ceiling policy \<and> (\<not> no_received n \<longrightarrow> no_applied n = mag_zero)"
  using propagate_applied_ceiling [OF assms] by blast

theorem applied_within_ceiling_witness:
  "\<exists>w l. propagate demo_context (demo_request False) = Some (w, l) \<and>
     (\<forall>n \<in> set (out_nodes w). no_applied n \<le> pol_aggregation_ceiling demo_policy)"
proof -
  have "topology_wf t" if "ctx_topology demo_context = Some t" for t
    using that by (simp add: demo_context_def demo_topology_wf)
  then obtain w l where p: "propagate demo_context (demo_request False) = Some (w, l)"
    using propagate_total by blast
  moreover have "ctx_policy demo_context = Some demo_policy" by (simp add: demo_context_def)
  ultimately show ?thesis using applied_within_ceiling by blast
qed








section \<open>The ledger\<close>

text \<open>
  C25. Propagation and recovery keep the ledger's invariant: the lineage order lists exactly
  the lineage set without repetition, the tables have distinct keys, and nothing outgrows its
  capacity.
\<close>

theorem ledger_invariant:
  assumes "ledger_inv ledger" and "ctx_ledger ctx = Some ledger"
  shows "(\<forall>w l. propagate ctx req = Some (w, Some l) \<longrightarrow> ledger_inv l) \<and>
    (\<forall>w l. recover ctx rreq = (w, Some l) \<longrightarrow> ledger_inv l)"
  using assms propagate_ledger_inv recover_ledger_inv by blast

theorem ledger_invariant_witness:
  "\<exists>w l. propagate demo_context (demo_request False) = Some (w, Some l) \<and> ledger_inv l"
proof -
  obtain w l where "propagate_valid demo_topology demo_policy demo_ledger None (Epoch 1) (demo_request False) = Some (w, l)"
    using propagate_valid_returns [OF demo_topology_wf] by fast
  then have "propagate demo_context (demo_request False) = Some (w, Some l)"
    by (simp add: propagate_def demo_context_def)
  then show ?thesis
    using ledger_invariant [of demo_ledger demo_context "demo_request False"]
    by (auto simp: demo_context_def demo_ledger_def ledger_inv_start)
qed

text \<open>
  A dry run leaves the ledger as it was, and so does a recovery request that is refused.
\<close>

theorem dry_run_untouched:
  assumes "req_dry_run req" and "rcv_dry_run rreq"
  shows "(\<forall>w l. propagate ctx req = Some (w, l) \<longrightarrow> l = ctx_ledger ctx) \<and> snd (recover ctx rreq) = ctx_ledger ctx"
  using assms propagate_ledger [of ctx req] recover_dry [of rreq ctx] by blast

theorem dry_run_untouched_witness: "snd (recover demo_context (demo_recovery True)) = Some demo_ledger"
  using dry_run_untouched [of "demo_request True" "demo_recovery True" demo_context]
  by (simp add: demo_request_def demo_recovery_def demo_context_def)


text \<open>
  C3. Publishing the same request again has no effect: once a request changed the ledger, and
  while the lineage window has room for its signals, the same request against the new ledger
  changes nothing and applies pressure nowhere, under whatever fences and epoch.
\<close>

theorem replay_has_no_effect:
  assumes "propagate_valid topo policy ledger fences live_epoch req = Some (w, l)" and "l \<noteq> ledger"
    and "ledger_inv ledger"
    and "length (lineage_order ledger) + length (req_signals req) \<le> lineage_capacity ledger"
    and "propagate_valid topo policy l fences' live_epoch' req = Some (w', l')"
  shows "l' = l \<and> out_nodes w' = []"
  using propagate_valid_twice [OF assms] by blast

theorem replay_has_no_effect_witness:
  "\<exists>w l w' l'. propagate_valid solo_topology demo_policy demo_ledger None (Epoch 1) (demo_request False) = Some (w, l) \<and> l \<noteq> demo_ledger \<and>
     propagate_valid solo_topology demo_policy l None (Epoch 1) (demo_request False) = Some (w', l') \<and>
     l' = l \<and> out_nodes w' = []"
proof -
  obtain w l where p: "propagate_valid solo_topology demo_policy demo_ledger None (Epoch 1) (demo_request False) = Some (w, l)"
    "has_lineage l demo_digest" by (rule solo_propagates)
  moreover have ne: "l \<noteq> demo_ledger" using p(2) by (auto simp: has_lineage_def demo_ledger_def propagation_ledger_def)
  moreover obtain w' l' where q: "propagate_valid solo_topology demo_policy l None (Epoch 1) (demo_request False) = Some (w', l')"
    using propagate_valid_returns [OF solo_topology_wf] by fast
  moreover have "l' = l \<and> out_nodes w' = []"
    using replay_has_no_effect [OF p(1) ne _ _ q]
    by (simp add: demo_ledger_def ledger_inv_start) (simp add: propagation_ledger_def demo_request_def)
  ultimately show ?thesis by blast
qed


text \<open>
  Marking a lineage records it, reports whether it was new, is idempotent, and forgets
  nothing until the window is full, when it forgets exactly the oldest.
\<close>

theorem lineage_window:
  assumes "ledger_inv l"
  shows "has_lineage (snd (mark_lineage l d)) d \<and> (fst (mark_lineage l d) \<longleftrightarrow> \<not> has_lineage l d) \<and>
    mark_lineage (snd (mark_lineage l d)) d = (False, snd (mark_lineage l d)) \<and>
    (has_lineage l d \<or> lineage_order (snd (mark_lineage l d)) =
       drop (Suc (length (lineage_order l)) - lineage_capacity l) (lineage_order l) @ [d])"
  using assms mark_lineage_marked [OF assms, of d] mark_lineage_idempotent [OF assms, of d]
  by (auto simp: mark_lineage_new mark_lineage_eq [OF assms] ledger_inv_def drop_Suc)

theorem lineage_window_witness: "lineage_order (snd (mark_lineage demo_ledger demo_digest)) = [demo_digest]"
  using lineage_window [of demo_ledger demo_digest]
  by (simp add: demo_ledger_def ledger_inv_start) (simp add: propagation_ledger_def has_lineage_def)


section \<open>Recovery\<close>

text \<open>
  C26. A recovery that passes its checks rewrites exactly the source's present applications,
  each to a decayed magnitude that is neither above what was applied nor above the residual
  the request declares, and touches nothing else of the ledger.
\<close>

theorem recovery_exact:
  assumes "recover_valid topo policy ledger live_epoch req = (w, l)" and "ledger_inv ledger"
    and "status_ok (recovery_check topo policy live_epoch req)" and "\<not> rcv_dry_run req"
  shows "out_status w = status_success \<and> out_complete w \<and>
    lineage_order l = lineage_order ledger \<and> led_damping l = led_damping ledger \<and>
    (\<forall>source resource.
       if source = rcv_source req \<and> rec_present (application ledger source resource)
       then application l source resource =
           \<lparr>rec_magnitude = decayed_magnitude policy req resource (application ledger source resource),
            rec_tick = rcv_now req, rec_present = True\<rparr> \<and>
         rec_magnitude (application l source resource) \<le> rec_magnitude (application ledger source resource) \<and>
         rec_magnitude (application l source resource) \<le> rcv_residual req
       else application l source resource = application ledger source resource)"
proof -
  note facts = recover_valid_ledger [OF assms]
  show ?thesis
    using facts(2-5) facts(1) by (auto simp: application_def recovered_def decayed_magnitude_le)
qed

theorem recovery_exact_witness:
  "\<exists>w l. recover_valid demo_topology demo_policy demo_pressed (Epoch 1) (demo_recovery False) = (w, l) \<and>
     rec_magnitude (application l (StrongId 1) (StrongId 2)) = mag_zero"
proof -
  obtain w l where p: "recover_valid demo_topology demo_policy demo_pressed (Epoch 1) (demo_recovery False) = (w, l)"
    by (rule prod.exhaust)
  have i: "ledger_inv demo_pressed" by (simp add: demo_pressed_def record_application_inv demo_ledger_def ledger_inv_start)
  have c: "status_ok (recovery_check demo_topology demo_policy (Epoch 1) (demo_recovery False))" by code_simp
  have "rec_present (application demo_pressed (StrongId 1) (StrongId 2))" by code_simp
  then have "rec_magnitude (application l (StrongId 1) (StrongId 2)) \<le> mag_zero"
    using recovery_exact [OF p i c] decayed_magnitude_le(2) [of demo_policy "demo_recovery False"]
    by (simp add: demo_recovery_def)
  with p show ?thesis by (simp add: antisym)
qed

section \<open>The fingerprint\<close>

text \<open>
  The fingerprint of an explanation does not depend on how many edges a suppression record
  stands for, nor on the counters: two different explanations of this kind share it.
\<close>

theorem fingerprint_ignores_counts:
  "ex_fingerprint (explanation_finalize (x\<lparr>ex_counters := c, ex_suppressed := map (se_count_update f) (ex_suppressed x)\<rparr>)) =
   ex_fingerprint (explanation_finalize x)"
  by (simp add: explanation_finalize_def o_def suppressed_updates_def [abs_def])

end
