(* ===== verification/Journal.thy ===== *)
theory Journal
  imports Generations ByteIO
begin

text \<open>
  The crash-safe append-only journal: \<open>include/backpressure/store/journal.hpp\<close>,
  \<open>src/store/journal.cpp\<close> and the file primitives of
  \<open>include/backpressure/store/fsutil.hpp\<close> it is built from.

  The file behind the journal's handle is a record: its bytes (none when the file does not
  exist), how many of them a successful \<open>fsync\<close> has made durable, and a tape of outcomes for
  the coming calls of the C library, so that every theorem holds whichever calls fail. A
  failed write leaves some of its bytes in the file, a failed read stops at some byte. A call
  with no outcome left on the tape succeeds. Writes go to the end of the file, because every
  path seeks there first. A crash keeps the durable bytes and any number of the later ones.
  The journal carries its file in the field \<open>jn_file\<close>. File sizes and byte counts are
  natural numbers; sequence numbers and the counters of the statistics are 64-bit words.
\<close>

section \<open>The file\<close>

datatype IoOutcome = Done | Failed nat

record JournalFile =
  file_bytes :: "u8 list option"
  file_durable :: nat
  file_tape :: "IoOutcome list"

definition io_next :: "JournalFile \<Rightarrow> IoOutcome \<times> JournalFile" where
  "io_next f =
     (case file_tape f of [] \<Rightarrow> (Done, f) | x # xs \<Rightarrow> (x, f\<lparr>file_tape := xs\<rparr>))"

definition io_status :: "string \<Rightarrow> JournalFile \<Rightarrow> Status \<times> JournalFile" where
  "io_status what f =
     (let (x, f1) = io_next f
      in (if x = Done then status_success else status_error IoError what 0, f1))"

definition file_contents :: "JournalFile \<Rightarrow> u8 list" where
  "file_contents f = (case file_bytes f of None \<Rightarrow> [] | Some bs \<Rightarrow> bs)"

definition fwrite :: "string \<Rightarrow> u8 list \<Rightarrow> JournalFile \<Rightarrow> Status \<times> JournalFile" where
  "fwrite what bs f =
     (let (x, f1) = io_next f
      in case x of
           Done \<Rightarrow> (status_success, f1\<lparr>file_bytes := Some (file_contents f1 @ bs)\<rparr>)
         | Failed n \<Rightarrow> (status_error IoError what 0,
             f1\<lparr>file_bytes := Some (file_contents f1 @ take n (butlast bs))\<rparr>))"

text \<open>What a sequence of \<open>fread\<close> calls from the start delivers.\<close>

definition fread_all :: "JournalFile \<Rightarrow> u8 list \<times> JournalFile" where
  "fread_all f =
     (let (x, f1) = io_next f
      in (case x of Done \<Rightarrow> file_contents f1 | Failed n \<Rightarrow> take n (file_contents f1), f1))"

text \<open>\<open>BPFAB_TRY(first); rest\<close> where both change a state.\<close>

definition try_state :: "Status \<times> 's \<Rightarrow> ('s \<Rightarrow> Status \<times> 's) \<Rightarrow> Status \<times> 's" where
  "try_state p k = (if status_ok (fst p) then k (snd p) else p)"

definition sync_handle :: "JournalFile \<Rightarrow> Status \<times> JournalFile" where
  "sync_handle f =
     try_state (io_status ''fflush'' f) (\<lambda>f1.
     try_state (io_status ''fsync'' f1) (\<lambda>f2.
       (status_success, f2\<lparr>file_durable := length (file_contents f2)\<rparr>)))"

definition truncate_handle :: "nat \<Rightarrow> JournalFile \<Rightarrow> Status \<times> JournalFile" where
  "truncate_handle n f =
     try_state (io_status ''truncate'' f) (\<lambda>f1.
       (status_success, f1\<lparr>file_bytes := Some (take n (file_contents f1)),
                          file_durable := min n (file_durable f1)\<rparr>))"

definition seek_end :: "JournalFile \<Rightarrow> Status \<times> JournalFile" where
  "seek_end f = io_status ''seek end'' f"

text \<open>
  \<open>write_file_atomic\<close>: the temporary file is opened, written, made durable and renamed. A
  failure at any point leaves the target as it was.
\<close>

definition write_file_atomic :: "u8 list \<Rightarrow> JournalFile \<Rightarrow> Status \<times> JournalFile" where
  "write_file_atomic bs f =
     try_state (io_status ''open temp for write'' f) (\<lambda>f1.
     try_state (if bs = [] then (status_success, f1) else io_status ''short write'' f1) (\<lambda>f2.
     try_state (io_status ''fflush'' f2) (\<lambda>f3.
     try_state (io_status ''fsync'' f3) (\<lambda>f4.
     try_state (io_status ''atomic rename'' f4) (\<lambda>f5.
       (status_success, f5\<lparr>file_bytes := Some bs, file_durable := length bs\<rparr>))))))"

text \<open>What a crash may leave: the durable bytes and the first \<open>k\<close> if that is more.\<close>

definition crash :: "nat \<Rightarrow> JournalFile \<Rightarrow> JournalFile" where
  "crash k f = f\<lparr>file_bytes := map_option (take (max k (file_durable f))) (file_bytes f)\<rparr>"

section \<open>Records\<close>

datatype RecordType =
  RT_Epoch | RT_Boot | RT_Policy | RT_FencePut | RT_FenceRemove | RT_TopologyBinding | RT_Lineage
  | RT_Revalidation | RT_AttemptBegin | RT_AttemptCommit | RT_AttemptAbort | RT_Compaction | RT_Count

fun record_type_value :: "RecordType \<Rightarrow> u16" where
  "record_type_value RT_Epoch = 1"
| "record_type_value RT_Boot = 2"
| "record_type_value RT_Policy = 3"
| "record_type_value RT_FencePut = 4"
| "record_type_value RT_FenceRemove = 5"
| "record_type_value RT_TopologyBinding = 6"
| "record_type_value RT_Lineage = 7"
| "record_type_value RT_Revalidation = 8"
| "record_type_value RT_AttemptBegin = 9"
| "record_type_value RT_AttemptCommit = 10"
| "record_type_value RT_AttemptAbort = 11"
| "record_type_value RT_Compaction = 12"
| "record_type_value RT_Count = 13"

fun record_type_to_string :: "RecordType \<Rightarrow> string" where
  "record_type_to_string RT_Epoch = ''Epoch''"
| "record_type_to_string RT_Boot = ''Boot''"
| "record_type_to_string RT_Policy = ''Policy''"
| "record_type_to_string RT_FencePut = ''FencePut''"
| "record_type_to_string RT_FenceRemove = ''FenceRemove''"
| "record_type_to_string RT_TopologyBinding = ''TopologyBinding''"
| "record_type_to_string RT_Lineage = ''Lineage''"
| "record_type_to_string RT_Revalidation = ''Revalidation''"
| "record_type_to_string RT_AttemptBegin = ''AttemptBegin''"
| "record_type_to_string RT_AttemptCommit = ''AttemptCommit''"
| "record_type_to_string RT_AttemptAbort = ''AttemptAbort''"
| "record_type_to_string RT_Compaction = ''Compaction''"
| "record_type_to_string RT_Count = ''Invalid''"

definition all_record_types :: "RecordType list" where
  "all_record_types =
     [RT_Epoch, RT_Boot, RT_Policy, RT_FencePut, RT_FenceRemove, RT_TopologyBinding, RT_Lineage,
      RT_Revalidation, RT_AttemptBegin, RT_AttemptCommit, RT_AttemptAbort, RT_Compaction]"

text \<open>The guard \<open>raw == 0 || raw >= Count\<close> and the cast after it.\<close>

definition record_type_of :: "u16 \<Rightarrow> RecordType option" where
  "record_type_of raw = List.find (\<lambda>t. record_type_value t = raw) all_record_types"

record JournalLimits =
  jl_max_record_bytes :: nat
  jl_max_records :: nat
  jl_max_file_bytes :: nat
  jl_max_retained_bytes :: nat

definition journal_limits :: JournalLimits where
  "journal_limits = \<lparr>jl_max_record_bytes = 2 ^ 12, jl_max_records = 2 ^ 18,
     jl_max_file_bytes = 2 ^ 30, jl_max_retained_bytes = 2 ^ 28\<rparr>"

record JournalRecord =
  jr_sequence :: u64
  jr_type :: RecordType
  jr_tick :: Tick
  jr_epoch :: Epoch
  jr_chain :: Digest128
  jr_payload :: "u8 list"

definition journal_record :: JournalRecord where
  "journal_record = \<lparr>jr_sequence = 0, jr_type = RT_Epoch, jr_tick = kNoTick, jr_epoch = epoch_none,
     jr_chain = digest_zero, jr_payload = []\<rparr>"

record JournalStats =
  js_records :: u64
  js_bytes :: u64
  js_truncated_tail_records :: u64
  js_sequence :: u64
  js_chain :: Digest128
  js_repaired :: bool

definition journal_stats :: JournalStats where
  "journal_stats = \<lparr>js_records = 0, js_bytes = 0, js_truncated_tail_records = 0, js_sequence = 0,
     js_chain = digest_zero, js_repaired = False\<rparr>"

record Journal =
  jn_limits :: JournalLimits
  jn_handle :: bool
  jn_records :: "JournalRecord list"
  jn_stats :: JournalStats
  jn_file_bytes :: nat
  jn_retained_bytes :: nat
  jn_file :: JournalFile

definition kHeaderBytes :: nat where
  "kHeaderBytes = 32"

definition kRecordHeaderBytes :: nat where
  "kRecordHeaderBytes = 52"

definition kMagic :: "u8 list" where
  "kMagic = as_bytes ''BPFABJ01''"

definition kFormatVersion :: u16 where
  "kFormatVersion = 1"

definition kHeaderMagicCrcSeed :: u32 where
  "kHeaderMagicCrcSeed = 0x42414650"

section \<open>Layout\<close>

definition get_u16 :: "u8 list \<Rightarrow> nat \<Rightarrow> u16" where
  "get_u16 bs k = le_decode (take 2 (drop k bs))"

definition get_u32 :: "u8 list \<Rightarrow> nat \<Rightarrow> u32" where
  "get_u32 bs k = le_decode (take 4 (drop k bs))"

definition get_u64 :: "u8 list \<Rightarrow> nat \<Rightarrow> u64" where
  "get_u64 bs k = le_decode (take 8 (drop k bs))"

definition chain_of ::
  "Digest128 \<Rightarrow> u64 \<Rightarrow> RecordType \<Rightarrow> Tick \<Rightarrow> Epoch \<Rightarrow> u8 list \<Rightarrow> Digest128" where
  "chain_of previous sequence type tick epoch payload =
     finish (feed [domain 0x90, update_digest previous, update_u64 sequence,
       update_u16 (record_type_value type), update_u64 tick, digest_epoch epoch, update payload] digest_builder)"

text \<open>The 28 bytes the header's checksum covers, and the header.\<close>

definition header_fields :: "u8 list" where
  "header_fields =
     kMagic @ le_encode 2 kFormatVersion @ le_encode 2 (0 :: u16) @
     le_encode 4 (of_nat kHeaderBytes :: u32) @ le_encode 8 (0 :: u64) @ le_encode 4 (0 :: u32)"

definition journal_header :: "u8 list" where
  "journal_header = header_fields @ le_encode 4 (crc32_update kHeaderMagicCrcSeed header_fields)"

text \<open>The header bytes 8 to 51 of a record, and the whole record: length, checksum, header, payload.\<close>

definition record_fields :: "JournalRecord \<Rightarrow> u8 list" where
  "record_fields r =
     le_encode 8 (jr_sequence r) @ le_encode 2 (record_type_value (jr_type r)) @ le_encode 2 (0 :: u16) @
     le_encode 8 (jr_tick r) @ le_encode 8 (epoch_value (jr_epoch r)) @
     le_encode 8 (dg_hi (jr_chain r)) @ le_encode 8 (dg_lo (jr_chain r))"

definition record_bytes :: "JournalRecord \<Rightarrow> u8 list" where
  "record_bytes r =
     le_encode 4 (of_nat (length (jr_payload r)) :: u32) @
     le_encode 4 (crc32_update (crc32 (record_fields r)) (jr_payload r)) @
     record_fields r @ jr_payload r"

section \<open>Replay\<close>

definition header_check :: "u8 list \<Rightarrow> Status" where
  "header_check visible =
     (let header = take kHeaderBytes visible
      in if length header \<noteq> kHeaderBytes then status_error TruncatedInput ''journal header'' 0
         else if take 8 header \<noteq> kMagic then status_error MalformedInput ''journal magic'' 0
         else if get_u16 header 8 \<noteq> kFormatVersion then
           status_error VersionMismatch ''journal version'' (ucast (get_u16 header 8))
         else if crc32_update kHeaderMagicCrcSeed (take 28 header) \<noteq> get_u32 header 28 then
           status_error IntegrityMismatch ''journal header crc'' 0
         else status_success)"

text \<open>
  One turn of the loop: the next record, or none when any of the checks stops the replay with
  a truncated tail.
\<close>

definition next_record ::
  "JournalLimits \<Rightarrow> JournalRecord list \<Rightarrow> Digest128 \<Rightarrow> u8 list \<Rightarrow> JournalRecord option" where
  "next_record limits records previous rest =
     (let header = take kRecordHeaderBytes rest;
          len = unat (get_u32 header 0);
          stored_crc = get_u32 header 4;
          payload = take len (drop kRecordHeaderBytes rest)
      in if length header \<noteq> kRecordHeaderBytes then None
         else if len > jl_max_record_bytes limits then None
         else if length records \<ge> jl_max_records limits then None
         else if length payload \<noteq> len then None
         else if crc32_update (crc32 (drop 8 header)) payload \<noteq> stored_crc then None
         else case record_type_of (get_u16 header 16) of
           None \<Rightarrow> None
         | Some type \<Rightarrow>
             let r = \<lparr>jr_sequence = get_u64 header 8, jr_type = type, jr_tick = get_u64 header 20,
                   jr_epoch = epoch_from_raw (get_u64 header 28),
                   jr_chain = \<lparr>dg_hi = get_u64 header 36, dg_lo = get_u64 header 44\<rparr>, jr_payload = payload\<rparr>
             in if chain_of previous (jr_sequence r) type (jr_tick r) (jr_epoch r) payload \<noteq> jr_chain r then None
                else if records \<noteq> [] \<and> jr_sequence r \<noteq> jr_sequence (last records) + 1 then None
                else if records = [] \<and> jr_sequence r \<noteq> 1 then None
                else Some r)"

definition count_torn :: "Journal \<Rightarrow> Journal" where
  "count_torn j = j\<lparr>jn_stats := (jn_stats j)
     \<lparr>js_truncated_tail_records := js_truncated_tail_records (jn_stats j) + 1\<rparr>\<rparr>"

function replay_records ::
  "u8 list \<Rightarrow> nat \<Rightarrow> Digest128 \<Rightarrow> Journal \<Rightarrow> (nat \<times> Digest128) result \<times> Journal" where
  "replay_records rest offset previous j =
     (if rest = [] then (Inr (offset, previous), j)
      else case next_record (jn_limits j) (jn_records j) previous rest of
        None \<Rightarrow> (Inr (offset, previous), count_torn j)
      | Some r \<Rightarrow>
          let n = length (jr_payload r);
              j1 = j\<lparr>jn_stats := (jn_stats j)\<lparr>js_sequence := jr_sequence r\<rparr>,
                    jn_retained_bytes := jn_retained_bytes j + n\<rparr>
          in if jn_retained_bytes j1 > jl_max_retained_bytes (jn_limits j) then
               (fail LimitExceeded ''journal retained bytes'' (of_nat (jn_retained_bytes j1)), j1)
             else replay_records (drop (kRecordHeaderBytes + n) rest) (offset + kRecordHeaderBytes + n)
               (jr_chain r) (j1\<lparr>jn_records := jn_records j @ [r]\<rparr>))"
  by pat_completeness auto
termination
  by (relation "measure (\<lambda>(rest, _, _, _). length rest)") (auto simp: kRecordHeaderBytes_def)

declare replay_records.simps [simp del]

definition on_file :: "(JournalFile \<Rightarrow> Status \<times> JournalFile) \<Rightarrow> Journal \<Rightarrow> Status \<times> Journal" where
  "on_file f j = (let (s, d) = f (jn_file j) in (s, j\<lparr>jn_file := d\<rparr>))"

text \<open>After the loop: the statistics, and the repair of a file longer than what was accepted.\<close>

definition replay_finish :: "nat \<Rightarrow> Digest128 \<Rightarrow> Journal \<Rightarrow> Status \<times> Journal" where
  "replay_finish offset previous j0 =
     (let j = j0\<lparr>jn_stats := (jn_stats j0)\<lparr>js_records := of_nat (length (jn_records j0)),
                 js_chain := previous, js_bytes := of_nat offset\<rparr>\<rparr>;
          (sized, d) = io_status ''file size'' (jn_file j);
          j1 = j\<lparr>jn_file := d\<rparr>
      in try_state
           (if status_ok sized \<and> length (file_contents d) > offset then
              try_state (on_file (truncate_handle offset) j1) (\<lambda>j2.
                (status_success, j2\<lparr>jn_stats := (jn_stats j2)\<lparr>js_repaired := True\<rparr>\<rparr>))
            else (status_success, j1))
           (\<lambda>j3. try_state (on_file seek_end j3) (\<lambda>j4. (status_success, j4\<lparr>jn_file_bytes := offset\<rparr>))))"

definition replay_file :: "Journal \<Rightarrow> Status \<times> Journal" where
  "replay_file j =
     try_state (on_file (io_status ''seek start'') j) (\<lambda>j1.
       let (visible, d) = fread_all (jn_file j1); j2 = j1\<lparr>jn_file := d\<rparr>;
           s = header_check visible
       in if \<not> status_ok s then (s, j2)
          else case replay_records (drop kHeaderBytes visible) kHeaderBytes digest_zero j2 of
            (Inl e, j3) \<Rightarrow> (e, j3)
          | (Inr (offset, previous), j3) \<Rightarrow> replay_finish offset previous j3)"

section \<open>Operations\<close>

definition write_header :: "Journal \<Rightarrow> Status \<times> Journal" where
  "write_header j =
     try_state (on_file (fwrite ''write journal header'' journal_header) j) (\<lambda>j1.
     try_state (on_file (io_status ''flush journal header'') j1) (\<lambda>j2.
       (status_success, j2\<lparr>jn_file_bytes := kHeaderBytes\<rparr>)))"

definition open_handle :: "Journal \<Rightarrow> Status \<times> Journal" where
  "open_handle j =
     (let j0 = j\<lparr>jn_handle := False\<rparr>; (s, d) = io_status ''open journal'' (jn_file j0)
      in if \<not> status_ok s \<or> file_bytes d = None then
           (status_error IoError ''open journal'' 0, j0\<lparr>jn_file := d\<rparr>)
         else (status_success, j0\<lparr>jn_file := d, jn_handle := True\<rparr>))"

definition journal_closed :: "JournalLimits \<Rightarrow> JournalFile \<Rightarrow> Journal" where
  "journal_closed limits d =
     \<lparr>jn_limits = limits, jn_handle = False, jn_records = [], jn_stats = journal_stats,
      jn_file_bytes = 0, jn_retained_bytes = 0, jn_file = d\<rparr>"

text \<open>\<open>fopen(path, "w+b")\<close> creates the file, empty.\<close>

definition create_handle :: "Journal \<Rightarrow> Status \<times> Journal" where
  "create_handle j =
     try_state (on_file (io_status ''create journal'') j) (\<lambda>j1.
       (status_success, j1\<lparr>jn_handle := True,
          jn_file := (jn_file j1)\<lparr>file_bytes := Some [], file_durable := 0\<rparr>\<rparr>))"

definition journal_open ::
  "JournalLimits \<Rightarrow> bool \<Rightarrow> JournalFile \<Rightarrow> Journal result \<times> JournalFile" where
  "journal_open limits create_if_missing d =
     (if jl_max_record_bytes limits < 16 \<or> jl_max_records limits = 0 \<or>
         jl_max_file_bytes limits < kHeaderBytes then
        (fail InvalidArgument ''journal limits'' 0, d)
      else if file_bytes d = None \<and> \<not> create_if_missing then
        (fail NotFound ''journal missing'' 0, d)
      else
        let (s, j) = (if file_bytes d = None
                      then try_state (create_handle (journal_closed limits d)) write_header
                      else open_handle (journal_closed limits d))
        in if \<not> status_ok s then (Inl s, jn_file j)
           else
             let (s', j') = replay_file j
             in if \<not> status_ok s' then (fail (st_code s') (st_context s') 0, jn_file j')
                else (Inr j', jn_file j'))"

definition journal_append ::
  "RecordType \<Rightarrow> Tick \<Rightarrow> Epoch \<Rightarrow> u8 list \<Rightarrow> Journal \<Rightarrow> Status \<times> Journal" where
  "journal_append type tick epoch payload j =
     (let limits = jn_limits j; n = kRecordHeaderBytes + length payload
      in if \<not> jn_handle j then (status_error NotReady ''journal closed'' 0, j)
         else if type = RT_Count then (status_error InvalidArgument ''record type'' 0, j)
         else if length payload > jl_max_record_bytes limits then
           (status_error OversizedInput ''record payload'' (of_nat (length payload)), j)
         else if length (jn_records j) \<ge> jl_max_records limits then
           (status_error LimitExceeded ''journal records'' (of_nat (length (jn_records j))), j)
         else if jn_file_bytes j + n > jl_max_file_bytes limits then
           (status_error LimitExceeded ''journal file bytes'' (of_nat (jn_file_bytes j)), j)
         else if jn_retained_bytes j + length payload > jl_max_retained_bytes limits then
           (status_error LimitExceeded ''journal retained bytes'' (of_nat (jn_retained_bytes j)), j)
         else
           let sequence = js_sequence (jn_stats j) + 1;
               r = \<lparr>jr_sequence = sequence, jr_type = type, jr_tick = tick, jr_epoch = epoch,
                    jr_chain = chain_of (js_chain (jn_stats j)) sequence type tick epoch payload,
                    jr_payload = payload\<rparr>
           in try_state (on_file (fwrite ''journal append'' (record_bytes r)) j) (\<lambda>j1.
                (status_success, j1
                  \<lparr>jn_stats := (jn_stats j1)\<lparr>js_sequence := sequence, js_chain := jr_chain r,
                     js_records := of_nat (length (jn_records j1) + 1),
                     js_bytes := of_nat (jn_file_bytes j1 + n)\<rparr>,
                   jn_file_bytes := jn_file_bytes j1 + n,
                   jn_retained_bytes := jn_retained_bytes j1 + length payload,
                   jn_records := jn_records j1 @ [r]\<rparr>)))"

definition journal_flush :: "Journal \<Rightarrow> Status \<times> Journal" where
  "journal_flush j =
     (if \<not> jn_handle j then (status_error NotReady ''journal closed'' 0, j)
      else on_file (io_status ''journal flush'') j)"

definition journal_sync :: "Journal \<Rightarrow> Status \<times> Journal" where
  "journal_sync j =
     (if \<not> jn_handle j then (status_error NotReady ''journal closed'' 0, j)
      else on_file sync_handle j)"

text \<open>The image that \<open>rewrite\<close> builds: the records re-sequenced from one and re-chained.\<close>

fun rewrite_image ::
  "JournalLimits \<Rightarrow> Digest128 \<Rightarrow> u64 \<Rightarrow> JournalRecord list \<Rightarrow> u8 list \<Rightarrow> u8 list result" where
  "rewrite_image limits previous sequence [] buffer = Inr buffer"
| "rewrite_image limits previous sequence (r # rs) buffer =
     (if length (jr_payload r) > jl_max_record_bytes limits then
        fail OversizedInput ''rewrite payload'' (of_nat (length (jr_payload r)))
      else
        let s = sequence + 1;
            chain = chain_of previous s (jr_type r) (jr_tick r) (jr_epoch r) (jr_payload r);
            buffer' = buffer @ record_bytes (r\<lparr>jr_sequence := s, jr_chain := chain\<rparr>)
        in if length buffer' > jl_max_file_bytes limits then
             fail LimitExceeded ''rewrite file bytes'' (of_nat (length buffer'))
           else rewrite_image limits chain s rs buffer')"

definition journal_rewrite :: "JournalRecord list \<Rightarrow> Journal \<Rightarrow> Status \<times> Journal" where
  "journal_rewrite records j =
     (if length records > jl_max_records (jn_limits j) then
        (status_error LimitExceeded ''rewrite records'' (of_nat (length records)), j)
      else case rewrite_image (jn_limits j) digest_zero 0 records journal_header of
        Inl s \<Rightarrow> (s, j)
      | Inr buffer \<Rightarrow>
          try_state (on_file (write_file_atomic buffer)
            (j\<lparr>jn_handle := False, jn_records := [], jn_stats := journal_stats, jn_retained_bytes := 0,
               jn_file_bytes := 0\<rparr>)) (\<lambda>j1.
          try_state (open_handle j1) replay_file))"

definition journal_close :: "Journal \<Rightarrow> Journal" where
  "journal_close j = j\<lparr>jn_handle := False\<rparr>"

end
