(* ===== verification/Durable.thy ===== *)
theory Durable
  imports Journal Policy Fence
begin

text \<open>
  The durable state of the fabric: \<open>include/backpressure/store/durable_state.hpp\<close> and
  \<open>src/store/durable_state.cpp\<close>.

  Serialisation is written with the writers and readers of theory \<open>ByteIO\<close>. A
  \<open>DurableStore\<close> is a record of its configuration, its journal, the lock it holds, the
  recovered state and the attempts in flight; a method returns its status and the new store.
  \<open>apply_record\<close> and \<open>replay\<close> return the store or the error: they run only inside
  \<open>DurableStore::open\<close>, which drops the store when they fail. What the operating system
  answers when the directory is prepared and locked is an argument of \<open>store_open\<close>.
\<close>

section \<open>Payloads\<close>

definition payload_of :: "nat \<Rightarrow> (ByteWriter \<Rightarrow> Status \<times> ByteWriter) list \<Rightarrow> u8 list result" where
  "payload_of max_bytes fs =
     (let (s, w) = writes fs (byte_writer max_bytes) in if status_ok s then Inr (wr_buffer w) else Inl s)"

definition try_payload :: "u8 list result \<Rightarrow> 's \<Rightarrow> (u8 list \<Rightarrow> Status \<times> 's) \<Rightarrow> Status \<times> 's" where
  "try_payload p s k = (case p of Inl e \<Rightarrow> (e, s) | Inr bs \<Rightarrow> k bs)"

text \<open>\<open>BPFAB_TRY_ASSIGN(v, pure)\<close> and \<open>BPFAB_TRY(reader.expect_end())\<close> among reads.\<close>

definition then_value :: "'a result \<Rightarrow> ('a \<Rightarrow> ByteReader \<Rightarrow> 'b result \<times> ByteReader) \<Rightarrow>
    ByteReader \<Rightarrow> 'b result \<times> ByteReader" where
  "then_value v k r = (case v of Inl e \<Rightarrow> (Inl e, r) | Inr x \<Rightarrow> k x r)"

definition then_end :: "'a result \<Rightarrow> ByteReader \<Rightarrow> 'a result \<times> ByteReader" where
  "then_end v r = (if status_ok (expect_end r) then v else Inl (expect_end r), r)"

definition decode :: "(ByteReader \<Rightarrow> 'a result \<times> ByteReader) \<Rightarrow> u8 list \<Rightarrow> 'a result" where
  "decode rd bs = fst (rd (byte_reader bs))"

section \<open>Policies\<close>

definition kPolicyFormat :: u16 where
  "kPolicyFormat = 1"

definition kMaxPolicyBytes :: nat where
  "kMaxPolicyBytes = 512"

definition policy_bound_fields :: "PropagationPolicy \<Rightarrow> (ByteWriter \<Rightarrow> Status \<times> ByteWriter) list" where
  "policy_bound_fields p =
     [wr_u64 (id_value (pol_id p)), wr_u64 (gen_value (pol_generation p)), wr_u32 (pol_max_hops p),
      wr_u32 (pol_max_fanout p), wr_u32 (pol_max_expansions p), wr_u32 (pol_max_visited p),
      wr_u32 (pol_max_sources p), wr_u32 (pol_max_records p), wr_u32 (pol_max_path_records p)]"

definition policy_rule_fields :: "PropagationPolicy \<Rightarrow> (ByteWriter \<Rightarrow> Status \<times> ByteWriter) list" where
  "policy_rule_fields p =
     [wr_u32 (mag_raw (pol_min_propagatable p)), wr_u64 (pol_lifetime_ticks p),
      wr_u8 (aggregation_rule_value (pol_aggregation p)), wr_u32 (mag_raw (pol_aggregation_ceiling p)),
      wr_boolean (pol_allow_amplification p), wr_u32 (gain_raw (pol_max_cumulative_gain p)),
      wr_u64 (pol_default_cooldown_ticks p), wr_u32 (mag_raw (pol_hysteresis_delta p))]"

definition policy_decay_fields :: "PropagationPolicy \<Rightarrow> (ByteWriter \<Rightarrow> Status \<times> ByteWriter) list" where
  "policy_decay_fields p =
     [wr_u32 (q16_raw (dec_per_step (pol_recovery_decay p))), wr_u64 (dec_step_ticks (pol_recovery_decay p)),
      wr_u32 (mag_raw (dec_floor (pol_recovery_decay p))), wr_u32 (dec_max_steps (pol_recovery_decay p)),
      wr_u32 (elevated_milli (pol_thresholds p)), wr_u32 (high_milli (pol_thresholds p)),
      wr_u32 (critical_milli (pol_thresholds p)), wr_u32 (exhausted_milli (pol_thresholds p)),
      wr_boolean (pol_require_known_pressure p)]"

definition serialize_policy :: "PropagationPolicy \<Rightarrow> nat \<Rightarrow> u8 list result" where
  "serialize_policy p max_bytes =
     payload_of (if max_bytes < kMaxPolicyBytes then max_bytes else kMaxPolicyBytes)
       ([wr_u16 kPolicyFormat] @ policy_bound_fields p @ policy_rule_fields p @ policy_decay_fields p)"

definition aggregation_rule_of :: "u8 \<Rightarrow> AggregationRule" where
  "aggregation_rule_of raw =
     (if raw = 0 then AR_Max else if raw = 1 then SaturatingSum else if raw = 2 then WeightedMax
      else if raw = 3 then PriorityFirst else AR_Count)"

text \<open>A magnitude field, refused above full scale with the given context.\<close>

definition magnitude_field :: "string \<Rightarrow> u32 \<Rightarrow> Magnitude result" where
  "magnitude_field what raw =
     (if raw > mag_raw mag_full then fail OutOfRange what (ucast raw)
      else Inr (mag_from_raw_q16_saturating raw))"

type_synonym 'a reading = "ByteReader \<Rightarrow> 'a result \<times> ByteReader"

definition read_policy_bounds :: "PropagationPolicy \<Rightarrow> PropagationPolicy reading" where
  "read_policy_bounds p =
     then_read rd_u64 (\<lambda>raw_id. then_value (id_from_u64 raw_id) (\<lambda>i.
     then_read rd_u64 (\<lambda>raw_generation. then_value (gen_from_u64 raw_generation) (\<lambda>g.
     then_read rd_u32 (\<lambda>hops. then_read rd_u32 (\<lambda>fanout. then_read rd_u32 (\<lambda>expansions.
     then_read rd_u32 (\<lambda>visited. then_read rd_u32 (\<lambda>sources. then_read rd_u32 (\<lambda>records.
     then_read rd_u32 (\<lambda>path_records.
       read_return (Inr (p\<lparr>pol_id := i, pol_generation := g, pol_max_hops := hops, pol_max_fanout := fanout,
         pol_max_expansions := expansions, pol_max_visited := visited, pol_max_sources := sources,
         pol_max_records := records, pol_max_path_records := path_records\<rparr>)))))))))))))"

definition read_policy_rules :: "PropagationPolicy \<Rightarrow> PropagationPolicy reading" where
  "read_policy_rules p =
     then_read rd_u32 (\<lambda>floor_raw. then_value (magnitude_field ''policy floor'' floor_raw) (\<lambda>floor1.
     then_read rd_u64 (\<lambda>lifetime.
     then_read rd_u8 (\<lambda>rule. then_value
       (if rule \<ge> aggregation_rule_value AR_Count then fail MalformedInput ''policy aggregation'' (ucast rule)
        else Inr (aggregation_rule_of rule)) (\<lambda>aggregation.
     then_read rd_u32 (\<lambda>ceiling_raw. then_value (magnitude_field ''policy ceiling'' ceiling_raw) (\<lambda>ceiling.
     then_read rd_boolean (\<lambda>amplification.
     then_read rd_u32 (\<lambda>raw_gain. then_value (gain_from_raw raw_gain) (\<lambda>gain.
     then_read rd_u64 (\<lambda>cooldown.
     then_read rd_u32 (\<lambda>hysteresis_raw. then_value (magnitude_field ''policy hysteresis'' hysteresis_raw) (\<lambda>hysteresis.
       read_return (Inr (p\<lparr>pol_min_propagatable := floor1, pol_lifetime_ticks := lifetime,
         pol_aggregation := aggregation, pol_aggregation_ceiling := ceiling,
         pol_allow_amplification := amplification, pol_max_cumulative_gain := gain,
         pol_default_cooldown_ticks := cooldown, pol_hysteresis_delta := hysteresis\<rparr>)))))))))))))))"

definition read_policy_decay :: "PropagationPolicy \<Rightarrow> PropagationPolicy reading" where
  "read_policy_decay p =
     then_read rd_u32 (\<lambda>decay_raw. then_value
       (if decay_raw > q16_kOne then fail OutOfRange ''policy decay'' (ucast decay_raw)
        else Inr (q16_from_raw_saturating decay_raw)) (\<lambda>per_step.
     then_read rd_u64 (\<lambda>step_ticks.
     then_read rd_u32 (\<lambda>floor_raw. then_value (magnitude_field ''policy decay floor'' floor_raw) (\<lambda>floor1.
     then_read rd_u32 (\<lambda>max_steps.
     then_read rd_u32 (\<lambda>elevated. then_read rd_u32 (\<lambda>high. then_read rd_u32 (\<lambda>critical.
     then_read rd_u32 (\<lambda>exhausted.
     then_read rd_boolean (\<lambda>known.
       read_return (Inr (p\<lparr>pol_recovery_decay :=
           \<lparr>dec_per_step = per_step, dec_step_ticks = step_ticks, dec_floor = floor1, dec_max_steps = max_steps\<rparr>,
         pol_thresholds := \<lparr>elevated_milli = elevated, high_milli = high, critical_milli = critical,
           exhausted_milli = exhausted\<rparr>, pol_require_known_pressure := known\<rparr>)))))))))))))"

definition deserialize_policy :: "u8 list \<Rightarrow> PropagationPolicy result" where
  "deserialize_policy bytes = decode
     (then_read rd_u16 (\<lambda>format.
        if format \<noteq> kPolicyFormat then read_return (fail VersionMismatch ''policy format'' (ucast format))
        else then_read (read_policy_bounds policy_defaults) (\<lambda>p1.
             then_read (read_policy_rules p1) (\<lambda>p2.
             then_read (read_policy_decay p2) (\<lambda>p.
               then_end (bpfab_try_result (policy_validate p) (Inr p))))))) bytes"

section \<open>Fences\<close>

definition kFenceFormat :: u16 where
  "kFenceFormat = 1"

definition kMaxFenceBytes :: nat where
  "kMaxFenceBytes = 256"

definition serialize_fence :: "Fence \<Rightarrow> u8 list result" where
  "serialize_fence f = payload_of kMaxFenceBytes
     [wr_u16 kFenceFormat, wr_u64 (id_value (fence_id f)), wr_u64 (id_value (fence_resource f)),
      wr_u8 (fence_kind_value (fence_kind f)), wr_u64 (epoch_value (fence_epoch f)),
      wr_u64 (gen_value (fence_dependency_generation f)), wr_u64 (fence_expires_at f),
      wr_boolean (fence_durable f), wr_digest (fence_provenance f)]"

definition fence_kind_of :: "u8 \<Rightarrow> FenceKind" where
  "fence_kind_of raw =
     (if raw = 0 then RefuseIngress else if raw = 1 then RefuseEgress else if raw = 2 then FK_Barrier else FK_Count)"

definition deserialize_fence :: "u8 list \<Rightarrow> Fence result" where
  "deserialize_fence bytes = decode
     (then_read rd_u16 (\<lambda>format.
        if format \<noteq> kFenceFormat then read_return (fail VersionMismatch ''fence format'' (ucast format))
        else
          then_read rd_u64 (\<lambda>raw_id. then_value (id_from_u64 raw_id) (\<lambda>i.
          then_read rd_u64 (\<lambda>raw_resource. then_value (id_from_u64 raw_resource) (\<lambda>resource.
          then_read rd_u8 (\<lambda>kind. then_value
            (if kind \<ge> fence_kind_value FK_Count then fail MalformedInput ''fence kind'' (ucast kind)
             else Inr (fence_kind_of kind)) (\<lambda>k.
          then_read rd_u64 (\<lambda>raw_epoch. then_value (epoch_from_u64 raw_epoch) (\<lambda>epoch.
          then_read rd_u64 (\<lambda>raw_generation. then_value (gen_from_u64 raw_generation) (\<lambda>generation.
          then_read rd_u64 (\<lambda>expires. then_read rd_boolean (\<lambda>durable. then_read rd_digest (\<lambda>provenance.
            let f = \<lparr>fence_id = i, fence_resource = resource, fence_kind = k, fence_epoch = epoch,
                     fence_dependency_generation = generation, fence_expires_at = expires,
                     fence_durable = durable, fence_provenance = provenance\<rparr>
            in then_end (bpfab_try_result (fence_validate f) (Inr f))))))))))))))))) bytes"

section \<open>The store\<close>

record DurableConfig =
  dc_directory :: string
  dc_journal_name :: string
  dc_journal_limits :: JournalLimits
  dc_max_lineages :: nat
  dc_max_footprint_entries :: nat

record RecoveredState =
  rs_previous_epoch :: Epoch
  rs_epoch :: Epoch
  rs_boot :: BootId
  rs_incarnation :: Incarnation
  rs_boot_recorded :: bool
  rs_has_policy :: bool
  rs_policy :: PropagationPolicy
  rs_has_topology_binding :: bool
  rs_topology_digest :: Digest128
  rs_topology_generation :: Generation
  rs_fences :: "Fence list"
  rs_lineages :: "Digest128 list"
  rs_lineage_evictions :: u64
  rs_revalidation_required :: "ResourceId list"
  rs_footprint_entries :: nat
  rs_footprint_overflow :: u64
  rs_attempts_open :: u64
  rs_attempts_ambiguous :: u64
  rs_attempts_committed :: u64
  rs_attempts_aborted :: u64
  rs_records_replayed :: u64
  rs_corrupt_records :: u64
  rs_journal_repaired :: bool
  rs_stale_temp_files_removed :: u64
  rs_restored_liveness :: bool

definition recovered_state :: RecoveredState where
  "recovered_state =
     \<lparr>rs_previous_epoch = epoch_none, rs_epoch = epoch_none, rs_boot = boot_from_raw 0 0,
      rs_incarnation = incarnation_none, rs_boot_recorded = False, rs_has_policy = False,
      rs_policy = policy_defaults, rs_has_topology_binding = False, rs_topology_digest = digest_zero,
      rs_topology_generation = gen_unknown, rs_fences = [], rs_lineages = [], rs_lineage_evictions = 0,
      rs_revalidation_required = [], rs_footprint_entries = 0, rs_footprint_overflow = 0,
      rs_attempts_open = 0, rs_attempts_ambiguous = 0, rs_attempts_committed = 0, rs_attempts_aborted = 0,
      rs_records_replayed = 0, rs_corrupt_records = 0, rs_journal_repaired = False,
      rs_stale_temp_files_removed = 0, rs_restored_liveness = False\<rparr>"

record DurableStore =
  ds_config :: DurableConfig
  ds_journal :: Journal
  ds_lock :: bool
  ds_state :: RecoveredState
  ds_open_attempts :: "AttemptId list"
  ds_committed_seen :: u64

definition kMaxJournalPayload :: nat where
  "kMaxJournalPayload = 2 ^ 12"

definition kRevalidationRequest :: u8 where
  "kRevalidationRequest = 1"

definition kRevalidationClear :: u8 where
  "kRevalidationClear = 2"

definition kRevalidationFootprint :: u8 where
  "kRevalidationFootprint = 3"

definition upd_state :: "(RecoveredState \<Rightarrow> RecoveredState) \<Rightarrow> DurableStore \<Rightarrow> DurableStore" where
  "upd_state f s = s\<lparr>ds_state := f (ds_state s)\<rparr>"

definition remember_lineage :: "Digest128 \<Rightarrow> DurableStore \<Rightarrow> DurableStore" where
  "remember_lineage lineage s =
     (let st = ds_state s; ls = rs_lineages st
      in if lineage \<in> set ls then s
         else
           let st1 = (if length ls \<ge> dc_max_lineages (ds_config s)
                      then st\<lparr>rs_lineages := tl ls, rs_lineage_evictions := rs_lineage_evictions st + 1\<rparr> else st)
           in s\<lparr>ds_state := st1\<lparr>rs_lineages := rs_lineages st1 @ [lineage]\<rparr>\<rparr>)"

section \<open>Replay\<close>

definition read_boot :: "Incarnation reading" where
  "read_boot =
     then_read rd_u64 (\<lambda>hi. then_read rd_u64 (\<lambda>lo. then_read rd_u32 (\<lambda>pid. then_read rd_u32 (\<lambda>index.
     then_read rd_u64 (\<lambda>seq.
       then_end (Inr \<lparr>inc_boot = boot_from_raw hi lo, inc_pid = pid, inc_index = index, inc_seq = seq\<rparr>))))))"

definition read_binding :: "(Digest128 \<times> Generation) reading" where
  "read_binding =
     then_read rd_digest (\<lambda>digest. then_read rd_u64 (\<lambda>raw. then_value (gen_from_u64 raw) (\<lambda>generation.
       then_end (Inr (digest, generation)))))"

definition read_id :: "'tag StrongId reading" where
  "read_id = then_read rd_u64 (\<lambda>raw. then_value (id_from_u64 raw) (\<lambda>i. read_return (Inr i)))"

text \<open>An identity, a check of it, and the end of the payload.\<close>

definition read_id_end :: "('tag StrongId \<Rightarrow> Status) \<Rightarrow> 'tag StrongId reading" where
  "read_id_end check =
     then_read read_id (\<lambda>i. if \<not> status_ok (check i) then read_return (Inl (check i)) else then_end (Inr i))"

text \<open>The loop over the pairs of a footprint record; the sources are checked and dropped.\<close>

fun read_footprint :: "nat \<Rightarrow> ResourceId list reading" where
  "read_footprint 0 = read_return (Inr [])"
| "read_footprint (Suc n) =
     then_read rd_u64 (\<lambda>raw_source. then_read rd_u64 (\<lambda>raw_resource.
     then_value (id_from_u64 raw_source :: SourceId result) (\<lambda>_.
     then_value (id_from_u64 raw_resource) (\<lambda>resource.
     then_read (read_footprint n) (\<lambda>rest. read_return (Inr (resource # rest)))))))"

datatype RevalidationOp = RO_Request ResourceId | RO_Clear ResourceId | RO_Footprint "ResourceId list"

text \<open>A request that does not fit returns before the check for the end of the payload.\<close>

definition read_revalidation :: "nat \<Rightarrow> ResourceId list \<Rightarrow> RevalidationOp reading" where
  "read_revalidation max_entries required =
     then_read rd_u8 (\<lambda>op1.
       if op1 = kRevalidationRequest then
         then_read read_id (\<lambda>r.
           if r \<notin> set required \<and> length required \<ge> max_entries then read_return (Inr (RO_Request r))
           else then_end (Inr (RO_Request r)))
       else if op1 = kRevalidationClear then then_read (read_id_end (\<lambda>_. status_success)) (\<lambda>r. read_return (Inr (RO_Clear r)))
       else if op1 = kRevalidationFootprint then
         then_read rd_u32 (\<lambda>count.
           if unat count > max_entries then read_return (fail OversizedInput ''footprint entries'' (ucast count))
           else then_read (read_footprint (unat count)) (\<lambda>rs. then_end (Inr (RO_Footprint rs))))
       else read_return (fail MalformedInput ''revalidation op'' (ucast op1)))"

definition replay_request :: "nat \<Rightarrow> ResourceId \<Rightarrow> RecoveredState \<Rightarrow> RecoveredState" where
  "replay_request max_entries resource st =
     (if resource \<in> set (rs_revalidation_required st) then st
      else if length (rs_revalidation_required st) \<ge> max_entries
        then st\<lparr>rs_footprint_overflow := rs_footprint_overflow st + 1\<rparr>
      else st\<lparr>rs_revalidation_required := rs_revalidation_required st @ [resource]\<rparr>)"

definition clear_resource :: "ResourceId \<Rightarrow> RecoveredState \<Rightarrow> RecoveredState" where
  "clear_resource resource st =
     st\<lparr>rs_revalidation_required := remove1 resource (rs_revalidation_required st)\<rparr>"

definition replay_footprint_entry :: "nat \<Rightarrow> ResourceId \<Rightarrow> RecoveredState \<Rightarrow> RecoveredState" where
  "replay_footprint_entry max_entries resource st =
     (if length (rs_revalidation_required st) \<ge> max_entries
        then st\<lparr>rs_footprint_overflow := rs_footprint_overflow st + 1\<rparr>
      else if resource \<in> set (rs_revalidation_required st) then st
      else st\<lparr>rs_revalidation_required := rs_revalidation_required st @ [resource]\<rparr>)"

definition replay_revalidation :: "nat \<Rightarrow> RevalidationOp \<Rightarrow> RecoveredState \<Rightarrow> RecoveredState" where
  "replay_revalidation max_entries op1 st =
     (case op1 of
        RO_Request r \<Rightarrow> replay_request max_entries r st
      | RO_Clear r \<Rightarrow> clear_resource r st
      | RO_Footprint rs \<Rightarrow>
          let st1 = fold (replay_footprint_entry max_entries) rs st
          in st1\<lparr>rs_footprint_entries := length (rs_revalidation_required st1)\<rparr>)"

definition put_recovered_fence :: "string \<Rightarrow> Fence \<Rightarrow> DurableStore \<Rightarrow> Status \<times> DurableStore" where
  "put_recovered_fence what fence s =
     (let fs = rs_fences (ds_state s)
      in case fence_replace fs fence of
           Some fs' \<Rightarrow> (status_success, upd_state (rs_fences_update (\<lambda>_. fs')) s)
         | None \<Rightarrow>
             if length fs \<ge> kMaxFences then (status_error LimitExceeded what (of_nat (length fs)), s)
             else (status_success, upd_state (rs_fences_update (\<lambda>_. fs @ [fence])) s))"

definition attempt_known :: "string \<Rightarrow> DurableStore \<Rightarrow> AttemptId \<Rightarrow> Status" where
  "attempt_known what s i =
     (if i \<in> set (ds_open_attempts s) then status_success else status_error NotFound what (id_value i))"

definition drop_attempt :: "AttemptId \<Rightarrow> DurableStore \<Rightarrow> DurableStore" where
  "drop_attempt i s = s\<lparr>ds_open_attempts := remove1 i (ds_open_attempts s)\<rparr>"

definition apply_record :: "JournalRecord \<Rightarrow> DurableStore \<Rightarrow> DurableStore result" where
  "apply_record record1 s =
     (let payload = jr_payload record1; st = ds_state s
      in case jr_type record1 of
           RT_Epoch \<Rightarrow> Inr (s\<lparr>ds_state := st\<lparr>rs_previous_epoch := rs_epoch st, rs_epoch := jr_epoch record1\<rparr>\<rparr>)
         | RT_Boot \<Rightarrow> bpfab_try_decl (decode read_boot payload) (\<lambda>i.
             Inr (s\<lparr>ds_state := st\<lparr>rs_boot := inc_boot i, rs_incarnation := i, rs_boot_recorded := True\<rparr>\<rparr>))
         | RT_Policy \<Rightarrow> bpfab_try_decl (deserialize_policy payload) (\<lambda>policy.
             Inr (s\<lparr>ds_state := st\<lparr>rs_policy := policy, rs_has_policy := True\<rparr>\<rparr>))
         | RT_TopologyBinding \<Rightarrow> bpfab_try_decl (decode read_binding payload) (\<lambda>(digest, generation).
             Inr (s\<lparr>ds_state := st\<lparr>rs_topology_digest := digest, rs_topology_generation := generation,
               rs_has_topology_binding := True\<rparr>\<rparr>))
         | RT_FencePut \<Rightarrow> bpfab_try_decl (deserialize_fence payload) (\<lambda>fence.
             let (e, s') = put_recovered_fence ''recovered fences'' fence s in bpfab_try_result e (Inr s'))
         | RT_FenceRemove \<Rightarrow> bpfab_try_decl (decode (read_id_end (\<lambda>i.
               if fence_erase (rs_fences st) i = None then status_error NotFound ''fence removal'' (id_value i)
               else status_success)) payload) (\<lambda>i.
             Inr (s\<lparr>ds_state := st\<lparr>rs_fences := the (fence_erase (rs_fences st) i)\<rparr>\<rparr>))
         | RT_Lineage \<Rightarrow> bpfab_try_decl (decode rd_digest payload) (\<lambda>lineage. Inr (remember_lineage lineage s))
         | RT_Revalidation \<Rightarrow>
             bpfab_try_decl (decode (read_revalidation (dc_max_footprint_entries (ds_config s))
               (rs_revalidation_required st)) payload) (\<lambda>op1.
               Inr (upd_state (replay_revalidation (dc_max_footprint_entries (ds_config s)) op1) s))
         | RT_AttemptBegin \<Rightarrow> bpfab_try_decl (decode (read_id_end (\<lambda>i.
               if i \<in> set (ds_open_attempts s) then status_error Duplicate ''attempt begin'' (id_value i)
               else status_success)) payload) (\<lambda>i.
             Inr (s\<lparr>ds_open_attempts := ds_open_attempts s @ [i]\<rparr>))
         | RT_AttemptCommit \<Rightarrow> bpfab_try_decl (decode (read_id_end (attempt_known ''attempt commit'' s)) payload) (\<lambda>i.
             Inr ((upd_state (\<lambda>st. st\<lparr>rs_attempts_committed := rs_attempts_committed st + 1\<rparr>) (drop_attempt i s))
               \<lparr>ds_committed_seen := ds_committed_seen s + 1\<rparr>))
         | RT_AttemptAbort \<Rightarrow> bpfab_try_decl (decode (read_id_end (attempt_known ''attempt abort'' s)) payload) (\<lambda>i.
             Inr (upd_state (\<lambda>st. st\<lparr>rs_attempts_aborted := rs_attempts_aborted st + 1\<rparr>) (drop_attempt i s)))
         | RT_Compaction \<Rightarrow> bpfab_try_decl (decode (then_read rd_u64 (\<lambda>e. then_end (Inr e))) payload) (\<lambda>e.
             Inr (s\<lparr>ds_state := st\<lparr>rs_previous_epoch := epoch_from_raw e\<rparr>\<rparr>))
         | RT_Count \<Rightarrow> fail MalformedInput ''record type'' (ucast (record_type_value (jr_type record1))))"

fun replay_list :: "JournalRecord list \<Rightarrow> DurableStore \<Rightarrow> DurableStore result" where
  "replay_list [] s = Inr s"
| "replay_list (r # rs) s =
     bpfab_try_decl (apply_record r s) (\<lambda>s'.
       replay_list rs (upd_state (\<lambda>st. st\<lparr>rs_records_replayed := rs_records_replayed st + 1\<rparr>) s'))"

definition replay :: "DurableStore \<Rightarrow> DurableStore result" where
  "replay s =
     bpfab_try_decl (replay_list (jn_records (ds_journal s)) s) (\<lambda>s'.
       let stats = jn_stats (ds_journal s'); n = of_nat (length (ds_open_attempts s'))
       in Inr (upd_state (\<lambda>st. st
            \<lparr>rs_corrupt_records := js_truncated_tail_records stats, rs_journal_repaired := js_repaired stats,
             rs_attempts_open := n, rs_attempts_ambiguous := n\<rparr>) s'))"

text \<open>What \<open>ensure_directory\<close>, \<open>remove_stale_temp_files\<close> and \<open>ExclusiveLock::acquire\<close> answer.\<close>

record StoreDirectory =
  sd_directory :: Status
  sd_stale_files :: u64
  sd_lock :: Status

definition store_start :: "DurableConfig \<Rightarrow> u64 \<Rightarrow> Journal \<Rightarrow> DurableStore" where
  "store_start config stale j =
     \<lparr>ds_config = config, ds_journal = j, ds_lock = True,
      ds_state = recovered_state\<lparr>rs_stale_temp_files_removed := stale\<rparr>, ds_open_attempts = [], ds_committed_seen = 0\<rparr>"

definition store_open ::
  "DurableConfig \<Rightarrow> StoreDirectory \<Rightarrow> JournalFile \<Rightarrow> DurableStore result \<times> JournalFile" where
  "store_open config dir f =
     (if dc_directory config = [] then (fail InvalidArgument ''durable directory'' 0, f)
      else if jl_max_record_bytes (dc_journal_limits config) < kMaxJournalPayload then
        (fail InvalidArgument ''journal record bound below payload bound'' 0, f)
      else if \<not> status_ok (sd_directory dir) then (Inl (sd_directory dir), f)
      else if \<not> status_ok (sd_lock dir) then (fail (st_code (sd_lock dir)) (st_context (sd_lock dir)) 0, f)
      else case journal_open (dc_journal_limits config) True f of
        (Inl e, f') \<Rightarrow> (fail (st_code e) (st_context e) 0, f')
      | (Inr j, f') \<Rightarrow> (replay (store_start config (sd_stale_files dir) j), f'))"

section \<open>Operations\<close>

definition on_journal :: "(Journal \<Rightarrow> Status \<times> Journal) \<Rightarrow> DurableStore \<Rightarrow> Status \<times> DurableStore" where
  "on_journal f s = (let (e, j) = f (ds_journal s) in (e, s\<lparr>ds_journal := j\<rparr>))"

text \<open>\<open>BPFAB_TRY(journal_.append(...)); BPFAB_TRY(journal_.sync());\<close> and what follows.\<close>

definition persist ::
  "RecordType \<Rightarrow> Tick \<Rightarrow> Epoch \<Rightarrow> u8 list \<Rightarrow> DurableStore \<Rightarrow> (DurableStore \<Rightarrow> Status \<times> DurableStore) \<Rightarrow>
   Status \<times> DurableStore" where
  "persist type now epoch payload s k =
     try_state (on_journal (journal_append type now epoch payload) s) (\<lambda>s1.
     try_state (on_journal journal_sync s1) k)"

definition store_epoch_known :: "DurableStore \<Rightarrow> bool" where
  "store_epoch_known s \<longleftrightarrow> epoch_known (rs_epoch (ds_state s))"

definition not_established :: "DurableStore \<Rightarrow> Status \<times> DurableStore" where
  "not_established s = (status_error NotReady ''epoch not established'' 0, s)"

definition establish_epoch :: "Tick \<Rightarrow> DurableStore \<Rightarrow> Status \<times> DurableStore" where
  "establish_epoch now s =
     (case (if \<not> store_epoch_known s then Inr (Epoch 1) else epoch_next (rs_epoch (ds_state s))) of
        Inl e \<Rightarrow> (e, s)
      | Inr next1 \<Rightarrow>
          try_payload (payload_of 32 [wr_u64 (epoch_value next1)]) s (\<lambda>payload.
          persist RT_Epoch now next1 payload s (\<lambda>s2.
            (status_success, upd_state (\<lambda>st. st\<lparr>rs_previous_epoch := rs_epoch st, rs_epoch := next1\<rparr>) s2))))"

definition boot_fields :: "Incarnation \<Rightarrow> (ByteWriter \<Rightarrow> Status \<times> ByteWriter) list" where
  "boot_fields i =
     [wr_u64 (boot_hi (inc_boot i)), wr_u64 (boot_lo (inc_boot i)), wr_u32 (inc_pid i), wr_u32 (inc_index i),
      wr_u64 (inc_seq i)]"

definition record_boot :: "Incarnation \<Rightarrow> Tick \<Rightarrow> DurableStore \<Rightarrow> Status \<times> DurableStore" where
  "record_boot incarnation now s =
     (if \<not> inc_valid incarnation then (status_error InvalidArgument ''boot incarnation'' 0, s)
      else if \<not> store_epoch_known s then not_established s
      else
        try_payload (payload_of 64 (boot_fields incarnation)) s (\<lambda>payload.
        persist RT_Boot now (rs_epoch (ds_state s)) payload s (\<lambda>s2.
          (status_success, upd_state (\<lambda>st. st\<lparr>rs_boot := inc_boot incarnation, rs_incarnation := incarnation,
             rs_boot_recorded := True\<rparr>) s2))))"

definition persist_policy :: "PropagationPolicy \<Rightarrow> Tick \<Rightarrow> DurableStore \<Rightarrow> Status \<times> DurableStore" where
  "persist_policy policy now s =
     (let st = ds_state s
      in if \<not> status_ok (policy_validate policy) then (policy_validate policy, s)
         else if \<not> store_epoch_known s then not_established s
         else if rs_has_policy st \<and> pol_id (rs_policy st) = pol_id policy \<and>
                 pol_generation policy \<le> pol_generation (rs_policy st) then
           (if policy_digest (rs_policy st) = policy_digest policy then (status_success, s)
            else (status_error StaleGeneration ''policy generation'' (gen_value (pol_generation policy)), s))
         else
           try_payload (serialize_policy policy (jl_max_record_bytes (dc_journal_limits (ds_config s)))) s (\<lambda>payload.
           persist RT_Policy now (rs_epoch st) payload s (\<lambda>s2.
             (status_success, upd_state (\<lambda>st. st\<lparr>rs_policy := policy, rs_has_policy := True\<rparr>) s2))))"

definition binding_fields :: "Digest128 \<Rightarrow> Generation \<Rightarrow> (ByteWriter \<Rightarrow> Status \<times> ByteWriter) list" where
  "binding_fields digest generation = [wr_digest digest, wr_u64 (gen_value generation)]"

definition bind_topology :: "Digest128 \<Rightarrow> Generation \<Rightarrow> Tick \<Rightarrow> DurableStore \<Rightarrow> Status \<times> DurableStore" where
  "bind_topology digest generation now s =
     (if digest_is_zero digest \<or> \<not> gen_known generation then
        (status_error InvalidArgument ''topology binding'' 0, s)
      else if \<not> store_epoch_known s then not_established s
      else
        try_payload (payload_of 32 (binding_fields digest generation)) s (\<lambda>payload.
        persist RT_TopologyBinding now (rs_epoch (ds_state s)) payload s (\<lambda>s2.
          (status_success, upd_state (\<lambda>st. st\<lparr>rs_topology_digest := digest, rs_topology_generation := generation,
             rs_has_topology_binding := True\<rparr>) s2))))"

definition put_fence :: "Fence \<Rightarrow> Tick \<Rightarrow> DurableStore \<Rightarrow> Status \<times> DurableStore" where
  "put_fence fence now s =
     (if \<not> status_ok (fence_validate fence) then (fence_validate fence, s)
      else if \<not> store_epoch_known s then not_established s
      else
        try_payload (serialize_fence fence) s (\<lambda>payload.
          if length payload > jl_max_record_bytes (dc_journal_limits (ds_config s)) then
            (status_error OversizedInput ''fence record'' (of_nat (length payload)), s)
          else
            persist RT_FencePut now (rs_epoch (ds_state s)) payload s (put_recovered_fence ''fence capacity'' fence)))"

definition remove_fence :: "FenceId \<Rightarrow> Tick \<Rightarrow> DurableStore \<Rightarrow> Status \<times> DurableStore" where
  "remove_fence i now s =
     (if \<not> store_epoch_known s then not_established s
      else case fence_erase (rs_fences (ds_state s)) i of
        None \<Rightarrow> (status_error NotFound ''fence remove'' (id_value i), s)
      | Some fs \<Rightarrow>
          try_payload (payload_of 16 [wr_u64 (id_value i)]) s (\<lambda>payload.
          persist RT_FenceRemove now (rs_epoch (ds_state s)) payload s (\<lambda>s2.
            (status_success, upd_state (\<lambda>st. st\<lparr>rs_fences := fs\<rparr>) s2))))"

definition record_lineage :: "Digest128 \<Rightarrow> Tick \<Rightarrow> DurableStore \<Rightarrow> Status \<times> DurableStore" where
  "record_lineage lineage now s =
     (if digest_is_zero lineage then (status_error InvalidArgument ''lineage digest'' 0, s)
      else if \<not> store_epoch_known s then not_established s
      else
        try_payload (payload_of 24 [wr_digest lineage]) s (\<lambda>payload.
        try_state (on_journal (journal_append RT_Lineage now (rs_epoch (ds_state s)) payload) s) (\<lambda>s1.
          (status_success, remember_lineage lineage s1))))"

definition request_revalidation :: "ResourceId \<Rightarrow> Tick \<Rightarrow> DurableStore \<Rightarrow> Status \<times> DurableStore" where
  "request_revalidation resource now s =
     (if \<not> id_valid resource then (status_error InvalidArgument ''revalidation resource'' 0, s)
      else if \<not> store_epoch_known s then not_established s
      else
        try_payload (payload_of 16 [wr_u8 kRevalidationRequest, wr_u64 (id_value resource)]) s (\<lambda>payload.
        persist RT_Revalidation now (rs_epoch (ds_state s)) payload s (\<lambda>s2.
          let rs = rs_revalidation_required (ds_state s2)
          in if resource \<in> set rs then (status_success, s2)
             else if length rs \<ge> dc_max_footprint_entries (ds_config s2) then
               (status_error LimitExceeded ''revalidation footprint'' (of_nat (length rs)),
                upd_state (\<lambda>st. st\<lparr>rs_footprint_overflow := rs_footprint_overflow st + 1\<rparr>) s2)
             else (status_success, upd_state (\<lambda>st. st\<lparr>rs_revalidation_required := rs @ [resource]\<rparr>) s2))))"

definition store_clear_revalidation :: "ResourceId \<Rightarrow> Tick \<Rightarrow> DurableStore \<Rightarrow> Status \<times> DurableStore" where
  "store_clear_revalidation resource now s =
     (if \<not> store_epoch_known s then not_established s
      else
        try_payload (payload_of 16 [wr_u8 kRevalidationClear, wr_u64 (id_value resource)]) s (\<lambda>payload.
        persist RT_Revalidation now (rs_epoch (ds_state s)) payload s (\<lambda>s2.
          (status_success, upd_state (clear_resource resource) s2))))"

text \<open>The loop of \<open>record_pressure_footprint\<close> stops at the first entry that does not fit.\<close>

fun add_footprint :: "nat \<Rightarrow> ResourceId list \<Rightarrow> RecoveredState \<Rightarrow> RecoveredState" where
  "add_footprint max_entries [] st = st"
| "add_footprint max_entries (r # rs) st =
     (if r \<in> set (rs_revalidation_required st) then add_footprint max_entries rs st
      else if length (rs_revalidation_required st) \<ge> max_entries
        then st\<lparr>rs_footprint_overflow := rs_footprint_overflow st + 1\<rparr>
      else add_footprint max_entries rs
        (st\<lparr>rs_revalidation_required := rs_revalidation_required st @ [r]\<rparr>))"

definition footprint_fields :: "(SourceId \<times> ResourceId) list \<Rightarrow> (ByteWriter \<Rightarrow> Status \<times> ByteWriter) list" where
  "footprint_fields entries =
     [wr_u8 kRevalidationFootprint, wr_u32 (of_nat (length entries))] @
     concat (map (\<lambda>(source, resource). [wr_u64 (id_value source), wr_u64 (id_value resource)]) entries)"

definition record_pressure_footprint ::
  "(SourceId \<times> ResourceId) list \<Rightarrow> Tick \<Rightarrow> DurableStore \<Rightarrow> Status \<times> DurableStore" where
  "record_pressure_footprint entries now s =
     (let needed = 5 + length entries * 16; max_bytes = jl_max_record_bytes (dc_journal_limits (ds_config s))
      in if \<not> store_epoch_known s then not_established s
         else if length entries > dc_max_footprint_entries (ds_config s) then
           (status_error OversizedInput ''footprint entries'' (of_nat (length entries)), s)
         else if needed > max_bytes then (status_error OversizedInput ''footprint record'' (of_nat needed), s)
         else
           try_payload (payload_of max_bytes (footprint_fields entries)) s (\<lambda>payload.
           persist RT_Revalidation now (rs_epoch (ds_state s)) payload s (\<lambda>s2.
             (status_success, upd_state (\<lambda>st.
               let st1 = add_footprint (dc_max_footprint_entries (ds_config s2)) (map snd entries) st
               in st1\<lparr>rs_footprint_entries := length (rs_revalidation_required st1)\<rparr>) s2))))"

definition begin_attempt :: "AttemptId \<Rightarrow> Tick \<Rightarrow> DurableStore \<Rightarrow> Status \<times> DurableStore" where
  "begin_attempt i now s =
     (if \<not> id_valid i then (status_error InvalidArgument ''attempt id'' 0, s)
      else if \<not> store_epoch_known s then not_established s
      else if i \<in> set (ds_open_attempts s) then (status_error Duplicate ''attempt already open'' (id_value i), s)
      else
        try_payload (payload_of 16 [wr_u64 (id_value i)]) s (\<lambda>payload.
        persist RT_AttemptBegin now (rs_epoch (ds_state s)) payload s (\<lambda>s2.
          let open1 = ds_open_attempts s2 @ [i]
          in (status_success, upd_state (\<lambda>st. st\<lparr>rs_attempts_open := of_nat (length open1)\<rparr>)
                (s2\<lparr>ds_open_attempts := open1\<rparr>)))))"

text \<open>\<open>commit_attempt\<close> and \<open>abort_attempt\<close> differ in the record they write and the counter they raise.\<close>

definition close_attempt ::
  "RecordType \<Rightarrow> string \<Rightarrow> (RecoveredState \<Rightarrow> RecoveredState) \<Rightarrow> AttemptId \<Rightarrow> Tick \<Rightarrow> DurableStore \<Rightarrow>
   Status \<times> DurableStore" where
  "close_attempt type what tally i now s =
     (if i \<notin> set (ds_open_attempts s) then (status_error NotFound what (id_value i), s)
      else
        try_payload (payload_of 16 [wr_u64 (id_value i)]) s (\<lambda>payload.
        persist type now (rs_epoch (ds_state s)) payload s (\<lambda>s2.
          let s3 = drop_attempt i s2; n = of_nat (length (ds_open_attempts s3))
          in (status_success, upd_state (\<lambda>st. (tally st)\<lparr>rs_attempts_open := n, rs_attempts_ambiguous := n\<rparr>) s3))))"

definition commit_attempt :: "AttemptId \<Rightarrow> Tick \<Rightarrow> DurableStore \<Rightarrow> Status \<times> DurableStore" where
  "commit_attempt = close_attempt RT_AttemptCommit ''attempt commit''
     (\<lambda>st. st\<lparr>rs_attempts_committed := rs_attempts_committed st + 1\<rparr>)"

definition abort_attempt :: "AttemptId \<Rightarrow> Tick \<Rightarrow> DurableStore \<Rightarrow> Status \<times> DurableStore" where
  "abort_attempt = close_attempt RT_AttemptAbort ''attempt abort''
     (\<lambda>st. st\<lparr>rs_attempts_aborted := rs_attempts_aborted st + 1\<rparr>)"

definition store_sync :: "DurableStore \<Rightarrow> Status \<times> DurableStore" where
  "store_sync s = on_journal journal_sync s"

section \<open>Compaction\<close>

definition compact_record :: "DurableStore \<Rightarrow> RecordType \<Rightarrow> u8 list result \<Rightarrow> JournalRecord result" where
  "compact_record s type payload = bpfab_try_decl payload (\<lambda>bs.
     Inr (journal_record\<lparr>jr_type := type, jr_tick := kNoTick, jr_epoch := rs_epoch (ds_state s), jr_payload := bs\<rparr>))"

fun all_ok :: "'a result list \<Rightarrow> 'a list result" where
  "all_ok [] = Inr []"
| "all_ok (r # rs) = bpfab_try_decl r (\<lambda>x. bpfab_try_decl (all_ok rs) (\<lambda>xs. Inr (x # xs)))"

definition compact_payloads :: "DurableStore \<Rightarrow> (RecordType \<times> u8 list result) list" where
  "compact_payloads s =
     (let st = ds_state s
      in [(RT_Epoch, payload_of 16 [wr_u64 (epoch_value (rs_epoch st))])] @
         (if rs_boot_recorded st then [(RT_Boot, payload_of 64 (boot_fields (rs_incarnation st)))] else []) @
         (if rs_has_policy st
          then [(RT_Policy, serialize_policy (rs_policy st) (jl_max_record_bytes (dc_journal_limits (ds_config s))))]
          else []) @
         (if rs_has_topology_binding st
          then [(RT_TopologyBinding, payload_of 32 (binding_fields (rs_topology_digest st) (rs_topology_generation st)))]
          else []) @
         map (\<lambda>f. (RT_FencePut, serialize_fence f)) (rs_fences st) @
         map (\<lambda>r. (RT_Revalidation, payload_of 16 [wr_u8 kRevalidationRequest, wr_u64 (id_value r)]))
           (rs_revalidation_required st) @
         map (\<lambda>l. (RT_Lineage, payload_of 24 [wr_digest l])) (rs_lineages st) @
         map (\<lambda>i. (RT_AttemptBegin, payload_of 16 [wr_u64 (id_value i)])) (ds_open_attempts s) @
         [(RT_Compaction, payload_of 16 [wr_u64 (epoch_value (rs_epoch st))])])"

definition compact :: "DurableStore \<Rightarrow> Status \<times> DurableStore" where
  "compact s =
     (case all_ok (map (\<lambda>(type, payload). compact_record s type payload) (compact_payloads s)) of
        Inl e \<Rightarrow> (e, s)
      | Inr records \<Rightarrow>
          try_state (on_journal (journal_rewrite records) s) (\<lambda>s1.
            (status_success, upd_state (\<lambda>st. st
              \<lparr>rs_records_replayed := of_nat (length (jn_records (ds_journal s1)))\<rparr>) s1)))"

definition compact_if_needed :: "nat \<Rightarrow> DurableStore \<Rightarrow> nat \<times> DurableStore" where
  "compact_if_needed threshold s =
     (if threshold = 0 \<or> length (jn_records (ds_journal s)) < threshold then (0, s)
      else let (e, s') = compact s in (if status_ok e then 1 else 0, s'))"

end
