(* ===== verification/Journal_Facts.thy ===== *)
theory Journal_Facts
  imports Journal "HOL-Library.Sublist"
begin

text \<open>
  What the journal guarantees. A file image is the header followed by the records; replaying
  an image gives its records back, replaying an image cut anywhere gives the records that are
  complete, and whatever bytes are on disk, what replay accepts is a well-formed chain. The
  invariant \<open>journal_inv\<close> ties the journal's memory to its file.
\<close>

section \<open>Steps and layout\<close>

lemma try_state_simps [simp]:
  "status_ok (fst p) \<Longrightarrow> try_state p k = k (snd p)" "\<not> status_ok (fst p) \<Longrightarrow> try_state p k = p"
  by (simp_all add: try_state_def)

lemma try_state_ok: "status_ok (fst (try_state p k)) \<longleftrightarrow> status_ok (fst p) \<and> status_ok (fst (k (snd p)))"
  by (simp add: try_state_def)

lemma try_stateD: "try_state p k = (s, x) \<Longrightarrow> status_ok s \<Longrightarrow> status_ok (fst p) \<and> k (snd p) = (s, x)"
  by (auto simp: try_state_def split: if_splits)

lemma io_next_empty [simp]: "file_tape f = [] \<Longrightarrow> io_next f = (Done, f)"
  by (simp add: io_next_def)

lemma io_status_empty [simp]: "file_tape f = [] \<Longrightarrow> io_status what f = (status_success, f)"
  by (simp add: io_status_def)

lemma io_next_file [simp]:
  "file_bytes (snd (io_next f)) = file_bytes f" "file_durable (snd (io_next f)) = file_durable f"
  by (simp_all add: io_next_def split: list.splits)

lemma io_status_file [simp]:
  "file_bytes (snd (io_status what f)) = file_bytes f" "file_durable (snd (io_status what f)) = file_durable f"
  "file_contents (snd (io_status what f)) = file_contents f"
  by (simp_all add: io_status_def file_contents_def split: prod.splits) (metis io_next_file snd_conv)+

lemma length_kMagic [simp]: "length kMagic = 8"
  by (simp add: kMagic_def as_bytes_def)

lemma length_header_fields [simp]: "length header_fields = 28"
  by (simp add: header_fields_def)

lemma length_journal_header [simp]: "length journal_header = 32"
  by (simp add: journal_header_def)

lemma length_record_fields [simp]: "length (record_fields r) = 44"
  by (simp add: record_fields_def)

lemma length_record_bytes [simp]: "length (record_bytes r) = 52 + length (jr_payload r)"
  by (simp add: record_bytes_def)

lemma record_bytes_not_Nil [simp]: "record_bytes r \<noteq> []"
  using length_record_bytes [of r] by (metis add_is_0 list.size(3) zero_neq_numeral)

lemma record_type_of_value: "record_type_of (record_type_value t) = (if t = RT_Count then None else Some t)"
  by (cases t) (simp_all add: record_type_of_def all_record_types_def)

lemma record_type_of_Some: "record_type_of raw = Some t \<Longrightarrow> t \<noteq> RT_Count \<and> record_type_value t = raw"
  by (auto simp: record_type_of_def all_record_types_def split: if_splits)

lemma get_u32_at: "length xs = k \<Longrightarrow> get_u32 (xs @ le_encode 4 v @ ys) k = v"
  by (simp add: get_u32_def le_decode_encode)

lemma get_u16_at: "length xs = k \<Longrightarrow> get_u16 (xs @ le_encode 2 v @ ys) k = v"
  by (simp add: get_u16_def le_decode_encode)

lemma get_u64_at: "length xs = k \<Longrightarrow> get_u64 (xs @ le_encode 8 v @ ys) k = v"
  by (simp add: get_u64_def le_decode_encode)

text \<open>The fields of a written record header read back.\<close>

lemma record_header_fields:
  fixes len crc :: u32 and r :: JournalRecord
  defines "h \<equiv> le_encode 4 len @ le_encode 4 crc @ record_fields r"
  shows "get_u32 h 0 = len" and "get_u32 h 4 = crc" and "drop 8 h = record_fields r"
    and "get_u64 h 8 = jr_sequence r" and "get_u16 h 16 = record_type_value (jr_type r)"
    and "get_u64 h 20 = jr_tick r" and "get_u64 h 28 = epoch_value (jr_epoch r)"
    and "get_u64 h 36 = dg_hi (jr_chain r)" and "get_u64 h 44 = dg_lo (jr_chain r)"
proof -
  let ?a = "le_encode 4 len @ le_encode 4 crc"
  let ?b = "?a @ le_encode 8 (jr_sequence r)"
  let ?c = "?b @ le_encode 2 (record_type_value (jr_type r)) @ le_encode 2 (0 :: u16)"
  let ?d = "?c @ le_encode 8 (jr_tick r)"
  let ?e = "?d @ le_encode 8 (epoch_value (jr_epoch r))"
  let ?f = "?e @ le_encode 8 (dg_hi (jr_chain r))"
  show "drop 8 h = record_fields r" by (simp add: h_def)
  show "get_u32 h 0 = len" using get_u32_at [of "[]" 0] by (simp add: h_def)
  show "get_u32 h 4 = crc" using get_u32_at [of "le_encode 4 len" 4] by (simp add: h_def)
  show "get_u64 h 8 = jr_sequence r" using get_u64_at [of ?a 8] by (simp add: h_def record_fields_def)
  show "get_u16 h 16 = record_type_value (jr_type r)"
    using get_u16_at [of ?b 16] by (simp add: h_def record_fields_def)
  show "get_u64 h 20 = jr_tick r" using get_u64_at [of ?c 20] by (simp add: h_def record_fields_def)
  show "get_u64 h 28 = epoch_value (jr_epoch r)"
    using get_u64_at [of ?d 28] by (simp add: h_def record_fields_def)
  show "get_u64 h 36 = dg_hi (jr_chain r)" using get_u64_at [of ?e 36] by (simp add: h_def record_fields_def)
  show "get_u64 h 44 = dg_lo (jr_chain r)"
    using get_u64_at [of ?f 44 _ "[]"] by (simp add: h_def record_fields_def)
qed

lemma take_record_header:
  "take 52 (record_bytes r @ rest) =
     le_encode 4 (of_nat (length (jr_payload r)) :: u32) @
     le_encode 4 (crc32_update (crc32 (record_fields r)) (jr_payload r)) @ record_fields r"
  by (simp add: record_bytes_def)

lemma drop_record_header: "drop 52 (record_bytes r @ rest) = jr_payload r @ rest"
  by (simp add: record_bytes_def)

section \<open>Chains\<close>

fun valid_chain :: "Digest128 \<Rightarrow> u64 \<Rightarrow> JournalRecord list \<Rightarrow> bool" where
  "valid_chain previous sequence [] \<longleftrightarrow> True"
| "valid_chain previous sequence (r # rs) \<longleftrightarrow>
     jr_sequence r = sequence + 1 \<and> jr_type r \<noteq> RT_Count \<and>
     jr_chain r = chain_of previous (jr_sequence r) (jr_type r) (jr_tick r) (jr_epoch r) (jr_payload r) \<and>
     valid_chain (jr_chain r) (jr_sequence r) rs"

definition end_chain :: "Digest128 \<Rightarrow> JournalRecord list \<Rightarrow> Digest128" where
  "end_chain previous rs = (if rs = [] then previous else jr_chain (last rs))"

definition end_sequence :: "u64 \<Rightarrow> JournalRecord list \<Rightarrow> u64" where
  "end_sequence sequence rs = (if rs = [] then sequence else jr_sequence (last rs))"

lemma valid_chain_append:
  "valid_chain p s (xs @ ys) \<longleftrightarrow> valid_chain p s xs \<and> valid_chain (end_chain p xs) (end_sequence s xs) ys"
  by (induction xs arbitrary: p s) (auto simp: end_chain_def end_sequence_def)

lemma end_chain_append [simp]: "end_chain p (xs @ [r]) = jr_chain r" "end_chain p [] = p"
  by (simp_all add: end_chain_def)

lemma end_sequence_append [simp]: "end_sequence s (xs @ [r]) = jr_sequence r" "end_sequence s [] = s"
  by (simp_all add: end_sequence_def)

lemma end_of_append [simp]:
  "end_chain (end_chain p xs) ys = end_chain p (xs @ ys)"
  "end_sequence (end_sequence s xs) ys = end_sequence s (xs @ ys)"
  by (auto simp: end_chain_def end_sequence_def)

lemma end_chain_Cons [simp]: "end_chain p (r # rs) = end_chain (jr_chain r) rs"
  by (simp add: end_chain_def)

lemma end_sequence_Cons [simp]: "end_sequence s (r # rs) = end_sequence (jr_sequence r) rs"
  by (simp add: end_sequence_def)

lemma valid_chain_sequence: "valid_chain p s rs \<Longrightarrow> end_sequence s rs = s + of_nat (length rs)"
  by (induction rs arbitrary: p s rule: rev_induct)
    (auto simp: valid_chain_append)

definition payload_total :: "JournalRecord list \<Rightarrow> nat" where
  "payload_total rs = sum_list (map (\<lambda>r. length (jr_payload r)) rs)"

lemma payload_total_append [simp]:
  "payload_total (xs @ ys) = payload_total xs + payload_total ys" "payload_total [] = 0"
  "payload_total (r # xs) = length (jr_payload r) + payload_total xs"
  by (simp_all add: payload_total_def)

text \<open>Records that respect the limits; the length field of a record has 32 bits.\<close>

definition limits_ok :: "JournalLimits \<Rightarrow> bool" where
  "limits_ok lim \<longleftrightarrow> 16 \<le> jl_max_record_bytes lim \<and> jl_max_record_bytes lim < 2 ^ 32 \<and>
     0 < jl_max_records lim \<and> kHeaderBytes \<le> jl_max_file_bytes lim"

definition records_fit :: "JournalLimits \<Rightarrow> JournalRecord list \<Rightarrow> bool" where
  "records_fit lim rs \<longleftrightarrow> length rs \<le> jl_max_records lim \<and> payload_total rs \<le> jl_max_retained_bytes lim \<and>
     (\<forall>r \<in> set rs. length (jr_payload r) \<le> jl_max_record_bytes lim)"

definition well_chained :: "JournalLimits \<Rightarrow> JournalRecord list \<Rightarrow> bool" where
  "well_chained lim rs \<longleftrightarrow> valid_chain digest_zero 0 rs \<and> records_fit lim rs"

lemma well_chained_prefix: "well_chained lim (xs @ ys) \<Longrightarrow> well_chained lim xs"
  by (auto simp: well_chained_def records_fit_def valid_chain_append)

lemma well_chained_Nil [simp]: "well_chained lim []"
  by (simp add: well_chained_def records_fit_def)

definition body :: "JournalRecord list \<Rightarrow> u8 list" where
  "body rs = concat (map record_bytes rs)"

definition image :: "JournalRecord list \<Rightarrow> u8 list" where
  "image rs = journal_header @ body rs"

lemma body_simps [simp]: "body [] = []" "body (r # rs) = record_bytes r @ body rs" "body (xs @ ys) = body xs @ body ys"
  by (simp_all add: body_def)

lemma length_body: "length (body rs) = 52 * length rs + payload_total rs"
  by (induction rs) simp_all

lemma length_image: "length (image rs) = 32 + length (body rs)"
  by (simp add: image_def)

section \<open>Replaying an image\<close>

lemma header_check_image: "status_ok (header_check (journal_header @ rest))"
proof -
  have h: "take 32 (journal_header @ rest) = journal_header" by simp
  have "take 8 journal_header = kMagic" "take 28 journal_header = header_fields"
    by (simp_all add: journal_header_def header_fields_def)
  moreover have "get_u16 journal_header 8 = kFormatVersion"
    using get_u16_at [of kMagic 8] by (simp add: journal_header_def header_fields_def)
  moreover have "get_u32 journal_header 28 = crc32_update kHeaderMagicCrcSeed header_fields"
    using get_u32_at [of header_fields 28 _ "[]"] by (simp add: journal_header_def)
  ultimately show ?thesis unfolding header_check_def kHeaderBytes_def h Let_def by simp
qed

lemma next_record_written:
  assumes "valid_chain previous (end_sequence 0 done) [r]"
    and "length (jr_payload r) \<le> jl_max_record_bytes lim" and "jl_max_record_bytes lim < 2 ^ 32"
    and "length done < jl_max_records lim"
  shows "next_record lim done previous (record_bytes r @ rest) = Some r"
proof -
  have len: "unat (of_nat (length (jr_payload r)) :: u32) = length (jr_payload r)"
    using assms(2,3) by (simp add: unat_of_nat)
  have seq: "jr_sequence r = (if done = [] then 1 else jr_sequence (last done) + 1)"
    using assms(1) by (simp add: end_sequence_def)
  show ?thesis
    unfolding next_record_def kRecordHeaderBytes_def take_record_header drop_record_header Let_def
      record_header_fields
    using assms seq by (cases "done = []") (simp_all add: len record_type_of_value epoch_from_raw_def end_sequence_def)
qed

lemma next_record_cut:
  assumes "length (jr_payload r) < 2 ^ 32" and "k < length (record_bytes r)"
  shows "next_record lim done previous (take k (record_bytes r)) = None"
proof (cases "k < 52")
  case True
  then show ?thesis by (simp add: next_record_def kRecordHeaderBytes_def)
next
  case False
  then have h: "take 52 (take k (record_bytes r)) = take 52 (record_bytes r @ [])" by simp
  have len: "unat (of_nat (length (jr_payload r)) :: u32) = length (jr_payload r)"
    using assms(1) by (simp add: unat_of_nat)
  have short: "length (take (length (jr_payload r)) (drop 52 (take k (record_bytes r)))) \<noteq> length (jr_payload r)"
    using assms(2) False by simp
  show ?thesis
    unfolding next_record_def kRecordHeaderBytes_def h take_record_header Let_def record_header_fields
    using short by (simp add: len del: length_take length_drop)
qed

definition with_records :: "JournalRecord list \<Rightarrow> Journal \<Rightarrow> Journal" where
  "with_records rs j = j\<lparr>jn_stats := (jn_stats j)\<lparr>js_sequence := end_sequence (js_sequence (jn_stats j)) rs\<rparr>,
     jn_retained_bytes := jn_retained_bytes j + payload_total rs, jn_records := jn_records j @ rs\<rparr>"

lemma with_records_Nil [simp]: "with_records [] j = j"
  by (simp add: with_records_def)

lemma replay_records_stop:
  "rest = [] \<or> next_record (jn_limits j) (jn_records j) previous rest = None \<Longrightarrow>
     replay_records rest offset previous j = (Inr (offset, previous), (if rest = [] then id else count_torn) j)"
  by (subst replay_records.simps) auto

lemma replay_records_step:
  assumes "next_record (jn_limits j) (jn_records j) previous rest = Some r" and "rest \<noteq> []"
  shows "replay_records rest offset previous j =
    (if jn_retained_bytes j + length (jr_payload r) > jl_max_retained_bytes (jn_limits j)
     then (fail LimitExceeded ''journal retained bytes'' (of_nat (jn_retained_bytes j + length (jr_payload r))),
       j\<lparr>jn_stats := (jn_stats j)\<lparr>js_sequence := jr_sequence r\<rparr>,
         jn_retained_bytes := jn_retained_bytes j + length (jr_payload r)\<rparr>)
     else replay_records (drop (52 + length (jr_payload r)) rest) (offset + 52 + length (jr_payload r)) (jr_chain r)
       (with_records [r] j))"
  using assms
  by (subst replay_records.simps) (simp add: Let_def with_records_def kRecordHeaderBytes_def)

text \<open>Complete records, then a tail that is empty or starts no record.\<close>

lemma replay_records_image:
  assumes "valid_chain previous (end_sequence 0 (jn_records j)) rs"
    and "jl_max_record_bytes (jn_limits j) < 2 ^ 32" and "records_fit (jn_limits j) (jn_records j @ rs)"
    and "jn_retained_bytes j = payload_total (jn_records j)"
    and "tail = [] \<or> next_record (jn_limits j) (jn_records j @ rs) (end_chain previous rs) tail = None"
  shows "replay_records (body rs @ tail) offset previous j =
    (Inr (offset + length (body rs), end_chain previous rs),
     (if tail = [] then id else count_torn) (with_records rs j))"
  using assms
proof (induction rs arbitrary: offset previous j)
  case Nil
  then show ?case by (simp add: replay_records_stop)
next
  case (Cons r rs)
  let ?j = "with_records [r] j"
  have n: "next_record (jn_limits j) (jn_records j) previous (record_bytes r @ body rs @ tail) = Some r"
    using Cons.prems(1-3) by (intro next_record_written) (auto simp: records_fit_def)
  have "replay_records (body (r # rs) @ tail) offset previous j =
      replay_records (body rs @ tail) (offset + 52 + length (jr_payload r)) (jr_chain r) ?j"
    using Cons.prems(3,4) replay_records_step [OF n, of offset] by (simp add: records_fit_def)
  also have "\<dots> = (Inr (offset + 52 + length (jr_payload r) + length (body rs), end_chain (jr_chain r) rs),
      (if tail = [] then id else count_torn) (with_records rs ?j))"
    using Cons.prems by (intro Cons.IH) (auto simp: with_records_def)
  also have "with_records rs ?j = with_records (r # rs) j"
    by (simp add: with_records_def add.assoc)
  finally show ?case by (simp add: add.assoc)
qed

section \<open>Whatever is on disk\<close>

lemma next_record_sound:
  assumes "next_record lim done previous rest = Some r"
  shows "valid_chain previous (end_sequence 0 done) [r]" and "length (jr_payload r) \<le> jl_max_record_bytes lim"
    and "length done < jl_max_records lim" and "52 + length (jr_payload r) \<le> length rest"
  using assms
  by (auto simp: next_record_def Let_def kRecordHeaderBytes_def end_sequence_def dest: record_type_of_Some
      split: if_splits option.splits)

text \<open>Replay looks at no byte beyond the record.\<close>

lemma next_record_local:
  assumes "next_record lim done previous rest = Some r"
  shows "next_record lim done previous (take (52 + length (jr_payload r)) rest @ xs) = Some r"
proof -
  let ?n = "52 + length (jr_payload r)"
  have n: "?n \<le> length rest" by (rule next_record_sound(4) [OF assms])
  have len: "unat (get_u32 (take 52 rest) 0) = length (jr_payload r)"
    using assms by (auto simp: next_record_def Let_def kRecordHeaderBytes_def split: if_splits option.splits)
  have h: "take 52 (take ?n rest @ xs) = take 52 rest" using n by (simp add: min_def)
  have "take (length (jr_payload r)) (drop 52 (take ?n rest @ xs)) = take (length (jr_payload r)) (drop 52 rest)"
    using n by (simp add: drop_take)
  with len have p: "take (unat (get_u32 (take 52 rest) 0)) (drop 52 (take ?n rest @ xs)) =
      take (unat (get_u32 (take 52 rest) 0)) (drop 52 rest)" by simp
  show ?thesis using assms unfolding next_record_def kRecordHeaderBytes_def Let_def h p .
qed

lemma records_fit_snoc:
  assumes "records_fit lim xs" and "next_record lim xs previous rest = Some r"
    and "payload_total xs + length (jr_payload r) \<le> jl_max_retained_bytes lim"
  shows "records_fit lim (xs @ [r])"
  using assms next_record_sound(2,3) [OF assms(2)] by (simp add: records_fit_def)

text \<open>
  What replay accepts of any bytes: a chain of records within the limits, in a prefix that
  replays to the same records without a torn tail.
\<close>

definition accepted :: "Digest128 \<Rightarrow> Journal \<Rightarrow> u8 list \<Rightarrow> nat \<Rightarrow> Digest128 \<Rightarrow> Journal \<Rightarrow> JournalRecord list \<Rightarrow> bool" where
  "accepted previous j rest n previous' j' rs \<longleftrightarrow>
     valid_chain previous (end_sequence 0 (jn_records j)) rs \<and> records_fit (jn_limits j) (jn_records j @ rs) \<and>
     n = length (body rs) \<and> n \<le> length rest \<and> previous' = end_chain previous rs \<and>
     j' = (if n = length rest then id else count_torn) (with_records rs j) \<and>
     (\<forall>offset. replay_records (take n rest) offset previous j = (Inr (offset + n, previous'), with_records rs j))"

lemma replay_records_sound:
  assumes "replay_records rest offset previous j = (Inr (offset', previous'), j')"
    and "jn_retained_bytes j = payload_total (jn_records j)" and "records_fit (jn_limits j) (jn_records j)"
  shows "\<exists>rs n. offset' = offset + n \<and> accepted previous j rest n previous' j' rs"
  using assms
proof (induction rest offset previous j rule: replay_records.induct)
  case (1 rest offset previous j)
  show ?case
  proof (cases "rest = [] \<or> next_record (jn_limits j) (jn_records j) previous rest = None")
    case True
    with 1 show ?thesis
      by (intro exI [of _ "[]"] exI [of _ 0])
        (auto simp: accepted_def replay_records_stop intro!: ext)
  next
    case False
    then obtain r where n: "next_record (jn_limits j) (jn_records j) previous rest = Some r" "rest \<noteq> []" by auto
    let ?l = "length (jr_payload r)"
    note step = replay_records_step [OF n]
    have fits: "\<not> jn_retained_bytes j + ?l > jl_max_retained_bytes (jn_limits j)"
      using "1.prems"(1) step [of offset] by (auto split: if_splits)
    have rec: "replay_records (drop (52 + ?l) rest) (offset + 52 + ?l) (jr_chain r) (with_records [r] j) =
        (Inr (offset', previous'), j')"
      using "1.prems"(1) step [of offset] fits by simp
    have j1: "with_records [r] j = j\<lparr>jn_stats := (jn_stats j)\<lparr>js_sequence := jr_sequence r\<rparr>,
        jn_retained_bytes := jn_retained_bytes j + ?l, jn_records := jn_records j @ [r]\<rparr>"
      by (simp add: with_records_def)
    have fit: "records_fit (jn_limits j) (jn_records j @ [r])"
      using records_fit_snoc [OF "1.prems"(3) n(1)] fits "1.prems"(2) by simp
    obtain rs m where m: "offset' = offset + 52 + ?l + m"
      "accepted (jr_chain r) (with_records [r] j) (drop (52 + ?l) rest) m previous' j' rs"
      using "1.IH" [OF n(2,1) refl refl] rec fits fit "1.prems"(2) by (auto simp: j1 kRecordHeaderBytes_def)
    have le: "52 + ?l \<le> length rest" by (rule next_record_sound(4) [OF n(1)])
    have vc: "valid_chain previous (end_sequence 0 (jn_records j)) (r # rs)"
      using next_record_sound(1) [OF n(1)] m(2) by (simp add: accepted_def with_records_def)
    have whole: "with_records rs (with_records [r] j) = with_records (r # rs) j"
      by (simp add: with_records_def add.assoc)
    have tk: "take (52 + ?l + m) rest = take (52 + ?l) rest @ take m (drop (52 + ?l) rest)"
      by (simp add: take_add)
    have "replay_records (take (52 + ?l + m) rest) off previous j = (Inr (off + (52 + ?l + m), previous'), with_records (r # rs) j)"
      for off
    proof -
      have "next_record (jn_limits j) (jn_records j) previous (take (52 + ?l + m) rest) = Some r"
        unfolding tk by (rule next_record_local [OF n(1)])
      moreover have "take (52 + ?l + m) rest \<noteq> []" using n(2) by simp
      ultimately have "replay_records (take (52 + ?l + m) rest) off previous j =
          replay_records (drop (52 + ?l) (take (52 + ?l + m) rest)) (off + 52 + ?l) (jr_chain r) (with_records [r] j)"
        using replay_records_step fits by simp
      also have "drop (52 + ?l) (take (52 + ?l + m) rest) = take m (drop (52 + ?l) rest)" by (simp add: drop_take)
      also have "replay_records \<dots> (off + 52 + ?l) (jr_chain r) (with_records [r] j) =
          (Inr (off + 52 + ?l + m, previous'), with_records (r # rs) j)"
        using m(2) unfolding accepted_def whole by blast
      finally show ?thesis by (simp add: add.assoc)
    qed
    with m le vc whole show ?thesis
      by (intro exI [of _ "r # rs"] exI [of _ "52 + ?l + m"])
        (auto simp: accepted_def with_records_def add.assoc)
  qed
qed

section \<open>Opening\<close>

definition journal_mem :: "Journal \<Rightarrow> bool" where
  "journal_mem j \<longleftrightarrow>
     jn_handle j \<and> limits_ok (jn_limits j) \<and> well_chained (jn_limits j) (jn_records j) \<and>
     jn_retained_bytes j = payload_total (jn_records j) \<and> jn_file_bytes j = length (image (jn_records j)) \<and>
     js_sequence (jn_stats j) = of_nat (length (jn_records j)) \<and>
     js_chain (jn_stats j) = end_chain digest_zero (jn_records j)"

definition journal_inv :: "Journal \<Rightarrow> bool" where
  "journal_inv j \<longleftrightarrow>
     journal_mem j \<and> file_bytes (jn_file j) = Some (image (jn_records j)) \<and>
     file_durable (jn_file j) \<le> length (image (jn_records j))"

lemma on_file_simps [simp]:
  "jn_limits (snd (on_file f j)) = jn_limits j" "jn_handle (snd (on_file f j)) = jn_handle j"
  "jn_records (snd (on_file f j)) = jn_records j" "jn_stats (snd (on_file f j)) = jn_stats j"
  "jn_file_bytes (snd (on_file f j)) = jn_file_bytes j" "jn_retained_bytes (snd (on_file f j)) = jn_retained_bytes j"
  "jn_file (snd (on_file f j)) = snd (f (jn_file j))" "fst (on_file f j) = fst (f (jn_file j))"
  by (simp_all add: on_file_def split: prod.splits)

text \<open>What \<open>replay_finish\<close> leaves alone, whichever calls fail.\<close>

lemma replay_finish_keeps:
  assumes "replay_finish offset previous j = (s, j')" and "status_ok s"
  shows "jn_limits j' = jn_limits j \<and> jn_handle j' = jn_handle j \<and> jn_records j' = jn_records j \<and>
    jn_retained_bytes j' = jn_retained_bytes j \<and> js_sequence (jn_stats j') = js_sequence (jn_stats j) \<and>
    js_chain (jn_stats j') = previous \<and> jn_file_bytes j' = offset"
  using assms
  by (auto simp: replay_finish_def Let_def try_state_ok split: prod.splits if_splits dest!: try_stateD)

lemma replay_records_error: "replay_records rest offset previous j = (Inl s, j') \<Longrightarrow> \<not> status_ok s"
proof (induction rest offset previous j rule: replay_records.induct)
  case (1 rest offset previous j)
  show ?case
  proof (cases "rest = [] \<or> next_record (jn_limits j) (jn_records j) previous rest = None")
    case True
    with "1.prems" show ?thesis by (simp add: replay_records_stop)
  next
    case False
    then obtain r where n: "next_record (jn_limits j) (jn_records j) previous rest = Some r" "rest \<noteq> []" by auto
    have "with_records [r] j = j\<lparr>jn_stats := (jn_stats j)\<lparr>js_sequence := jr_sequence r\<rparr>,
        jn_retained_bytes := jn_retained_bytes j + length (jr_payload r), jn_records := jn_records j @ [r]\<rparr>"
      by (simp add: with_records_def)
    with "1.IH" [OF n(2,1) refl refl] "1.prems" replay_records_step [OF n, of offset] show ?thesis
      by (auto simp: kRecordHeaderBytes_def status_ok_def fail_def status_error_def split: if_splits)
  qed
qed

lemma replay_file_sound:
  assumes "replay_file j = (s, j')" and "status_ok s" and "jn_handle j" and "limits_ok (jn_limits j)"
    and "jn_records j = []" and "jn_retained_bytes j = 0" and "jn_stats j = journal_stats"
  shows "journal_mem j' \<and> jn_limits j' = jn_limits j"
proof -
  obtain visible d j1 offset previous j2 where
    j1: "jn_records j1 = []" "jn_retained_bytes j1 = 0" "jn_stats j1 = journal_stats" "jn_handle j1"
      "jn_limits j1 = jn_limits j"
    and r: "replay_records (drop kHeaderBytes visible) kHeaderBytes digest_zero j1 = (Inr (offset, previous), j2)"
    and f: "replay_finish offset previous j2 = (s, j')"
  proof -
    let ?j = "snd (on_file (io_status ''seek start'') j)"
    obtain visible d where v: "fread_all (snd (io_status ''seek start'' (jn_file j))) = (visible, d)"
      by (rule prod.exhaust)
    obtain r j2 where r: "replay_records (drop kHeaderBytes visible) kHeaderBytes digest_zero (?j\<lparr>jn_file := d\<rparr>) = (r, j2)"
      by (rule prod.exhaust)
    have "(if \<not> status_ok (header_check visible) then (header_check visible, ?j\<lparr>jn_file := d\<rparr>)
        else case r of Inl e \<Rightarrow> (e, j2) | Inr (offset, previous) \<Rightarrow> replay_finish offset previous j2) = (s, j')"
      using try_stateD [OF assms(1) [unfolded replay_file_def] assms(2)]
      by (cases "status_ok (header_check visible)") (simp_all add: v r Let_def)
    with assms(2) replay_records_error [of _ _ _ _ _ j2] r
    obtain offset previous where "r = Inr (offset, previous)" "replay_finish offset previous j2 = (s, j')"
      by (auto split: if_splits sum.splits)
    with r assms show ?thesis by (intro that [of "?j\<lparr>jn_file := d\<rparr>" visible offset previous j2]) simp_all
  qed
  obtain rs n where n: "offset = kHeaderBytes + n"
    "accepted digest_zero j1 (drop kHeaderBytes visible) n previous j2 rs"
    using replay_records_sound [OF r] j1 by (auto simp: records_fit_def)
  then have "valid_chain digest_zero 0 rs" "records_fit (jn_limits j) rs" "n = length (body rs)"
    "previous = end_chain digest_zero rs" "jn_records j2 = rs" "jn_retained_bytes j2 = payload_total rs"
    "jn_handle j2" "jn_limits j2 = jn_limits j" "js_sequence (jn_stats j2) = end_sequence 0 rs"
    using j1 by (auto simp: accepted_def with_records_def count_torn_def journal_stats_def)
  with replay_finish_keeps [OF f assms(2)] assms(4) n(1) valid_chain_sequence show ?thesis
    by (auto simp: journal_mem_def well_chained_def length_image kHeaderBytes_def)
qed

lemma open_start:
  assumes "(s, j) = (if file_bytes d = None then try_state (create_handle (journal_closed lim d)) write_header
      else open_handle (journal_closed lim d))" and "status_ok s"
  shows "jn_handle j \<and> jn_limits j = lim \<and> jn_records j = [] \<and> jn_retained_bytes j = 0 \<and> jn_stats j = journal_stats"
  using assms
  by (auto simp: journal_closed_def create_handle_def write_header_def open_handle_def Let_def try_state_def
      on_file_def split: prod.splits if_splits)

lemma journal_open_sound:
  assumes "journal_open lim c d = (Inr j, d')" and "jl_max_record_bytes lim < 2 ^ 32"
  shows "journal_mem j \<and> jn_limits j = lim \<and> d' = jn_file j"
proof -
  have lim: "limits_ok lim" using assms by (auto simp: journal_open_def limits_ok_def split: if_splits)
  obtain s0 j0 where start: "(s0, j0) = (if file_bytes d = None
      then try_state (create_handle (journal_closed lim d)) write_header
      else open_handle (journal_closed lim d))" by (metis prod.exhaust)
  obtain s1 j1 where r: "replay_file j0 = (s1, j1)" by (rule prod.exhaust)
  have ok: "status_ok s0" "status_ok s1" "j = j1" "d' = jn_file j1"
    using assms(1) unfolding journal_open_def Let_def start [symmetric]
    by (auto simp: r split: if_splits)
  with open_start [OF start ok(1)] replay_file_sound [OF r ok(2)] lim show ?thesis by simp
qed

section \<open>Reopening without failures\<close>

lemma replay_finish_done:
  assumes "file_tape (jn_file j) = []" and "file_bytes (jn_file j) = Some bs" and "offset \<le> length bs"
  shows "\<exists>j'. replay_finish offset previous j = (status_success, j') \<and>
    jn_limits j' = jn_limits j \<and> jn_handle j' = jn_handle j \<and> jn_records j' = jn_records j \<and>
    file_bytes (jn_file j') = Some (take offset bs) \<and> file_tape (jn_file j') = [] \<and>
    file_durable (jn_file j') = (if offset < length bs then min offset else id) (file_durable (jn_file j)) \<and>
    (js_repaired (jn_stats j') \<longleftrightarrow> js_repaired (jn_stats j) \<or> offset < length bs) \<and>
    js_truncated_tail_records (jn_stats j') = js_truncated_tail_records (jn_stats j)"
proof (cases "offset < length bs")
  case True
  with assms show ?thesis
    by (simp add: replay_finish_def Let_def on_file_def truncate_handle_def seek_end_def file_contents_def)
next
  case False
  with assms show ?thesis
    by (simp add: replay_finish_def Let_def on_file_def seek_end_def file_contents_def)
qed

lemma journal_open_present:
  assumes "limits_ok lim" and "file_bytes d = Some bs" and "file_tape d = []"
    and "status_ok (header_check bs)"
    and "replay_records (drop 32 bs) 32 digest_zero ((journal_closed lim d)\<lparr>jn_handle := True\<rparr>) =
      (Inr (offset, previous), j2)" and "jn_file j2 = d" and "offset \<le> length bs"
  obtains j where "journal_open lim c d = (Inr j, jn_file j)"
    "jn_records j = jn_records j2" "file_bytes (jn_file j) = Some (take offset bs)" "file_tape (jn_file j) = []"
    "file_durable (jn_file j) = (if offset < length bs then min offset else id) (file_durable d)"
    "js_repaired (jn_stats j) \<longleftrightarrow> js_repaired (jn_stats j2) \<or> offset < length bs"
    "js_truncated_tail_records (jn_stats j) = js_truncated_tail_records (jn_stats j2)"
proof -
  let ?j0 = "(journal_closed lim d)\<lparr>jn_handle := True\<rparr>"
  have o: "open_handle (journal_closed lim d) = (status_success, ?j0)"
    using assms(2,3) by (simp add: open_handle_def journal_closed_def)
  obtain j where j: "replay_finish offset previous j2 = (status_success, j)"
    "jn_records j = jn_records j2" "file_bytes (jn_file j) = Some (take offset bs)" "file_tape (jn_file j) = []"
    "file_durable (jn_file j) = (if offset < length bs then min offset else id) (file_durable d)"
    "js_repaired (jn_stats j) \<longleftrightarrow> js_repaired (jn_stats j2) \<or> offset < length bs"
    "js_truncated_tail_records (jn_stats j) = js_truncated_tail_records (jn_stats j2)"
    using replay_finish_done [of j2 bs offset previous] assms(2,3,6,7) by auto
  have "replay_file ?j0 = (status_success, j)"
    using assms(2-5) j(1)
    by (simp add: replay_file_def on_file_def fread_all_def journal_closed_def file_contents_def kHeaderBytes_def)
  then have "journal_open lim c d = (Inr j, jn_file j)"
    using assms(1,2) o by (auto simp: journal_open_def limits_ok_def)
  with j that show ?thesis by blast
qed

lemma with_records_file [simp]: "jn_file (with_records rs j) = jn_file j" "jn_file (count_torn j) = jn_file j"
  "jn_records (with_records rs j) = jn_records j @ rs" "jn_records (count_torn j) = jn_records j"
  by (simp_all add: with_records_def count_torn_def)

text \<open>Complete records and then a tail that starts no record: the records come back, the tail goes.\<close>

lemma journal_open_image:
  assumes lim: "limits_ok lim" and d: "file_bytes d = Some (image rs @ tail)" "file_tape d = []"
    and rs: "well_chained lim rs"
    and tail: "tail = [] \<or> next_record lim rs (end_chain digest_zero rs) tail = None"
    and dur: "file_durable d \<le> length (image rs @ tail)"
  shows "\<exists>j. journal_open lim c d = (Inr j, jn_file j) \<and> jn_records j = rs \<and> jn_limits j = lim \<and> journal_inv j \<and>
    file_tape (jn_file j) = [] \<and> (js_repaired (jn_stats j) \<longleftrightarrow> tail \<noteq> []) \<and>
    (tail = [] \<longrightarrow> file_durable (jn_file j) = file_durable d)"
proof -
  let ?j = "(journal_closed lim d)\<lparr>jn_handle := True\<rparr>"
  let ?j2 = "(if tail = [] then id else count_torn) (with_records rs ?j)"
  have h: "status_ok (header_check (image rs @ tail))" by (simp add: image_def header_check_image)
  have "replay_records (body rs @ tail) 32 digest_zero ?j = (Inr (32 + length (body rs), end_chain digest_zero rs), ?j2)"
    using rs lim tail by (intro replay_records_image) (auto simp: journal_closed_def well_chained_def limits_ok_def)
  then have r: "replay_records (drop 32 (image rs @ tail)) 32 digest_zero ?j =
      (Inr (32 + length (body rs), end_chain digest_zero rs), ?j2)" by (simp add: image_def)
  have f: "jn_file ?j2 = d" by (simp add: journal_closed_def)
  obtain j where j: "journal_open lim c d = (Inr j, jn_file j)" "jn_records j = jn_records ?j2"
    "file_bytes (jn_file j) = Some (take (32 + length (body rs)) (image rs @ tail))" "file_tape (jn_file j) = []"
    "file_durable (jn_file j) = (if 32 + length (body rs) < length (image rs @ tail)
       then min (32 + length (body rs)) else id) (file_durable d)"
    "js_repaired (jn_stats j) \<longleftrightarrow> js_repaired (jn_stats ?j2) \<or> 32 + length (body rs) < length (image rs @ tail)"
    by (rule journal_open_present [OF lim d h r f]) (simp add: length_image)
  have "journal_mem j \<and> jn_limits j = lim"
    using journal_open_sound [OF j(1)] lim by (simp add: limits_ok_def)
  moreover have "jn_records j = rs" using j(2) by (simp add: journal_closed_def)
  moreover have "\<not> js_repaired (jn_stats ?j2)"
    by (simp add: with_records_def count_torn_def journal_closed_def journal_stats_def)
  ultimately show ?thesis
    using j dur by (intro exI [of _ j]) (auto simp: journal_inv_def length_image split: if_splits)
qed

section \<open>Crashes\<close>

lemma cut_body:
  assumes "\<forall>r \<in> set rs. length (jr_payload r) < 2 ^ 32"
  shows "\<exists>m tail. m \<le> length rs \<and> take k (body rs) = body (take m rs) @ tail \<and>
    (\<forall>lim done previous. tail = [] \<or> next_record lim done previous tail = None) \<and>
    (\<forall>n \<le> length rs. length (body (take n rs)) \<le> k \<longrightarrow> n \<le> m)"
  using assms
proof (induction rs arbitrary: k)
  case (Cons r rs)
  show ?case
  proof (cases "k < length (record_bytes r)")
    case True
    then have "\<forall>n \<le> length (r # rs). length (body (take n (r # rs))) \<le> k \<longrightarrow> n \<le> 0"
      by (auto simp: take_Cons' split: if_splits)
    with True Cons.prems show ?thesis
      by (intro exI [of _ 0] exI [of _ "take k (record_bytes r)"]) (auto simp: next_record_cut)
  next
    case False
    obtain m tail where m: "m \<le> length rs" "take (k - length (record_bytes r)) (body rs) = body (take m rs) @ tail"
      "\<forall>lim done previous. tail = [] \<or> next_record lim done previous tail = None"
      "\<forall>n \<le> length rs. length (body (take n rs)) \<le> k - length (record_bytes r) \<longrightarrow> n \<le> m"
      using Cons.IH [of "k - length (record_bytes r)"] Cons.prems by auto
    have "n \<le> Suc m" if "n \<le> length (r # rs)" "length (body (take n (r # rs))) \<le> k" for n
      using that m(4) by (cases n) auto
    moreover have "take k (body (r # rs)) = body (take (Suc m) (r # rs)) @ tail"
      using m(2) False by simp
    ultimately show ?thesis using m(1,3) by (intro exI [of _ "Suc m"] exI [of _ tail]) simp
  qed
qed simp

lemma crash_reopens:
  assumes inv: "journal_inv j" and k: "32 \<le> max k (file_durable (jn_file j))"
  shows "\<exists>j' m. journal_open (jn_limits j) c ((crash k (jn_file j))\<lparr>file_tape := []\<rparr>) = (Inr j', jn_file j') \<and>
    jn_records j' = take m (jn_records j) \<and> journal_inv j' \<and> jn_limits j' = jn_limits j \<and>
    (\<forall>n \<le> length (jn_records j). length (image (take n (jn_records j))) \<le> file_durable (jn_file j) \<longrightarrow> n \<le> m)"
proof -
  let ?rs = "jn_records j" and ?k = "max k (file_durable (jn_file j))"
  let ?d = "(crash k (jn_file j))\<lparr>file_tape := []\<rparr>"
  have wf: "limits_ok (jn_limits j)" "well_chained (jn_limits j) ?rs" and fb: "file_bytes (jn_file j) = Some (image ?rs)"
    and dur: "file_durable (jn_file j) \<le> length (image ?rs)"
    using inv by (auto simp: journal_inv_def journal_mem_def)
  then have "\<forall>r \<in> set ?rs. length (jr_payload r) < 2 ^ 32"
    by (auto simp: limits_ok_def well_chained_def records_fit_def)
  then obtain m tail where m: "m \<le> length ?rs" "take (?k - 32) (body ?rs) = body (take m ?rs) @ tail"
    "\<forall>lim done previous. tail = [] \<or> next_record lim done previous tail = None"
    "\<forall>n \<le> length ?rs. length (body (take n ?rs)) \<le> ?k - 32 \<longrightarrow> n \<le> m"
    using cut_body [of ?rs "?k - 32"] by auto
  have "file_bytes ?d = Some (image (take m ?rs) @ tail)"
    using fb k m(2) by (simp add: crash_def image_def)
  moreover have "well_chained (jn_limits j) (take m ?rs)"
    using well_chained_prefix [of _ "take m ?rs" "drop m ?rs"] wf(2) by simp
  moreover have "file_durable ?d \<le> length (image (take m ?rs) @ tail)"
  proof -
    have "length (image (take m ?rs) @ tail) = length (take ?k (image ?rs))"
      using k m(2) by (simp add: image_def)
    then show ?thesis using dur by (simp add: crash_def)
  qed
  ultimately obtain j' where "journal_open (jn_limits j) c ?d = (Inr j', jn_file j')" "jn_records j' = take m ?rs"
    "journal_inv j'" "jn_limits j' = jn_limits j"
    using journal_open_image [OF wf(1), of ?d "take m ?rs" tail c] m(3) by auto
  moreover have "n \<le> m" if "n \<le> length ?rs" "length (image (take n ?rs)) \<le> file_durable (jn_file j)" for n
    using m(4) that by (auto simp: length_image)
  ultimately show ?thesis by blast
qed

section \<open>Appending and syncing\<close>

text \<open>A successful append extends the chain by one record; a refused one changes nothing but the tape and the file.\<close>

lemma journal_append_ok:
  assumes "journal_append type tick epoch payload j = (s, j')" and "status_ok s"
  obtains r where "jn_records j' = jn_records j @ [r]" "jr_type r = type" "jr_tick r = tick" "jr_epoch r = epoch"
    "jr_payload r = payload" "file_bytes (jn_file j') = Some (file_contents (jn_file j) @ record_bytes r)"
    "file_durable (jn_file j') = file_durable (jn_file j)" "jn_limits j' = jn_limits j"
    "journal_mem j \<longrightarrow> journal_mem j'"
proof -
  let ?n = "js_sequence (jn_stats j) + 1"
  let ?r = "\<lparr>jr_sequence = ?n, jr_type = type, jr_tick = tick, jr_epoch = epoch,
      jr_chain = chain_of (js_chain (jn_stats j)) ?n type tick epoch payload, jr_payload = payload\<rparr>"
  obtain x f1 where x: "io_next (jn_file j) = (x, f1)" by (rule prod.exhaust)
  then have f1: "file_contents f1 = file_contents (jn_file j)" "file_durable f1 = file_durable (jn_file j)"
    using io_next_file [of "jn_file j"] by (simp_all add: file_contents_def)
  have guards: "type \<noteq> RT_Count" "length payload \<le> jl_max_record_bytes (jn_limits j)"
    "length (jn_records j) < jl_max_records (jn_limits j)"
    "jn_retained_bytes j + length payload \<le> jl_max_retained_bytes (jn_limits j)" "jn_handle j" "x = Done"
    using assms x
    by (auto simp: journal_append_def Let_def fwrite_def split: if_splits IoOutcome.splits dest!: try_stateD)
  with assms x f1 have j': "jn_records j' = jn_records j @ [?r]"
    "file_bytes (jn_file j') = Some (file_contents (jn_file j) @ record_bytes ?r)"
    "file_durable (jn_file j') = file_durable (jn_file j)" "jn_limits j' = jn_limits j" "jn_handle j'"
    "jn_retained_bytes j' = jn_retained_bytes j + length payload"
    "jn_file_bytes j' = jn_file_bytes j + 52 + length payload"
    "js_sequence (jn_stats j') = ?n" "js_chain (jn_stats j') = jr_chain ?r"
    by (auto simp: journal_append_def Let_def fwrite_def kRecordHeaderBytes_def split: if_splits dest!: try_stateD)
  have "journal_mem j'" if "journal_mem j"
  proof -
    have seq: "end_sequence 0 (jn_records j) = js_sequence (jn_stats j)"
      using that valid_chain_sequence [of digest_zero 0 "jn_records j"] by (auto simp: journal_mem_def well_chained_def)
    have "well_chained (jn_limits j) (jn_records j @ [?r])"
      using that guards by (auto simp: journal_mem_def well_chained_def records_fit_def valid_chain_append seq)
    with that j' show ?thesis by (simp add: journal_mem_def length_image add.commute)
  qed
  with j' show ?thesis by (intro that [of ?r]) simp_all
qed

lemma journal_append_refused:
  assumes "journal_append type tick epoch payload j = (s, j')" and "\<not> status_ok s"
  shows "jn_records j' = jn_records j" "jn_stats j' = jn_stats j" "jn_limits j' = jn_limits j"
    "jn_file_bytes j' = jn_file_bytes j" "jn_retained_bytes j' = jn_retained_bytes j" "jn_handle j' = jn_handle j"
proof -
  have "j' = j\<lparr>jn_file := jn_file j'\<rparr>"
    using assms by (auto simp: journal_append_def Let_def try_state_def on_file_def split: if_splits prod.splits)
  then show "jn_records j' = jn_records j" "jn_stats j' = jn_stats j" "jn_limits j' = jn_limits j"
    "jn_file_bytes j' = jn_file_bytes j" "jn_retained_bytes j' = jn_retained_bytes j" "jn_handle j' = jn_handle j"
    by (metis Journal.select_convs Journal.surjective Journal.update_convs(7))+
qed

lemma journal_append_inv:
  assumes "journal_append type tick epoch payload j = (s, j')" and "status_ok s" and "journal_inv j"
  shows "journal_inv j' \<and> jn_limits j' = jn_limits j \<and> file_durable (jn_file j') = file_durable (jn_file j) \<and>
    (\<exists>r. jn_records j' = jn_records j @ [r] \<and> jr_type r = type \<and> jr_payload r = payload \<and> jr_epoch r = epoch)"
proof -
  obtain r where "jn_records j' = jn_records j @ [r]" "jr_type r = type" "jr_epoch r = epoch" "jr_payload r = payload"
    "file_bytes (jn_file j') = Some (file_contents (jn_file j) @ record_bytes r)"
    "file_durable (jn_file j') = file_durable (jn_file j)" "jn_limits j' = jn_limits j" "journal_mem j'"
    using journal_append_ok [OF assms(1,2)] assms(3) unfolding journal_inv_def by metis
  with assms(3) show ?thesis
    by (intro conjI exI [of _ r]) (auto simp: journal_inv_def image_def file_contents_def)
qed

lemma journal_sync_ok:
  assumes "journal_sync j = (s, j')" and "status_ok s"
  shows "jn_records j' = jn_records j" "jn_limits j' = jn_limits j" "jn_stats j' = jn_stats j"
    "file_bytes (jn_file j') = file_bytes (jn_file j)" "file_durable (jn_file j') = length (file_contents (jn_file j))"
    "journal_mem j \<Longrightarrow> journal_mem j'"
proof -
  obtain s1 f1 where 1: "io_status ''fflush'' (jn_file j) = (s1, f1)" by (rule prod.exhaust)
  obtain s2 f2 where 2: "io_status ''fsync'' f1 = (s2, f2)" by (rule prod.exhaust)
  have c: "file_contents f2 = file_contents (jn_file j)" "file_bytes f2 = file_bytes (jn_file j)"
    using io_status_file [of "''fflush''" "jn_file j"] io_status_file [of "''fsync''" f1] by (simp_all add: 1 2)
  have "jn_handle j" "status_ok s1" "status_ok s2"
    using assms 1 2 by (auto simp: journal_sync_def sync_handle_def on_file_def try_state_def split: if_splits)
  then have "j' = j\<lparr>jn_file := f2\<lparr>file_durable := length (file_contents (jn_file j))\<rparr>\<rparr>"
    using assms(1) c by (simp add: journal_sync_def sync_handle_def on_file_def 1 2)
  with c show "jn_records j' = jn_records j" "jn_limits j' = jn_limits j" "jn_stats j' = jn_stats j"
    "file_bytes (jn_file j') = file_bytes (jn_file j)" "file_durable (jn_file j') = length (file_contents (jn_file j))"
    "journal_mem j \<Longrightarrow> journal_mem j'"
    by (simp_all add: journal_mem_def)
qed

lemma journal_sync_inv:
  assumes "journal_sync j = (s, j')" and "status_ok s" and "journal_inv j"
  shows "journal_inv j'" and "file_durable (jn_file j') = length (image (jn_records j))"
  using journal_sync_ok [OF assms(1,2)] assms(3) by (simp_all add: journal_inv_def file_contents_def)

fun journal_appends :: "(RecordType \<times> Tick \<times> Epoch \<times> u8 list) list \<Rightarrow> Journal \<Rightarrow> Status \<times> Journal" where
  "journal_appends [] j = (status_success, j)"
| "journal_appends ((type, tick, epoch, payload) # xs) j =
     try_state (journal_append type tick epoch payload j) (journal_appends xs)"

lemma journal_appends_inv:
  assumes "journal_appends xs j = (s, j')" and "status_ok s" and "journal_inv j"
  shows "journal_inv j' \<and> jn_limits j' = jn_limits j \<and> file_durable (jn_file j') = file_durable (jn_file j) \<and>
    (\<exists>rs. jn_records j' = jn_records j @ rs \<and> map jr_type rs = map fst xs \<and>
       map jr_payload rs = map (\<lambda>(_, _, _, p). p) xs)"
  using assms
proof (induction xs j rule: journal_appends.induct)
  case (2 type tick epoch payload xs j)
  obtain s1 j1 where a: "journal_append type tick epoch payload j = (s1, j1)" by (rule prod.exhaust)
  with "2.prems" have ok: "status_ok s1" "journal_appends xs j1 = (s, j')" by (auto dest!: try_stateD)
  note step = journal_append_inv [OF a ok(1) "2.prems"(3)]
  then obtain r where r: "jn_records j1 = jn_records j @ [r]" "jr_type r = type" "jr_payload r = payload" by blast
  from "2.IH" [of j1] ok a "2.prems"(2) step obtain rs where
    "journal_inv j'" "jn_limits j' = jn_limits j1" "file_durable (jn_file j') = file_durable (jn_file j1)"
    "jn_records j' = jn_records j1 @ rs" "map jr_type rs = map fst xs" "map jr_payload rs = map (\<lambda>(_, _, _, p). p) xs"
    by auto
  with r step show ?case by (intro conjI exI [of _ "r # rs"]) auto
qed auto

text \<open>Synced records survive every crash; what is recovered was written.\<close>

lemma synced_survive:
  assumes inv: "journal_inv j" and s: "journal_sync j = (s, j1)" "status_ok s"
    and a: "journal_appends xs j1 = (s', j2)" "status_ok s'"
  shows "\<exists>j'. journal_open (jn_limits j) c ((crash k (jn_file j2))\<lparr>file_tape := []\<rparr>) = (Inr j', jn_file j') \<and>
    journal_inv j' \<and> prefix (jn_records j) (jn_records j') \<and> prefix (jn_records j') (jn_records j2)"
proof -
  note sync = journal_sync_inv [OF s inv] journal_sync_ok(1,2) [OF s]
  from journal_appends_inv [OF a sync(1)] sync(2-4) obtain rs where
    j2: "journal_inv j2" "jn_limits j2 = jn_limits j" "file_durable (jn_file j2) = length (image (jn_records j))"
    "jn_records j2 = jn_records j @ rs" by auto
  then have "32 \<le> max k (file_durable (jn_file j2))" by (simp add: length_image)
  from crash_reopens [OF j2(1) this, of c] j2(2) obtain j' m where
    j': "journal_open (jn_limits j) c ((crash k (jn_file j2))\<lparr>file_tape := []\<rparr>) = (Inr j', jn_file j')"
      "jn_records j' = take m (jn_records j2)" "journal_inv j'"
      "\<forall>n \<le> length (jn_records j2). length (image (take n (jn_records j2))) \<le> file_durable (jn_file j2) \<longrightarrow> n \<le> m"
    by auto
  have "length (jn_records j) \<le> m" using j'(4) [rule_format, of "length (jn_records j)"] j2(3,4) by simp
  then have "prefix (jn_records j) (jn_records j')" using j'(2) j2(4) by (simp add: prefixI)
  moreover have "prefix (jn_records j') (jn_records j2)" unfolding j'(2) by (rule take_is_prefix)
  ultimately show ?thesis using j'(1,3) by blast
qed

section \<open>Damage\<close>

text \<open>
  A change of one byte that the checksum covers, in the header fields or in the payload of a
  record, stops replay at that record.
\<close>

lemma next_record_damaged:
  assumes bytes: "record_fields r @ jr_payload r = xs @ b # ys" and "b' \<noteq> b"
    and "length (jr_payload r) < 2 ^ 32"
  shows "next_record lim done previous
    (le_encode 4 (of_nat (length (jr_payload r)) :: u32) @
     le_encode 4 (crc32_update (crc32 (record_fields r)) (jr_payload r)) @ (xs @ b' # ys) @ rest) = None"
proof -
  let ?n = "length (jr_payload r)"
  let ?crc = "crc32_update (crc32 (record_fields r)) (jr_payload r)"
  let ?zs = "xs @ b' # ys"
  let ?h = "le_encode 4 (of_nat ?n :: u32) @ le_encode 4 ?crc @ take 44 ?zs"
  have len: "length ?zs = 44 + ?n" using arg_cong [OF bytes, of length] by simp
  have u: "unat (of_nat ?n :: u32) = ?n" using assms(3) by (simp add: unat_of_nat)
  have h: "take 52 (le_encode 4 (of_nat ?n :: u32) @ le_encode 4 ?crc @ ?zs @ rest) = ?h"
    using len by (simp del: append.simps(2))
  have p: "take ?n (drop 52 (le_encode 4 (of_nat ?n :: u32) @ le_encode 4 ?crc @ ?zs @ rest)) = drop 44 ?zs"
    using len by (simp del: append.simps(2))
  have f: "get_u32 ?h 0 = of_nat ?n" "get_u32 ?h 4 = ?crc" "drop 8 ?h = take 44 ?zs"
    using get_u32_at [of "[]" 0] get_u32_at [of "le_encode 4 (of_nat ?n :: u32)" 4] by simp_all
  have "crc32_update (crc32 (take 44 ?zs)) (drop 44 ?zs) = crc32_update 0 (take 44 ?zs @ drop 44 ?zs)"
    by (simp only: crc32_def crc32_update_append)
  also have "\<dots> = crc32_update 0 (xs @ b' # ys)" by (simp only: append_take_drop_id)
  also have "\<dots> \<noteq> crc32_update 0 (xs @ b # ys)" using assms(2) crc32_one_byte by blast
  also have "crc32_update 0 (xs @ b # ys) = ?crc" by (simp only: bytes [symmetric] crc32_def crc32_update_append)
  finally have "crc32_update (crc32 (take 44 ?zs)) (drop 44 ?zs) \<noteq> ?crc" .
  then show ?thesis
    unfolding next_record_def kRecordHeaderBytes_def Let_def h f u p by simp
qed

section \<open>Repair\<close>

text \<open>Replaying bytes does not look at the file they came from.\<close>

lemma replay_records_file:
  "replay_records bs offset previous (j\<lparr>jn_file := f\<rparr>) =
     map_prod id (\<lambda>j. j\<lparr>jn_file := f\<rparr>) (replay_records bs offset previous j)"
proof (induction bs offset previous j rule: replay_records.induct)
  case (1 rest offset previous j)
  show ?case
  proof (cases "rest = [] \<or> next_record (jn_limits j) (jn_records j) previous rest = None")
    case True
    then show ?thesis by (auto simp: replay_records_stop count_torn_def)
  next
    case False
    then obtain r where n: "next_record (jn_limits j) (jn_records j) previous rest = Some r" "rest \<noteq> []" by auto
    have w: "with_records [r] (j\<lparr>jn_file := f\<rparr>) = (with_records [r] j)\<lparr>jn_file := f\<rparr>"
      "with_records [r] j = j\<lparr>jn_stats := (jn_stats j)\<lparr>js_sequence := jr_sequence r\<rparr>,
        jn_retained_bytes := jn_retained_bytes j + length (jr_payload r), jn_records := jn_records j @ [r]\<rparr>"
      by (simp_all add: with_records_def)
    have n': "next_record (jn_limits (j\<lparr>jn_file := f\<rparr>)) (jn_records (j\<lparr>jn_file := f\<rparr>)) previous rest = Some r"
      using n(1) by simp
    show ?thesis
      using "1.IH" [OF n(2,1) refl refl]
      by (simp add: replay_records_step [OF n] replay_records_step [OF n' n(2)] w kRecordHeaderBytes_def add.assoc)
  qed
qed

text \<open>Opening arbitrary bytes once is enough: opening what it leaves gives the same journal, unrepaired.\<close>

lemma header_check_take: "32 \<le> n \<Longrightarrow> header_check (take n bs) = header_check bs"
  by (simp add: header_check_def kHeaderBytes_def)

lemma journal_open_eq:
  fixes lim :: JournalLimits and d :: JournalFile
  defines "j0 \<equiv> (journal_closed lim d)\<lparr>jn_handle := True\<rparr>"
  assumes "limits_ok lim" and "file_bytes d = Some bs" and "file_tape d = []"
  shows "journal_open lim c d =
    (let (s, j) = (if \<not> status_ok (header_check bs) then (header_check bs, j0)
         else case replay_records (drop 32 bs) 32 digest_zero j0 of
           (Inl e, j3) \<Rightarrow> (e, j3)
         | (Inr (offset, previous), j3) \<Rightarrow> replay_finish offset previous j3)
     in if \<not> status_ok s then (fail (st_code s) (st_context s) 0, jn_file j) else (Inr j, jn_file j))"
proof -
  have "open_handle (journal_closed lim d) = (status_success, j0)"
    using assms by (auto simp: open_handle_def journal_closed_def Let_def)
  moreover have "replay_file j0 = (if \<not> status_ok (header_check bs) then (header_check bs, j0)
         else case replay_records (drop 32 bs) 32 digest_zero j0 of
           (Inl e, j3) \<Rightarrow> (e, j3)
         | (Inr (offset, previous), j3) \<Rightarrow> replay_finish offset previous j3)"
    using assms by (simp add: replay_file_def on_file_def fread_all_def journal_closed_def file_contents_def
        kHeaderBytes_def Let_def)
  ultimately show ?thesis using assms(2,3) by (simp add: journal_open_def limits_ok_def Let_def)
qed

lemma reopen_same:
  assumes lim: "limits_ok lim" and d: "file_bytes d = Some bs" "file_tape d = []"
    and o: "journal_open lim c d = (Inr j, d')"
  shows "\<exists>j2. journal_open lim c2 d' = (Inr j2, jn_file j2) \<and> jn_records j2 = jn_records j \<and>
    file_bytes (jn_file j2) = file_bytes d' \<and> \<not> js_repaired (jn_stats j2) \<and>
    (\<exists>n. file_bytes d' = Some (take n bs))"
proof -
  let ?j0 = "\<lambda>f. (journal_closed lim f)\<lparr>jn_handle := True\<rparr>"
  note eq0 = journal_open_eq [OF lim d, of c]
  have hc: "status_ok (header_check bs)" using o unfolding eq0 by (simp add: Let_def split: if_splits)
  obtain r j2 where r: "replay_records (drop 32 bs) 32 digest_zero (?j0 d) = (r, j2)" by (rule prod.exhaust)
  have "\<not> isl r"
  proof
    assume "isl r"
    then obtain e where "r = Inl e" by (cases r) auto
    with r o hc replay_records_error [of "drop 32 bs" 32 digest_zero "?j0 d" e j2] show False
      unfolding eq0 by simp
  qed
  then obtain offset previous where r': "replay_records (drop 32 bs) 32 digest_zero (?j0 d) = (Inr (offset, previous), j2)"
    using r by (cases r) auto
  have len: "32 \<le> length bs" using hc by (auto simp: header_check_def kHeaderBytes_def Let_def split: if_splits)
  obtain rs n where n: "offset = 32 + n" "accepted digest_zero (?j0 d) (drop 32 bs) n previous j2 rs"
    using replay_records_sound [OF r'] by (auto simp: journal_closed_def records_fit_def)
  then have off: "offset \<le> length bs" "jn_records j2 = rs" "jn_file j2 = d"
    using len by (auto simp: accepted_def journal_closed_def)
  obtain j' where j': "journal_open lim c d = (Inr j', jn_file j')"
    "jn_records j' = jn_records j2" "file_bytes (jn_file j') = Some (take offset bs)" "file_tape (jn_file j') = []"
    by (rule journal_open_present [OF lim d hc r' off(3,1)])
  have eq: "j = j'" "d' = jn_file j'" using o j'(1) by auto
  have same: "?j0 d' = (?j0 d)\<lparr>jn_file := d'\<rparr>" by (simp add: journal_closed_def)
  have dr: "drop 32 (take offset bs) = take n (drop 32 bs)" using n(1) by (simp add: drop_take)
  have "replay_records (take n (drop 32 bs)) 32 digest_zero (?j0 d') = (Inr (32 + n, previous), with_records rs (?j0 d'))"
  proof -
    have acc: "replay_records (take n (drop 32 bs)) 32 digest_zero (?j0 d) = (Inr (32 + n, previous), with_records rs (?j0 d))"
      using n(2) unfolding accepted_def by blast
    have wr: "(with_records rs (?j0 d))\<lparr>jn_file := d'\<rparr> = with_records rs (?j0 d')"
      by (simp add: with_records_def journal_closed_def)
    have "replay_records (take n (drop 32 bs)) 32 digest_zero (?j0 d') =
        map_prod id (\<lambda>j. j\<lparr>jn_file := d'\<rparr>) (replay_records (take n (drop 32 bs)) 32 digest_zero (?j0 d))"
      by (subst same) (rule replay_records_file)
    then show ?thesis by (simp only: acc map_prod_simp id_apply wr)
  qed
  with dr n(1) have r2: "replay_records (drop 32 (take offset bs)) 32 digest_zero (?j0 d') =
      (Inr (offset, previous), with_records rs (?j0 d'))" by simp
  have hc2: "status_ok (header_check (take offset bs))" using hc n(1) by (simp add: header_check_take)
  obtain j3 where "journal_open lim c2 d' = (Inr j3, jn_file j3)" "jn_records j3 = rs"
    "file_bytes (jn_file j3) = Some (take offset bs)" "\<not> js_repaired (jn_stats j3)"
    by (rule journal_open_present [OF lim _ _ hc2 r2, of c2])
      (use eq j' off(1) in \<open>auto simp: journal_closed_def with_records_def journal_stats_def\<close>)
  with j' eq off(2) show ?thesis by auto
qed

section \<open>Rewriting\<close>

fun rechain :: "Digest128 \<Rightarrow> u64 \<Rightarrow> JournalRecord list \<Rightarrow> JournalRecord list" where
  "rechain previous sequence [] = []"
| "rechain previous sequence (r # rs) =
     (let s = sequence + 1; chain = chain_of previous s (jr_type r) (jr_tick r) (jr_epoch r) (jr_payload r)
      in r\<lparr>jr_sequence := s, jr_chain := chain\<rparr> # rechain chain s rs)"

lemma rechain_fields:
  "length (rechain p s rs) = length rs" "map jr_type (rechain p s rs) = map jr_type rs"
  "map jr_payload (rechain p s rs) = map jr_payload rs" "map jr_epoch (rechain p s rs) = map jr_epoch rs"
  "map jr_tick (rechain p s rs) = map jr_tick rs"
  by (induction rs arbitrary: p s) (simp_all add: Let_def)

lemma rechain_valid: "\<forall>r \<in> set rs. jr_type r \<noteq> RT_Count \<Longrightarrow> valid_chain p s (rechain p s rs)"
  by (induction rs arbitrary: p s) (simp_all add: Let_def)

lemma payload_total_map: "payload_total rs = sum_list (map length (map jr_payload rs))"
  by (simp add: payload_total_def o_def)

lemma rewrite_image_ok:
  "rewrite_image lim p s rs buffer = Inr image' \<Longrightarrow>
     image' = buffer @ body (rechain p s rs) \<and> (\<forall>r \<in> set rs. length (jr_payload r) \<le> jl_max_record_bytes lim)"
  by (induction lim p s rs buffer rule: rewrite_image.induct) (auto simp: Let_def split: if_splits)

text \<open>A rewrite replaces the file as a whole or not at all, whichever calls fail.\<close>

lemma write_file_atomic_file:
  assumes "write_file_atomic bs f = (s, f')"
  shows "if status_ok s then file_bytes f' = Some bs \<and> file_durable f' = length bs
    else file_bytes f' = file_bytes f \<and> file_durable f' = file_durable f"
proof -
  define p where "p = (if bs = [] then (status_success, snd (io_status ''open temp for write'' f))
    else io_status ''short write'' (snd (io_status ''open temp for write'' f)))"
  have p: "file_bytes (snd p) = file_bytes f" "file_durable (snd p) = file_durable f" by (simp_all add: p_def)
  have "write_file_atomic bs f = try_state (io_status ''open temp for write'' f) (\<lambda>f1.
     try_state (if bs = [] then (status_success, f1) else io_status ''short write'' f1) (\<lambda>f2.
     try_state (io_status ''fflush'' f2) (\<lambda>f3. try_state (io_status ''fsync'' f3) (\<lambda>f4.
     try_state (io_status ''atomic rename'' f4) (\<lambda>f5.
       (status_success, f5\<lparr>file_bytes := Some bs, file_durable := length bs\<rparr>))))))"
    by (simp add: write_file_atomic_def)
  with assms p show ?thesis
    unfolding try_state_def p_def by (auto split: if_splits) (metis io_status_file snd_conv fst_conv)+
qed

lemma open_then_replay:
  assumes "limits_ok lim" and "file_bytes f \<noteq> None"
    and "try_state (open_handle (journal_closed lim f)) replay_file = (s, j)"
  shows "status_ok s \<Longrightarrow> journal_open lim c f = (Inr j, jn_file j)"
    and "\<not> status_ok s \<Longrightarrow> isl (fst (journal_open lim c f))"
proof -
  obtain s0 j0 where o: "open_handle (journal_closed lim f) = (s0, j0)" by (rule prod.exhaust)
  obtain s1 j1 where r: "replay_file j0 = (s1, j1)" by (rule prod.exhaust)
  have open1: "journal_open lim c f = (if \<not> status_ok s0 then (Inl s0, jn_file j0)
      else if \<not> status_ok s1 then (fail (st_code s1) (st_context s1) 0, jn_file j1) else (Inr j1, jn_file j1))"
    using assms(1,2) by (auto simp: journal_open_def limits_ok_def o r)
  show "journal_open lim c f = (Inr j, jn_file j)" if "status_ok s"
    using try_stateD [OF assms(3) that] that by (auto simp: open1 o r)
  show "isl (fst (journal_open lim c f))" if "\<not> status_ok s"
    using that assms(3) by (cases "status_ok s0") (auto simp: open1 o r fail_def)
qed

lemma rewrite_fits:
  assumes "journal_rewrite rs j = (s, j')" and "status_ok s"
  obtains buffer where "rewrite_image (jn_limits j) digest_zero 0 rs journal_header = Inr buffer"
    "length rs \<le> jl_max_records (jn_limits j)"
proof (cases "rewrite_image (jn_limits j) digest_zero 0 rs journal_header")
  case (Inl e)
  have "rewrite_image lim p q xs b = Inl e \<Longrightarrow> \<not> status_ok e" for lim p q xs b
    by (induction lim p q xs b rule: rewrite_image.induct) (auto simp: Let_def fail_def split: if_splits)
  from this [OF Inl] Inl assms show ?thesis by (auto simp: journal_rewrite_def split: if_splits)
next
  case (Inr buffer)
  with assms that show ?thesis by (auto simp: journal_rewrite_def split: if_splits)
qed

lemma rewrite_result:
  assumes lim: "limits_ok (jn_limits j)" and tape: "file_tape (jn_file j) = []"
    and types: "\<forall>r \<in> set rs. jr_type r \<noteq> RT_Count"
    and total: "payload_total rs \<le> jl_max_retained_bytes (jn_limits j)"
    and ok: "journal_rewrite rs j = (s, j')" "status_ok s"
  shows "journal_inv j' \<and> jn_limits j' = jn_limits j \<and> jn_records j' = rechain digest_zero 0 rs \<and>
    file_tape (jn_file j') = [] \<and> file_durable (jn_file j') = length (image (jn_records j'))"
proof -
  let ?rs = "rechain digest_zero 0 rs" and ?lim = "jn_limits j"
  obtain buffer where b: "rewrite_image ?lim digest_zero 0 rs journal_header = Inr buffer"
    and n: "length rs \<le> jl_max_records ?lim" by (rule rewrite_fits [OF ok])
  have buf: "buffer = image ?rs" "\<forall>r \<in> set rs. length (jr_payload r) \<le> jl_max_record_bytes ?lim"
    using rewrite_image_ok [OF b] by (simp_all add: image_def)
  have payloads: "length (jr_payload r) \<le> jl_max_record_bytes ?lim" if "r \<in> set ?rs" for r
  proof -
    have "jr_payload r \<in> set (map jr_payload ?rs)" using that by simp
    with buf(2) show ?thesis by (auto simp: rechain_fields)
  qed
  have wc: "well_chained ?lim ?rs"
    using rechain_valid [OF types] total n payloads
    by (simp add: well_chained_def records_fit_def payload_total_map rechain_fields)
  let ?f = "(jn_file j)\<lparr>file_bytes := Some (image ?rs), file_durable := length (image ?rs)\<rparr>"
  have w: "write_file_atomic buffer (jn_file j) = (status_success, ?f)"
    using tape by (simp add: write_file_atomic_def buf(1))
  have reset: "j\<lparr>jn_handle := False, jn_records := [], jn_stats := journal_stats, jn_retained_bytes := 0,
      jn_file_bytes := 0, jn_file := f\<rparr> = journal_closed ?lim f" for f
    by (simp add: journal_closed_def)
  have r: "try_state (open_handle (journal_closed ?lim ?f)) replay_file = (s, j')"
    using ok(1) n by (simp add: journal_rewrite_def b on_file_def w reset)
  obtain j2 where j2: "journal_open ?lim True ?f = (Inr j2, jn_file j2)" "jn_records j2 = ?rs" "jn_limits j2 = ?lim"
    "journal_inv j2" "file_tape (jn_file j2) = []" "file_durable (jn_file j2) = length (image ?rs)"
    using journal_open_image [OF lim, of ?f ?rs "[]" True] wc tape by auto
  have "journal_open ?lim True ?f = (Inr j', jn_file j')" by (rule open_then_replay(1) [OF lim _ r ok(2)]) simp
  with j2 show ?thesis by simp
qed

end
