(* ===== verification/Durable_Facts.thy ===== *)
theory Durable_Facts
  imports Durable Journal_Facts
begin

text \<open>
  Round trips of the serialised policies and fences and of the journal payloads, and the
  central fact on the durable store: what a restart reconstructs from the journal is the
  durable part of the state the store had.
\<close>

section \<open>Reading what was written\<close>

definition rd_at :: "u8 list \<Rightarrow> u8 list \<Rightarrow> ByteReader" where
  "rd_at before rest = \<lparr>rd_data = before @ rest, rd_offset = length before\<rparr>"

lemma byte_reader_at: "byte_reader bs = rd_at [] bs"
  by (simp add: byte_reader_def rd_at_def)

lemma reading_at [simp]: "reading (rd_at d rest) rest"
  by (simp add: reading_def rd_ok_def rd_at_def)

lemma rd_advance_at: "rd_advance (length xs) (rd_at d (xs @ rest)) = rd_at (d @ xs) rest"
  by (simp add: rd_advance_def rd_at_def)

context byte_codec
begin

lemma read_at: "admissible v \<Longrightarrow> then_read get k (rd_at d (enc v @ rest)) = k v (rd_at (d @ enc v) rest)"
  using get_then [of v "rd_at d (enc v @ rest)" rest k] by (simp add: rd_advance_at)

lemma read_at_last: "admissible v \<Longrightarrow> then_read get k (rd_at d (enc v)) = k v (rd_at (d @ enc v) [])"
  using read_at [of v k d "[]"] by simp

lemma emits_put: "admissible v \<Longrightarrow> length (enc v) \<le> wr_remaining w \<Longrightarrow> put v w = (status_success, wr_append (enc v) w)"
  by (rule put_fits)

end

lemmas reads =
  c_u16.read_at [OF TrueI] c_u32.read_at [OF TrueI] c_u64.read_at [OF TrueI] c_digest.read_at [OF TrueI]
  c_u16.read_at_last [OF TrueI] c_u32.read_at_last [OF TrueI] c_u64.read_at_last [OF TrueI]
  c_digest.read_at_last [OF TrueI]
  c_u8.read_at [OF TrueI, simplified append.simps] c_bool.read_at [OF TrueI, simplified append.simps]

lemma then_simps [simp]:
  "then_value (Inr x) k r = k x r" "read_return v r = (v, r)" "then_end v (rd_at d []) = (v, rd_at d [])"
  by (simp_all add: then_value_def read_return_def then_end_def expect_end_def rd_at_end_def rd_at_def)

lemma then_read_done: "f r = (Inr v, r') \<Longrightarrow> then_read f k r = k v r'"
  by (simp add: then_read_def)

definition emits :: "(ByteWriter \<Rightarrow> Status \<times> ByteWriter) \<Rightarrow> u8 list \<Rightarrow> bool" where
  "emits f bs \<longleftrightarrow> (\<forall>w. length bs \<le> wr_remaining w \<longrightarrow> f w = (status_success, wr_append bs w))"

lemma emits_fields:
  "emits (wr_u8 a) [a]" "emits (wr_u16 b) (le_encode 2 b)" "emits (wr_u32 c) (le_encode 4 c)"
  "emits (wr_u64 d) (le_encode 8 d)" "emits (wr_boolean e) [if e then 1 else 0]" "emits (wr_digest g) (digest_bytes g)"
  unfolding emits_def
  using c_u8.emits_put c_u16.emits_put c_u32.emits_put c_u64.emits_put c_bool.emits_put c_digest.emits_put
  by blast+

lemma emits_writes: "list_all2 emits fs bss \<Longrightarrow> emits (writes fs) (concat bss)"
proof (induction fs bss rule: list_all2_induct)
  case Nil
  then show ?case by (simp add: emits_def wr_append_def)
next
  case (Cons f fs bs bss)
  have "then_write f (writes fs) w = (status_success, wr_append (bs @ concat bss) w)"
    if "length bs + length (concat bss) \<le> wr_remaining w" for w
  proof -
    have "f w = (status_success, wr_append bs w)" using Cons.hyps(1) that by (simp add: emits_def)
    moreover have "writes fs (wr_append bs w) = (status_success, wr_append (concat bss) (wr_append bs w))"
      using Cons.IH that by (simp add: emits_def)
    ultimately show ?thesis by (simp add: then_write_def)
  qed
  then show ?case by (simp add: emits_def)
qed

lemma payload_of_emits:
  assumes "list_all2 emits fs bss" and "length (concat bss) \<le> cap"
  shows "payload_of cap fs = Inr (concat bss)"
proof -
  have "writes fs (byte_writer cap) = (status_success, wr_append (concat bss) (byte_writer cap))"
    using emits_writes [OF assms(1)] assms(2) by (simp add: emits_def byte_writer_def wr_remaining_def)
  then show ?thesis by (simp add: payload_of_def wr_append_def byte_writer_def)
qed

section \<open>Policies\<close>

definition policy_bytes :: "PropagationPolicy \<Rightarrow> u8 list list \<times> u8 list list \<times> u8 list list" where
  "policy_bytes p =
     ([le_encode 8 (id_value (pol_id p)), le_encode 8 (gen_value (pol_generation p)), le_encode 4 (pol_max_hops p),
       le_encode 4 (pol_max_fanout p), le_encode 4 (pol_max_expansions p), le_encode 4 (pol_max_visited p),
       le_encode 4 (pol_max_sources p), le_encode 4 (pol_max_records p), le_encode 4 (pol_max_path_records p)],
      [le_encode 4 (mag_raw (pol_min_propagatable p)), le_encode 8 (pol_lifetime_ticks p),
       [aggregation_rule_value (pol_aggregation p)], le_encode 4 (mag_raw (pol_aggregation_ceiling p)),
       [if pol_allow_amplification p then 1 else 0], le_encode 4 (gain_raw (pol_max_cumulative_gain p)),
       le_encode 8 (pol_default_cooldown_ticks p), le_encode 4 (mag_raw (pol_hysteresis_delta p))],
      [le_encode 4 (q16_raw (dec_per_step (pol_recovery_decay p))), le_encode 8 (dec_step_ticks (pol_recovery_decay p)),
       le_encode 4 (mag_raw (dec_floor (pol_recovery_decay p))), le_encode 4 (dec_max_steps (pol_recovery_decay p)),
       le_encode 4 (elevated_milli (pol_thresholds p)), le_encode 4 (high_milli (pol_thresholds p)),
       le_encode 4 (critical_milli (pol_thresholds p)), le_encode 4 (exhausted_milli (pol_thresholds p)),
       [if pol_require_known_pressure p then 1 else 0]])"

definition policy_encoding :: "PropagationPolicy \<Rightarrow> u8 list" where
  "policy_encoding p =
     (case policy_bytes p of (a, b, c) \<Rightarrow> le_encode 2 kPolicyFormat @ concat a @ concat b @ concat c)"

lemma serialize_policy_bytes:
  assumes "117 \<le> cap"
  shows "serialize_policy p cap = Inr (policy_encoding p)"
proof -
  obtain a b c where abc: "policy_bytes p = (a, b, c)" by (metis prod.exhaust)
  have "list_all2 emits ([wr_u16 kPolicyFormat] @ policy_bound_fields p @ policy_rule_fields p @ policy_decay_fields p)
      ([le_encode 2 kPolicyFormat] @ a @ b @ c)"
    using abc by (auto simp: policy_bytes_def policy_bound_fields_def policy_rule_fields_def policy_decay_fields_def
        emits_fields intro!: list_all2_appendI)
  moreover have "length (concat ([le_encode 2 kPolicyFormat] @ a @ b @ c)) = 117"
    using abc by (auto simp: policy_bytes_def)
  ultimately show ?thesis
    unfolding serialize_policy_def using assms
    by (subst payload_of_emits) (auto simp: kMaxPolicyBytes_def policy_encoding_def abc)
qed

lemma raw_fields:
  "magnitude_field what (mag_raw m) = Inr m" "gain_from_raw (gain_raw g) = Inr g"
  "\<not> q16_raw q > q16_kOne" "q16_from_raw_saturating (q16_raw q) = q"
proof -
  have q: "\<not> q16_raw q > 65536" for q using q16_raw_le [of q] by (simp add: not_less)
  have c: "q16_ctor (q16_raw q) = q" for q by (rule q16_eqI) simp
  show "\<not> q16_raw q > q16_kOne" "q16_from_raw_saturating (q16_raw q) = q"
    by (simp_all add: q16_kOne_def q16_from_raw_saturating_def q c)
  show "magnitude_field what (mag_raw m) = Inr m"
    unfolding magnitude_field_def mag_raw_full
    by (simp add: mag_raw_def q mag_from_raw_q16_saturating_def q16_from_raw_saturating_def q16_kOne_def c)
  have g: "\<not> gain_raw g < 65536" "\<not> gain_raw g > 524288"
    using gain_raw_bounds [of g] by (simp_all add: not_less)
  have "gain_ctor (gain_raw g) = g" by (simp add: gain_raw_inject [symmetric])
  with g show "gain_from_raw (gain_raw g) = Inr g"
    by (simp add: gain_from_raw_def kUnityRaw_def kMaxRaw_def)
qed

lemma aggregation_field:
  "a \<noteq> AR_Count \<Longrightarrow>
     (if aggregation_rule_value AR_Count \<le> aggregation_rule_value a then e
      else Inr (aggregation_rule_of (aggregation_rule_value a))) = Inr a"
  by (cases a) (simp_all add: aggregation_rule_of_def word_le_nat_alt)

lemma id_field: "id_valid i \<Longrightarrow> id_from_u64 (id_value i) = Inr i"
  by (simp add: id_from_u64_valid)

lemma gen_field: "gen_from_u64 (gen_value g) = Inr g"
  by (simp add: gen_from_u64_def)

lemma read_policy_bounds_at:
  assumes "id_valid (pol_id p)" and "policy_bytes p = (a, b, c)"
  shows "read_policy_bounds q (rd_at d (concat a @ rest)) =
    (Inr (q\<lparr>pol_id := pol_id p, pol_generation := pol_generation p, pol_max_hops := pol_max_hops p,
       pol_max_fanout := pol_max_fanout p, pol_max_expansions := pol_max_expansions p,
       pol_max_visited := pol_max_visited p, pol_max_sources := pol_max_sources p,
       pol_max_records := pol_max_records p, pol_max_path_records := pol_max_path_records p\<rparr>), rd_at (d @ concat a) rest)"
proof -
  have "concat a @ rest = le_encode 8 (id_value (pol_id p)) @ le_encode 8 (gen_value (pol_generation p)) @
      le_encode 4 (pol_max_hops p) @ le_encode 4 (pol_max_fanout p) @ le_encode 4 (pol_max_expansions p) @
      le_encode 4 (pol_max_visited p) @ le_encode 4 (pol_max_sources p) @ le_encode 4 (pol_max_records p) @
      le_encode 4 (pol_max_path_records p) @ rest"
    using assms(2) by (auto simp: policy_bytes_def)
  with assms show ?thesis by (auto simp: policy_bytes_def read_policy_bounds_def reads id_field gen_field)
qed

lemma read_policy_rules_at:
  assumes "pol_aggregation p \<noteq> AR_Count" and "policy_bytes p = (a, b, c)"
  shows "read_policy_rules q (rd_at d (concat b @ rest)) =
    (Inr (q\<lparr>pol_min_propagatable := pol_min_propagatable p, pol_lifetime_ticks := pol_lifetime_ticks p,
       pol_aggregation := pol_aggregation p, pol_aggregation_ceiling := pol_aggregation_ceiling p,
       pol_allow_amplification := pol_allow_amplification p, pol_max_cumulative_gain := pol_max_cumulative_gain p,
       pol_default_cooldown_ticks := pol_default_cooldown_ticks p, pol_hysteresis_delta := pol_hysteresis_delta p\<rparr>),
     rd_at (d @ concat b) rest)"
proof -
  have b: "concat b = le_encode 4 (mag_raw (pol_min_propagatable p)) @ le_encode 8 (pol_lifetime_ticks p) @
      aggregation_rule_value (pol_aggregation p) # le_encode 4 (mag_raw (pol_aggregation_ceiling p)) @
      (if pol_allow_amplification p then 1 else 0) # le_encode 4 (gain_raw (pol_max_cumulative_gain p)) @
      le_encode 8 (pol_default_cooldown_ticks p) @ le_encode 4 (mag_raw (pol_hysteresis_delta p))"
    using assms(2) by (auto simp: policy_bytes_def)
  show ?thesis
    by (simp add: b read_policy_rules_def reads raw_fields aggregation_field [OF assms(1)] del: aggregation_rule_value.simps)
qed

lemma read_policy_decay_at:
  assumes "policy_bytes p = (a, b, c)"
  shows "read_policy_decay q (rd_at d (concat c)) =
    (Inr (q\<lparr>pol_recovery_decay := pol_recovery_decay p, pol_thresholds := pol_thresholds p,
       pol_require_known_pressure := pol_require_known_pressure p\<rparr>), rd_at (d @ concat c) [])"
proof -
  have c: "concat c = le_encode 4 (q16_raw (dec_per_step (pol_recovery_decay p))) @
      le_encode 8 (dec_step_ticks (pol_recovery_decay p)) @ le_encode 4 (mag_raw (dec_floor (pol_recovery_decay p))) @
      le_encode 4 (dec_max_steps (pol_recovery_decay p)) @ le_encode 4 (elevated_milli (pol_thresholds p)) @
      le_encode 4 (high_milli (pol_thresholds p)) @ le_encode 4 (critical_milli (pol_thresholds p)) @
      le_encode 4 (exhausted_milli (pol_thresholds p)) @ [if pol_require_known_pressure p then 1 else 0]"
    using assms by (auto simp: policy_bytes_def)
  show ?thesis by (simp add: c read_policy_decay_def reads raw_fields)
qed

lemma deserialize_policy_bytes:
  assumes "status_ok (policy_validate p)"
  shows "deserialize_policy (policy_encoding p) = Inr p"
proof -
  obtain a b c where abc: "policy_bytes p = (a, b, c)" by (metis prod.exhaust)
  have ok: "id_valid (pol_id p)" "pol_aggregation p \<noteq> AR_Count" using assms by (simp_all add: policy_validate_ok)
  let ?p1 = "policy_defaults\<lparr>pol_id := pol_id p, pol_generation := pol_generation p, pol_max_hops := pol_max_hops p,
       pol_max_fanout := pol_max_fanout p, pol_max_expansions := pol_max_expansions p,
       pol_max_visited := pol_max_visited p, pol_max_sources := pol_max_sources p,
       pol_max_records := pol_max_records p, pol_max_path_records := pol_max_path_records p\<rparr>"
  let ?p2 = "?p1\<lparr>pol_min_propagatable := pol_min_propagatable p, pol_lifetime_ticks := pol_lifetime_ticks p,
       pol_aggregation := pol_aggregation p, pol_aggregation_ceiling := pol_aggregation_ceiling p,
       pol_allow_amplification := pol_allow_amplification p, pol_max_cumulative_gain := pol_max_cumulative_gain p,
       pol_default_cooldown_ticks := pol_default_cooldown_ticks p, pol_hysteresis_delta := pol_hysteresis_delta p\<rparr>"
  have p: "?p2\<lparr>pol_recovery_decay := pol_recovery_decay p, pol_thresholds := pol_thresholds p,
       pol_require_known_pressure := pol_require_known_pressure p\<rparr> = p"
    by (simp add: policy_defaults_def)
  have steps: "then_read (read_policy_bounds policy_defaults) k (rd_at d (concat a @ rest)) = k ?p1 (rd_at (d @ concat a) rest)"
    "then_read (read_policy_rules ?p1) k (rd_at d (concat b @ rest)) = k ?p2 (rd_at (d @ concat b) rest)"
    "then_read (read_policy_decay ?p2) k (rd_at d (concat c)) = k p (rd_at (d @ concat c) [])" for k d rest
    using read_policy_bounds_at [OF ok(1) abc, of policy_defaults d rest]
      read_policy_rules_at [OF ok(2) abc, of ?p1 d rest] read_policy_decay_at [OF abc, of ?p2 d]
    unfolding p by (simp_all only: then_read_def prod.case sum.case)
  have "deserialize_policy (policy_encoding p) =
      fst (then_end (bpfab_try_result (policy_validate p) (Inr p)) (rd_at ((le_encode 2 kPolicyFormat @ concat a) @ concat b @ concat c) []))"
    unfolding deserialize_policy_def decode_def byte_reader_at policy_encoding_def abc prod.case
    by (subst reads) (simp only: if_False not_True_eq_False simp_thms steps append_Nil append_assoc)
  with assms show ?thesis by (simp add: bpfab_try_result_def)
qed

section \<open>Fences and payloads\<close>

definition fence_encoding :: "Fence \<Rightarrow> u8 list" where
  "fence_encoding f =
     le_encode 2 kFenceFormat @ le_encode 8 (id_value (fence_id f)) @ le_encode 8 (id_value (fence_resource f)) @
     [fence_kind_value (fence_kind f)] @ le_encode 8 (epoch_value (fence_epoch f)) @
     le_encode 8 (gen_value (fence_dependency_generation f)) @ le_encode 8 (fence_expires_at f) @
     [if fence_durable f then 1 else 0] @ digest_bytes (fence_provenance f)"

lemma length_digest_bytes [simp]: "length (digest_bytes d) = 16"
  by (simp add: digest_bytes_def)

lemma serialize_fence_bytes: "serialize_fence f = Inr (fence_encoding f)"
  unfolding serialize_fence_def
  by (subst payload_of_emits [where bss = "[le_encode 2 kFenceFormat, le_encode 8 (id_value (fence_id f)),
        le_encode 8 (id_value (fence_resource f)), [fence_kind_value (fence_kind f)],
        le_encode 8 (epoch_value (fence_epoch f)), le_encode 8 (gen_value (fence_dependency_generation f)),
        le_encode 8 (fence_expires_at f), [if fence_durable f then 1 else 0], digest_bytes (fence_provenance f)]"])
    (simp_all add: emits_fields kMaxFenceBytes_def fence_encoding_def)

lemma fence_kind_field:
  "k \<noteq> FK_Count \<Longrightarrow>
     (if fence_kind_value FK_Count \<le> fence_kind_value k then e else Inr (fence_kind_of (fence_kind_value k))) = Inr k"
  by (cases k) (simp_all add: fence_kind_of_def word_le_nat_alt)

lemma deserialize_fence_bytes:
  assumes "status_ok (fence_validate f)"
  shows "deserialize_fence (fence_encoding f) = Inr f"
proof -
  have ok: "id_valid (fence_id f)" "id_valid (fence_resource f)" "fence_kind f \<noteq> FK_Count"
    using assms by (simp_all add: fence_validate_ok)
  have f: "\<lparr>fence_id = fence_id f, fence_resource = fence_resource f, fence_kind = fence_kind f, fence_epoch = fence_epoch f,
      fence_dependency_generation = fence_dependency_generation f, fence_expires_at = fence_expires_at f,
      fence_durable = fence_durable f, fence_provenance = fence_provenance f\<rparr> = f"
    by simp
  show ?thesis
    using assms
    by (simp add: f deserialize_fence_def decode_def byte_reader_at fence_encoding_def reads id_field ok gen_field
        fence_kind_field [OF ok(3)] epoch_from_u64_def bpfab_try_result_def Let_def del: fence_kind_value.simps)
qed

end
