(* ===== verification/Store_Facts.thy ===== *)
theory Store_Facts
  imports Durable_Facts
begin

text \<open>
  The durable store as a whole. Every method that reports success leaves the store in the state
  that replaying its journal gives, so what a restart reconstructs after a crash is what was
  acknowledged.
\<close>

section \<open>What a restart can reconstruct\<close>

text \<open>
  The counters that only describe the running process, the journal and the lock are dropped.
\<close>

definition durable_part :: "RecoveredState \<Rightarrow> RecoveredState" where
  "durable_part st = st\<lparr>rs_footprint_overflow := 0, rs_attempts_open := 0, rs_attempts_ambiguous := 0,
     rs_records_replayed := 0, rs_corrupt_records := 0, rs_journal_repaired := False,
     rs_stale_temp_files_removed := 0, rs_restored_liveness := False\<rparr>"

definition durable_view :: "DurableStore \<Rightarrow> DurableConfig \<times> RecoveredState \<times> AttemptId list" where
  "durable_view s = (ds_config s, durable_part (ds_state s), ds_open_attempts s)"

lemma durable_part_fields [simp]:
  "rs_epoch (durable_part st) = rs_epoch st" "rs_fences (durable_part st) = rs_fences st"
  "rs_lineages (durable_part st) = rs_lineages st"
  "rs_revalidation_required (durable_part st) = rs_revalidation_required st"
  "rs_lineage_evictions (durable_part st) = rs_lineage_evictions st"
  "rs_attempts_committed (durable_part st) = rs_attempts_committed st"
  "rs_attempts_aborted (durable_part st) = rs_attempts_aborted st"
  by (simp_all add: durable_part_def)

lemma durable_part_update [simp]:
  "durable_part (rs_previous_epoch_update f1 st) = rs_previous_epoch_update f1 (durable_part st)"
  "durable_part (rs_epoch_update f1 st) = rs_epoch_update f1 (durable_part st)"
  "durable_part (rs_boot_update f2 st) = rs_boot_update f2 (durable_part st)"
  "durable_part (rs_incarnation_update f3 st) = rs_incarnation_update f3 (durable_part st)"
  "durable_part (rs_boot_recorded_update f4 st) = rs_boot_recorded_update f4 (durable_part st)"
  "durable_part (rs_policy_update f5 st) = rs_policy_update f5 (durable_part st)"
  "durable_part (rs_has_policy_update f4 st) = rs_has_policy_update f4 (durable_part st)"
  "durable_part (rs_topology_digest_update f6 st) = rs_topology_digest_update f6 (durable_part st)"
  "durable_part (rs_topology_generation_update f7 st) = rs_topology_generation_update f7 (durable_part st)"
  "durable_part (rs_has_topology_binding_update f4 st) = rs_has_topology_binding_update f4 (durable_part st)"
  "durable_part (rs_fences_update f8 st) = rs_fences_update f8 (durable_part st)"
  "durable_part (rs_lineages_update f9 st) = rs_lineages_update f9 (durable_part st)"
  "durable_part (rs_lineage_evictions_update f10 st) = rs_lineage_evictions_update f10 (durable_part st)"
  "durable_part (rs_revalidation_required_update f11 st) = rs_revalidation_required_update f11 (durable_part st)"
  "durable_part (rs_footprint_entries_update f12 st) = rs_footprint_entries_update f12 (durable_part st)"
  "durable_part (rs_attempts_committed_update f10 st) = rs_attempts_committed_update f10 (durable_part st)"
  "durable_part (rs_attempts_aborted_update f10 st) = rs_attempts_aborted_update f10 (durable_part st)"
  "durable_part (rs_footprint_overflow_update f10 st) = durable_part st"
  "durable_part (rs_attempts_open_update f10 st) = durable_part st"
  "durable_part (rs_attempts_ambiguous_update f10 st) = durable_part st"
  "durable_part (rs_records_replayed_update f10 st) = durable_part st"
  "durable_part (rs_corrupt_records_update f10 st) = durable_part st"
  "durable_part (rs_journal_repaired_update f4 st) = durable_part st"
  "durable_part (rs_stale_temp_files_removed_update f10 st) = durable_part st"
  by (simp_all add: durable_part_def)

text \<open>Replaying a record depends only on the view, and so does the view of its result.\<close>

definition same_view :: "DurableStore \<Rightarrow> DurableStore \<Rightarrow> bool" where
  "same_view s t \<longleftrightarrow> durable_view s = durable_view t"

definition view_of :: "DurableStore \<Rightarrow> DurableStore" where
  "view_of s = s\<lparr>ds_state := durable_part (ds_state s), ds_committed_seen := 0, ds_lock := True,
     ds_journal := journal_closed journal_limits \<lparr>file_bytes = None, file_durable = 0, file_tape = []\<rparr>\<rparr>"

lemma view_of_eq: "view_of s = view_of t \<longleftrightarrow> same_view s t"
  by (cases s; cases t) (auto simp: view_of_def same_view_def durable_view_def)

lemma durable_part_idem [simp]: "durable_part (durable_part st) = durable_part st"
  by (simp add: durable_part_def)

definition relate :: "DurableStore result \<Rightarrow> DurableStore result" where
  "relate = map_sum id view_of"

lemma relate_simps [simp]: "relate (Inr s) = Inr (view_of s)" "relate (Inl e) = Inl e" "relate (fail c x n) = fail c x n"
  by (simp_all add: relate_def fail_def)

lemma relate_try: "relate (bpfab_try_decl r k) = bpfab_try_decl r (\<lambda>x. relate (k x))"
  by (cases r) simp_all

lemma relate_result: "relate (bpfab_try_result e (Inr s)) = bpfab_try_result e (Inr (view_of s))"
  by (simp add: bpfab_try_result_def)

lemma view_of_fields [simp]:
  "ds_config (view_of s) = ds_config s" "ds_state (view_of s) = durable_part (ds_state s)"
  "ds_open_attempts (view_of s) = ds_open_attempts s" "view_of (s\<lparr>ds_journal := j\<rparr>) = view_of s"
  "view_of (s\<lparr>ds_committed_seen := n\<rparr>) = view_of s"
  "view_of (s\<lparr>ds_open_attempts := os\<rparr>) = (view_of s)\<lparr>ds_open_attempts := os\<rparr>"
  "view_of (s\<lparr>ds_state := st\<rparr>) = (view_of s)\<lparr>ds_state := durable_part st\<rparr>"
  "view_of (view_of s) = view_of s"
  by (simp_all add: view_of_def)

lemma durable_footprint_entry:
  "durable_part (replay_footprint_entry n r (durable_part st)) = durable_part (replay_footprint_entry n r st)"
  by (simp add: replay_footprint_entry_def)

lemma durable_footprint_fold:
  "durable_part (fold (replay_footprint_entry n) rs (durable_part st)) = durable_part (fold (replay_footprint_entry n) rs st)"
proof (induction rs arbitrary: st)
  case (Cons r rs)
  show ?case by (metis (no_types) Cons.IH durable_footprint_entry fold_simps(2))
qed simp

lemma durable_revalidation:
  "durable_part (replay_revalidation n x (durable_part st)) = durable_part (replay_revalidation n x st)"
proof (cases x)
  case (RO_Footprint rs)
  have "rs_revalidation_required (fold (replay_footprint_entry n) rs (durable_part st)) =
      rs_revalidation_required (fold (replay_footprint_entry n) rs st)"
    using arg_cong [OF durable_footprint_fold [of n rs st], of rs_revalidation_required] by simp
  with RO_Footprint durable_footprint_fold [of n rs st] show ?thesis
    by (simp add: replay_revalidation_def Let_def)
qed (simp_all add: replay_revalidation_def replay_request_def clear_resource_def)

lemma remember_view: "view_of (remember_lineage l (view_of s)) = view_of (remember_lineage l s)"
  by (simp add: remember_lineage_def Let_def)

lemma put_view:
  "put_recovered_fence w f (view_of s) = map_prod id view_of (put_recovered_fence w f s)"
  by (auto simp: put_recovered_fence_def Let_def upd_state_def split: option.split)

lemma attempt_known_view [simp]: "attempt_known w (view_of s) = attempt_known w s"
  by (simp add: attempt_known_def fun_eq_iff)

lemma apply_record_view: "relate (apply_record r (view_of s)) = relate (apply_record r s)"
proof (cases "jr_type r")
  case RT_FencePut
  then show ?thesis
    by (simp add: apply_record_def relate_try put_view relate_result split_beta Let_def)
next
  case RT_Lineage
  then show ?thesis by (simp add: apply_record_def relate_try remember_view)
next
  case RT_Revalidation
  then show ?thesis by (simp add: apply_record_def relate_try upd_state_def durable_revalidation)
next
  case RT_AttemptBegin
  then show ?thesis by (simp add: apply_record_def relate_try)
qed (simp_all add: apply_record_def relate_try attempt_known_def upd_state_def drop_attempt_def split_beta Let_def)

lemma apply_record_same: "same_view s t \<Longrightarrow> relate (apply_record r s) = relate (apply_record r t)"
  by (metis apply_record_view view_of_eq)

definition replayed :: "DurableConfig \<Rightarrow> JournalRecord list \<Rightarrow> DurableStore result" where
  "replayed config rs = relate (replay_list rs
     (store_start config 0 (journal_closed (dc_journal_limits config) \<lparr>file_bytes = None, file_durable = 0, file_tape = []\<rparr>)))"

lemma view_of_upd [simp]:
  "view_of (upd_state g s) = (view_of s)\<lparr>ds_state := durable_part (g (ds_state s))\<rparr>"
  "(view_of s)\<lparr>ds_state := durable_part (ds_state s)\<rparr> = view_of s"
  by (simp add: upd_state_def) (simp add: view_of_def)

lemma replay_list_view: "relate (replay_list rs (view_of s)) = relate (replay_list rs s)"
proof (induction rs arbitrary: s)
  case (Cons r rs)
  define up where "up = upd_state (rs_records_replayed_update (\<lambda>n. n + 1))"
  have up: "upd_state (\<lambda>st. st\<lparr>rs_records_replayed := rs_records_replayed st + 1\<rparr>) = up"
    by (simp add: up_def upd_state_def fun_eq_iff)
  have v: "view_of (up t) = view_of t" for t by (simp add: up_def)
  have step: "relate (replay_list (r # rs) t) =
      bpfab_try_decl (relate (apply_record r t)) (\<lambda>t'. relate (replay_list rs t'))" for t
  proof (cases "apply_record r t")
    case (Inr t')
    then show ?thesis using Cons.IH [of "up t'"] Cons.IH [of t'] by (simp add: up v)
  qed simp
  show ?case unfolding step apply_record_view ..
qed simp

lemma replay_list_snoc:
  "relate (replay_list (rs @ [r]) s) = bpfab_try_decl (relate (replay_list rs s)) (\<lambda>t. relate (apply_record r t))"
proof (induction rs arbitrary: s)
  case Nil
  show ?case
    by (cases "apply_record r s") (simp_all add: apply_record_view)
next
  case (Cons x xs)
  then show ?case by (cases "apply_record x s") simp_all
qed

lemma replayed_snoc:
  "replayed config (rs @ [r]) = bpfab_try_decl (replayed config rs) (\<lambda>t. relate (apply_record r t))"
  by (simp add: replayed_def replay_list_snoc)

lemma replayed_start: "relate (replay_list rs (store_start config n j)) = replayed config rs"
proof -
  have "view_of (store_start config n j) = view_of (store_start config m i)" for m i
    by (simp add: store_start_def view_of_def)
  then show ?thesis unfolding replayed_def by (metis replay_list_view)
qed

section \<open>The invariant of the store\<close>

definition config_ok :: "DurableConfig \<Rightarrow> bool" where
  "config_ok c \<longleftrightarrow> dc_directory c \<noteq> [] \<and> kMaxJournalPayload \<le> jl_max_record_bytes (dc_journal_limits c) \<and>
     limits_ok (dc_journal_limits c)"

definition store_inv :: "DurableStore \<Rightarrow> bool" where
  "store_inv s \<longleftrightarrow>
     config_ok (ds_config s) \<and> journal_inv (ds_journal s) \<and>
     jn_limits (ds_journal s) = dc_journal_limits (ds_config s) \<and>
     replayed (ds_config s) (jn_records (ds_journal s)) = Inr (view_of s)"

definition synced :: "DurableStore \<Rightarrow> bool" where
  "synced s \<longleftrightarrow> file_durable (jn_file (ds_journal s)) = length (image (jn_records (ds_journal s)))"

definition directory_ready :: "StoreDirectory \<Rightarrow> bool" where
  "directory_ready dir \<longleftrightarrow> status_ok (sd_directory dir) \<and> status_ok (sd_lock dir)"

lemma put_recovered_fence_keeps [simp]:
  "ds_journal (snd (put_recovered_fence w f s)) = ds_journal s" "ds_config (snd (put_recovered_fence w f s)) = ds_config s"
  by (simp_all add: put_recovered_fence_def upd_state_def Let_def split: option.split)

lemma remember_lineage_keeps [simp]:
  "ds_journal (remember_lineage l s) = ds_journal s" "ds_config (remember_lineage l s) = ds_config s"
  "ds_open_attempts (remember_lineage l s) = ds_open_attempts s"
  by (simp_all add: remember_lineage_def Let_def)

lemma apply_record_keeps: "apply_record r s = Inr t \<Longrightarrow> ds_journal t = ds_journal s \<and> ds_config t = ds_config s"
  by (cases "jr_type r")
    (auto simp: apply_record_def bpfab_try_decl_def bpfab_try_result_def fail_def split_beta upd_state_def drop_attempt_def Let_def
      split: sum.splits if_splits)

lemma replay_list_keeps: "replay_list rs s = Inr t \<Longrightarrow> ds_journal t = ds_journal s \<and> ds_config t = ds_config s"
proof (induction rs arbitrary: s)
  case (Cons r rs)
  then obtain s1 where s1: "apply_record r s = Inr s1" by (cases "apply_record r s") auto
  with Cons show ?case using apply_record_keeps [OF s1] by (fastforce simp: upd_state_def)
qed simp

text \<open>Opening a store on a journal that replays gives the store the records describe.\<close>

lemma store_open_replays:
  assumes "config_ok config" and "directory_ready dir"
    and "journal_open (dc_journal_limits config) True f = (Inr j, f')" and "f' = jn_file j"
    and "journal_inv j" and "jn_limits j = dc_journal_limits config"
    and "replayed config (jn_records j) = Inr v"
  shows "\<exists>t. store_open config dir f = (Inr t, f') \<and> store_inv t \<and> view_of t = v \<and> ds_journal t = j"
proof -
  obtain t0 where t0: "replay_list (jn_records j) (store_start config (sd_stale_files dir) j) = Inr t0" "view_of t0 = v"
    using assms(7) replayed_start [of "jn_records j" config "sd_stale_files dir" j]
    by (cases "replay_list (jn_records j) (store_start config (sd_stale_files dir) j)") auto
  from replay_list_keeps [OF t0(1)] have k: "ds_journal t0 = j" "ds_config t0 = config"
    by (simp_all add: store_start_def)
  obtain t where t: "replay (store_start config (sd_stale_files dir) j) = Inr t"
      "ds_journal t = j" "ds_config t = config" "view_of t = v"
    using t0(1) k unfolding t0(2) [symmetric] by (simp add: replay_def store_start_def upd_state_def Let_def)
  have "store_open config dir f = (Inr t, f')"
    using assms t(1) by (simp add: store_open_def config_ok_def directory_ready_def not_less)
  moreover have "store_inv t" using assms t by (simp add: store_inv_def)
  ultimately show ?thesis using t by blast
qed

section \<open>What the recovered state holds\<close>

definition yields :: "'a reading \<Rightarrow> ('a \<Rightarrow> bool) \<Rightarrow> bool" where
  "yields rd P \<longleftrightarrow> (\<forall>r v r'. rd r = (Inr v, r') \<longrightarrow> P v)"

lemma yields_bind:
  assumes f: "yields f Q" and k: "\<And>x. Q x \<Longrightarrow> yields (k x) P"
  shows "yields (then_read f k) P"
  unfolding yields_def
proof (intro allI impI)
  fix r v r'
  assume a: "then_read f k r = (Inr v, r')"
  show "P v"
  proof (cases "f r")
    case (Pair x r1)
    with a obtain y where y: "x = Inr y" by (cases x) (auto simp: then_read_def)
    with Pair f have "yields (k y) P" by (auto simp: yields_def [of f] intro: k)
    with y Pair a show ?thesis by (auto simp: then_read_def yields_def)
  qed
qed

lemma yields_read: "(\<And>x. yields (k x) P) \<Longrightarrow> yields (then_read f k) P"
  by (rule yields_bind [of _ "\<lambda>_. True"]) (auto simp: yields_def)

lemma yields_value: "(\<And>x. v = Inr x \<Longrightarrow> yields (k x) P) \<Longrightarrow> yields (then_value v k) P"
  by (cases v) (auto simp: yields_def then_value_def)

lemma yields_end: "(\<And>x. v = Inr x \<Longrightarrow> P x) \<Longrightarrow> yields (then_end v) P"
  by (auto simp: yields_def then_end_def split: if_splits)

lemma yields_return: "(\<And>x. v = Inr x \<Longrightarrow> P x) \<Longrightarrow> yields (read_return v) P"
  by (auto simp: yields_def read_return_def)

lemma yields_if: "(c \<Longrightarrow> yields f P) \<Longrightarrow> (\<not> c \<Longrightarrow> yields g P) \<Longrightarrow> yields (if c then f else g) P"
  by simp

lemmas yields_intros = yields_read yields_value yields_end yields_return yields_if

lemma yieldsD: "yields rd P \<Longrightarrow> decode rd bs = Inr v \<Longrightarrow> P v"
  by (cases "rd (byte_reader bs)") (auto simp: yields_def decode_def)

lemma id_from_u64_Inr: "id_from_u64 n = Inr i \<Longrightarrow> id_valid i"
  by (auto simp: id_from_u64_def id_valid_def fail_def split: if_splits)

lemma yields_id: "yields read_id id_valid"
  unfolding read_id_def by (intro yields_intros) (use id_from_u64_Inr in auto)

lemma yields_id_end: "yields (read_id_end check) (\<lambda>i. id_valid i \<and> status_ok (check i))"
  unfolding read_id_end_def
  by (rule yields_bind [OF yields_id], intro yields_if yields_return yields_end) auto

lemma yields_footprint: "yields (read_footprint n) (list_all id_valid)"
proof (induction n)
  case 0
  show ?case unfolding read_footprint.simps by (rule yields_return) simp
next
  case (Suc n)
  show ?case
    unfolding read_footprint.simps
    by (intro yields_value yields_bind [OF Suc.IH] yields_return yields_read [of _ _ rd_u64])
      (use id_from_u64_Inr in auto)
qed

fun op_valid :: "RevalidationOp \<Rightarrow> bool" where
  "op_valid (RO_Request r) \<longleftrightarrow> id_valid r"
| "op_valid (RO_Clear r) \<longleftrightarrow> id_valid r"
| "op_valid (RO_Footprint rs) \<longleftrightarrow> list_all id_valid rs"

lemma yields_revalidation: "yields (read_revalidation n rr) op_valid"
  unfolding read_revalidation_def
  by (intro yields_read [of _ _ rd_u8] yields_read [of _ _ rd_u32] yields_if
      yields_bind [OF yields_id_end] yields_bind [OF yields_id] yields_bind [OF yields_footprint] yields_return yields_end)
    (auto simp: fail_def)

lemma deserialize_policy_valid: "deserialize_policy bs = Inr p \<Longrightarrow> status_ok (policy_validate p)"
  unfolding deserialize_policy_def
  by (erule yieldsD [rotated], intro yields_intros)
    (auto simp: fail_def bpfab_try_result_def split: if_splits)

lemma deserialize_fence_valid: "deserialize_fence bs = Inr f \<Longrightarrow> status_ok (fence_validate f)"
  unfolding deserialize_fence_def Let_def
  by (erule yieldsD [rotated], intro yields_intros)
    (auto simp: fail_def bpfab_try_result_def split: if_splits)

definition content_ok :: "DurableStore \<Rightarrow> bool" where
  "content_ok s \<longleftrightarrow> (let st = ds_state s in
     (\<forall>f \<in> set (rs_fences st). status_ok (fence_validate f)) \<and> distinct (map fence_id (rs_fences st)) \<and>
     length (rs_fences st) \<le> kMaxFences \<and>
     distinct (rs_revalidation_required st) \<and> (\<forall>r \<in> set (rs_revalidation_required st). id_valid r) \<and>
     length (rs_revalidation_required st) \<le> dc_max_footprint_entries (ds_config s) \<and>
     distinct (rs_lineages st) \<and> length (rs_lineages st) \<le> max 1 (dc_max_lineages (ds_config s)) \<and>
     distinct (ds_open_attempts s) \<and> (\<forall>i \<in> set (ds_open_attempts s). id_valid i) \<and>
     (if rs_has_policy st then status_ok (policy_validate (rs_policy st)) else rs_policy st = policy_defaults) \<and>
     (if rs_boot_recorded st then rs_boot st = inc_boot (rs_incarnation st)
      else rs_boot st = boot_from_raw 0 0 \<and> rs_incarnation st = incarnation_none) \<and>
     (rs_has_topology_binding st \<or> rs_topology_digest st = digest_zero \<and> rs_topology_generation st = gen_unknown))"

lemma content_view: "content_ok (view_of s) = content_ok s"
  by (simp add: content_ok_def Let_def) (simp add: durable_part_def)

lemma content_start: "content_ok (store_start config n j)"
  by (simp add: content_ok_def store_start_def recovered_state_def Let_def)

text \<open>Replaying a revalidation record touches three fields and keeps the list of resources sound.\<close>

definition rr_ok :: "nat \<Rightarrow> RecoveredState \<Rightarrow> bool" where
  "rr_ok n st \<longleftrightarrow> distinct (rs_revalidation_required st) \<and> (\<forall>r \<in> set (rs_revalidation_required st). id_valid r) \<and>
     length (rs_revalidation_required st) \<le> n"

definition only_rr :: "RecoveredState \<Rightarrow> RecoveredState \<Rightarrow> bool" where
  "only_rr st t \<longleftrightarrow> t = st\<lparr>rs_revalidation_required := rs_revalidation_required t,
     rs_footprint_overflow := rs_footprint_overflow t, rs_footprint_entries := rs_footprint_entries t\<rparr>"

lemma only_rr_trans: "only_rr st t \<Longrightarrow> only_rr t u \<Longrightarrow> only_rr st u"
  by (cases st; cases t; cases u) (simp add: only_rr_def)

lemma footprint_entry_ok:
  "id_valid r \<Longrightarrow> rr_ok n st \<Longrightarrow> rr_ok n (replay_footprint_entry n r st) \<and> only_rr st (replay_footprint_entry n r st)"
  by (auto simp: rr_ok_def only_rr_def replay_footprint_entry_def)

lemma footprint_fold_ok:
  "list_all id_valid rs \<Longrightarrow> rr_ok n st \<Longrightarrow>
     rr_ok n (fold (replay_footprint_entry n) rs st) \<and> only_rr st (fold (replay_footprint_entry n) rs st)"
proof (induction rs arbitrary: st)
  case Nil
  then show ?case by (simp add: only_rr_def)
next
  case (Cons r rs)
  from Cons.prems have "id_valid r" "list_all id_valid rs" by simp_all
  with Cons.prems(2) Cons.IH [of "replay_footprint_entry n r st"] footprint_entry_ok [of r n st] show ?case
    by (auto intro: only_rr_trans)
qed

lemma replay_revalidation_ok:
  assumes "op_valid x" and "rr_ok n st"
  shows "rr_ok n (replay_revalidation n x st)" and "only_rr st (replay_revalidation n x st)"
proof -
  have "rr_ok n (replay_revalidation n x st) \<and> only_rr st (replay_revalidation n x st)"
  proof (cases x)
    case (RO_Request r)
    with assms show ?thesis
      by (auto simp: replay_revalidation_def replay_request_def rr_ok_def only_rr_def)
  next
    case (RO_Clear r)
    with assms show ?thesis
      by (auto simp: replay_revalidation_def clear_resource_def rr_ok_def only_rr_def length_remove1 dest: notin_set_remove1)
  next
    case (RO_Footprint rs)
    define t where "t = fold (replay_footprint_entry n) rs st"
    have "rr_ok n t" "only_rr st t" using assms RO_Footprint footprint_fold_ok [of rs n st] by (simp_all add: t_def)
    moreover have "replay_revalidation n x st = t\<lparr>rs_footprint_entries := length (rs_revalidation_required t)\<rparr>"
      by (simp add: RO_Footprint replay_revalidation_def t_def Let_def)
    ultimately show ?thesis by (cases st; cases t) (simp add: rr_ok_def only_rr_def)
  qed
  then show "rr_ok n (replay_revalidation n x st)" and "only_rr st (replay_revalidation n x st)" by simp_all
qed

lemma content_rr: "content_ok s \<Longrightarrow> rr_ok (dc_max_footprint_entries (ds_config s)) (ds_state s)"
  by (simp add: content_ok_def rr_ok_def Let_def)

lemma content_only_rr:
  assumes "content_ok s" and "only_rr (ds_state s) t" and "rr_ok (dc_max_footprint_entries (ds_config s)) t"
  shows "content_ok (s\<lparr>ds_state := t\<rparr>)"
proof -
  obtain rr ov fe where t: "t = (ds_state s)\<lparr>rs_revalidation_required := rr, rs_footprint_overflow := ov, rs_footprint_entries := fe\<rparr>"
    using assms(2) by (simp add: only_rr_def)
  show ?thesis using assms(1,3) by (simp add: t content_ok_def rr_ok_def Let_def)
qed

definition fences_ok :: "Fence list \<Rightarrow> bool" where
  "fences_ok fs \<longleftrightarrow> (\<forall>f \<in> set fs. status_ok (fence_validate f)) \<and> distinct (map fence_id fs) \<and> length fs \<le> kMaxFences"

lemma content_fences:
  "content_ok s \<Longrightarrow> fences_ok (rs_fences (ds_state s))"
  "content_ok s \<Longrightarrow> fences_ok fs \<Longrightarrow> content_ok (s\<lparr>ds_state := (ds_state s)\<lparr>rs_fences := fs\<rparr>\<rparr>)"
  by (simp_all add: content_ok_def fences_ok_def Let_def)

lemma fences_ok_put:
  assumes "fences_ok fs" and "status_ok (fence_validate f)"
  shows "fence_replace fs f = Some fs' \<Longrightarrow> fences_ok fs'"
    and "fence_replace fs f = None \<Longrightarrow> \<not> length fs \<ge> kMaxFences \<Longrightarrow> fences_ok (fs @ [f])"
proof -
  assume "fence_replace fs f = Some fs'"
  from fence_replace_Some [OF this] have "map fence_id fs' = map fence_id fs" "set fs' \<subseteq> insert f (set fs)" by simp_all
  moreover from this(1) have "length fs' = length fs" by (metis length_map)
  ultimately show "fences_ok fs'" using assms by (simp add: fences_ok_def) blast
next
  assume "fence_replace fs f = None" "\<not> length fs \<ge> kMaxFences"
  with assms show "fences_ok (fs @ [f])" by (auto simp: fences_ok_def fence_replace_None)
qed

lemma fences_ok_erase: "fences_ok fs \<Longrightarrow> fence_erase fs i = Some fs' \<Longrightarrow> fences_ok fs'"
  using fence_erase_Some [of fs i fs'] length_filter_le [of "\<lambda>f. fence_id f \<noteq> i" fs]
  by (simp add: fences_ok_def distinct_map_filter) (metis le_trans length_filter_le)

lemma content_put_fence:
  assumes c: "content_ok s" and f: "status_ok (fence_validate f)" and p: "put_recovered_fence w f s = (e, t)" "status_ok e"
  shows "content_ok t"
proof (cases "fence_replace (rs_fences (ds_state s)) f")
  case None
  with p have "t = s\<lparr>ds_state := (ds_state s)\<lparr>rs_fences := rs_fences (ds_state s) @ [f]\<rparr>\<rparr>"
      "\<not> length (rs_fences (ds_state s)) \<ge> kMaxFences"
    by (auto simp: put_recovered_fence_def Let_def upd_state_def split: if_splits)
  then show ?thesis using content_fences(2) [OF c] fences_ok_put(2) [OF content_fences(1) [OF c] f None] by simp
next
  case (Some fs)
  with p have "t = s\<lparr>ds_state := (ds_state s)\<lparr>rs_fences := fs\<rparr>\<rparr>"
    by (simp add: put_recovered_fence_def Let_def upd_state_def)
  then show ?thesis using content_fences(2) [OF c] fences_ok_put(1) [OF content_fences(1) [OF c] f Some] by simp
qed

lemma content_attempts:
  "content_ok s \<Longrightarrow> distinct (ds_open_attempts s) \<and> (\<forall>i \<in> set (ds_open_attempts s). id_valid i)"
  "content_ok s \<Longrightarrow> distinct os \<Longrightarrow> \<forall>i \<in> set os. id_valid i \<Longrightarrow> content_ok (s\<lparr>ds_open_attempts := os\<rparr>)"
  by (simp_all add: content_ok_def Let_def)

lemma content_drop: "content_ok s \<Longrightarrow> content_ok (drop_attempt i s)"
  unfolding drop_attempt_def using content_attempts [of s] notin_set_remove1 by (metis content_attempts(2) distinct_remove1)

lemma content_tally:
  "content_ok s \<Longrightarrow> content_ok (upd_state (\<lambda>st. st\<lparr>rs_attempts_committed := f st\<rparr>) s)"
  "content_ok s \<Longrightarrow> content_ok (upd_state (\<lambda>st. st\<lparr>rs_attempts_aborted := f st\<rparr>) s)"
  "content_ok s \<Longrightarrow> content_ok (s\<lparr>ds_committed_seen := n\<rparr>)"
  by (simp_all add: content_ok_def Let_def upd_state_def)

lemma content_remember: "content_ok s \<Longrightarrow> content_ok (remember_lineage l s)"
  by (cases "rs_lineages (ds_state s)") (auto simp: content_ok_def remember_lineage_def Let_def)

lemma content_apply:
  assumes c: "content_ok s" and a: "apply_record r s = Inr t"
  shows "content_ok t"
proof (cases "jr_type r")
  case RT_Epoch
  then show ?thesis using a c by (auto simp: apply_record_def content_ok_def Let_def)
next
  case RT_Boot
  then show ?thesis using a c
    by (auto simp: apply_record_def content_ok_def Let_def bpfab_try_decl_Inr)
next
  case RT_Policy
  then show ?thesis using a c
    by (auto simp: apply_record_def content_ok_def Let_def bpfab_try_decl_Inr dest: deserialize_policy_valid)
next
  case RT_TopologyBinding
  then show ?thesis using a c
    by (auto simp: apply_record_def content_ok_def Let_def bpfab_try_decl_Inr)
next
  case RT_Compaction
  then show ?thesis using a c
    by (auto simp: apply_record_def content_ok_def Let_def bpfab_try_decl_Inr)
next
  case RT_Count
  then show ?thesis using a by (simp add: apply_record_def fail_def)
next
  case RT_Lineage
  then show ?thesis using a c by (auto simp: apply_record_def bpfab_try_decl_Inr content_remember)
next
  case RT_FencePut
  then obtain f where f: "deserialize_fence (jr_payload r) = Inr f"
      "bpfab_try_result (fst (put_recovered_fence ''recovered fences'' f s)) (Inr (snd (put_recovered_fence ''recovered fences'' f s))) = Inr t"
    using a by (auto simp: apply_record_def bpfab_try_decl_Inr split_beta)
  then show ?thesis using content_put_fence [OF c deserialize_fence_valid [OF f(1)]]
    by (cases "put_recovered_fence ''recovered fences'' f s") (auto simp: bpfab_try_result_def split: if_splits)
next
  case RT_FenceRemove
  then obtain i where i: "t = s\<lparr>ds_state := (ds_state s)\<lparr>rs_fences := the (fence_erase (rs_fences (ds_state s)) i)\<rparr>\<rparr>"
    and d: "decode (read_id_end (\<lambda>i. if fence_erase (rs_fences (ds_state s)) i = None
        then status_error NotFound ''fence removal'' (id_value i) else status_success)) (jr_payload r) = Inr i"
    using a by (auto simp: apply_record_def bpfab_try_decl_Inr Let_def)
  then obtain fs where "fence_erase (rs_fences (ds_state s)) i = Some fs"
    using yieldsD [OF yields_id_end d] by (auto split: if_splits)
  then show ?thesis using i content_fences(2) [OF c] fences_ok_erase [OF content_fences(1) [OF c]] by simp
next
  case RT_Revalidation
  then obtain x where d: "decode (read_revalidation (dc_max_footprint_entries (ds_config s))
        (rs_revalidation_required (ds_state s))) (jr_payload r) = Inr x"
    and t: "t = s\<lparr>ds_state := replay_revalidation (dc_max_footprint_entries (ds_config s)) x (ds_state s)\<rparr>"
    using a by (auto simp: apply_record_def bpfab_try_decl_Inr upd_state_def Let_def)
  from yieldsD [OF yields_revalidation d] t show ?thesis using c content_only_rr [OF c] replay_revalidation_ok [OF _ content_rr [OF c]] by blast
next
  case RT_AttemptBegin
  then obtain i where i: "t = s\<lparr>ds_open_attempts := ds_open_attempts s @ [i]\<rparr>"
    and d: "decode (read_id_end (\<lambda>i. if i \<in> set (ds_open_attempts s)
        then status_error Duplicate ''attempt begin'' (id_value i) else status_success)) (jr_payload r) = Inr i"
    using a by (auto simp: apply_record_def bpfab_try_decl_Inr Let_def)
  then have "id_valid i" "i \<notin> set (ds_open_attempts s)" using yieldsD [OF yields_id_end d] by (auto split: if_splits)
  then show ?thesis using i content_attempts(1) [OF c] content_attempts(2) [OF c, of "ds_open_attempts s @ [i]"] by auto
next
  case RT_AttemptCommit
  then show ?thesis using a c by (auto simp: apply_record_def bpfab_try_decl_Inr content_tally content_drop)
next
  case RT_AttemptAbort
  then show ?thesis using a c by (auto simp: apply_record_def bpfab_try_decl_Inr content_tally content_drop)
qed

lemma content_replayed: "replayed config rs = Inr v \<Longrightarrow> content_ok v"
proof (induction rs arbitrary: v rule: rev_induct)
  case Nil
  then show ?case by (auto simp: replayed_def content_view content_start)
next
  case (snoc r rs)
  then obtain u where "replayed config rs = Inr u" and u: "relate (apply_record r u) = Inr v"
    by (auto simp: replayed_snoc bpfab_try_decl_Inr)
  with snoc.IH have "content_ok u" by blast
  with u show ?case by (cases "apply_record r u") (auto simp: content_view dest: content_apply)
qed

lemma store_content: "store_inv s \<Longrightarrow> content_ok s"
  using content_replayed [of "ds_config s" _ "view_of s"] by (auto simp: store_inv_def content_view)

section \<open>Payloads\<close>

lemma payload_u64: "8 \<le> cap \<Longrightarrow> payload_of cap [wr_u64 v] = Inr (le_encode 8 v)"
  by (subst payload_of_emits [where bss = "[le_encode 8 v]"]) (simp_all add: emits_fields)

lemma payload_op: "9 \<le> cap \<Longrightarrow> payload_of cap [wr_u8 a, wr_u64 v] = Inr (a # le_encode 8 v)"
  by (subst payload_of_emits [where bss = "[[a], le_encode 8 v]"]) (simp_all add: emits_fields)

lemma payload_digest: "16 \<le> cap \<Longrightarrow> payload_of cap [wr_digest l] = Inr (digest_bytes l)"
  by (subst payload_of_emits [where bss = "[digest_bytes l]"]) (simp_all add: emits_fields)

definition boot_bytes :: "Incarnation \<Rightarrow> u8 list" where
  "boot_bytes i = le_encode 8 (boot_hi (inc_boot i)) @ le_encode 8 (boot_lo (inc_boot i)) @ le_encode 4 (inc_pid i) @
     le_encode 4 (inc_index i) @ le_encode 8 (inc_seq i)"

lemma payload_boot: "payload_of 64 (boot_fields i) = Inr (boot_bytes i)"
  unfolding boot_fields_def
  by (subst payload_of_emits [where bss = "[le_encode 8 (boot_hi (inc_boot i)), le_encode 8 (boot_lo (inc_boot i)),
        le_encode 4 (inc_pid i), le_encode 4 (inc_index i), le_encode 8 (inc_seq i)]"])
    (simp_all add: emits_fields boot_bytes_def)

lemma payload_binding: "payload_of 32 (binding_fields d g) = Inr (digest_bytes d @ le_encode 8 (gen_value g))"
  unfolding binding_fields_def
  by (subst payload_of_emits [where bss = "[digest_bytes d, le_encode 8 (gen_value g)]"]) (simp_all add: emits_fields)

definition footprint_bytes :: "(SourceId \<times> ResourceId) list \<Rightarrow> u8 list" where
  "footprint_bytes es = concat (map (\<lambda>(a, b). le_encode 8 (id_value a) @ le_encode 8 (id_value b)) es)"

lemma footprint_fields_emit:
  "list_all2 emits (concat (map (\<lambda>(a, b). [wr_u64 (id_value a), wr_u64 (id_value b)]) es))
     (concat (map (\<lambda>(a, b). [le_encode 8 (id_value a), le_encode 8 (id_value b)]) es))"
  by (induction es) (auto simp: emits_fields)

lemma footprint_concat:
  "concat (concat (map (\<lambda>(a, b). [le_encode 8 (id_value a), le_encode 8 (id_value b)]) es)) = footprint_bytes es"
  "length (footprint_bytes es) = 16 * length es"
  by (induction es) (auto simp: footprint_bytes_def)

lemma payload_footprint:
  assumes "5 + length es * 16 \<le> cap"
  shows "payload_of cap (footprint_fields es) =
    Inr (kRevalidationFootprint # le_encode 4 (of_nat (length es) :: u32) @ footprint_bytes es)"
proof -
  have "list_all2 emits (footprint_fields es) ([[kRevalidationFootprint], le_encode 4 (of_nat (length es) :: u32)] @
      concat (map (\<lambda>(a, b). [le_encode 8 (id_value a), le_encode 8 (id_value b)]) es))"
    unfolding footprint_fields_def
    by (intro list_all2_appendI footprint_fields_emit) (simp add: emits_fields)
  from payload_of_emits [OF this, of cap] assms show ?thesis by (simp add: footprint_concat)
qed

lemma decode_then: "decode (then_read f k) bs = fst (then_read f k (rd_at [] bs))"
  by (simp add: decode_def byte_reader_at)

lemma read_id_at: "id_valid i \<Longrightarrow> read_id (rd_at d (le_encode 8 (id_value i) @ rest)) = (Inr i, rd_at (d @ le_encode 8 (id_value i)) rest)"
  by (simp add: read_id_def reads id_field)

lemma read_id_end_at:
  assumes "id_valid i" and "status_ok (check i)"
  shows "read_id_end check (rd_at d (le_encode 8 (id_value i))) = (Inr i, rd_at (d @ le_encode 8 (id_value i)) [])"
  using read_id_at [OF assms(1), of d "[]"] assms(2) by (simp add: read_id_end_def then_read_def)

lemma decode_id_end:
  "id_valid i \<Longrightarrow> status_ok (check i) \<Longrightarrow> decode (read_id_end check) (le_encode 8 (id_value i)) = Inr i"
  by (simp add: decode_def byte_reader_at read_id_end_at)

lemma decode_boot: "decode read_boot (boot_bytes i) = Inr i"
  by (simp add: decode_def byte_reader_at read_boot_def boot_bytes_def reads boot_from_raw_def)

lemma decode_binding: "decode read_binding (digest_bytes d @ le_encode 8 (gen_value g)) = Inr (d, g)"
  by (simp add: decode_def byte_reader_at read_binding_def reads gen_field)

lemma decode_digest: "decode rd_digest (digest_bytes l) = Inr l"
  using c_digest.get_enc [where v = l and r = "byte_reader (digest_bytes l)" and rest = "[]"] by (simp add: decode_def)

lemma read_u8_at: "then_read rd_u8 k (rd_at d (a # rest)) = k a (rd_at (d @ [a]) rest)"
  using c_u8.read_at [OF TrueI, of k d a rest] by simp

lemma decode_revalidation:
  "id_valid r \<Longrightarrow> decode (read_revalidation n rr) (kRevalidationRequest # le_encode 8 (id_value r)) = Inr (RO_Request r)"
  "id_valid r \<Longrightarrow> decode (read_revalidation n rr) (kRevalidationClear # le_encode 8 (id_value r)) = Inr (RO_Clear r)"
  using read_id_at [of r _ "[]"]
  by (simp_all add: decode_def byte_reader_at read_revalidation_def read_u8_at read_id_end_at
      then_read_def [of "read_id_end _"] then_read_def [of read_id] kRevalidationRequest_def kRevalidationClear_def)

lemma read_footprint_at:
  "\<forall>(a, b) \<in> set es. id_valid a \<and> id_valid b \<Longrightarrow>
     read_footprint (length es) (rd_at d (footprint_bytes es)) = (Inr (map snd es), rd_at (d @ footprint_bytes es) [])"
proof (induction es arbitrary: d)
  case Nil
  then show ?case by (simp add: footprint_bytes_def)
next
  case (Cons e es)
  obtain a b where e: "e = (a, b)" by (cases e)
  with Cons.prems have ab: "id_valid a" "id_valid b" by simp_all
  have bs: "footprint_bytes ((a, b) # es) = le_encode 8 (id_value a) @ le_encode 8 (id_value b) @ footprint_bytes es"
    by (simp add: footprint_bytes_def)
  have "read_footprint (length es) (rd_at d' (footprint_bytes es)) = (Inr (map snd es), rd_at (d' @ footprint_bytes es) [])" for d'
    using Cons.IH Cons.prems by simp
  then show ?case by (simp add: bs reads id_field ab then_read_def [of "read_footprint _"] e)
qed

lemma decode_footprint:
  assumes "\<forall>(a, b) \<in> set es. id_valid a \<and> id_valid b" and "length es \<le> n" and "length es < 2 ^ 32"
  shows "decode (read_revalidation n rr) (kRevalidationFootprint # le_encode 4 (of_nat (length es) :: u32) @ footprint_bytes es) =
    Inr (RO_Footprint (map snd es))"
proof -
  have "unat (of_nat (length es) :: u32) = length es" using assms(3) by (simp add: unat_of_nat)
  then show ?thesis
    using assms read_footprint_at [OF assms(1)]
    by (simp add: decode_def byte_reader_at read_revalidation_def read_u8_at reads
      then_read_def [of "read_footprint _"] kRevalidationRequest_def kRevalidationClear_def kRevalidationFootprint_def)
qed

section \<open>One acknowledged operation\<close>

text \<open>The journal gained one record, and replaying it on the old state gives the new one.\<close>

definition logs :: "DurableStore \<Rightarrow> DurableStore \<Rightarrow> bool" where
  "logs s s' \<longleftrightarrow>
     journal_inv (ds_journal s') \<and> jn_limits (ds_journal s') = jn_limits (ds_journal s) \<and>
     ds_config s' = ds_config s \<and>
     (\<exists>r. jn_records (ds_journal s') = jn_records (ds_journal s) @ [r] \<and> relate (apply_record r s) = Inr (view_of s'))"

text \<open>Nothing durable changed.\<close>

definition kept :: "DurableStore \<Rightarrow> DurableStore \<Rightarrow> bool" where
  "kept s s' \<longleftrightarrow>
     journal_inv (ds_journal s') \<and> jn_limits (ds_journal s') = jn_limits (ds_journal s) \<and>
     ds_config s' = ds_config s \<and> jn_records (ds_journal s') = jn_records (ds_journal s) \<and> view_of s' = view_of s"

lemma kept_refl: "store_inv s \<Longrightarrow> kept s s"
  by (simp add: kept_def store_inv_def)

lemma kept_inv: "store_inv s \<Longrightarrow> kept s s' \<Longrightarrow> store_inv s'"
  by (simp add: store_inv_def kept_def)

lemma logs_inv:
  assumes "store_inv s" and "logs s s'"
  shows "store_inv s'"
proof -
  obtain r where r: "jn_records (ds_journal s') = jn_records (ds_journal s) @ [r]"
      "relate (apply_record r s) = Inr (view_of s')"
    using assms(2) by (auto simp: logs_def)
  have "replayed (ds_config s) (jn_records (ds_journal s) @ [r]) = Inr (view_of s')"
    using assms(1) r(2) by (simp add: replayed_snoc store_inv_def apply_record_view)
  with assms r show ?thesis by (simp add: store_inv_def logs_def)
qed

lemma on_journal_simps [simp]:
  "fst (on_journal f s) = fst (f (ds_journal s))" "snd (on_journal f s) = s\<lparr>ds_journal := snd (f (ds_journal s))\<rparr>"
  by (simp_all add: on_journal_def split_beta)

lemma appended:
  assumes "store_inv s" and "try_state (on_journal (journal_append type now epoch payload) s) k = (e, s')" and "status_ok e"
  obtains j r where "journal_inv j" "jn_limits j = jn_limits (ds_journal s)" "jn_records j = jn_records (ds_journal s) @ [r]"
    "jr_type r = type" "jr_payload r = payload" "jr_epoch r = epoch" "k (s\<lparr>ds_journal := j\<rparr>) = (e, s')"
proof -
  from try_stateD [OF assms(2,3)] have ok: "status_ok (fst (journal_append type now epoch payload (ds_journal s)))"
    and k: "k (s\<lparr>ds_journal := snd (journal_append type now epoch payload (ds_journal s))\<rparr>) = (e, s')" by simp_all
  obtain e1 j where j: "journal_append type now epoch payload (ds_journal s) = (e1, j)" by (cases "journal_append type now epoch payload (ds_journal s)")
  from journal_append_inv [OF j] ok assms(1) j that k show thesis by (auto simp: store_inv_def)
qed

lemma store_sync_kept:
  assumes "store_inv s" and "store_sync s = (e, s')" and "status_ok e"
  shows "kept s s'" and "synced s'"
proof -
  obtain e1 j where j: "journal_sync (ds_journal s) = (e1, j)" by (cases "journal_sync (ds_journal s)")
  with assms have s': "s' = s\<lparr>ds_journal := j\<rparr>" "status_ok e1" by (simp_all add: store_sync_def on_journal_def)
  from journal_sync_inv [OF j s'(2)] journal_sync_ok [OF j s'(2)] assms(1) show "kept s s'" "synced s'"
    by (simp_all add: s' kept_def synced_def store_inv_def)
qed

text \<open>What a method does after its record is in the journal gives the state that replaying the record gives.\<close>

definition follows :: "RecordType \<Rightarrow> Epoch \<Rightarrow> u8 list \<Rightarrow> DurableStore \<Rightarrow> (DurableStore \<Rightarrow> Status \<times> DurableStore) \<Rightarrow> bool" where
  "follows type epoch payload s k \<longleftrightarrow>
     (\<forall>j r e s'. k (s\<lparr>ds_journal := j\<rparr>) = (e, s') \<and> status_ok e \<and> jr_type r = type \<and> jr_payload r = payload \<and>
        jr_epoch r = epoch \<longrightarrow> ds_journal s' = j \<and> ds_config s' = ds_config s \<and> relate (apply_record r s) = Inr (view_of s'))"

lemma append_logs:
  assumes "store_inv s" and "try_state (on_journal (journal_append type now epoch payload) s) k = (e, s')" and "status_ok e"
    and "follows type epoch payload s k"
  shows "logs s s'"
proof -
  obtain j r where j: "journal_inv j" "jn_limits j = jn_limits (ds_journal s)" "jn_records j = jn_records (ds_journal s) @ [r]"
    "jr_type r = type" "jr_payload r = payload" "jr_epoch r = epoch" "k (s\<lparr>ds_journal := j\<rparr>) = (e, s')"
    by (rule appended [OF assms(1-3)])
  from assms(3,4) j(4-7) have "ds_journal s' = j" "ds_config s' = ds_config s" "relate (apply_record r s) = Inr (view_of s')"
    unfolding follows_def by blast+
  with j show ?thesis by (auto simp: logs_def)
qed

lemma persist_logs:
  assumes "store_inv s" and p: "persist type now epoch payload s k = (e, s')" and "status_ok e"
    and f: "follows type epoch payload s k"
  shows "logs s s'" and "synced s'"
proof -
  obtain j r where j: "journal_inv j" "jn_limits j = jn_limits (ds_journal s)" "jn_records j = jn_records (ds_journal s) @ [r]"
      "jr_type r = type" "jr_payload r = payload" "jr_epoch r = epoch"
      and k: "try_state (on_journal journal_sync (s\<lparr>ds_journal := j\<rparr>)) k = (e, s')"
    using appended [OF assms(1) p [unfolded persist_def] assms(3)] by metis
  obtain e2 j2 where j2: "journal_sync j = (e2, j2)" by (cases "journal_sync j")
  from try_stateD [OF k assms(3)] j2 have ok: "status_ok e2" and k2: "k (s\<lparr>ds_journal := j2\<rparr>) = (e, s')" by simp_all
  from f k2 assms(3) j(4-6) have s': "ds_journal s' = j2" "ds_config s' = ds_config s"
      "relate (apply_record r s) = Inr (view_of s')"
    unfolding follows_def by blast+
  from journal_sync_inv [OF j2 ok j(1)] journal_sync_ok [OF j2 ok] j s' show "logs s s'" "synced s'"
    by (simp_all add: logs_def synced_def)
qed

text \<open>
  The contract of the store's methods: with an admissible argument, a method that reports
  success changed nothing durable or logged what it did.
\<close>

locale durable_op =
  fixes op1 :: "DurableStore \<Rightarrow> Status \<times> DurableStore" and ready :: bool
  assumes op_logs: "ready \<Longrightarrow> store_inv s \<Longrightarrow> op1 s = (e, s') \<Longrightarrow> status_ok e \<Longrightarrow> kept s s' \<or> logs s s'"
begin

lemma op_inv: "ready \<Longrightarrow> store_inv s \<Longrightarrow> op1 s = (e, s') \<Longrightarrow> status_ok e \<Longrightarrow> store_inv s'"
  using op_logs kept_inv logs_inv by blast

lemma op_content: "ready \<Longrightarrow> store_inv s \<Longrightarrow> op1 s = (e, s') \<Longrightarrow> status_ok e \<Longrightarrow> content_ok s'"
  by (rule store_content) (rule op_inv)

end

text \<open>A method that also makes its record durable before it reports success.\<close>

locale synced_op = durable_op +
  assumes op_syncs: "ready \<Longrightarrow> store_inv s \<Longrightarrow> op1 s = (e, s') \<Longrightarrow> status_ok e \<Longrightarrow> s' = s \<or> synced s'"
begin

lemma op_synced: "ready \<Longrightarrow> store_inv s \<Longrightarrow> synced s \<Longrightarrow> op1 s = (e, s') \<Longrightarrow> status_ok e \<Longrightarrow> synced s'"
  using op_syncs by blast

end

lemma synced_opI:
  assumes "\<And>s e s'. ready \<Longrightarrow> store_inv s \<Longrightarrow> content_ok s \<Longrightarrow> op1 s = (e, s') \<Longrightarrow> status_ok e \<Longrightarrow> s' = s \<or> logs s s' \<and> synced s'"
  shows "synced_op op1 ready"
  using assms kept_refl store_content by unfold_locales blast+

section \<open>The methods\<close>

lemma followsI:
  assumes "\<And>j r. jr_type r = type \<Longrightarrow> jr_payload r = payload \<Longrightarrow> jr_epoch r = epoch \<Longrightarrow>
    relate (apply_record r s) = Inr (view_of (f (s\<lparr>ds_journal := j\<rparr>)))"
    and "\<And>s. ds_journal (f s) = ds_journal s \<and> ds_config (f s) = ds_config s"
  shows "follows type epoch payload s (\<lambda>s. (status_success, f s))"
  using assms by (auto simp: follows_def)

lemma upd_state_keeps [simp]: "ds_journal (upd_state f s) = ds_journal s" "ds_config (upd_state f s) = ds_config s"
  "ds_state (upd_state f s) = f (ds_state s)" "ds_open_attempts (upd_state f s) = ds_open_attempts s"
  by (simp_all add: upd_state_def)

lemma not_established_fails [simp]: "\<not> status_ok (fst (not_established s))"
  by (simp add: not_established_def)

lemma try_payload_Inr [simp]: "try_payload (Inr bs) s k = k bs"
  by (simp add: try_payload_def)

lemma fails: "\<not> status_ok (fst p) \<Longrightarrow> p = (e, s') \<Longrightarrow> status_ok e \<Longrightarrow> P"
  by auto

interpretation establishing: synced_op "establish_epoch now" True for now
proof (rule synced_opI)
  fix s e s'
  assume s: "store_inv s" and a: "establish_epoch now s = (e, s')" and e: "status_ok e"
  show "s' = s \<or> logs s s' \<and> synced s'"
  proof (cases "if \<not> store_epoch_known s then Inr (Epoch 1) else epoch_next (rs_epoch (ds_state s))")
    case (Inl x)
    with a e show ?thesis by (simp add: establish_epoch_def)
  next
    case (Inr n)
    define f where "f = upd_state (\<lambda>st. st\<lparr>rs_previous_epoch := rs_epoch st, rs_epoch := n\<rparr>)"
    have p: "persist RT_Epoch now n (le_encode 8 (epoch_value n)) s (\<lambda>s. (status_success, f s)) = (e, s')"
      using a Inr by (simp add: establish_epoch_def payload_u64 f_def del: not_def)
    have "follows RT_Epoch n (le_encode 8 (epoch_value n)) s (\<lambda>s. (status_success, f s))"
      by (rule followsI) (simp_all add: apply_record_def f_def Let_def)
    from persist_logs [OF s p e this] show ?thesis by blast
  qed
qed

interpretation booting: synced_op "record_boot incarnation now" True for incarnation now
proof (rule synced_opI)
  fix s e s'
  assume s: "store_inv s" and a: "record_boot incarnation now s = (e, s')" and e: "status_ok e"
  define f where "f = upd_state (\<lambda>st. st\<lparr>rs_boot := inc_boot incarnation, rs_incarnation := incarnation, rs_boot_recorded := True\<rparr>)"
  have p: "persist RT_Boot now (rs_epoch (ds_state s)) (boot_bytes incarnation) s (\<lambda>s. (status_success, f s)) = (e, s')"
    using a e by (auto simp: record_boot_def payload_boot f_def not_established_def split: if_splits)
  have "follows RT_Boot (rs_epoch (ds_state s)) (boot_bytes incarnation) s (\<lambda>s. (status_success, f s))"
    by (rule followsI) (simp_all add: apply_record_def f_def decode_boot Let_def)
  from persist_logs [OF s p e this] show "s' = s \<or> logs s s' \<and> synced s'" by blast
qed

interpretation policies: synced_op "persist_policy policy now" True for policy now
proof (rule synced_opI)
  fix s e s'
  assume s: "store_inv s" and a: "persist_policy policy now s = (e, s')" and e: "status_ok e"
  define f where "f = upd_state (\<lambda>st. st\<lparr>rs_policy := policy, rs_has_policy := True\<rparr>)"
  have "117 \<le> jl_max_record_bytes (dc_journal_limits (ds_config s))"
    using s by (simp add: store_inv_def config_ok_def kMaxJournalPayload_def)
  with a e have v: "status_ok (policy_validate policy)"
    and p: "s' = s \<or> persist RT_Policy now (rs_epoch (ds_state s)) (policy_encoding policy) s (\<lambda>s. (status_success, f s)) = (e, s')"
    by (auto simp: persist_policy_def serialize_policy_bytes f_def not_established_def Let_def split: if_splits)
  have "follows RT_Policy (rs_epoch (ds_state s)) (policy_encoding policy) s (\<lambda>s. (status_success, f s))"
    by (rule followsI) (simp_all add: apply_record_def f_def deserialize_policy_bytes [OF v] Let_def)
  from p persist_logs [OF s _ e this] show "s' = s \<or> logs s s' \<and> synced s'" by blast
qed

interpretation binding: synced_op "bind_topology digest generation now" True for digest generation now
proof (rule synced_opI)
  fix s e s'
  assume s: "store_inv s" and a: "bind_topology digest generation now s = (e, s')" and e: "status_ok e"
  define f where "f = upd_state (\<lambda>st. st\<lparr>rs_topology_digest := digest, rs_topology_generation := generation,
             rs_has_topology_binding := True\<rparr>)"
  define bs where "bs = digest_bytes digest @ le_encode 8 (gen_value generation)"
  have p: "persist RT_TopologyBinding now (rs_epoch (ds_state s)) bs s (\<lambda>s. (status_success, f s)) = (e, s')"
    using a e by (auto simp: bind_topology_def payload_binding f_def bs_def not_established_def split: if_splits)
  have "follows RT_TopologyBinding (rs_epoch (ds_state s)) bs s (\<lambda>s. (status_success, f s))"
    by (rule followsI) (simp_all add: apply_record_def f_def bs_def decode_binding Let_def)
  from persist_logs [OF s p e this] show "s' = s \<or> logs s s' \<and> synced s'" by blast
qed

interpretation fencing: synced_op "put_fence fence now" True for fence now
proof (rule synced_opI)
  fix s e s'
  assume s: "store_inv s" and a: "put_fence fence now s = (e, s')" and e: "status_ok e"
  have v: "status_ok (fence_validate fence)"
    and p: "persist RT_FencePut now (rs_epoch (ds_state s)) (fence_encoding fence) s (put_recovered_fence ''fence capacity'' fence) = (e, s')"
    using a e by (auto simp: put_fence_def serialize_fence_bytes not_established_def split: if_splits)
  have "follows RT_FencePut (rs_epoch (ds_state s)) (fence_encoding fence) s (put_recovered_fence ''fence capacity'' fence)"
    unfolding follows_def apply_record_def
    by (auto simp: deserialize_fence_bytes [OF v] put_recovered_fence_def bpfab_try_result_def Let_def
        split: option.splits if_splits)
  from persist_logs [OF s p e this] show "s' = s \<or> logs s s' \<and> synced s'" by blast
qed

interpretation unfencing: synced_op "remove_fence i now" True for i now
proof (rule synced_opI)
  fix s e s'
  assume s: "store_inv s" and c: "content_ok s" and a: "remove_fence i now s = (e, s')" and e: "status_ok e"
  obtain fs where fs: "fence_erase (rs_fences (ds_state s)) i = Some fs"
    using a e by (cases "fence_erase (rs_fences (ds_state s)) i") (auto simp: remove_fence_def not_established_def split: if_splits)
  define f where "f = upd_state (\<lambda>st. st\<lparr>rs_fences := fs\<rparr>)"
  have p: "persist RT_FenceRemove now (rs_epoch (ds_state s)) (le_encode 8 (id_value i)) s (\<lambda>s. (status_success, f s)) = (e, s')"
    using a e fs by (auto simp: remove_fence_def payload_u64 f_def not_established_def split: if_splits)
  have "i \<in> fence_id ` set (rs_fences (ds_state s))"
    using fence_erase_None [of "rs_fences (ds_state s)" i] fs by simp
  then have "id_valid i" using content_fences(1) [OF c] by (auto simp: fences_ok_def fence_validate_ok)
  then have "follows RT_FenceRemove (rs_epoch (ds_state s)) (le_encode 8 (id_value i)) s (\<lambda>s. (status_success, f s))"
    by (intro followsI) (simp_all add: apply_record_def f_def decode_id_end fs Let_def)
  from persist_logs [OF s p e this] show "s' = s \<or> logs s s' \<and> synced s'" by blast
qed

interpretation lineages: durable_op "record_lineage lineage now" True for lineage now
proof unfold_locales
  fix s e s'
  assume s: "store_inv s" and a: "record_lineage lineage now s = (e, s')" and e: "status_ok e"
  have p: "try_state (on_journal (journal_append RT_Lineage now (rs_epoch (ds_state s)) (digest_bytes lineage)) s)
      (\<lambda>s. (status_success, remember_lineage lineage s)) = (e, s')"
    using a e by (auto simp: record_lineage_def payload_digest not_established_def split: if_splits)
  have v: "view_of (remember_lineage lineage (s\<lparr>ds_journal := j\<rparr>)) = view_of (remember_lineage lineage s)" for j
    using remember_view [of lineage "s\<lparr>ds_journal := j\<rparr>"] remember_view [of lineage s] by simp
  have "follows RT_Lineage (rs_epoch (ds_state s)) (digest_bytes lineage) s (\<lambda>s. (status_success, remember_lineage lineage s))"
    by (rule followsI) (simp_all add: apply_record_def decode_digest v Let_def)
  from append_logs [OF s p e this] show "kept s s' \<or> logs s s'" by blast
qed

lemma add_footprint_replay:
  "rs_revalidation_required (fold (replay_footprint_entry n) rs st) = rs_revalidation_required (add_footprint n rs st)"
proof (induction rs arbitrary: st)
  case (Cons r rs)
  have full: "rs_revalidation_required (fold (replay_footprint_entry n) rs st) = rs_revalidation_required st"
    if "n \<le> length (rs_revalidation_required st)" for rs st
    using that by (induction rs arbitrary: st) (simp_all add: replay_footprint_entry_def)
  show ?case
  proof (cases "n \<le> length (rs_revalidation_required st)")
    case True
    moreover have "rs_revalidation_required (add_footprint n (r # rs) st) = rs_revalidation_required st"
      using True by (induction rs arbitrary: r) auto
    ultimately show ?thesis using full [of st "r # rs"] by simp
  next
    case False
    then show ?thesis by (simp add: replay_footprint_entry_def [of n r] Cons.IH)
  qed
qed simp

lemma add_footprint_part:
  "add_footprint n rs st = st\<lparr>rs_revalidation_required := rs_revalidation_required (add_footprint n rs st),
     rs_footprint_overflow := rs_footprint_overflow (add_footprint n rs st)\<rparr>"
  by (induction n rs st rule: add_footprint.induct) simp_all

lemma fold_footprint_part:
  "fold (replay_footprint_entry n) rs st =
     st\<lparr>rs_revalidation_required := rs_revalidation_required (fold (replay_footprint_entry n) rs st),
       rs_footprint_overflow := rs_footprint_overflow (fold (replay_footprint_entry n) rs st)\<rparr>"
proof (induction rs arbitrary: st)
  case (Cons r rs)
  have "replay_footprint_entry n r st = st\<lparr>rs_revalidation_required := rs_revalidation_required (replay_footprint_entry n r st),
      rs_footprint_overflow := rs_footprint_overflow (replay_footprint_entry n r st)\<rparr>"
    by (simp add: replay_footprint_entry_def)
  then obtain a b where e: "replay_footprint_entry n r st = st\<lparr>rs_revalidation_required := a, rs_footprint_overflow := b\<rparr>"
    by (rule that)
  obtain c d where "fold (replay_footprint_entry n) rs (replay_footprint_entry n r st) =
      (replay_footprint_entry n r st)\<lparr>rs_revalidation_required := c, rs_footprint_overflow := d\<rparr>"
    by (rule that [OF Cons.IH])
  then have "fold (replay_footprint_entry n) (r # rs) st = st\<lparr>rs_revalidation_required := c, rs_footprint_overflow := d\<rparr>"
    by (simp add: e)
  then show ?case by simp
qed simp

lemma footprint_same_part:
  "durable_part (fold (replay_footprint_entry n) rs st) = durable_part (add_footprint n rs st)"
proof -
  have "durable_part (fold (replay_footprint_entry n) rs st) =
      (durable_part st)\<lparr>rs_revalidation_required := rs_revalidation_required (add_footprint n rs st)\<rparr>"
    by (rule trans [OF arg_cong [OF fold_footprint_part]]) (simp add: add_footprint_replay)
  moreover have "durable_part (add_footprint n rs st) =
      (durable_part st)\<lparr>rs_revalidation_required := rs_revalidation_required (add_footprint n rs st)\<rparr>"
    by (rule trans [OF arg_cong [OF add_footprint_part]]) simp
  ultimately show ?thesis by simp
qed

interpretation requesting: synced_op "request_revalidation resource now" True for resource now
proof (rule synced_opI)
  fix s e s'
  assume s: "store_inv s" and a: "request_revalidation resource now s = (e, s')" and e: "status_ok e"
  define bs where "bs = kRevalidationRequest # le_encode 8 (id_value resource)"
  define k where "k s = (let rs = rs_revalidation_required (ds_state s)
          in if resource \<in> set rs then (status_success, s)
             else if length rs \<ge> dc_max_footprint_entries (ds_config s) then
               (status_error LimitExceeded ''revalidation footprint'' (of_nat (length rs)),
                upd_state (\<lambda>st. st\<lparr>rs_footprint_overflow := rs_footprint_overflow st + 1\<rparr>) s)
             else (status_success, upd_state (\<lambda>st. st\<lparr>rs_revalidation_required := rs @ [resource]\<rparr>) s))" for s
  have v: "id_valid resource" and p: "persist RT_Revalidation now (rs_epoch (ds_state s)) bs s k = (e, s')"
    using a e by (auto simp: request_revalidation_def payload_op bs_def k_def [abs_def] not_established_def split: if_splits)
  have "follows RT_Revalidation (rs_epoch (ds_state s)) bs s k"
    unfolding follows_def apply_record_def
    by (auto simp: k_def bs_def decode_revalidation v replay_revalidation_def replay_request_def upd_state_def Let_def split: if_splits)
  from persist_logs [OF s p e this] show "s' = s \<or> logs s s' \<and> synced s'" by blast
qed

interpretation clearing: synced_op "store_clear_revalidation resource now" "id_valid resource" for resource now
proof (rule synced_opI)
  fix s e s'
  assume v: "id_valid resource" and s: "store_inv s" and a: "store_clear_revalidation resource now s = (e, s')" and e: "status_ok e"
  define bs where "bs = kRevalidationClear # le_encode 8 (id_value resource)"
  define f where "f = upd_state (clear_resource resource)"
  have p: "persist RT_Revalidation now (rs_epoch (ds_state s)) bs s (\<lambda>s. (status_success, f s)) = (e, s')"
    using a e by (auto simp: store_clear_revalidation_def payload_op bs_def f_def not_established_def split: if_splits)
  have "follows RT_Revalidation (rs_epoch (ds_state s)) bs s (\<lambda>s. (status_success, f s))"
    by (rule followsI) (simp_all add: apply_record_def f_def bs_def decode_revalidation v replay_revalidation_def Let_def)
  from persist_logs [OF s p e this] show "s' = s \<or> logs s s' \<and> synced s'" by blast
qed

definition footprint_valid :: "(SourceId \<times> ResourceId) list \<Rightarrow> bool" where
  "footprint_valid es \<longleftrightarrow> (\<forall>(a, b) \<in> set es. id_valid a \<and> id_valid b)"

interpretation footprints: synced_op "record_pressure_footprint entries now" "footprint_valid entries" for entries now
proof (rule synced_opI)
  fix s e s'
  assume v: "footprint_valid entries" and s: "store_inv s"
    and a: "record_pressure_footprint entries now s = (e, s')" and e: "status_ok e"
  define bs where "bs = kRevalidationFootprint # le_encode 4 (of_nat (length entries) :: u32) @ footprint_bytes entries"
  define n where "n = dc_max_footprint_entries (ds_config s)"
  define g where "g m st = (let st1 = add_footprint m (map snd entries) st
               in st1\<lparr>rs_footprint_entries := length (rs_revalidation_required st1)\<rparr>)" for m st
  define f where "f s2 = upd_state (g (dc_max_footprint_entries (ds_config s2))) s2" for s2
  have lim: "jl_max_record_bytes (dc_journal_limits (ds_config s)) < 2 ^ 32"
    using s by (simp add: store_inv_def config_ok_def limits_ok_def)
  have fits: "length entries \<le> n" "5 + length entries * 16 \<le> jl_max_record_bytes (dc_journal_limits (ds_config s))"
    and p: "persist RT_Revalidation now (rs_epoch (ds_state s)) bs s (\<lambda>s. (status_success, f s)) = (e, s')"
    using a e by (auto simp: record_pressure_footprint_def payload_footprint bs_def n_def f_def [abs_def] g_def [abs_def]
        not_established_def Let_def split: if_splits)
  have d: "decode (read_revalidation n rr) bs = Inr (RO_Footprint (map snd entries))" for rr
    unfolding bs_def by (rule decode_footprint) (use v fits lim in \<open>simp_all add: footprint_valid_def\<close>)
  have part: "durable_part (replay_revalidation n (RO_Footprint (map snd entries)) st) = durable_part (g n st)" for st
    using footprint_same_part [of n "map snd entries" st]
    by (simp add: replay_revalidation_def g_def Let_def add_footprint_replay)
  have "follows RT_Revalidation (rs_epoch (ds_state s)) bs s (\<lambda>s. (status_success, f s))"
    by (rule followsI) (simp_all add: apply_record_def f_def d n_def [symmetric] part Let_def)
  from persist_logs [OF s p e this] show "s' = s \<or> logs s s' \<and> synced s'" by blast
qed

interpretation beginning: synced_op "begin_attempt i now" True for i now
proof (rule synced_opI)
  fix s e s'
  assume s: "store_inv s" and a: "begin_attempt i now s = (e, s')" and e: "status_ok e"
  define f where "f s2 = (let open1 = ds_open_attempts s2 @ [i]
      in upd_state (\<lambda>st. st\<lparr>rs_attempts_open := of_nat (length open1)\<rparr>) (s2\<lparr>ds_open_attempts := open1\<rparr>))" for s2
  have v: "id_valid i" "i \<notin> set (ds_open_attempts s)"
    and p: "persist RT_AttemptBegin now (rs_epoch (ds_state s)) (le_encode 8 (id_value i)) s (\<lambda>s. (status_success, f s)) = (e, s')"
    using a e by (auto simp: begin_attempt_def payload_u64 f_def [abs_def] not_established_def Let_def split: if_splits)
  have "follows RT_AttemptBegin (rs_epoch (ds_state s)) (le_encode 8 (id_value i)) s (\<lambda>s. (status_success, f s))"
    by (rule followsI) (simp_all add: apply_record_def f_def decode_id_end v Let_def)
  from persist_logs [OF s p e this] show "s' = s \<or> logs s s' \<and> synced s'" by blast
qed

text \<open>Commit and abort.\<close>

lemma close_attempt_logs:
  assumes s: "store_inv s" and a: "close_attempt type what tally i now s = (e, s')" and e: "status_ok e"
    and tally: "\<And>st f g. durable_part (tally st\<lparr>rs_attempts_open := f, rs_attempts_ambiguous := g\<rparr>) = durable_part (tally st)"
    and replay: "\<And>r. jr_type r = type \<Longrightarrow> decode (read_id_end (attempt_known what s)) (jr_payload r) = Inr i \<Longrightarrow>
      relate (apply_record r s) = Inr (view_of (upd_state tally (drop_attempt i s)))"
  shows "logs s s' \<and> synced s'"
proof -
  define f where "f s2 = (let s3 = drop_attempt i s2; n = of_nat (length (ds_open_attempts s3))
          in upd_state (\<lambda>st. (tally st)\<lparr>rs_attempts_open := n, rs_attempts_ambiguous := n\<rparr>) s3)" for s2
  have v: "i \<in> set (ds_open_attempts s)"
    and p: "persist type now (rs_epoch (ds_state s)) (le_encode 8 (id_value i)) s (\<lambda>s. (status_success, f s)) = (e, s')"
    using a e by (auto simp: close_attempt_def payload_u64 f_def [abs_def] Let_def split: if_splits)
  have d: "decode (read_id_end (attempt_known what s)) (le_encode 8 (id_value i)) = Inr i"
    using v content_attempts(1) [OF store_content [OF s]] by (intro decode_id_end) (simp_all add: attempt_known_def)
  have "follows type (rs_epoch (ds_state s)) (le_encode 8 (id_value i)) s (\<lambda>s. (status_success, f s))"
    by (rule followsI) (simp_all add: replay d f_def drop_attempt_def tally Let_def)
  from persist_logs [OF s p e this] show ?thesis by blast
qed

interpretation committing: synced_op "commit_attempt i now" True for i now
proof (rule synced_opI)
  fix s e s'
  assume s: "store_inv s" and a: "commit_attempt i now s = (e, s')" and e: "status_ok e"
  have "logs s s' \<and> synced s'"
    by (rule close_attempt_logs [OF s a [unfolded commit_attempt_def] e])
      (simp_all add: apply_record_def upd_state_def drop_attempt_def Let_def)
  then show "s' = s \<or> logs s s' \<and> synced s'" ..
qed

interpretation aborting: synced_op "abort_attempt i now" True for i now
proof (rule synced_opI)
  fix s e s'
  assume s: "store_inv s" and a: "abort_attempt i now s = (e, s')" and e: "status_ok e"
  have "logs s s' \<and> synced s'"
    by (rule close_attempt_logs [OF s a [unfolded abort_attempt_def] e])
      (simp_all add: apply_record_def upd_state_def drop_attempt_def Let_def)
  then show "s' = s \<or> logs s s' \<and> synced s'" ..
qed

interpretation syncing: synced_op store_sync True
  by unfold_locales (use store_sync_kept in blast)+

end
