(* ===== verification/Store_Run.thy ===== *)
theory Store_Run
  imports Store_Facts
begin

text \<open>
  Sequences of acknowledged operations, crashes and restarts of the durable store, and its
  compaction. A restart gives the state after some of the acknowledged operations, all of
  them when the last one was made durable.
\<close>

section \<open>Sequences of operations\<close>

datatype StoreOp =
  SO_Establish | SO_Boot Incarnation | SO_Policy PropagationPolicy | SO_Bind Digest128 Generation
  | SO_PutFence Fence | SO_RemoveFence FenceId | SO_Lineage Digest128 | SO_Request ResourceId
  | SO_Clear ResourceId | SO_Footprint "(SourceId \<times> ResourceId) list" | SO_Begin AttemptId
  | SO_Commit AttemptId | SO_Abort AttemptId | SO_Sync

fun store_op :: "StoreOp \<Rightarrow> Tick \<Rightarrow> DurableStore \<Rightarrow> Status \<times> DurableStore" where
  "store_op SO_Establish now = establish_epoch now"
| "store_op (SO_Boot i) now = record_boot i now"
| "store_op (SO_Policy p) now = persist_policy p now"
| "store_op (SO_Bind d g) now = bind_topology d g now"
| "store_op (SO_PutFence f) now = put_fence f now"
| "store_op (SO_RemoveFence i) now = remove_fence i now"
| "store_op (SO_Lineage l) now = record_lineage l now"
| "store_op (SO_Request r) now = request_revalidation r now"
| "store_op (SO_Clear r) now = store_clear_revalidation r now"
| "store_op (SO_Footprint es) now = record_pressure_footprint es now"
| "store_op (SO_Begin i) now = begin_attempt i now"
| "store_op (SO_Commit i) now = commit_attempt i now"
| "store_op (SO_Abort i) now = abort_attempt i now"
| "store_op SO_Sync now = store_sync"

text \<open>The identities that the methods do not check themselves.\<close>

fun op_admissible :: "StoreOp \<Rightarrow> bool" where
  "op_admissible (SO_Clear r) \<longleftrightarrow> id_valid r"
| "op_admissible (SO_Footprint es) \<longleftrightarrow> footprint_valid es"
| "op_admissible _ \<longleftrightarrow> True"

fun op_durable :: "StoreOp \<Rightarrow> bool" where
  "op_durable (SO_Lineage l) \<longleftrightarrow> False"
| "op_durable _ \<longleftrightarrow> True"

lemmas op_contracts =
  establishing.op_logs [OF TrueI] booting.op_logs [OF TrueI] policies.op_logs [OF TrueI] binding.op_logs [OF TrueI]
  fencing.op_logs [OF TrueI] unfencing.op_logs [OF TrueI] lineages.op_logs [OF TrueI] requesting.op_logs [OF TrueI]
  clearing.op_logs footprints.op_logs beginning.op_logs [OF TrueI] committing.op_logs [OF TrueI]
  aborting.op_logs [OF TrueI] syncing.op_logs [OF TrueI]

lemmas sync_contracts =
  establishing.op_syncs [OF TrueI] booting.op_syncs [OF TrueI] policies.op_syncs [OF TrueI] binding.op_syncs [OF TrueI]
  fencing.op_syncs [OF TrueI] unfencing.op_syncs [OF TrueI] requesting.op_syncs [OF TrueI]
  clearing.op_syncs footprints.op_syncs beginning.op_syncs [OF TrueI] committing.op_syncs [OF TrueI]
  aborting.op_syncs [OF TrueI] syncing.op_syncs [OF TrueI]

interpretation acked: durable_op "store_op x now" "op_admissible x" for x now
proof unfold_locales
  fix s e s'
  assume a: "op_admissible x" "store_inv s" "store_op x now s = (e, s')" "status_ok e"
  show "kept s s' \<or> logs s s'"
    by (insert a, cases x; simp; (rule op_contracts; assumption))
qed

lemma method_synced:
  assumes "op_durable x" and "op_admissible x" and "store_inv s" and "store_op x now s = (e, s')" and "status_ok e"
  shows "s' = s \<or> synced s'"
  by (insert assms, cases x; simp; (rule sync_contracts; assumption))

text \<open>Acknowledged operations only: the run stops at the first that fails.\<close>

fun store_run :: "(StoreOp \<times> Tick) list \<Rightarrow> DurableStore \<Rightarrow> Status \<times> DurableStore" where
  "store_run [] s = (status_success, s)"
| "store_run ((x, now) # xs) s = try_state (store_op x now s) (store_run xs)"

lemma store_run_append: "store_run (xs @ ys) s = try_state (store_run xs s) (store_run ys)"
  by (induction xs s rule: store_run.induct) (auto simp: try_state_def)

lemma store_run_inv:
  "store_run xs s = (e, s') \<Longrightarrow> status_ok e \<Longrightarrow> store_inv s \<Longrightarrow> \<forall>(x, now) \<in> set xs. op_admissible x \<Longrightarrow>
     store_inv s' \<and> ds_config s' = ds_config s"
proof (induction xs s rule: store_run.induct)
  case (2 x now xs s)
  obtain e1 s1 where s1: "store_op x now s = (e1, s1)" by (cases "store_op x now s")
  from try_stateD [OF 2(2) [unfolded store_run.simps] 2(3)] s1 have ok: "status_ok e1" "store_run xs s1 = (e, s')" by simp_all
  have x: "op_admissible x" using 2(5) by simp
  from acked.op_logs [OF x 2(4) s1 ok(1)] have "ds_config s1 = ds_config s" by (auto simp: kept_def logs_def)
  moreover have "store_inv s1" by (rule acked.op_inv [OF x 2(4) s1 ok(1)])
  ultimately show ?case using 2(1) [of s1] s1 ok 2(3,5) by simp
qed simp

lemma run_extends:
  "store_run xs s = (e, s') \<Longrightarrow> status_ok e \<Longrightarrow> store_inv s \<Longrightarrow> \<forall>(x, now) \<in> set xs. op_admissible x \<Longrightarrow>
     prefix (jn_records (ds_journal s)) (jn_records (ds_journal s'))"
proof (induction xs s rule: store_run.induct)
  case (2 x now xs s)
  obtain e1 s1 where s1: "store_op x now s = (e1, s1)" by (cases "store_op x now s")
  from try_stateD [OF 2(2) [unfolded store_run.simps] 2(3)] s1 have ok: "status_ok e1" "store_run xs s1 = (e, s')" by simp_all
  have x: "op_admissible x" using 2(5) by simp
  have "prefix (jn_records (ds_journal s)) (jn_records (ds_journal s1))"
    using acked.op_logs [OF x 2(4) s1 ok(1)] by (auto simp: kept_def logs_def)
  also have "prefix (jn_records (ds_journal s1)) (jn_records (ds_journal s'))"
    using 2(1) [of s1, OF ok(2) 2(3) acked.op_inv [OF x 2(4) s1 ok(1)]] 2(5) by simp
  finally show ?case .
qed simp

section \<open>Crash and restart\<close>

text \<open>The state that the first records of the journal describe is one the run went through.\<close>

lemma run_prefix:
  assumes "store_run xs s = (e, s')" and "status_ok e" and "store_inv s" and "\<forall>(x, now) \<in> set xs. op_admissible x"
    and "length (jn_records (ds_journal s)) \<le> m" and "m \<le> length (jn_records (ds_journal s'))"
  shows "\<exists>n s1. n \<le> length xs \<and> store_run (take n xs) s = (status_success, s1) \<and> store_inv s1 \<and>
    jn_records (ds_journal s1) = take m (jn_records (ds_journal s'))"
  using assms
proof (induction xs s rule: store_run.induct)
  case (1 s)
  then have "jn_records (ds_journal s) = take m (jn_records (ds_journal s'))" by simp
  with 1 show ?case by (intro exI [of _ "0 :: nat"] exI [of _ s]) simp
next
  case (2 x now xs s)
  obtain e1 s1 where s1: "store_op x now s = (e1, s1)" by (cases "store_op x now s")
  from try_stateD [OF 2(2) [unfolded store_run.simps] 2(3)] s1 have ok: "status_ok e1" "store_run xs s1 = (e, s')" by simp_all
  have x: "op_admissible x" using 2(5) by simp
  have inv: "store_inv s1" by (rule acked.op_inv [OF x 2(4) s1 ok(1)])
  have len: "length (jn_records (ds_journal s1)) \<le> Suc (length (jn_records (ds_journal s)))"
    using acked.op_logs [OF x 2(4) s1 ok(1)] by (auto simp: kept_def logs_def)
  show ?case
  proof (cases "length (jn_records (ds_journal s1)) \<le> m")
    case True
    obtain n s2 where n: "n \<le> length xs" "store_run (take n xs) s1 = (status_success, s2)" "store_inv s2"
        "jn_records (ds_journal s2) = take m (jn_records (ds_journal s'))"
      using 2(1) [of s1, OF ok(2) 2(3) inv _ True 2(7)] 2(5) by auto
    have "store_run (take (Suc n) ((x, now) # xs)) s = (status_success, s2)" using s1 ok(1) n(2) by (simp add: try_state_def)
    with n show ?thesis by (intro exI [of _ "Suc n"] exI [of _ s2]) simp
  next
    case False
    with len 2(6) have m: "m = length (jn_records (ds_journal s))" by simp
    have "prefix (jn_records (ds_journal s)) (jn_records (ds_journal s'))"
      using run_extends [OF 2(2-5)] .
    then have "jn_records (ds_journal s) = take m (jn_records (ds_journal s'))" by (auto simp: m prefix_def)
    with 2(4) show ?thesis by (intro exI [of _ "0 :: nat"] exI [of _ s]) simp
  qed
qed

lemma lineage_durable:
  assumes "store_inv s" and "record_lineage l now s = (e, s')" and "status_ok e"
  shows "file_durable (jn_file (ds_journal s')) = file_durable (jn_file (ds_journal s))"
proof -
  obtain e1 j where j: "journal_append RT_Lineage now (rs_epoch (ds_state s)) (digest_bytes l) (ds_journal s) = (e1, j)"
    by (cases "journal_append RT_Lineage now (rs_epoch (ds_state s)) (digest_bytes l) (ds_journal s)")
  with assms have "status_ok e1" "s' = remember_lineage l (s\<lparr>ds_journal := j\<rparr>)"
    by (auto simp: record_lineage_def payload_digest on_journal_def try_state_def not_established_def split: if_splits)
  with journal_append_inv [OF j] assms(1) show ?thesis by (simp add: store_inv_def)
qed

lemma prefix_image: "prefix xs ys \<Longrightarrow> length (image xs) \<le> length (image ys)"
  by (auto simp: prefix_def image_def)

lemma store_durable_le: "store_inv s \<Longrightarrow> file_durable (jn_file (ds_journal s)) \<le> length (image (jn_records (ds_journal s)))"
  by (simp add: store_inv_def journal_inv_def)

text \<open>No acknowledged operation makes less of the journal durable.\<close>

lemma run_durable:
  "store_run xs s = (e, s') \<Longrightarrow> status_ok e \<Longrightarrow> store_inv s \<Longrightarrow> \<forall>(x, now) \<in> set xs. op_admissible x \<Longrightarrow>
     file_durable (jn_file (ds_journal s)) \<le> file_durable (jn_file (ds_journal s'))"
proof (induction xs s rule: store_run.induct)
  case (2 x now xs s)
  obtain e1 s1 where s1: "store_op x now s = (e1, s1)" by (cases "store_op x now s")
  from try_stateD [OF 2(2) [unfolded store_run.simps] 2(3)] s1 have ok: "status_ok e1" "store_run xs s1 = (e, s')" by simp_all
  have x: "op_admissible x" using 2(5) by simp
  have "file_durable (jn_file (ds_journal s)) \<le> file_durable (jn_file (ds_journal s1))"
  proof (cases "op_durable x")
    case True
    have "store_run [(x, now)] s = (status_success, s1)" using s1 ok(1) by (simp add: try_state_def)
    then have "prefix (jn_records (ds_journal s)) (jn_records (ds_journal s1))"
      using run_extends [of "[(x, now)]" s status_success s1] 2(4) x by simp
    with method_synced [OF True x 2(4) s1 ok(1)] store_durable_le [OF 2(4)] show ?thesis
      by (auto simp: synced_def dest: prefix_image)
  next
    case False
    then obtain l where "x = SO_Lineage l" by (cases x) auto
    with s1 ok(1) lineage_durable [OF 2(4)] show ?thesis by auto
  qed
  also have "\<dots> \<le> file_durable (jn_file (ds_journal s'))"
    using 2(1) [of s1, OF ok(2) 2(3) acked.op_inv [OF x 2(4) s1 ok(1)]] 2(5) by simp
  finally show ?case .
qed simp

lemma crash_restart:
  assumes inv: "store_inv s" and sync: "synced s" and run: "store_run xs s = (e, s')" "status_ok e"
    and adm: "\<forall>(x, now) \<in> set xs. op_admissible x" and dir: "directory_ready dir"
  shows "\<exists>n s1 t. n \<le> length xs \<and> store_run (take n xs) s = (status_success, s1) \<and>
    store_open (ds_config s) dir ((crash k (jn_file (ds_journal s')))\<lparr>file_tape := []\<rparr>) = (Inr t, jn_file (ds_journal t)) \<and>
    store_inv t \<and> same_view t s1 \<and> (synced s' \<longrightarrow> same_view t s')"
proof -
  have s': "store_inv s'" "ds_config s' = ds_config s" using store_run_inv [OF run inv adm] by simp_all
  then have j': "journal_inv (ds_journal s')" "jn_limits (ds_journal s') = dc_journal_limits (ds_config s)"
    by (simp_all add: store_inv_def)
  have dur: "file_durable (jn_file (ds_journal s)) \<le> file_durable (jn_file (ds_journal s'))"
    by (rule run_durable [OF run inv adm])
  have pre: "prefix (jn_records (ds_journal s)) (jn_records (ds_journal s'))" by (rule run_extends [OF run inv adm])
  have k: "32 \<le> max k (file_durable (jn_file (ds_journal s')))"
    using sync dur by (simp add: synced_def length_image)
  from crash_reopens [OF j'(1) k, of True] obtain j m0 where j: "journal_open (dc_journal_limits (ds_config s)) True
        ((crash k (jn_file (ds_journal s')))\<lparr>file_tape := []\<rparr>) = (Inr j, jn_file j)"
      "jn_records j = take m0 (jn_records (ds_journal s'))" "journal_inv j" "jn_limits j = dc_journal_limits (ds_config s)"
    and m0: "\<And>n. n \<le> length (jn_records (ds_journal s')) \<Longrightarrow>
      length (image (take n (jn_records (ds_journal s')))) \<le> file_durable (jn_file (ds_journal s')) \<Longrightarrow> n \<le> m0"
    unfolding j'(2) by blast
  define m where "m = min m0 (length (jn_records (ds_journal s')))"
  have jm: "jn_records j = take m (jn_records (ds_journal s'))" using j(2) by (simp add: m_def min_def)
  have "length (jn_records (ds_journal s)) \<le> m"
    using m0 [of "length (jn_records (ds_journal s))"] pre sync dur by (auto simp: m_def prefix_def synced_def)
  moreover have "m \<le> length (jn_records (ds_journal s'))" by (simp add: m_def)
  ultimately obtain n s1 where n: "n \<le> length xs" "store_run (take n xs) s = (status_success, s1)" "store_inv s1"
      "jn_records (ds_journal s1) = take m (jn_records (ds_journal s'))"
    using run_prefix [OF run inv adm] by blast
  have "\<forall>(x, now) \<in> set (take n xs). op_admissible x" using adm by (auto dest: in_set_takeD)
  from store_run_inv [OF n(2) _ inv this] have c1: "ds_config s1 = ds_config s" by simp
  have "replayed (ds_config s) (jn_records j) = Inr (view_of s1)" using n(3,4) jm c1 by (simp add: store_inv_def)
  from store_open_replays [OF _ dir j(1) refl j(3,4) this] inv [unfolded store_inv_def]
  obtain t where t: "store_open (ds_config s) dir ((crash k (jn_file (ds_journal s')))\<lparr>file_tape := []\<rparr>) = (Inr t, jn_file j)"
      "store_inv t" "view_of t = view_of s1" "ds_journal t = j"
    by blast
  have "same_view t s'" if "synced s'"
  proof -
    have "length (jn_records (ds_journal s')) \<le> m0" using m0 [of "length (jn_records (ds_journal s'))"] that by (simp add: synced_def)
    then have "jn_records (ds_journal s1) = jn_records (ds_journal s')" using n(4) by (simp add: m_def)
    then have "view_of s1 = view_of s'" using n(3) s' c1 by (simp add: store_inv_def)
    with t(3) show ?thesis by (simp add: view_of_eq [symmetric])
  qed
  with n(1,2) t show ?thesis by (intro exI [of _ n] exI [of _ s1] exI [of _ t]) (simp add: view_of_eq [symmetric])
qed

end
