(* ===== verification/Compaction.thy ===== *)
theory Compaction
  imports Store_Run
begin

text \<open>
  Compaction of the durable store, and a store on a fresh directory. Replaying the compacted
  journal gives the durable state back, except for the previous epoch and four counters that
  the compacted records do not carry.
\<close>

section \<open>A fresh store\<close>

lemma journal_open_fresh:
  assumes "limits_ok lim" and "file_bytes f = None" and "file_tape f = []"
  shows "\<exists>j. journal_open lim True f = (Inr j, jn_file j) \<and> jn_records j = [] \<and> jn_limits j = lim \<and> journal_inv j \<and>
    file_tape (jn_file j) = []"
proof -
  define d where "d = f\<lparr>file_bytes := Some journal_header, file_durable := 0\<rparr>"
  have start: "try_state (create_handle (journal_closed lim f)) write_header =
      (status_success, (journal_closed lim f)\<lparr>jn_handle := True, jn_file := d, jn_file_bytes := kHeaderBytes\<rparr>)"
    using assms
    by (simp add: create_handle_def write_header_def fwrite_def on_file_def journal_closed_def file_contents_def d_def Let_def)
  define j0 where "j0 = (journal_closed lim f)\<lparr>jn_handle := True, jn_file := d, jn_file_bytes := kHeaderBytes\<rparr>"
  have tape: "file_tape d = []" "file_bytes d = Some journal_header" using assms by (simp_all add: d_def)
  have check: "status_ok (header_check journal_header)" using header_check_image [of "[]"] by simp
  have replay: "replay_file j0 = replay_finish 32 digest_zero j0"
    using tape check
    by (simp add: j0_def journal_closed_def replay_file_def on_file_def fread_all_def file_contents_def kHeaderBytes_def
        replay_records.simps [of "[]"] Let_def)
  have finish: "\<exists>j. replay_finish 32 digest_zero j0 = (status_success, j) \<and> jn_records j = [] \<and> jn_limits j = lim \<and>
      journal_inv j \<and> file_tape (jn_file j) = []"
    using tape assms(1)
    by (simp add: replay_finish_def j0_def on_file_def seek_end_def file_contents_def journal_closed_def journal_stats_def
        journal_inv_def journal_mem_def image_def payload_total_def d_def Let_def)
  show ?thesis
    using assms(1,2) start replay finish
    by (auto simp: journal_open_def limits_ok_def j0_def [symmetric] not_less)
qed

section \<open>What compaction keeps\<close>

definition essential :: "RecoveredState \<Rightarrow> RecoveredState" where
  "essential st = (durable_part st)\<lparr>rs_previous_epoch := epoch_none, rs_attempts_committed := 0, rs_attempts_aborted := 0,
     rs_lineage_evictions := 0, rs_footprint_entries := 0\<rparr>"

definition essence :: "DurableStore \<Rightarrow> DurableConfig \<times> RecoveredState \<times> AttemptId list" where
  "essence s = (ds_config s, essential (ds_state s), ds_open_attempts s)"

lemma essential_update [simp]:
  "essential (rs_previous_epoch_update f1 st) = essential st"
  "essential (rs_epoch_update f1 st) = rs_epoch_update f1 (essential st)"
  "essential (rs_boot_update f2 st) = rs_boot_update f2 (essential st)"
  "essential (rs_incarnation_update f3 st) = rs_incarnation_update f3 (essential st)"
  "essential (rs_boot_recorded_update f4 st) = rs_boot_recorded_update f4 (essential st)"
  "essential (rs_policy_update f5 st) = rs_policy_update f5 (essential st)"
  "essential (rs_has_policy_update f4 st) = rs_has_policy_update f4 (essential st)"
  "essential (rs_topology_digest_update f6 st) = rs_topology_digest_update f6 (essential st)"
  "essential (rs_topology_generation_update f7 st) = rs_topology_generation_update f7 (essential st)"
  "essential (rs_has_topology_binding_update f4 st) = rs_has_topology_binding_update f4 (essential st)"
  "essential (rs_fences_update f8 st) = rs_fences_update f8 (essential st)"
  "essential (rs_lineages_update f9 st) = rs_lineages_update f9 (essential st)"
  "essential (rs_lineage_evictions_update f10 st) = essential st"
  "essential (rs_revalidation_required_update f11 st) = rs_revalidation_required_update f11 (essential st)"
  "essential (rs_records_replayed_update f10 st) = essential st"
  "essential (rs_attempts_open_update f10 st) = essential st"
  "essential (rs_stale_temp_files_removed_update f10 st) = essential st"
  "essential (rs_attempts_ambiguous_update f10 st) = essential st"
  by (simp_all add: essential_def)

lemma essential_fields [simp]:
  "rs_epoch (essential st) = rs_epoch st" "rs_fences (essential st) = rs_fences st"
  "rs_lineages (essential st) = rs_lineages st"
  "rs_revalidation_required (essential st) = rs_revalidation_required st"
  by (simp_all add: essential_def)

definition compacted :: "Epoch \<Rightarrow> RecordType \<Rightarrow> u8 list \<Rightarrow> JournalRecord" where
  "compacted epoch type payload =
     journal_record\<lparr>jr_type := type, jr_tick := kNoTick, jr_epoch := epoch, jr_payload := payload\<rparr>"

lemma compacted_fields [simp]:
  "jr_type (compacted e ty p) = ty" "jr_payload (compacted e ty p) = p" "jr_epoch (compacted e ty p) = e"
  by (simp_all add: compacted_def)

definition replays_to :: "JournalRecord list \<Rightarrow> DurableStore \<Rightarrow> DurableConfig \<times> RecoveredState \<times> AttemptId list \<Rightarrow> bool" where
  "replays_to rs s v \<longleftrightarrow> (\<exists>t. replay_list rs s = Inr t \<and> essence t = v)"

lemma replays_to_Nil: "essence s = v \<Longrightarrow> replays_to [] s v"
  by (simp add: replays_to_def)

lemma replays_to_Cons:
  assumes "apply_record r s = Inr t" and "\<And>t'. essence t' = essence t \<Longrightarrow> replays_to rs t' v"
  shows "replays_to (r # rs) s v"
  using assms(2) [of "upd_state (\<lambda>st. st\<lparr>rs_records_replayed := rs_records_replayed st + 1\<rparr>) t"] assms(1)
  by (simp add: replays_to_def essence_def)

lemma replays_to_append:
  "replays_to xs s v \<Longrightarrow> (\<And>t. essence t = v \<Longrightarrow> replays_to ys t w) \<Longrightarrow> replays_to (xs @ ys) s w"
proof (induction xs arbitrary: s)
  case (Cons x xs)
  then show ?case by (cases "apply_record x s") (auto simp: replays_to_def)
qed (auto simp: replays_to_def)

lemma replays_fences:
  "essence s = (c, st, os) \<Longrightarrow> fences_ok (rs_fences st @ fs) \<Longrightarrow>
     replays_to (map (\<lambda>f. compacted e RT_FencePut (fence_encoding f)) fs) s (c, st\<lparr>rs_fences := rs_fences st @ fs\<rparr>, os)"
proof (induction fs arbitrary: s st)
  case Nil
  then show ?case by (simp add: replays_to_Nil)
next
  case (Cons f fs)
  have s: "rs_fences (ds_state s) = rs_fences st" using Cons.prems(1) by (auto simp: essence_def)
  have v: "status_ok (fence_validate f)" "fence_replace (rs_fences st) f = None" "length (rs_fences st) < kMaxFences"
    using Cons.prems(2) by (auto simp: fences_ok_def fence_replace_None)
  then have "apply_record (compacted e RT_FencePut (fence_encoding f)) s =
      Inr (s\<lparr>ds_state := (ds_state s)\<lparr>rs_fences := rs_fences st @ [f]\<rparr>\<rparr>)"
    by (simp add: apply_record_def deserialize_fence_bytes put_recovered_fence_def bpfab_try_result_def upd_state_def s Let_def)
  moreover have "replays_to (map (\<lambda>f. compacted e RT_FencePut (fence_encoding f)) fs) t
      (c, st\<lparr>rs_fences := rs_fences st @ f # fs\<rparr>, os)" if "essence t = (c, st\<lparr>rs_fences := rs_fences st @ [f]\<rparr>, os)" for t
    using Cons.IH [OF that] Cons.prems(2) by simp
  moreover have "essence (s\<lparr>ds_state := (ds_state s)\<lparr>rs_fences := rs_fences st @ [f]\<rparr>\<rparr>) =
      (c, st\<lparr>rs_fences := rs_fences st @ [f]\<rparr>, os)"
    using Cons.prems(1) by (simp add: essence_def)
  ultimately show ?case by (simp add: replays_to_Cons)
qed

lemma replays_requests:
  "essence s = (c, st, os) \<Longrightarrow> distinct (rs_revalidation_required st @ rs) \<Longrightarrow> \<forall>r \<in> set rs. id_valid r \<Longrightarrow>
     length (rs_revalidation_required st @ rs) \<le> dc_max_footprint_entries c \<Longrightarrow>
     replays_to (map (\<lambda>r. compacted e RT_Revalidation (kRevalidationRequest # le_encode 8 (id_value r))) rs) s
       (c, st\<lparr>rs_revalidation_required := rs_revalidation_required st @ rs\<rparr>, os)"
proof (induction rs arbitrary: s st)
  case Nil
  then show ?case by (simp add: replays_to_Nil)
next
  case (Cons r rs)
  have s: "rs_revalidation_required (ds_state s) = rs_revalidation_required st" "ds_config s = c"
    using Cons.prems(1) by (auto simp: essence_def)
  have "apply_record (compacted e RT_Revalidation (kRevalidationRequest # le_encode 8 (id_value r))) s =
      Inr (s\<lparr>ds_state := (ds_state s)\<lparr>rs_revalidation_required := rs_revalidation_required st @ [r]\<rparr>\<rparr>)"
    using Cons.prems by (simp add: apply_record_def decode_revalidation replay_revalidation_def replay_request_def upd_state_def s Let_def)
  moreover have "replays_to (map (\<lambda>r. compacted e RT_Revalidation (kRevalidationRequest # le_encode 8 (id_value r))) rs) t
      (c, st\<lparr>rs_revalidation_required := rs_revalidation_required st @ r # rs\<rparr>, os)"
    if "essence t = (c, st\<lparr>rs_revalidation_required := rs_revalidation_required st @ [r]\<rparr>, os)" for t
    using Cons.IH [OF that] Cons.prems by simp
  moreover have "essence (s\<lparr>ds_state := (ds_state s)\<lparr>rs_revalidation_required := rs_revalidation_required st @ [r]\<rparr>\<rparr>) =
      (c, st\<lparr>rs_revalidation_required := rs_revalidation_required st @ [r]\<rparr>, os)"
    using Cons.prems(1) by (simp add: essence_def)
  ultimately show ?case by (simp add: replays_to_Cons)
qed

lemma replays_lineages:
  "essence s = (c, st, os) \<Longrightarrow> distinct (rs_lineages st @ ls) \<Longrightarrow> length (rs_lineages st @ ls) \<le> max 1 (dc_max_lineages c) \<Longrightarrow>
     replays_to (map (\<lambda>l. compacted e RT_Lineage (digest_bytes l)) ls) s (c, st\<lparr>rs_lineages := rs_lineages st @ ls\<rparr>, os)"
proof (induction ls arbitrary: s st)
  case Nil
  then show ?case by (simp add: replays_to_Nil)
next
  case (Cons l ls)
  have s: "rs_lineages (ds_state s) = rs_lineages st" "ds_config s = c"
    using Cons.prems(1) by (auto simp: essence_def)
  have "apply_record (compacted e RT_Lineage (digest_bytes l)) s = Inr (remember_lineage l s)"
    by (simp add: apply_record_def decode_digest)
  moreover have "essence (remember_lineage l s) = (c, st\<lparr>rs_lineages := rs_lineages st @ [l]\<rparr>, os)"
    using Cons.prems by (cases "rs_lineages st") (auto simp: remember_lineage_def essence_def s Let_def)
  moreover have "replays_to (map (\<lambda>l. compacted e RT_Lineage (digest_bytes l)) ls) t
      (c, st\<lparr>rs_lineages := rs_lineages st @ l # ls\<rparr>, os)"
    if "essence t = (c, st\<lparr>rs_lineages := rs_lineages st @ [l]\<rparr>, os)" for t
    using Cons.IH [OF that] Cons.prems by simp
  ultimately show ?case by (simp add: replays_to_Cons)
qed

lemma replays_attempts:
  "essence s = (c, st, os) \<Longrightarrow> distinct (os @ is) \<Longrightarrow> \<forall>i \<in> set is. id_valid i \<Longrightarrow>
     replays_to (map (\<lambda>i. compacted e RT_AttemptBegin (le_encode 8 (id_value i))) is) s (c, st, os @ is)"
proof (induction "is" arbitrary: s os)
  case Nil
  then show ?case by (simp add: replays_to_Nil)
next
  case (Cons i "is")
  have s: "ds_open_attempts s = os" using Cons.prems(1) by (auto simp: essence_def)
  have "apply_record (compacted e RT_AttemptBegin (le_encode 8 (id_value i))) s = Inr (s\<lparr>ds_open_attempts := os @ [i]\<rparr>)"
    using Cons.prems by (simp add: apply_record_def decode_id_end s Let_def)
  moreover have "replays_to (map (\<lambda>i. compacted e RT_AttemptBegin (le_encode 8 (id_value i))) is) t (c, st, os @ i # is)"
    if "essence t = (c, st, os @ [i])" for t
    using Cons.IH [OF that] Cons.prems by simp
  moreover have "essence (s\<lparr>ds_open_attempts := os @ [i]\<rparr>) = (c, st, os @ [i])"
    using Cons.prems(1) by (simp add: essence_def)
  ultimately show ?case by (simp add: replays_to_Cons)
qed

section \<open>The compacted journal\<close>

lemma apply_record_fields:
  "jr_type r = jr_type q \<Longrightarrow> jr_payload r = jr_payload q \<Longrightarrow> jr_epoch r = jr_epoch q \<Longrightarrow> apply_record r s = apply_record q s"
  by (cases "jr_type q") (simp_all add: apply_record_def)

lemma replay_list_fields:
  "list_all2 (\<lambda>r q. jr_type r = jr_type q \<and> jr_payload r = jr_payload q \<and> jr_epoch r = jr_epoch q) rs qs \<Longrightarrow>
     replay_list rs s = replay_list qs s"
proof (induction rs qs arbitrary: s rule: list_all2_induct)
  case (Cons r rs q qs)
  have "apply_record r s = apply_record q s" using Cons.hyps(1) by (intro apply_record_fields) simp_all
  then show ?case by (simp add: Cons.IH)
qed simp

text \<open>The records that \<open>compact\<close> writes.\<close>

definition compact_plan :: "DurableStore \<Rightarrow> (RecordType \<times> u8 list) list" where
  "compact_plan s =
     (let st = ds_state s
      in [(RT_Epoch, le_encode 8 (epoch_value (rs_epoch st)))] @
         (if rs_boot_recorded st then [(RT_Boot, boot_bytes (rs_incarnation st))] else []) @
         (if rs_has_policy st then [(RT_Policy, policy_encoding (rs_policy st))] else []) @
         (if rs_has_topology_binding st
          then [(RT_TopologyBinding, digest_bytes (rs_topology_digest st) @ le_encode 8 (gen_value (rs_topology_generation st)))]
          else []) @
         map (\<lambda>f. (RT_FencePut, fence_encoding f)) (rs_fences st) @
         map (\<lambda>r. (RT_Revalidation, kRevalidationRequest # le_encode 8 (id_value r))) (rs_revalidation_required st) @
         map (\<lambda>l. (RT_Lineage, digest_bytes l)) (rs_lineages st) @
         map (\<lambda>i. (RT_AttemptBegin, le_encode 8 (id_value i))) (ds_open_attempts s) @
         [(RT_Compaction, le_encode 8 (epoch_value (rs_epoch st)))])"

definition compact_records :: "DurableStore \<Rightarrow> JournalRecord list" where
  "compact_records s = map (\<lambda>(ty, p). compacted (rs_epoch (ds_state s)) ty p) (compact_plan s)"

lemma all_ok_map: "all_ok (map (\<lambda>x. Inr (f x)) xs) = Inr (map f xs)"
  by (induction xs) simp_all

lemma compact_plan_written:
  assumes "117 \<le> jl_max_record_bytes (dc_journal_limits (ds_config s))"
  shows "map (\<lambda>(type, payload). compact_record s type payload) (compact_payloads s) = map Inr (compact_records s)"
  using assms
  by (simp add: compact_payloads_def compact_records_def compact_plan_def compact_record_def compacted_def payload_u64 payload_op
      payload_digest payload_boot payload_binding serialize_policy_bytes serialize_fence_bytes Let_def)

lemma all_ok_Inr: "all_ok (map Inr xs) = Inr xs"
  by (induction xs) simp_all

text \<open>Replaying them on an empty store.\<close>

lemma replays_one: "apply_record r s = Inr t \<Longrightarrow> essence t = v \<Longrightarrow> replays_to [r] s v"
  by (rule replays_to_Cons, assumption) (rule replays_to_Nil, simp)

lemma replays_if: "(b \<Longrightarrow> replays_to rs s v) \<Longrightarrow> (\<not> b \<Longrightarrow> essence s = v) \<Longrightarrow> replays_to (if b then rs else []) s v"
  by (simp add: replays_to_Nil)

lemma replays_boot:
  assumes "essence s = (c, st, os)" and "b \<or> rs_boot st = rs_boot u \<and> rs_incarnation st = rs_incarnation u \<and> \<not> rs_boot_recorded st"
    and "b \<Longrightarrow> rs_boot u = inc_boot (rs_incarnation u)"
  shows "replays_to (if b then [compacted e RT_Boot (boot_bytes (rs_incarnation u))] else []) s
    (c, st\<lparr>rs_boot := rs_boot u, rs_incarnation := rs_incarnation u, rs_boot_recorded := b\<rparr>, os)"
proof (rule replays_if)
  assume b: b
  show "replays_to [compacted e RT_Boot (boot_bytes (rs_incarnation u))] s
    (c, st\<lparr>rs_boot := rs_boot u, rs_incarnation := rs_incarnation u, rs_boot_recorded := b\<rparr>, os)"
    by (rule replays_one [OF _ ]) (use b assms in \<open>auto simp: apply_record_def decode_boot essence_def Let_def\<close>)
next
  assume "\<not> b"
  with assms show "essence s = (c, st\<lparr>rs_boot := rs_boot u, rs_incarnation := rs_incarnation u, rs_boot_recorded := b\<rparr>, os)"
    by simp
qed

lemma replays_policy:
  assumes "essence s = (c, st, os)" and "b \<or> rs_policy st = rs_policy u \<and> \<not> rs_has_policy st"
    and "b \<Longrightarrow> status_ok (policy_validate (rs_policy u))"
  shows "replays_to (if b then [compacted e RT_Policy (policy_encoding (rs_policy u))] else []) s
    (c, st\<lparr>rs_policy := rs_policy u, rs_has_policy := b\<rparr>, os)"
proof (rule replays_if)
  assume b: b
  show "replays_to [compacted e RT_Policy (policy_encoding (rs_policy u))] s (c, st\<lparr>rs_policy := rs_policy u, rs_has_policy := b\<rparr>, os)"
    by (rule replays_one) (use b assms in \<open>auto simp: apply_record_def deserialize_policy_bytes essence_def Let_def\<close>)
next
  assume "\<not> b"
  with assms show "essence s = (c, st\<lparr>rs_policy := rs_policy u, rs_has_policy := b\<rparr>, os)" by simp
qed

lemma replays_topology:
  assumes "essence s = (c, st, os)"
    and "b \<or> rs_topology_digest st = rs_topology_digest u \<and> rs_topology_generation st = rs_topology_generation u \<and>
      \<not> rs_has_topology_binding st"
  shows "replays_to (if b then [compacted e RT_TopologyBinding (digest_bytes (rs_topology_digest u) @
      le_encode 8 (gen_value (rs_topology_generation u)))] else []) s
    (c, st\<lparr>rs_topology_digest := rs_topology_digest u, rs_topology_generation := rs_topology_generation u,
      rs_has_topology_binding := b\<rparr>, os)"
proof (rule replays_if)
  assume b: b
  show "replays_to [compacted e RT_TopologyBinding (digest_bytes (rs_topology_digest u) @
      le_encode 8 (gen_value (rs_topology_generation u)))] s (c, st\<lparr>rs_topology_digest := rs_topology_digest u,
      rs_topology_generation := rs_topology_generation u, rs_has_topology_binding := b\<rparr>, os)"
    by (rule replays_one) (use b assms in \<open>auto simp: apply_record_def decode_binding essence_def Let_def\<close>)
next
  assume "\<not> b"
  with assms show "essence s = (c, st\<lparr>rs_topology_digest := rs_topology_digest u,
      rs_topology_generation := rs_topology_generation u, rs_has_topology_binding := b\<rparr>, os)" by simp
qed

lemma replays_compact:
  assumes c: "content_ok s"
  shows "replays_to (compact_records s) (store_start (ds_config s) n j) (essence s)"
proof -
  define st where "st = ds_state s"
  define E0 where "E0 = essential recovered_state"
  define E1 where "E1 = E0\<lparr>rs_epoch := rs_epoch st\<rparr>"
  define E2 where "E2 = E1\<lparr>rs_boot := rs_boot st, rs_incarnation := rs_incarnation st, rs_boot_recorded := rs_boot_recorded st\<rparr>"
  define E3 where "E3 = E2\<lparr>rs_policy := rs_policy st, rs_has_policy := rs_has_policy st\<rparr>"
  define E4 where "E4 = E3\<lparr>rs_topology_digest := rs_topology_digest st, rs_topology_generation := rs_topology_generation st,
     rs_has_topology_binding := rs_has_topology_binding st\<rparr>"
  define E5 where "E5 = E4\<lparr>rs_fences := rs_fences st\<rparr>"
  define E6 where "E6 = E5\<lparr>rs_revalidation_required := rs_revalidation_required st\<rparr>"
  define E7 where "E7 = E6\<lparr>rs_lineages := rs_lineages st\<rparr>"
  note E = E7_def E6_def E5_def E4_def E3_def E2_def E1_def E0_def
  define os where "os = ds_open_attempts s"
  define c where "c = ds_config s"
  define R where "R = compacted (rs_epoch st)"
  have c: "content_ok s" "c = ds_config s" "st = ds_state s" "os = ds_open_attempts s"
    using c by (simp_all add: c_def st_def os_def)
  have empty: "rs_fences E4 = []" "rs_revalidation_required E5 = []" "rs_lineages E6 = []"
    by (simp_all add: E recovered_state_def)
  have final: "essential st = E7"
    by (cases st) (simp add: E essential_def durable_part_def recovered_state_def)
  have bits: "rs_boot_recorded E1 = False" "rs_has_policy E2 = False" "rs_has_topology_binding E3 = False"
      "rs_boot E1 = boot_from_raw 0 0" "rs_incarnation E1 = incarnation_none" "rs_policy E2 = policy_defaults"
      "rs_topology_digest E3 = digest_zero" "rs_topology_generation E3 = gen_unknown"
    by (simp_all add: E recovered_state_def essential_def durable_part_def)
  have ok: "distinct (rs_lineages st)" "length (rs_lineages st) \<le> max 1 (dc_max_lineages c)"
    "rs_has_topology_binding st \<or> rs_topology_digest st = digest_zero \<and> rs_topology_generation st = gen_unknown"
    "if rs_has_policy st then status_ok (policy_validate (rs_policy st)) else rs_policy st = policy_defaults"
    "if rs_boot_recorded st then rs_boot st = inc_boot (rs_incarnation st)
      else rs_boot st = boot_from_raw 0 0 \<and> rs_incarnation st = incarnation_none"
    using c(1) by (simp_all add: content_ok_def c Let_def)
  have split: "compact_records s = [R RT_Epoch (le_encode 8 (epoch_value (rs_epoch st)))] @
      (if rs_boot_recorded st then [R RT_Boot (boot_bytes (rs_incarnation st))] else []) @
      (if rs_has_policy st then [R RT_Policy (policy_encoding (rs_policy st))] else []) @
      (if rs_has_topology_binding st then [R RT_TopologyBinding (digest_bytes (rs_topology_digest st) @
         le_encode 8 (gen_value (rs_topology_generation st)))] else []) @
      map (\<lambda>f. R RT_FencePut (fence_encoding f)) (rs_fences st) @
      map (\<lambda>r. R RT_Revalidation (kRevalidationRequest # le_encode 8 (id_value r))) (rs_revalidation_required st) @
      map (\<lambda>l. R RT_Lineage (digest_bytes l)) (rs_lineages st) @
      map (\<lambda>i. R RT_AttemptBegin (le_encode 8 (id_value i))) os @
      [R RT_Compaction (le_encode 8 (epoch_value (rs_epoch st)))]"
    by (simp add: compact_records_def compact_plan_def R_def st_def os_def comp_def Let_def)
  have s1: "replays_to [R RT_Epoch (le_encode 8 (epoch_value (rs_epoch st)))] (store_start c n j) (c, E1, [])"
    by (rule replays_one) (auto simp: apply_record_def R_def E1_def E0_def essence_def store_start_def Let_def)
  have s8: "replays_to [R RT_Compaction (le_encode 8 (epoch_value (rs_epoch st)))] t (c, E7, os)"
    if "essence t = (c, E7, os)" for t
  proof (rule replays_one)
    show "apply_record (R RT_Compaction (le_encode 8 (epoch_value (rs_epoch st)))) t =
        Inr (t\<lparr>ds_state := (ds_state t)\<lparr>rs_previous_epoch := rs_epoch st\<rparr>\<rparr>)"
      by (simp add: apply_record_def R_def decode_def byte_reader_at reads epoch_from_raw_def Let_def)
    show "essence (t\<lparr>ds_state := (ds_state t)\<lparr>rs_previous_epoch := rs_epoch st\<rparr>\<rparr>) = (c, E7, os)"
      using that by (simp add: essence_def)
  qed
  have s7: "replays_to (map (\<lambda>i. R RT_AttemptBegin (le_encode 8 (id_value i))) os) t (c, E7, os)"
    if "essence t = (c, E7, [])" for t
    using replays_attempts [OF that, of os "rs_epoch st"] content_attempts(1) [OF c(1)] by (simp add: R_def c(4))
  have s6: "replays_to (map (\<lambda>l. R RT_Lineage (digest_bytes l)) (rs_lineages st)) t (c, E7, [])"
    if "essence t = (c, E6, [])" for t
    using replays_lineages [OF that, of "rs_lineages st" "rs_epoch st"] ok(1,2) by (simp add: R_def E7_def empty)
  have s5: "replays_to (map (\<lambda>r. R RT_Revalidation (kRevalidationRequest # le_encode 8 (id_value r))) (rs_revalidation_required st))
      t (c, E6, [])" if "essence t = (c, E5, [])" for t
    using replays_requests [OF that, of "rs_revalidation_required st" "rs_epoch st"] content_rr [OF c(1)]
    by (simp add: R_def E6_def empty rr_ok_def c)
  have s4: "replays_to (map (\<lambda>f. R RT_FencePut (fence_encoding f)) (rs_fences st)) t (c, E5, [])"
    if "essence t = (c, E4, [])" for t
    using replays_fences [OF that, of "rs_fences st" "rs_epoch st"] content_fences(1) [OF c(1)] by (simp add: R_def E5_def empty c)
  have s3: "replays_to (if rs_has_topology_binding st then [R RT_TopologyBinding (digest_bytes (rs_topology_digest st) @
         le_encode 8 (gen_value (rs_topology_generation st)))] else []) t (c, E4, [])"
    if "essence t = (c, E3, [])" for t
    unfolding R_def E4_def by (rule replays_topology [OF that]) (use ok(3) bits in auto)
  have s2: "replays_to (if rs_has_policy st then [R RT_Policy (policy_encoding (rs_policy st))] else []) t (c, E3, [])"
    if "essence t = (c, E2, [])" for t
    unfolding R_def E3_def by (rule replays_policy [OF that]) (use ok(4) bits in \<open>auto split: if_splits\<close>)
  have sb: "replays_to (if rs_boot_recorded st then [R RT_Boot (boot_bytes (rs_incarnation st))] else []) t (c, E2, [])"
    if "essence t = (c, E1, [])" for t
    unfolding R_def E2_def by (rule replays_boot [OF that]) (use ok(5) bits in \<open>auto split: if_splits\<close>)
  have v: "essence s = (c, E7, os)" using final by (simp add: essence_def c)
  show ?thesis
    unfolding split v c(2) [symmetric]
    by (rule replays_to_append [OF s1], erule sb [THEN replays_to_append], erule s2 [THEN replays_to_append],
        erule s3 [THEN replays_to_append], erule s4 [THEN replays_to_append], erule s5 [THEN replays_to_append],
        erule s6 [THEN replays_to_append], erule s7 [THEN replays_to_append], erule s8)
qed

lemma rechain_list: "list_all2 (\<lambda>r q. jr_type r = jr_type q \<and> jr_payload r = jr_payload q \<and> jr_epoch r = jr_epoch q)
    (rechain p q rs) rs"
  by (induction p q rs rule: rechain.induct) (simp_all add: Let_def)

lemma compact_result:
  assumes inv: "store_inv s" and tape: "file_tape (jn_file (ds_journal s)) = []"
    and total: "payload_total (compact_records s) \<le> jl_max_retained_bytes (dc_journal_limits (ds_config s))"
    and c: "compact s = (e, s')" "status_ok e"
  obtains j where "journal_inv j" "jn_limits j = dc_journal_limits (ds_config s)"
    "jn_records j = rechain digest_zero 0 (compact_records s)" "file_durable (jn_file j) = length (image (jn_records j))"
    "ds_journal s' = j" "ds_config s' = ds_config s" "essence s' = essence s"
proof -
  have cfg: "117 \<le> jl_max_record_bytes (dc_journal_limits (ds_config s))" "limits_ok (jn_limits (ds_journal s))"
      "jn_limits (ds_journal s) = dc_journal_limits (ds_config s)"
    using inv by (simp_all add: store_inv_def config_ok_def kMaxJournalPayload_def)
  have types: "\<forall>r \<in> set (compact_records s). jr_type r \<noteq> RT_Count"
    by (auto simp: compact_records_def compact_plan_def Let_def split: if_splits)
  obtain e1 j where j: "journal_rewrite (compact_records s) (ds_journal s) = (e1, j)"
    by (cases "journal_rewrite (compact_records s) (ds_journal s)")
  have "all_ok (map (\<lambda>(type, payload). compact_record s type payload) (compact_payloads s)) = Inr (compact_records s)"
    by (simp only: compact_plan_written [OF cfg(1)] all_ok_Inr)
  with c j have ok: "status_ok e1"
    and s': "s' = upd_state (\<lambda>st. st\<lparr>rs_records_replayed := of_nat (length (jn_records j))\<rparr>) (s\<lparr>ds_journal := j\<rparr>)"
    by (auto simp: compact_def on_journal_def try_state_def split: if_splits)
  from rewrite_result [OF cfg(2) tape types _ j ok] total cfg(3) s' show thesis
    by (intro that [of j]) (simp_all add: essence_def)
qed

text \<open>A crash right after a compaction.\<close>

lemma compact_restart:
  assumes inv: "store_inv s" and tape: "file_tape (jn_file (ds_journal s)) = []"
    and total: "payload_total (compact_records s) \<le> jl_max_retained_bytes (dc_journal_limits (ds_config s))"
    and c: "compact s = (e, s')" "status_ok e" and dir: "directory_ready dir"
  shows "\<exists>t. store_open (ds_config s) dir ((crash k (jn_file (ds_journal s')))\<lparr>file_tape := []\<rparr>) = (Inr t, jn_file (ds_journal t)) \<and>
    store_inv t \<and> essence t = essence s \<and> essence s' = essence s"
proof -
  let ?rs = "rechain digest_zero 0 (compact_records s)"
  obtain j where j: "journal_inv j" "jn_limits j = dc_journal_limits (ds_config s)" "jn_records j = ?rs"
    "file_durable (jn_file j) = length (image (jn_records j))" "ds_journal s' = j" "ds_config s' = ds_config s"
    "essence s' = essence s"
    by (rule compact_result [OF inv tape total c])
  have "32 \<le> max k (file_durable (jn_file j))" using j(4) by (simp add: length_image)
  from crash_reopens [OF j(1) this, of True] obtain j' m where j': "journal_open (dc_journal_limits (ds_config s)) True
      ((crash k (jn_file j))\<lparr>file_tape := []\<rparr>) = (Inr j', jn_file j')" "jn_records j' = take m (jn_records j)"
      "journal_inv j'" "jn_limits j' = dc_journal_limits (ds_config s)"
    and m: "\<And>n. n \<le> length (jn_records j) \<Longrightarrow> length (image (take n (jn_records j))) \<le> file_durable (jn_file j) \<Longrightarrow> n \<le> m"
    unfolding j(2) by blast
  have "jn_records j' = ?rs" using j'(2) m [of "length (jn_records j)"] j(3,4) by simp
  moreover obtain u where u: "replay_list ?rs (store_start (ds_config s) 0 j) = Inr u" "essence u = essence s"
    using replays_compact [OF store_content [OF inv], of 0 j] replay_list_fields [OF rechain_list]
    by (auto simp: replays_to_def)
  ultimately have "replayed (ds_config s) (jn_records j') = Inr (view_of u)"
    by (subst replayed_start [of _ _ 0 j, symmetric]) simp
  from store_open_replays [OF _ dir j'(1) refl j'(3,4) this] inv [unfolded store_inv_def] obtain t where
    t: "store_open (ds_config s) dir ((crash k (jn_file j))\<lparr>file_tape := []\<rparr>) = (Inr t, jn_file j')"
      "store_inv t" "view_of t = view_of u" "ds_journal t = j'"
    by blast
  have "essence t = essence u"
    using t(3) by (auto simp: view_of_eq same_view_def durable_view_def essence_def essential_def)
  with t u(2) j(5,7) show ?thesis by auto
qed

end
