(* ===== verification/Store_Demo.thy ===== *)
theory Store_Demo
  imports Compaction
begin

text \<open>
  Progress: with room in the journal and no failing call, the journal and the store accept what
  they are given. A small store on a fresh directory, for the witnesses.
\<close>

section \<open>Progress\<close>

definition has_room :: "nat \<Rightarrow> Journal \<Rightarrow> bool" where
  "has_room n j \<longleftrightarrow>
     n \<le> jl_max_record_bytes (jn_limits j) \<and> length (jn_records j) < jl_max_records (jn_limits j) \<and>
     jn_file_bytes j + (kRecordHeaderBytes + n) \<le> jl_max_file_bytes (jn_limits j) \<and>
     jn_retained_bytes j + n \<le> jl_max_retained_bytes (jn_limits j)"

lemma append_succeeds:
  assumes "jn_handle j" and "has_room (length payload) j" and "file_tape (jn_file j) = []" and "type \<noteq> RT_Count"
  shows "\<exists>j'. journal_append type tick epoch payload j = (status_success, j') \<and> file_tape (jn_file j') = [] \<and>
    jn_handle j' \<and> jn_limits j' = jn_limits j \<and> (\<exists>r. jn_records j' = jn_records j @ [r] \<and> jr_payload r = payload) \<and>
    jn_file_bytes j' = jn_file_bytes j + (kRecordHeaderBytes + length payload) \<and>
    jn_retained_bytes j' = jn_retained_bytes j + length payload"
  using assms
  by (simp add: journal_append_def has_room_def not_less not_le on_file_def fwrite_def Let_def)

lemma sync_succeeds:
  assumes "jn_handle j" and "file_tape (jn_file j) = []"
  shows "\<exists>f. journal_sync j = (status_success, j\<lparr>jn_file := f\<rparr>) \<and> file_tape f = []"
  using assms
  by (intro exI [of _ "(jn_file j)\<lparr>file_durable := length (file_contents (jn_file j))\<rparr>"])
    (simp add: journal_sync_def on_file_def sync_handle_def Let_def)

text \<open>A store with the default limits and a short journal.\<close>

definition roomy :: "nat \<Rightarrow> DurableStore \<Rightarrow> bool" where
  "roomy n s \<longleftrightarrow>
     store_inv s \<and> file_tape (jn_file (ds_journal s)) = [] \<and> dc_journal_limits (ds_config s) = journal_limits \<and>
     length (jn_records (ds_journal s)) \<le> n \<and> payload_total (jn_records (ds_journal s)) \<le> n"

lemma roomy_has_room: "roomy n s \<Longrightarrow> n \<le> 1000 \<Longrightarrow> k \<le> 4096 \<Longrightarrow> has_room k (ds_journal s) \<and> jn_handle (ds_journal s)"
  by (simp add: roomy_def has_room_def store_inv_def journal_inv_def journal_mem_def journal_limits_def length_image length_body
      kRecordHeaderBytes_def)

lemma persist_succeeds:
  assumes s: "roomy n s" and n: "n \<le> 1000" and p: "length payload \<le> 100" "type \<noteq> RT_Count"
  shows "\<exists>j. persist type now epoch payload s k = k (s\<lparr>ds_journal := j\<rparr>) \<and> file_tape (jn_file j) = [] \<and>
    length (jn_records j) = Suc (length (jn_records (ds_journal s))) \<and>
    payload_total (jn_records j) = payload_total (jn_records (ds_journal s)) + length payload"
proof -
  obtain j1 where j1: "journal_append type now epoch payload (ds_journal s) = (status_success, j1)" "file_tape (jn_file j1) = []"
      "jn_handle j1" "\<exists>r. jn_records j1 = jn_records (ds_journal s) @ [r] \<and> jr_payload r = payload"
    using append_succeeds [of "ds_journal s" payload type now epoch] roomy_has_room [OF s n, of "length payload"] s p
    by (auto simp: roomy_def)
  obtain f where f: "journal_sync j1 = (status_success, j1\<lparr>jn_file := f\<rparr>)" "file_tape f = []"
    using sync_succeeds [OF j1(3,2)] by blast
  show ?thesis
    using j1 f by (intro exI [of _ "j1\<lparr>jn_file := f\<rparr>"]) (auto simp: persist_def on_journal_def try_state_def)
qed

lemma rewrite_image_fits:
  "length buffer + length (body (rechain p s rs)) \<le> jl_max_file_bytes lim \<Longrightarrow>
     \<forall>r \<in> set rs. length (jr_payload r) \<le> jl_max_record_bytes lim \<Longrightarrow>
     rewrite_image lim p s rs buffer = Inr (buffer @ body (rechain p s rs))"
  by (induction lim p s rs buffer rule: rewrite_image.induct) (simp_all add: Let_def)

lemma rewrite_succeeds:
  assumes lim: "limits_ok (jn_limits j)" and tape: "file_tape (jn_file j) = []"
    and types: "\<forall>r \<in> set rs. jr_type r \<noteq> RT_Count"
    and fit: "records_fit (jn_limits j) rs" "length (image (rechain digest_zero 0 rs)) \<le> jl_max_file_bytes (jn_limits j)"
  shows "status_ok (fst (journal_rewrite rs j))"
proof -
  let ?rs = "rechain digest_zero 0 rs" and ?lim = "jn_limits j"
  have b: "rewrite_image ?lim digest_zero 0 rs journal_header = Inr (image ?rs)"
    unfolding image_def using fit by (intro rewrite_image_fits) (simp_all add: image_def records_fit_def)
  have "map (\<lambda>r. length (jr_payload r)) ?rs = map (\<lambda>r. length (jr_payload r)) rs"
    using arg_cong [OF rechain_fields(3) [of digest_zero 0 rs], of "map length"] by (simp add: comp_def)
  then have "set (map (\<lambda>r. length (jr_payload r)) ?rs) = set (map (\<lambda>r. length (jr_payload r)) rs)"
      "payload_total ?rs = payload_total rs" by (simp_all add: payload_total_def)
  moreover from this(1) have "length (jr_payload r) \<in> (\<lambda>r. length (jr_payload r)) ` set rs" if "r \<in> set ?rs" for r
    using that by (metis imageI list.set_map)
  ultimately have wc: "well_chained ?lim ?rs"
    using rechain_valid [OF types, of digest_zero 0] fit(1)
    by (fastforce simp: well_chained_def records_fit_def rechain_fields)
  let ?f = "(jn_file j)\<lparr>file_bytes := Some (image ?rs), file_durable := length (image ?rs)\<rparr>"
  have w: "write_file_atomic (image ?rs) (jn_file j) = (status_success, ?f)"
    using tape by (simp add: write_file_atomic_def)
  have reset: "j\<lparr>jn_handle := False, jn_records := [], jn_stats := journal_stats, jn_retained_bytes := 0,
      jn_file_bytes := 0, jn_file := f\<rparr> = journal_closed ?lim f" for f
    by (simp add: journal_closed_def)
  obtain s j' where r: "try_state (open_handle (journal_closed ?lim ?f)) replay_file = (s, j')" by (rule prod.exhaust)
  have "\<not> isl (fst (journal_open ?lim True ?f))"
    using journal_open_image [OF lim, of ?f ?rs "[]" True] wc tape by auto
  then have "status_ok s" using open_then_replay(2) [OF lim _ r, of True] by auto
  then show ?thesis using fit(1) r by (simp add: journal_rewrite_def b on_file_def w reset records_fit_def)
qed

section \<open>A fresh store\<close>

lemma store_open_fresh:
  assumes "config_ok config" and "directory_ready dir" and "file_bytes f = None" and "file_tape f = []"
  shows "\<exists>t. store_open config dir f = (Inr t, jn_file (ds_journal t)) \<and> store_inv t \<and>
    jn_records (ds_journal t) = [] \<and> file_tape (jn_file (ds_journal t)) = [] \<and>
    durable_view t = (config, durable_part recovered_state, [])"
proof -
  obtain j where j: "journal_open (dc_journal_limits config) True f = (Inr j, jn_file j)" "jn_records j = []"
      "jn_limits j = dc_journal_limits config" "journal_inv j" "file_tape (jn_file j) = []"
    using journal_open_fresh [of "dc_journal_limits config" f] assms by (auto simp: config_ok_def)
  have "replayed config (jn_records j) = Inr (view_of (store_start config 0 j))"
    by (subst replayed_start [of _ _ 0 j, symmetric]) (simp add: j(2))
  from store_open_replays [OF assms(1,2) j(1) refl j(4,3) this] obtain t where
    t: "store_open config dir f = (Inr t, jn_file j)" "store_inv t" "view_of t = view_of (store_start config 0 j)"
      "ds_journal t = j" by blast
  moreover have "durable_view t = (config, durable_part recovered_state, [])"
    using t(3) by (simp add: view_of_eq same_view_def) (simp add: durable_view_def store_start_def)
  ultimately show ?thesis using j by blast
qed

definition demo_config :: DurableConfig where
  "demo_config = \<lparr>dc_directory = ''/var/fabric'', dc_journal_name = ''fabric.bpfj'', dc_journal_limits = journal_limits,
     dc_max_lineages = 4, dc_max_footprint_entries = 4\<rparr>"

definition demo_directory :: StoreDirectory where
  "demo_directory = \<lparr>sd_directory = status_success, sd_stale_files = 0, sd_lock = status_success\<rparr>"

definition no_file :: JournalFile where
  "no_file = \<lparr>file_bytes = None, file_durable = 0, file_tape = []\<rparr>"

lemma demo_ready: "config_ok demo_config" "directory_ready demo_directory"
  by (simp_all add: config_ok_def demo_config_def limits_ok_def journal_limits_def kMaxJournalPayload_def kHeaderBytes_def
      directory_ready_def demo_directory_def)

text \<open>A store with an established epoch, ready for work.\<close>

definition working :: "DurableStore \<Rightarrow> bool" where
  "working s \<longleftrightarrow> roomy 100 s \<and> synced s \<and> store_epoch_known s \<and> ds_config s = demo_config \<and>
     rs_revalidation_required (ds_state s) = [] \<and>
     compact_plan s = [(RT_Epoch, le_encode 8 (1 :: u64)), (RT_Compaction, le_encode 8 (1 :: u64))]"

lemma working_exists: "\<exists>s0 s. store_open demo_config demo_directory no_file = (Inr s0, jn_file (ds_journal s0)) \<and>
    establish_epoch 1 s0 = (status_success, s) \<and> working s"
proof -
  obtain s0 where s0: "store_open demo_config demo_directory no_file = (Inr s0, jn_file (ds_journal s0))" "store_inv s0"
    "jn_records (ds_journal s0) = []" "file_tape (jn_file (ds_journal s0)) = []"
    "durable_view s0 = (demo_config, durable_part recovered_state, [])"
    using store_open_fresh [OF demo_ready, of no_file] by (auto simp: no_file_def)
  have c: "ds_config s0 = demo_config" "durable_part (ds_state s0) = durable_part recovered_state"
    using s0(5) by (simp_all add: durable_view_def)
  have e: "rs_epoch (ds_state s0) = epoch_none" "rs_revalidation_required (ds_state s0) = []"
    using arg_cong [OF c(2), of rs_epoch] arg_cong [OF c(2), of rs_revalidation_required] by (simp_all add: recovered_state_def)
  have r: "roomy 0 s0" using s0 c by (simp add: roomy_def demo_config_def)
  let ?k = "\<lambda>s2. (status_success, upd_state (\<lambda>st. st\<lparr>rs_previous_epoch := rs_epoch st, rs_epoch := Epoch 1\<rparr>) s2)"
  obtain j where j: "persist RT_Epoch 1 (Epoch 1) (le_encode 8 (1 :: u64)) s0 ?k = ?k (s0\<lparr>ds_journal := j\<rparr>)"
      "file_tape (jn_file j) = []" "length (jn_records j) = 1" "payload_total (jn_records j) = 8"
    using persist_succeeds [OF r, of "le_encode 8 (1 :: u64)" RT_Epoch 1 "Epoch 1" ?k] s0(3) by auto
  define s where "s = snd (?k (s0\<lparr>ds_journal := j\<rparr>))"
  have run: "establish_epoch 1 s0 = (status_success, s)"
    using j(1) e by (simp add: establish_epoch_def store_epoch_known_def epoch_known_def epoch_none_def epoch_kNone_def payload_u64 s_def)
  have "store_inv s" using establishing.op_inv [OF TrueI s0(2) run] by simp
  moreover have "synced s"
  proof -
    have "ds_journal s \<noteq> ds_journal s0" using j(3) s0(3) by (auto simp: s_def)
    then show ?thesis using establishing.op_syncs [OF TrueI s0(2) run] by auto
  qed
  moreover have "compact_plan s = [(RT_Epoch, le_encode 8 (1 :: u64)), (RT_Compaction, le_encode 8 (1 :: u64))]"
    using c(2) s0(5)
    by (cases "ds_state s0")
      (simp add: compact_plan_def s_def durable_view_def durable_part_def recovered_state_def Let_def)
  ultimately have "working s"
    using j c e by (simp add: working_def roomy_def s_def store_epoch_known_def epoch_known_def epoch_kNone_def demo_config_def)
  with s0(1) run show ?thesis by blast
qed

lemma working_request:
  assumes "working s" and "id_valid r"
  shows "\<exists>s'. request_revalidation r now s = (status_success, s') \<and> synced s' \<and> store_inv s' \<and>
    rs_revalidation_required (ds_state s') = [r]"
proof -
  have s: "roomy 100 s" "store_inv s" "store_epoch_known s" "ds_config s = demo_config" "rs_revalidation_required (ds_state s) = []"
    using assms unfolding working_def roomy_def by blast+
  let ?p = "kRevalidationRequest # le_encode 8 (id_value r)"
  let ?k = "\<lambda>s2. let rs = rs_revalidation_required (ds_state s2)
          in if r \<in> set rs then (status_success, s2)
             else if length rs \<ge> dc_max_footprint_entries (ds_config s2) then
               (status_error LimitExceeded ''revalidation footprint'' (of_nat (length rs)),
                upd_state (\<lambda>st. st\<lparr>rs_footprint_overflow := rs_footprint_overflow st + 1\<rparr>) s2)
             else (status_success, upd_state (\<lambda>st. st\<lparr>rs_revalidation_required := rs @ [r]\<rparr>) s2)"
  obtain j where j: "persist RT_Revalidation now (rs_epoch (ds_state s)) ?p s ?k = ?k (s\<lparr>ds_journal := j\<rparr>)"
    using persist_succeeds [OF s(1), of ?p RT_Revalidation now "rs_epoch (ds_state s)" ?k] by auto
  have "request_revalidation r now s = persist RT_Revalidation now (rs_epoch (ds_state s)) ?p s ?k"
    using assms(2) s(3) by (simp add: request_revalidation_def payload_op)
  also have "\<dots> = (status_success, upd_state (\<lambda>st. st\<lparr>rs_revalidation_required := [r]\<rparr>) (s\<lparr>ds_journal := j\<rparr>))"
    unfolding j using s(4,5) by (simp add: demo_config_def)
  finally obtain s' where s': "request_revalidation r now s = (status_success, s')" "rs_revalidation_required (ds_state s') = [r]"
    by (rule that) simp
  have "synced s'"
    using requesting.op_syncs [OF TrueI s(2) s'(1)] s(5) s'(2) by auto
  with s' requesting.op_inv [OF TrueI s(2) s'(1)] show ?thesis by auto
qed

lemma working_compact:
  assumes "working s"
  shows "status_ok (fst (compact s)) \<and> store_inv s \<and> file_tape (jn_file (ds_journal s)) = [] \<and> ds_config s = demo_config \<and>
    payload_total (compact_records s) \<le> jl_max_retained_bytes (dc_journal_limits (ds_config s))"
proof -
  have s: "store_inv s" "file_tape (jn_file (ds_journal s)) = []" "ds_config s = demo_config"
      "dc_journal_limits (ds_config s) = journal_limits"
      "compact_plan s = [(RT_Epoch, le_encode 8 (1 :: u64)), (RT_Compaction, le_encode 8 (1 :: u64))]"
    using assms unfolding working_def roomy_def by blast+
  then have l: "jn_limits (ds_journal s) = journal_limits" by (simp add: store_inv_def)
  let ?a = "compacted (rs_epoch (ds_state s)) RT_Epoch (le_encode 8 (1 :: u64))"
  let ?b = "compacted (rs_epoch (ds_state s)) RT_Compaction (le_encode 8 (1 :: u64))"
  have r: "compact_records s = [?a, ?b]" by (simp add: compact_records_def s(5))
  have lim: "limits_ok journal_limits" by (simp add: limits_ok_def journal_limits_def kHeaderBytes_def)
  have "status_ok (fst (journal_rewrite (compact_records s) (ds_journal s)))"
    using lim s(2)
    by (intro rewrite_succeeds)
      (simp_all add: r l records_fit_def journal_limits_def length_image length_body Let_def)
  moreover have "all_ok (map (\<lambda>(type, payload). compact_record s type payload) (compact_payloads s)) = Inr (compact_records s)"
    by (subst compact_plan_written) (simp_all add: all_ok_Inr s(4) journal_limits_def)
  ultimately have "status_ok (fst (compact s))" by (simp add: compact_def)
  with s r show ?thesis by (simp add: journal_limits_def)
qed

end
