(* ===== verification/Properties_Store.thy ===== *)
theory Properties_Store
  imports Store_Demo Demo
begin

text \<open>
  The properties of the journal, the durable store and its compaction, each with a witness.
\<close>

section \<open>The journal\<close>

text \<open>
  C35. Opening a journal never gives a malformed one. Whatever bytes the file holds and
  whichever calls fail, a journal that opens has a chain of records numbered from one, each
  bound by its digest to the one before, within all limits, and its counters agree with them.
\<close>

theorem journal_open_well_formed:
  assumes "journal_open lim create f = (Inr j, f')" and "jl_max_record_bytes lim < 2 ^ 32"
  shows "jn_handle j \<and> jn_limits j = lim \<and> f' = jn_file j \<and>
    valid_chain digest_zero 0 (jn_records j) \<and> records_fit lim (jn_records j) \<and>
    jn_retained_bytes j = payload_total (jn_records j) \<and> jn_file_bytes j = length (image (jn_records j)) \<and>
    js_sequence (jn_stats j) = of_nat (length (jn_records j)) \<and>
    js_chain (jn_stats j) = end_chain digest_zero (jn_records j)"
  using journal_open_sound [OF assms] by (auto simp: journal_mem_def well_chained_def)

theorem journal_open_well_formed_witness:
  "\<exists>j. journal_open journal_limits True no_file = (Inr j, jn_file j) \<and> valid_chain digest_zero 0 (jn_records j) \<and>
     jn_file_bytes j = 32 + length (body (jn_records j))"
proof -
  have lim: "limits_ok journal_limits" by (simp add: limits_ok_def journal_limits_def kHeaderBytes_def)
  obtain j where j: "journal_open journal_limits True no_file = (Inr j, jn_file j)"
    using journal_open_fresh [OF lim, of no_file] by (auto simp: no_file_def)
  have "jl_max_record_bytes journal_limits < 2 ^ 32" by (simp add: journal_limits_def)
  from journal_open_well_formed [OF j this] j show ?thesis by (auto simp: length_image)
qed



text \<open>
  C18. A damaged record is never replayed. When one byte of a record's checksummed header
  fields or of its payload differs from what was written, opening gives exactly the records
  before it, and repairs the file by cutting it there.
\<close>

theorem journal_damage_detected:
  assumes "limits_ok lim" and "well_chained lim rs" and "length (jr_payload r) < 2 ^ 32"
    and "record_fields r @ jr_payload r = xs @ b # ys" and "b' \<noteq> b"
    and "file_bytes f = Some (image rs @ le_encode 4 (of_nat (length (jr_payload r)) :: u32) @
      le_encode 4 (crc32_update (crc32 (record_fields r)) (jr_payload r)) @ (xs @ b' # ys) @ rest)"
    and "file_tape f = []" and "file_durable f \<le> length (image rs)"
  shows "\<exists>j. journal_open lim create f = (Inr j, jn_file j) \<and> jn_records j = rs \<and> js_repaired (jn_stats j) \<and>
    file_bytes (jn_file j) = Some (image rs)"
proof -
  let ?tail = "le_encode 4 (of_nat (length (jr_payload r)) :: u32) @
      le_encode 4 (crc32_update (crc32 (record_fields r)) (jr_payload r)) @ (xs @ b' # ys) @ rest"
  have "next_record lim rs (end_chain digest_zero rs) ?tail = None"
    by (rule next_record_damaged [OF assms(4,5,3)])
  moreover have "?tail \<noteq> []" by simp
  ultimately show ?thesis
    using journal_open_image [OF assms(1,6,7,2), of create] assms(8) by (auto simp: journal_inv_def)
qed

theorem journal_damage_detected_witness:
  "\<exists>j. journal_open journal_limits True \<lparr>file_bytes = Some (image [] @ le_encode 4 (0 :: u32) @
      le_encode 4 (crc32_update (crc32 (record_fields journal_record)) []) @
      (hd (record_fields journal_record) + 1) # tl (record_fields journal_record)), file_durable = 0, file_tape = []\<rparr> =
      (Inr j, jn_file j) \<and> jn_records j = []"
proof -
  let ?f = "\<lparr>file_bytes = Some (image [] @ le_encode 4 (0 :: u32) @
      le_encode 4 (crc32_update (crc32 (record_fields journal_record)) []) @
      (hd (record_fields journal_record) + 1) # tl (record_fields journal_record)), file_durable = 0, file_tape = []\<rparr>"
  have ne: "record_fields journal_record \<noteq> []" using length_record_fields [of journal_record] by fastforce
  have "\<exists>j. journal_open journal_limits True ?f = (Inr j, jn_file j) \<and> jn_records j = [] \<and> js_repaired (jn_stats j) \<and>
      file_bytes (jn_file j) = Some (image [])"
    by (rule journal_damage_detected [where r = journal_record and xs = "[]" and b = "hd (record_fields journal_record)"
          and ys = "tl (record_fields journal_record)" and b' = "hd (record_fields journal_record) + 1" and rest = "[]"])
      (use ne in \<open>simp_all add: limits_ok_def journal_limits_def kHeaderBytes_def journal_record_def\<close>)
  then show ?thesis by blast
qed

text \<open>
  Repair is idempotent. Opening a file of any bytes changes it at most by cutting its
  tail, and opening the result again gives the same records, cuts nothing and reports no
  repair.
\<close>

theorem journal_repair_idempotent:
  assumes "limits_ok lim" and "file_bytes f = Some bs" and "file_tape f = []"
    and "journal_open lim create f = (Inr j, f')"
  shows "\<exists>j2. journal_open lim create2 f' = (Inr j2, jn_file j2) \<and> jn_records j2 = jn_records j \<and>
    file_bytes (jn_file j2) = file_bytes f' \<and> \<not> js_repaired (jn_stats j2) \<and> (\<exists>n. file_bytes f' = Some (take n bs))"
  using assms by (rule reopen_same)

theorem journal_repair_idempotent_witness:
  "\<exists>j j2. journal_open journal_limits True \<lparr>file_bytes = Some (image [] @ [65]), file_durable = 0, file_tape = []\<rparr> =
      (Inr j, jn_file j) \<and> js_repaired (jn_stats j) \<and>
    journal_open journal_limits True (jn_file j) = (Inr j2, jn_file j2) \<and> \<not> js_repaired (jn_stats j2) \<and>
    jn_records j2 = []"
proof -
  have lim: "limits_ok journal_limits" by (simp add: limits_ok_def journal_limits_def kHeaderBytes_def)
  let ?f = "\<lparr>file_bytes = Some (image [] @ [65]), file_durable = 0, file_tape = []\<rparr>"
  obtain j where j: "journal_open journal_limits True ?f = (Inr j, jn_file j)" "jn_records j = []" "js_repaired (jn_stats j)"
    using journal_open_image [OF lim, of ?f "[]" "[65]" True] by (auto simp: next_record_def kRecordHeaderBytes_def Let_def)
  from journal_repair_idempotent [OF lim _ _ j(1), of "image [] @ [65]" True] j show ?thesis by auto
qed

text \<open>
  C36. Progress of the journal. On an open journal with room for the record, an append and the
  sync after it succeed when no call fails, and make the record durable.
\<close>

theorem journal_progress:
  assumes "journal_inv j" and "has_room (length payload) j" and "file_tape (jn_file j) = []" and "type \<noteq> RT_Count"
  shows "\<exists>j1 j2 r. journal_append type tick epoch payload j = (status_success, j1) \<and>
    journal_sync j1 = (status_success, j2) \<and> jn_records j2 = jn_records j @ [r] \<and> jr_payload r = payload \<and>
    file_durable (jn_file j2) = length (image (jn_records j2))"
proof -
  have "jn_handle j" using assms(1) by (simp add: journal_inv_def journal_mem_def)
  from append_succeeds [OF this assms(2-4), of tick epoch] obtain j1 r where
    j1: "journal_append type tick epoch payload j = (status_success, j1)" "file_tape (jn_file j1) = []" "jn_handle j1"
      "jn_records j1 = jn_records j @ [r]" "jr_payload r = payload" by blast
  obtain j2 where j2: "journal_sync j1 = (status_success, j2)" using sync_succeeds [OF j1(3,2)] by blast
  have "journal_inv j1" using journal_append_inv [OF j1(1) _ assms(1)] by simp
  from journal_sync_inv [OF j2 _ this] journal_sync_ok [OF j2] j1 j2 show ?thesis by auto
qed

theorem journal_progress_witness:
  "\<exists>j j1 j2. journal_open journal_limits True no_file = (Inr j, jn_file j) \<and>
     journal_append RT_Lineage 5 (Epoch 1) [7, 8] j = (status_success, j1) \<and> journal_sync j1 = (status_success, j2) \<and>
     file_durable (jn_file j2) = length (image (jn_records j2))"
proof -
  have lim: "limits_ok journal_limits" by (simp add: limits_ok_def journal_limits_def kHeaderBytes_def)
  obtain j where j: "journal_open journal_limits True no_file = (Inr j, jn_file j)" "jn_records j = []"
      "jn_limits j = journal_limits" "journal_inv j" "file_tape (jn_file j) = []"
    using journal_open_fresh [OF lim, of no_file] by (auto simp: no_file_def)
  have "has_room (length [7, 8 :: u8]) j"
    using j by (simp add: has_room_def journal_inv_def journal_mem_def journal_limits_def length_image kRecordHeaderBytes_def)
  from journal_progress [OF j(4) this j(5), of RT_Lineage 5 "Epoch 1"] j(1) show ?thesis by auto
qed

section \<open>The durable store\<close>







text \<open>
  C37. Policies and fences survive their serialisation: what validates is written within the
  bounds and read back equal.
\<close>

theorem durable_records_roundtrip:
  assumes "status_ok (policy_validate p)" and "status_ok (fence_validate f)" and "117 \<le> cap"
  shows "bpfab_try_decl (serialize_policy p cap) deserialize_policy = Inr p \<and>
    bpfab_try_decl (serialize_fence f) deserialize_fence = Inr f"
  using assms by (simp add: serialize_policy_bytes deserialize_policy_bytes serialize_fence_bytes deserialize_fence_bytes)

theorem durable_records_roundtrip_witness:
  "bpfab_try_decl (serialize_policy demo_policy 4096) deserialize_policy = Inr demo_policy \<and>
   bpfab_try_decl (serialize_fence demo_fence) deserialize_fence = Inr demo_fence"
proof (rule durable_records_roundtrip)
  show "status_ok (policy_validate demo_policy)" by code_simp
  show "status_ok (fence_validate demo_fence)" by code_simp
qed simp

end
