(* ===== verification/Frame.thy ===== *)
theory Frame
  imports Journal
begin

text \<open>
  The framed transport: \<open>include/backpressure/ipc/frame.hpp\<close> and \<open>src/ipc/frame.cpp\<close>.

  A frame is a header of twenty bytes (magic, version, type, flags, length and checksum of the
  payload, little endian) and the payload. A connection is a record of what the socket will
  still deliver, what was sent through it, and a tape with the outcomes of the coming \<open>send\<close>
  and \<open>recv\<close> calls: a call may move fewer bytes than asked, be interrupted, or break. A call
  with no outcome left on the tape moves all it can. The end of \<open>conn_incoming\<close> is the end of
  the stream. The sockets themselves (creation, binding, listening, selecting, addresses) are
  calls of the operating system and are not modelled.
\<close>

section \<open>Frames\<close>

datatype MessageType =
  MT_Hello | MT_HelloAck | MT_Publish | MT_PublishAck | MT_Result | MT_Heartbeat | MT_Retire | MT_Shutdown
  | MT_Error | MT_Count

fun message_type_value :: "MessageType \<Rightarrow> u16" where
  "message_type_value MT_Hello = 1"
| "message_type_value MT_HelloAck = 2"
| "message_type_value MT_Publish = 3"
| "message_type_value MT_PublishAck = 4"
| "message_type_value MT_Result = 5"
| "message_type_value MT_Heartbeat = 6"
| "message_type_value MT_Retire = 7"
| "message_type_value MT_Shutdown = 8"
| "message_type_value MT_Error = 9"
| "message_type_value MT_Count = 10"

fun message_type_to_string :: "MessageType \<Rightarrow> string" where
  "message_type_to_string MT_Hello = ''Hello''"
| "message_type_to_string MT_HelloAck = ''HelloAck''"
| "message_type_to_string MT_Publish = ''Publish''"
| "message_type_to_string MT_PublishAck = ''PublishAck''"
| "message_type_to_string MT_Result = ''Result''"
| "message_type_to_string MT_Heartbeat = ''Heartbeat''"
| "message_type_to_string MT_Retire = ''Retire''"
| "message_type_to_string MT_Shutdown = ''Shutdown''"
| "message_type_to_string MT_Error = ''Error''"
| "message_type_to_string MT_Count = ''Invalid''"

definition all_message_types :: "MessageType list" where
  "all_message_types =
     [MT_Hello, MT_HelloAck, MT_Publish, MT_PublishAck, MT_Result, MT_Heartbeat, MT_Retire, MT_Shutdown, MT_Error]"

text \<open>The guard \<open>raw_type == 0 || raw_type >= Count\<close> and the cast after it.\<close>

definition message_type_of :: "u16 \<Rightarrow> MessageType option" where
  "message_type_of raw = List.find (\<lambda>t. message_type_value t = raw) all_message_types"

definition kFrameMagic :: u32 where
  "kFrameMagic = 0x46504242"

definition kFrameVersion :: u16 where
  "kFrameVersion = 1"

definition kFrameHeaderBytes :: nat where
  "kFrameHeaderBytes = 20"

definition kMaxFramePayload :: nat where
  "kMaxFramePayload = 2 ^ 20"

record Frame =
  fr_type :: MessageType
  fr_flags :: u32
  fr_payload :: "u8 list"

definition frame_header :: "Frame \<Rightarrow> u8 list" where
  "frame_header f =
     le_encode 4 kFrameMagic @ le_encode 2 kFrameVersion @ le_encode 2 (message_type_value (fr_type f)) @
     le_encode 4 (fr_flags f) @ le_encode 4 (of_nat (length (fr_payload f)) :: u32) @
     le_encode 4 (crc32 (fr_payload f))"

definition encode_frame :: "Frame \<Rightarrow> nat \<Rightarrow> u8 list result" where
  "encode_frame f max_payload =
     (if fr_type f = MT_Count then fail InvalidArgument ''frame type'' 0
      else if length (fr_payload f) > max_payload then
        fail OversizedInput ''frame payload'' (of_nat (length (fr_payload f)))
      else Inr (frame_header f @ fr_payload f))"

definition decode_frame_header :: "u8 list \<Rightarrow> nat \<Rightarrow> (MessageType \<times> u32 \<times> u32) result" where
  "decode_frame_header header max_payload =
     (if length header \<noteq> kFrameHeaderBytes then fail TruncatedInput ''frame header'' (of_nat (length header))
      else if get_u32 header 0 \<noteq> kFrameMagic then fail MalformedInput ''frame magic'' 0
      else if get_u16 header 4 \<noteq> kFrameVersion then
        fail VersionMismatch ''frame version'' (ucast (get_u16 header 4))
      else case message_type_of (get_u16 header 6) of
        None \<Rightarrow> fail MalformedInput ''frame message type'' (ucast (get_u16 header 6))
      | Some type \<Rightarrow>
          let len = get_u32 header 12
          in if unat len > max_payload then fail OversizedInput ''frame payload'' (ucast len)
             else Inr (type, get_u32 header 8, len))"

definition decode_frame :: "u8 list \<Rightarrow> nat \<Rightarrow> Frame result" where
  "decode_frame bytes max_payload =
     (if length bytes < kFrameHeaderBytes then fail TruncatedInput ''frame'' (of_nat (length bytes))
      else bpfab_try_decl (decode_frame_header (take kFrameHeaderBytes bytes) max_payload) (\<lambda>(type, flags, len).
        if length bytes \<noteq> kFrameHeaderBytes + unat len then
          fail MalformedInput ''frame length mismatch'' (of_nat (length bytes))
        else
          let payload = take (unat len) (drop kFrameHeaderBytes bytes); stored = get_u32 bytes 16
          in if crc32 payload \<noteq> stored then fail IntegrityMismatch ''frame crc'' (ucast stored)
             else Inr \<lparr>fr_type = type, fr_flags = flags, fr_payload = payload\<rparr>))"

section \<open>The stream\<close>

text \<open>\<open>Moves n\<close> is a call that transfers at least one and at most \<open>n + 1\<close> bytes.\<close>

datatype SocketCall = Moves nat | WouldBlock | Breaks u64

record Connection =
  conn_valid :: bool
  conn_incoming :: "u8 list"
  conn_outgoing :: "u8 list"
  conn_tape :: "SocketCall list"

definition kChunkBytes :: nat where
  "kChunkBytes = 0x40000000"

definition next_call :: "Connection \<Rightarrow> SocketCall \<times> Connection" where
  "next_call c =
     (case conn_tape c of [] \<Rightarrow> (Moves kChunkBytes, c) | x # xs \<Rightarrow> (x, c\<lparr>conn_tape := xs\<rparr>))"

lemma next_call_tape: "next_call c = (x, c') \<Longrightarrow> length (conn_tape c') \<le> length (conn_tape c)"
  "next_call c = (WouldBlock, c') \<Longrightarrow> length (conn_tape c') < length (conn_tape c)"
  by (auto simp: next_call_def split: list.splits)

function send_all :: "u8 list \<Rightarrow> Connection \<Rightarrow> Status \<times> Connection" where
  "send_all bytes c =
     (if bytes = [] then (status_success, c)
      else case next_call c of (call, c1) \<Rightarrow>
        (case call of
           WouldBlock \<Rightarrow> send_all bytes c1
         | Breaks code \<Rightarrow> (status_error IoError ''socket send'' code, c1)
         | Moves n \<Rightarrow>
             let k = min (Suc n) (min (length bytes) kChunkBytes)
             in send_all (drop k bytes) (c1\<lparr>conn_outgoing := conn_outgoing c1 @ take k bytes\<rparr>)))"
  by pat_completeness auto
termination
  by (relation "measure (\<lambda>(bytes, c). length bytes + length (conn_tape c))")
    (auto simp: kChunkBytes_def min_def simp flip: length_greater_0_conv dest!: next_call_tape [OF sym] split: if_splits)

declare send_all.simps [simp del]

function recv_all :: "nat \<Rightarrow> u8 list \<Rightarrow> Connection \<Rightarrow> u8 list result \<times> Connection" where
  "recv_all size1 got c =
     (if length got \<ge> size1 then (Inr got, c)
      else case next_call c of (call, c1) \<Rightarrow>
        (case call of
           WouldBlock \<Rightarrow> recv_all size1 got c1
         | Breaks code \<Rightarrow> (fail IoError ''socket recv'' code, c1)
         | Moves n \<Rightarrow>
             let k = min (Suc n) (min (size1 - length got) kChunkBytes); part = take k (conn_incoming c1)
             in if part = [] then (fail TruncatedInput ''peer closed'' (of_nat (length got)), c1)
                else recv_all size1 (got @ part) (c1\<lparr>conn_incoming := drop k (conn_incoming c1)\<rparr>)))"
  by pat_completeness auto
termination
  by (relation "measure (\<lambda>(size1, got, c). (size1 - length got) + length (conn_tape c))")
    (auto simp: kChunkBytes_def min_def simp flip: length_greater_0_conv dest!: next_call_tape [OF sym] split: if_splits)

declare recv_all.simps [simp del]

definition conn_send :: "Frame \<Rightarrow> nat \<Rightarrow> Connection \<Rightarrow> Status \<times> Connection" where
  "conn_send f max_payload c =
     (if \<not> conn_valid c then (status_error NotReady ''connection closed'' 0, c)
      else case encode_frame f max_payload of
        Inl e \<Rightarrow> (e, c)
      | Inr bytes \<Rightarrow> send_all bytes c)"

definition send_raw :: "u8 list \<Rightarrow> Connection \<Rightarrow> Status \<times> Connection" where
  "send_raw bytes c =
     (if \<not> conn_valid c then (status_error NotReady ''connection closed'' 0, c) else send_all bytes c)"

definition conn_receive :: "nat \<Rightarrow> Connection \<Rightarrow> Frame result \<times> Connection" where
  "conn_receive max_payload c =
     (if \<not> conn_valid c then (fail NotReady ''connection closed'' 0, c)
      else case recv_all kFrameHeaderBytes [] c of
        (Inl e, c1) \<Rightarrow> (Inl e, c1)
      | (Inr header, c1) \<Rightarrow>
          (case decode_frame_header header max_payload of
             Inl e \<Rightarrow> (Inl e, c1)
           | Inr (type, flags, len) \<Rightarrow>
               (case (if len > 0 then recv_all (unat len) [] c1 else (Inr [], c1)) of
                  (Inl e, c2) \<Rightarrow> (Inl e, c2)
                | (Inr payload, c2) \<Rightarrow>
                    (if crc32 payload \<noteq> get_u32 header 16
                     then (fail IntegrityMismatch ''frame crc'' (ucast (get_u32 header 16)), c2)
                     else (Inr \<lparr>fr_type = type, fr_flags = flags, fr_payload = payload\<rparr>, c2)))))"

definition conn_close :: "Connection \<Rightarrow> Status \<times> Connection" where
  "conn_close c = (status_success, c\<lparr>conn_valid := False\<rparr>)"

end
