(* ===== verification/Frame_Facts.thy ===== *)
theory Frame_Facts
  imports Frame Journal_Facts
begin

text \<open>
  What the framed transport guarantees: decoding is exactly the inverse of encoding, what a
  connection sends is the concatenation of the encodings however the calls split it, and what
  it receives is a whole frame taken off the stream or an error.
\<close>

section \<open>Frames\<close>

lemma message_type_of_value: "message_type_of (message_type_value t) = (if t = MT_Count then None else Some t)"
  by (cases t) (simp_all add: message_type_of_def all_message_types_def)

lemma message_type_of_Some: "message_type_of raw = Some t \<Longrightarrow> t \<noteq> MT_Count \<and> message_type_value t = raw"
  by (auto simp: message_type_of_def all_message_types_def split: if_splits)

lemma length_frame_header [simp]: "length (frame_header f) = 20"
  by (simp add: frame_header_def)

lemma frame_header_fields:
  "get_u32 (frame_header f @ rest) 0 = kFrameMagic" "get_u16 (frame_header f @ rest) 4 = kFrameVersion"
  "get_u16 (frame_header f @ rest) 6 = message_type_value (fr_type f)" "get_u32 (frame_header f @ rest) 8 = fr_flags f"
  "get_u32 (frame_header f @ rest) 12 = of_nat (length (fr_payload f))"
  "get_u32 (frame_header f @ rest) 16 = crc32 (fr_payload f)"
  using get_u32_at [of "[]" 0 kFrameMagic]
    get_u16_at [of "le_encode 4 kFrameMagic" 4 kFrameVersion]
    get_u16_at [of "le_encode 4 kFrameMagic @ le_encode 2 kFrameVersion" 6 "message_type_value (fr_type f)"]
    get_u32_at [of "le_encode 4 kFrameMagic @ le_encode 2 kFrameVersion @ le_encode 2 (message_type_value (fr_type f))" 8 "fr_flags f"]
    get_u32_at [of "le_encode 4 kFrameMagic @ le_encode 2 kFrameVersion @ le_encode 2 (message_type_value (fr_type f)) @
      le_encode 4 (fr_flags f)" 12 "of_nat (length (fr_payload f))"]
    get_u32_at [of "le_encode 4 kFrameMagic @ le_encode 2 kFrameVersion @ le_encode 2 (message_type_value (fr_type f)) @
      le_encode 4 (fr_flags f) @ le_encode 4 (of_nat (length (fr_payload f)) :: u32)" 16 "crc32 (fr_payload f)"]
  by (simp_all add: frame_header_def)

text \<open>The fields determine the header.\<close>

lemma header_from_fields:
  assumes "length h = 20" and "get_u32 h 0 = kFrameMagic" and "get_u16 h 4 = kFrameVersion"
    and "get_u16 h 6 = message_type_value t" and "get_u32 h 8 = fl" and "get_u32 h 12 = n" and "get_u32 h 16 = crc"
  shows "h = le_encode 4 kFrameMagic @ le_encode 2 kFrameVersion @ le_encode 2 (message_type_value t) @
    le_encode 4 fl @ le_encode 4 n @ le_encode 4 crc"
proof -
  have e4: "le_encode 4 (get_u32 h k) = take 4 (drop k h)" if "k + 4 \<le> 20" for k
    using that assms(1) by (simp add: get_u32_def le_encode_decode)
  have e2: "le_encode 2 (get_u16 h k) = take 2 (drop k h)" if "k + 2 \<le> 20" for k
    using that assms(1) by (simp add: get_u16_def le_encode_decode)
  have split: "h = take 4 h @ take 2 (drop 4 h) @ take 2 (drop 6 h) @ take 4 (drop 8 h) @ take 4 (drop 12 h) @ take 4 (drop 16 h)"
    by (rule nth_equalityI) (auto simp: assms(1) nth_append less_diff_conv2)
  show ?thesis
    by (subst split) (use e4 [of 0] e4 [of 8] e4 [of 12] e4 [of 16] e2 [of 4] e2 [of 6] assms in simp)
qed

definition frame_ok :: "nat \<Rightarrow> Frame \<Rightarrow> bool" where
  "frame_ok max_payload f \<longleftrightarrow> fr_type f \<noteq> MT_Count \<and> length (fr_payload f) \<le> max_payload"

lemma encode_frame_ok: "encode_frame f n = Inr bs \<longleftrightarrow> frame_ok n f \<and> bs = frame_header f @ fr_payload f"
  by (auto simp: encode_frame_def frame_ok_def fail_def)

lemma decode_header_encoded:
  assumes "frame_ok n f" and "n < 2 ^ 32"
  shows "decode_frame_header (frame_header f) n = Inr (fr_type f, fr_flags f, of_nat (length (fr_payload f)))"
  using assms frame_header_fields [of f "[]"]
  by (simp add: decode_frame_header_def kFrameHeaderBytes_def frame_ok_def message_type_of_value unat_of_nat)

lemma decode_header_sound:
  assumes "decode_frame_header h n = Inr (t, fl, len)"
  shows "t \<noteq> MT_Count \<and> unat len \<le> n \<and> length h = 20 \<and>
    h = le_encode 4 kFrameMagic @ le_encode 2 kFrameVersion @ le_encode 2 (message_type_value t) @
      le_encode 4 fl @ le_encode 4 len @ le_encode 4 (get_u32 h 16)"
proof -
  have f: "length h = 20" "get_u32 h 0 = kFrameMagic" "get_u16 h 4 = kFrameVersion"
      "message_type_of (get_u16 h 6) = Some t" "get_u32 h 8 = fl" "get_u32 h 12 = len" "unat len \<le> n"
    using assms by (auto simp: decode_frame_header_def kFrameHeaderBytes_def fail_def Let_def split: if_splits option.splits)
  from message_type_of_Some [OF f(4)] header_from_fields [OF f(1-3) _ f(5,6) refl, of t] f show ?thesis by simp
qed

lemma decode_frame_exact: "n < 2 ^ 32 \<Longrightarrow> decode_frame bs n = Inr f \<longleftrightarrow> encode_frame f n = Inr bs"
proof
  assume n: "n < 2 ^ 32" and e: "encode_frame f n = Inr bs"
  then have ok: "frame_ok n f" and bs: "bs = frame_header f @ fr_payload f" by (simp_all add: encode_frame_ok)
  have len: "unat (of_nat (length (fr_payload f)) :: u32) = length (fr_payload f)"
    using ok n by (simp add: frame_ok_def unat_of_nat)
  show "decode_frame bs n = Inr f"
    using decode_header_encoded [OF ok n] frame_header_fields(6) [of f "fr_payload f"]
    by (simp add: decode_frame_def bs kFrameHeaderBytes_def len)
next
  assume n: "n < 2 ^ 32" and d: "decode_frame bs n = Inr f"
  obtain t fl len where h: "decode_frame_header (take 20 bs) n = Inr (t, fl, len)" "length bs = 20 + unat len"
    and c: "crc32 (drop 20 bs) = get_u32 bs 16" and f: "f = \<lparr>fr_type = t, fr_flags = fl, fr_payload = drop 20 bs\<rparr>"
    using d by (auto simp: decode_frame_def kFrameHeaderBytes_def bpfab_try_decl_Inr fail_def Let_def split: if_splits)
  have "get_u32 (take 20 bs) 16 = get_u32 bs 16" by (simp add: get_u32_def drop_take)
  with decode_header_sound [OF h(1)] have t: "t \<noteq> MT_Count" "unat len \<le> n"
    and hb: "take 20 bs = le_encode 4 kFrameMagic @ le_encode 2 kFrameVersion @ le_encode 2 (message_type_value t) @
      le_encode 4 fl @ le_encode 4 len @ le_encode 4 (get_u32 bs 16)" by simp_all
  have len: "(of_nat (length (drop 20 bs)) :: u32) = len" using h(2) by simp
  have "frame_header f = take 20 bs" unfolding frame_header_def f hb by (simp only: Frame.Frame.select_convs len c)
  then have "bs = frame_header f @ fr_payload f" by (simp only: f Frame.Frame.select_convs append_take_drop_id)
  moreover have "frame_ok n f" using t h(2) by (simp add: frame_ok_def f)
  ultimately show "encode_frame f n = Inr bs" unfolding encode_frame_ok by blast
qed

section \<open>The stream\<close>

definition unbroken :: "Connection \<Rightarrow> bool" where
  "unbroken c \<longleftrightarrow> (\<forall>x \<in> set (conn_tape c). \<forall>code. x \<noteq> Breaks code)"

lemma next_call_facts:
  assumes "next_call c = (x, c')"
  shows "conn_incoming c' = conn_incoming c" "conn_outgoing c' = conn_outgoing c" "conn_valid c' = conn_valid c"
    "unbroken c \<Longrightarrow> unbroken c' \<and> (\<forall>code. x \<noteq> Breaks code)"
  using assms by (auto simp: next_call_def unbroken_def split: list.splits)

lemma send_all_unbroken:
  "unbroken c \<Longrightarrow> \<exists>c'. send_all bs c = (status_success, c') \<and> conn_outgoing c' = conn_outgoing c @ bs \<and>
     conn_incoming c' = conn_incoming c \<and> conn_valid c' = conn_valid c \<and> unbroken c'"
proof (induction bs c rule: send_all.induct)
  case (1 bs c)
  show ?case
  proof (cases "bs = []")
    case True
    with 1 show ?thesis by (simp add: send_all.simps)
  next
    case False
    obtain x c1 where x: "next_call c = (x, c1)" by (cases "next_call c")
    note f = next_call_facts [OF x]
    show ?thesis
    proof (cases x)
      case (Moves n)
      let ?k = "min (Suc n) (min (length bs) kChunkBytes)"
      have "unbroken (c1\<lparr>conn_outgoing := conn_outgoing c1 @ take ?k bs\<rparr>)" using f(4) 1(3) by (simp add: unbroken_def)
      from 1(1) [OF False x [symmetric] Moves refl this]
      show ?thesis using False x Moves f(1-3) by (subst send_all.simps) (auto simp: Let_def)
    next
      case WouldBlock
      with 1(2) [OF False x [symmetric] WouldBlock] f 1(3) False x show ?thesis
        by (subst send_all.simps) auto
    next
      case (Breaks code)
      with f(4) 1(3) show ?thesis by simp
    qed
  qed
qed

lemma recv_all_unbroken:
  "unbroken c \<Longrightarrow> conn_incoming c = bs @ rest \<Longrightarrow> length got + length bs = size1 \<Longrightarrow>
     \<exists>c'. recv_all size1 got c = (Inr (got @ bs), c') \<and> conn_incoming c' = rest \<and> conn_outgoing c' = conn_outgoing c \<and>
       conn_valid c' = conn_valid c \<and> unbroken c'"
proof (induction size1 got c arbitrary: bs rule: recv_all.induct)
  case (1 size1 got c)
  show ?case
  proof (cases "bs = []")
    case True
    with 1 show ?thesis by (simp add: recv_all.simps)
  next
    case False
    with 1(5) have g: "\<not> length got \<ge> size1" by (cases bs) auto
    obtain x c1 where x: "next_call c = (x, c1)" by (cases "next_call c")
    note f = next_call_facts [OF x]
    show ?thesis
    proof (cases x)
      case (Moves n)
      let ?k = "min (Suc n) (min (size1 - length got) kChunkBytes)"
      have k: "?k \<le> length bs" "0 < ?k" using 1(5) g by (auto simp: kChunkBytes_def)
      then have t: "take ?k (conn_incoming c1) = take ?k bs" "take ?k bs \<noteq> []" using f(1) 1(4) False by auto
      have u: "unbroken (c1\<lparr>conn_incoming := drop ?k (conn_incoming c1)\<rparr>)" using f(4) 1(3) by (simp add: unbroken_def)
      have i: "conn_incoming (c1\<lparr>conn_incoming := drop ?k (conn_incoming c1)\<rparr>) = drop ?k bs @ rest" using f(1) 1(4) k by simp
      have l: "length (got @ take ?k (conn_incoming c1)) + length (drop ?k bs) = size1" using t k 1(5) by simp
      from 1(1) [OF g x [symmetric] Moves refl refl _ u i l] t
      show ?thesis using g x Moves f(2,3) by (subst recv_all.simps) (auto simp: Let_def)
    next
      case WouldBlock
      with 1(2) [OF g x [symmetric] WouldBlock, of bs] f 1(3-5) g x show ?thesis
        by (subst recv_all.simps) auto
    next
      case (Breaks code)
      with f(4) 1(3) show ?thesis by simp
    qed
  qed
qed

text \<open>Whatever the calls do, what is returned was taken off the stream, in order.\<close>

lemma recv_all_sound:
  "recv_all size1 got c = (Inr bs, c') \<Longrightarrow> length got \<le> size1 \<Longrightarrow>
     \<exists>more. bs = got @ more \<and> length bs = size1 \<and> conn_incoming c = more @ conn_incoming c' \<and>
       conn_outgoing c' = conn_outgoing c \<and> conn_valid c' = conn_valid c"
proof (induction size1 got c rule: recv_all.induct)
  case (1 size1 got c)
  show ?case
  proof (cases "length got \<ge> size1")
    case True
    with 1 show ?thesis by (simp add: recv_all.simps)
  next
    case False
    obtain x c1 where x: "next_call c = (x, c1)" by (cases "next_call c")
    note f = next_call_facts [OF x]
    show ?thesis
    proof (cases x)
      case (Moves n)
      let ?k = "min (Suc n) (min (size1 - length got) kChunkBytes)"
      let ?p = "take ?k (conn_incoming c1)"
      have p: "?p \<noteq> []" and r: "recv_all size1 (got @ ?p) (c1\<lparr>conn_incoming := drop ?k (conn_incoming c1)\<rparr>) = (Inr bs, c')"
        using 1(3) False x Moves by (auto simp: recv_all.simps [of size1 got c] fail_def Let_def split: if_splits)
      have "length (got @ ?p) \<le> size1" using False by simp
      from 1(1) [OF False x [symmetric] Moves refl refl p r this] obtain more where
        "bs = (got @ ?p) @ more" "length bs = size1" "drop ?k (conn_incoming c1) = more @ conn_incoming c'"
        "conn_outgoing c' = conn_outgoing c1" "conn_valid c' = conn_valid c1" by auto
      moreover from this(3) have "conn_incoming c1 = (?p @ more) @ conn_incoming c'"
        by (metis append.assoc append_take_drop_id)
      ultimately show ?thesis using f(1-3) by (intro exI [of _ "?p @ more"]) simp
    next
      case WouldBlock
      with 1 f x False show ?thesis by (simp add: recv_all.simps [of size1 got c])
    next
      case (Breaks code)
      with 1(3) False x show ?thesis by (simp add: recv_all.simps [of size1 got c] fail_def)
    qed
  qed
qed

section \<open>Whole frames\<close>

lemma conn_send_unbroken:
  assumes "frame_ok n f" and "conn_valid c" and "unbroken c"
  shows "\<exists>c'. conn_send f n c = (status_success, c') \<and> conn_outgoing c' = conn_outgoing c @ frame_header f @ fr_payload f \<and>
    conn_incoming c' = conn_incoming c \<and> conn_valid c' \<and> unbroken c'"
proof -
  have "encode_frame f n = Inr (frame_header f @ fr_payload f)" using assms(1) by (simp add: encode_frame_ok)
  with send_all_unbroken [OF assms(3), of "frame_header f @ fr_payload f"] assms(2) show ?thesis
    by (auto simp: conn_send_def)
qed

lemma conn_receive_unbroken:
  assumes ok: "frame_ok n f" and n: "n < 2 ^ 32" and v: "conn_valid c" and u: "unbroken c"
    and i: "conn_incoming c = frame_header f @ fr_payload f @ rest"
  shows "\<exists>c'. conn_receive n c = (Inr f, c') \<and> conn_incoming c' = rest \<and> conn_outgoing c' = conn_outgoing c \<and>
    conn_valid c' \<and> unbroken c'"
proof -
  have len: "unat (of_nat (length (fr_payload f)) :: u32) = length (fr_payload f)"
    using ok n by (simp add: frame_ok_def unat_of_nat)
  obtain c1 where h: "recv_all 20 [] c = (Inr (frame_header f), c1)" "conn_incoming c1 = fr_payload f @ rest"
      "conn_outgoing c1 = conn_outgoing c" "conn_valid c1" "unbroken c1"
    using recv_all_unbroken [OF u i, of "[]" 20] v by auto
  obtain c2 where p: "recv_all (length (fr_payload f)) [] c1 = (Inr (fr_payload f), c2)" "conn_incoming c2 = rest"
      "conn_outgoing c2 = conn_outgoing c" "conn_valid c2" "unbroken c2"
    using recv_all_unbroken [OF h(5) h(2), of "[]" "length (fr_payload f)"] h(3,4) by auto
  have "(if (of_nat (length (fr_payload f)) :: u32) > 0
         then recv_all (unat (of_nat (length (fr_payload f)) :: u32)) [] c1 else (Inr [], c1)) = (Inr (fr_payload f), c2)"
  proof (cases "fr_payload f = []")
    case True
    with p(1) show ?thesis by (simp add: recv_all.simps)
  next
    case False
    then have "(of_nat (length (fr_payload f)) :: u32) \<noteq> 0" using len by (metis length_0_conv unat_0)
    with p(1) show ?thesis by (simp add: word_gt_0 len)
  qed
  then show ?thesis
    using v h(1) p(2-) decode_header_encoded [OF ok n] frame_header_fields(6) [of f "[]"]
    by (simp add: conn_receive_def kFrameHeaderBytes_def split del: if_split)
qed

lemma conn_receive_sound:
  assumes "conn_receive n c = (Inr f, c')"
  shows "encode_frame f n = Inr (frame_header f @ fr_payload f) \<and>
    conn_incoming c = frame_header f @ fr_payload f @ conn_incoming c' \<and> conn_outgoing c' = conn_outgoing c \<and> conn_valid c'"
proof -
  obtain h c1 t fl len payload where v: "conn_valid c" and r: "recv_all 20 [] c = (Inr h, c1)"
      and d: "decode_frame_header h n = Inr (t, fl, len)"
      and b: "(if len > 0 then recv_all (unat len) [] c1 else (Inr [], c1)) = (Inr payload, c')"
      and c: "crc32 payload = get_u32 h 16" and f: "f = \<lparr>fr_type = t, fr_flags = fl, fr_payload = payload\<rparr>"
    using assms by (auto simp: conn_receive_def kFrameHeaderBytes_def fail_def split: if_splits sum.splits prod.splits)
  have b': "recv_all (unat len) [] c1 = (Inr payload, c')"
  proof (cases "len = 0")
    case True
    with b show ?thesis by (simp add: recv_all.simps)
  next
    case False
    with b show ?thesis by (simp add: word_gt_0)
  qed
  from recv_all_sound [OF r] have h: "conn_incoming c = h @ conn_incoming c1" "conn_outgoing c1 = conn_outgoing c"
    "conn_valid c1 = conn_valid c" by auto
  from recv_all_sound [OF b'] have p: "length payload = unat len" "conn_incoming c1 = payload @ conn_incoming c'"
    "conn_outgoing c' = conn_outgoing c1" "conn_valid c' = conn_valid c1" by auto
  from decode_header_sound [OF d] have t: "t \<noteq> MT_Count" "unat len \<le> n"
    and hb: "h = le_encode 4 kFrameMagic @ le_encode 2 kFrameVersion @ le_encode 2 (message_type_value t) @
      le_encode 4 fl @ le_encode 4 len @ le_encode 4 (get_u32 h 16)" by simp_all
  have len: "(of_nat (length payload) :: u32) = len" using p(1) by simp
  have "frame_header f = le_encode 4 kFrameMagic @ le_encode 2 kFrameVersion @ le_encode 2 (message_type_value t) @
      le_encode 4 fl @ le_encode 4 len @ le_encode 4 (get_u32 h 16)"
    unfolding frame_header_def f by (simp only: Frame.Frame.select_convs len c)
  then have "frame_header f = h" unfolding hb [symmetric] .
  moreover have "frame_ok n f" using t p(1) by (simp add: frame_ok_def f)
  ultimately show ?thesis using h p v unfolding encode_frame_ok by (simp add: f)
qed

text \<open>A sender that sends frames until one fails, and a receiver that takes so many.\<close>

fun send_frames :: "nat \<Rightarrow> Frame list \<Rightarrow> Connection \<Rightarrow> Status \<times> Connection" where
  "send_frames n [] c = (status_success, c)"
| "send_frames n (f # fs) c =
     (case conn_send f n c of (s, c1) \<Rightarrow> if s = status_success then send_frames n fs c1 else (s, c1))"

fun receive_frames :: "nat \<Rightarrow> nat \<Rightarrow> Connection \<Rightarrow> Frame list result \<times> Connection" where
  "receive_frames n 0 c = (Inr [], c)"
| "receive_frames n (Suc k) c =
     (case conn_receive n c of
        (Inl e, c1) \<Rightarrow> (Inl e, c1)
      | (Inr f, c1) \<Rightarrow> (case receive_frames n k c1 of (Inl e, c2) \<Rightarrow> (Inl e, c2) | (Inr fs, c2) \<Rightarrow> (Inr (f # fs), c2)))"

definition wire :: "Frame list \<Rightarrow> u8 list" where
  "wire fs = concat (map (\<lambda>f. frame_header f @ fr_payload f) fs)"

lemma send_frames_wire:
  "list_all (frame_ok n) fs \<Longrightarrow> conn_valid c \<Longrightarrow> unbroken c \<Longrightarrow>
     \<exists>c'. send_frames n fs c = (status_success, c') \<and> conn_outgoing c' = conn_outgoing c @ wire fs"
proof (induction fs arbitrary: c)
  case (Cons f fs)
  then obtain c1 where "conn_send f n c = (status_success, c1)" "conn_valid c1" "unbroken c1"
      "conn_outgoing c1 = conn_outgoing c @ frame_header f @ fr_payload f"
    using conn_send_unbroken [of n f c] by auto
  with Cons.IH [of c1] Cons.prems show ?case by (auto simp: wire_def)
qed (simp add: wire_def)

lemma receive_frames_wire:
  "list_all (frame_ok n) fs \<Longrightarrow> n < 2 ^ 32 \<Longrightarrow> conn_valid c \<Longrightarrow> unbroken c \<Longrightarrow> conn_incoming c = wire fs @ rest \<Longrightarrow>
     \<exists>c'. receive_frames n (length fs) c = (Inr fs, c') \<and> conn_incoming c' = rest"
proof (induction fs arbitrary: c)
  case (Cons f fs)
  then obtain c1 where "conn_receive n c = (Inr f, c1)" "conn_incoming c1 = wire fs @ rest" "conn_valid c1" "unbroken c1"
    using conn_receive_unbroken [of n f c "wire fs @ rest"] by (auto simp: wire_def)
  with Cons.IH [of c1] Cons.prems show ?case by auto
qed (simp add: wire_def)

end
