(* ===== verification/Properties_Frame.thy ===== *)
theory Properties_Frame
  imports Frame_Facts
begin

text \<open>
  The properties of the framed transport of \<open>src/ipc/frame.cpp\<close>, each followed by a witness on a
  concrete frame and a concrete pair of connections.
\<close>

definition demo_frame :: Frame where
  "demo_frame = \<lparr>fr_type = MT_Publish, fr_flags = 5, fr_payload = [1, 2, 3]\<rparr>"

definition demo_heartbeat :: Frame where
  "demo_heartbeat = \<lparr>fr_type = MT_Heartbeat, fr_flags = 0, fr_payload = []\<rparr>"

definition demo_sender :: Connection where
  "demo_sender = \<lparr>conn_valid = True, conn_incoming = [], conn_outgoing = [], conn_tape = [Moves 4, WouldBlock, Moves 0]\<rparr>"

definition demo_receiver :: "u8 list \<Rightarrow> Connection" where
  "demo_receiver bs = \<lparr>conn_valid = True, conn_incoming = bs, conn_outgoing = [], conn_tape = [WouldBlock, Moves 2, Moves 0]\<rparr>"

lemma demo_frames_ok: "list_all (frame_ok kMaxFramePayload) [demo_frame, demo_heartbeat]"
  by (simp add: frame_ok_def demo_frame_def demo_heartbeat_def kMaxFramePayload_def)

lemma demo_unbroken: "unbroken demo_sender" "unbroken (demo_receiver bs)" "conn_valid demo_sender" "conn_valid (demo_receiver bs)"
  by (simp_all add: unbroken_def demo_sender_def demo_receiver_def)

text \<open>C21. Decoding accepts a byte string exactly when it is the encoding of the frame it returns:
  whatever is encoded is decoded again, nothing else is accepted (no trailing byte, no other magic,
  version, type, length or checksum), and a frame has one encoding only.\<close>

theorem frame_decode_exact:
  assumes "max_payload < 2 ^ 32"
  shows "decode_frame bytes max_payload = Inr f \<longleftrightarrow> encode_frame f max_payload = Inr bytes"
  by (rule decode_frame_exact [OF assms])

theorem frame_decode_exact_witness:
  "decode_frame (frame_header demo_frame @ [1, 2, 3]) kMaxFramePayload = Inr demo_frame"
  using frame_decode_exact [of kMaxFramePayload "frame_header demo_frame @ [1, 2, 3]" demo_frame]
  by (simp add: encode_frame_ok frame_ok_def kMaxFramePayload_def) (simp add: demo_frame_def)

text \<open>C19. Frames sent over a connection that does not break arrive as they were sent: however the
  \<open>send\<close> and \<open>recv\<close> calls on the two sides split the stream and however often they are interrupted,
  sending succeeds, and receiving as many frames from what was sent gives the same frames in the same
  order and leaves exactly what follows them on the stream.\<close>

theorem frames_exchanged:
  assumes "list_all (frame_ok max_payload) fs" and "max_payload < 2 ^ 32"
    and "conn_valid a" and "unbroken a" and "conn_outgoing a = []"
    and "conn_valid b" and "unbroken b"
    and "conn_incoming b = conn_outgoing (snd (send_frames max_payload fs a)) @ rest"
  shows "fst (send_frames max_payload fs a) = status_success \<and>
    (\<exists>b'. receive_frames max_payload (length fs) b = (Inr fs, b') \<and> conn_incoming b' = rest)"
  using send_frames_wire [OF assms(1,3,4)] receive_frames_wire [OF assms(1,2,6,7), of rest] assms(5,8) by auto

theorem frames_exchanged_witness:
  "\<exists>b'. receive_frames kMaxFramePayload 2
          (demo_receiver (conn_outgoing (snd (send_frames kMaxFramePayload [demo_frame, demo_heartbeat] demo_sender)) @ [7])) =
        (Inr [demo_frame, demo_heartbeat], b') \<and> conn_incoming b' = [7]"
proof -
  let ?fs = "[demo_frame, demo_heartbeat]"
  let ?b = "demo_receiver (conn_outgoing (snd (send_frames kMaxFramePayload ?fs demo_sender)) @ [7])"
  have "kMaxFramePayload < 2 ^ 32" "conn_outgoing demo_sender = []"
    "conn_incoming ?b = conn_outgoing (snd (send_frames kMaxFramePayload ?fs demo_sender)) @ [7]"
    by (simp_all add: kMaxFramePayload_def demo_sender_def demo_receiver_def)
  from frames_exchanged [OF demo_frames_ok this(1) demo_unbroken(3,1) this(2) demo_unbroken(4,2) this(3)]
  show ?thesis by (simp add: eval_nat_numeral del: receive_frames.simps)
qed

text \<open>C20. A received frame is a whole frame: whatever the socket does (short reads, interruptions, a
  break, the end of the stream in the middle), when \<open>receive\<close> returns a frame then the stream began with
  the encoding of that very frame under the receiver's bound, and exactly those bytes were taken. A
  stream that ends early, or differs in any byte from an encoding, never yields a frame.\<close>

theorem receive_exact_or_nothing:
  assumes "conn_receive max_payload c = (Inr f, c')"
  shows "\<exists>bytes. encode_frame f max_payload = Inr bytes \<and> conn_incoming c = bytes @ conn_incoming c' \<and>
    conn_outgoing c' = conn_outgoing c"
  using conn_receive_sound [OF assms] by simp

theorem receive_exact_or_nothing_witness:
  "\<exists>c' bytes. conn_receive kMaxFramePayload (demo_receiver (frame_header demo_frame @ [1, 2, 3, 9])) = (Inr demo_frame, c') \<and>
    encode_frame demo_frame kMaxFramePayload = Inr bytes \<and> frame_header demo_frame @ [1, 2, 3, 9] = bytes @ conn_incoming c'"
proof -
  let ?c = "demo_receiver (frame_header demo_frame @ [1, 2, 3, 9])"
  have i: "conn_incoming ?c = frame_header demo_frame @ fr_payload demo_frame @ [9]"
    by (simp add: demo_receiver_def demo_frame_def)
  have ok: "frame_ok kMaxFramePayload demo_frame" "kMaxFramePayload < 2 ^ 32"
    using demo_frames_ok by (simp_all add: kMaxFramePayload_def)
  obtain c' where r: "conn_receive kMaxFramePayload ?c = (Inr demo_frame, c')"
    using conn_receive_unbroken [OF ok demo_unbroken(4,2) i] by auto
  from receive_exact_or_nothing [OF r] r show ?thesis by (auto simp: demo_receiver_def)
qed

end
