(* ===== verification/Pool.thy ===== *)
theory Pool
  imports Status "HOL-Library.Multiset"
begin

text \<open>
  The bounded worker pool: \<open>WorkerPool\<close> of \<open>include/backpressure/runtime/fabric.hpp\<close> and
  \<open>src/runtime/fabric.cpp\<close>.

  The pool is the record of its members, with the place each worker thread is at. Every
  section that the C++ code runs under the pool mutex is one function on the record; a
  function that returns \<open>None\<close> is a thread that waits. What the threads may do in any order
  is the inductive relation \<open>pool_run\<close>, whose second component is a history that the code
  does not keep: the jobs accepted, started, finished and dropped, in their order.

  The read of \<open>started_\<close> before a lock is taken together with the locked section: once a pool
  has stopped both refuse the work.
\<close>

section \<open>The members and the locked sections\<close>

datatype 'j Worker = W_Waiting | W_Running 'j | W_Exited

record 'j WorkerPool =
  pl_queue :: "'j list"
  pl_threads :: "'j Worker list"
  pl_capacity :: nat
  pl_active :: nat
  pl_stopping :: bool
  pl_discard :: bool
  pl_started :: bool
  pl_completed :: u64
  pl_discarded :: u64

definition worker_pool :: "'j WorkerPool" where
  "worker_pool = \<lparr>pl_queue = [], pl_threads = [], pl_capacity = 0, pl_active = 0, pl_stopping = False,
     pl_discard = False, pl_started = False, pl_completed = 0, pl_discarded = 0\<rparr>"

definition pool_start :: "nat \<Rightarrow> nat \<Rightarrow> 'j WorkerPool \<Rightarrow> Status \<times> 'j WorkerPool" where
  "pool_start threads capacity p =
     (if pl_started p then (status_error Conflict ''worker pool already started'' 0, p)
      else if threads = 0 then (status_error InvalidArgument ''worker thread count'' 0, p)
      else if capacity = 0 then (status_error InvalidArgument ''worker queue capacity'' 0, p)
      else (status_success, p\<lparr>pl_capacity := capacity, pl_stopping := False, pl_discard := False,
              pl_threads := pl_threads p @ replicate threads W_Waiting, pl_started := True\<rparr>))"

text \<open>A waiting worker wakes up when there is work or the pool stops.\<close>

definition worker_wake :: "nat \<Rightarrow> 'j WorkerPool \<Rightarrow> 'j WorkerPool option" where
  "worker_wake i p =
     (if i < length (pl_threads p) \<and> pl_threads p ! i = W_Waiting \<and> (pl_stopping p \<or> pl_queue p \<noteq> []) then
        (case pl_queue p of
           [] \<Rightarrow> Some (p\<lparr>pl_threads := (pl_threads p)[i := W_Exited]\<rparr>)
         | job # jobs \<Rightarrow>
             if pl_discard p then
               Some (p\<lparr>pl_queue := [], pl_discarded := pl_discarded p + 1,
                       pl_threads := (if pl_stopping p then (pl_threads p)[i := W_Exited] else pl_threads p)\<rparr>)
             else
               Some (p\<lparr>pl_queue := jobs, pl_active := pl_active p + 1,
                       pl_threads := (pl_threads p)[i := W_Running job]\<rparr>))
      else None)"

definition worker_done :: "nat \<Rightarrow> 'j WorkerPool \<Rightarrow> 'j WorkerPool option" where
  "worker_done i p =
     (if i < length (pl_threads p) then
        (case pl_threads p ! i of
           W_Running job \<Rightarrow> Some (p\<lparr>pl_active := (if pl_active p > 0 then pl_active p - 1 else pl_active p),
             pl_completed := pl_completed p + 1, pl_threads := (pl_threads p)[i := W_Waiting]\<rparr>)
         | _ \<Rightarrow> None)
      else None)"

definition pool_submit :: "'j option \<Rightarrow> 'j WorkerPool \<Rightarrow> Status \<times> 'j WorkerPool" where
  "pool_submit work p =
     (if \<not> pl_started p then (status_error NotReady ''worker pool not started'' 0, p)
      else case work of
        None \<Rightarrow> (status_error InvalidArgument ''empty work item'' 0, p)
      | Some job \<Rightarrow>
          if pl_stopping p then (status_error ShuttingDown ''worker pool stopping'' 0, p)
          else if length (pl_queue p) \<ge> pl_capacity p then
            (status_error LimitExceeded ''worker queue'' (of_nat (length (pl_queue p))), p)
          else (status_success, p\<lparr>pl_queue := pl_queue p @ [job]\<rparr>))"

text \<open>The predicate that \<open>drain\<close> waits for.\<close>

definition pool_idle :: "'j WorkerPool \<Rightarrow> bool" where
  "pool_idle p \<longleftrightarrow> pl_queue p = [] \<and> pl_active p = 0"

text \<open>\<open>shutdown\<close> and \<open>abort\<close> up to the joins, and what follows the joins.\<close>

definition pool_begin_shutdown :: "'j WorkerPool \<Rightarrow> 'j WorkerPool" where
  "pool_begin_shutdown p = (if \<not> pl_started p then p else p\<lparr>pl_stopping := True\<rparr>)"

definition pool_begin_abort :: "'j WorkerPool \<Rightarrow> 'j WorkerPool" where
  "pool_begin_abort p =
     (if \<not> pl_started p then p
      else p\<lparr>pl_stopping := True, pl_discard := True,
             pl_discarded := (if pl_queue p \<noteq> [] then pl_discarded p + of_nat (length (pl_queue p)) else pl_discarded p),
             pl_queue := []\<rparr>)"

definition pool_join :: "'j WorkerPool \<Rightarrow> 'j WorkerPool option" where
  "pool_join p =
     (if \<not> pl_started p then Some p
      else if list_all (\<lambda>w. w = W_Exited) (pl_threads p) then Some (p\<lparr>pl_threads := [], pl_started := False\<rparr>)
      else None)"

section \<open>What the threads may do\<close>

record 'j PoolHistory =
  hi_accepted :: "'j list"
  hi_started :: "'j list"
  hi_finished :: "'j list"
  hi_dropped :: "'j list"

definition no_history :: "'j PoolHistory" where
  "no_history = \<lparr>hi_accepted = [], hi_started = [], hi_finished = [], hi_dropped = []\<rparr>"

inductive pool_run :: "'j WorkerPool \<Rightarrow> 'j PoolHistory \<Rightarrow> bool" where
  run_start: "pool_start threads capacity worker_pool = (s, p) \<Longrightarrow> status_ok s \<Longrightarrow> pool_run p no_history"
| run_submit: "pool_run p h \<Longrightarrow> pool_submit (Some job) p = (s, p') \<Longrightarrow> status_ok s \<Longrightarrow>
    pool_run p' (h\<lparr>hi_accepted := hi_accepted h @ [job]\<rparr>)"
| run_take: "pool_run p h \<Longrightarrow> worker_wake i p = Some p' \<Longrightarrow> pl_threads p' ! i = W_Running job \<Longrightarrow>
    pool_run p' (h\<lparr>hi_started := hi_started h @ [job]\<rparr>)"
| run_leave: "pool_run p h \<Longrightarrow> worker_wake i p = Some p' \<Longrightarrow> (\<forall>job. pl_threads p' ! i \<noteq> W_Running job) \<Longrightarrow>
    pool_run p' (h\<lparr>hi_dropped := hi_dropped h @ pl_queue p\<rparr>)"
| run_done: "pool_run p h \<Longrightarrow> worker_done i p = Some p' \<Longrightarrow> pl_threads p ! i = W_Running job \<Longrightarrow>
    pool_run p' (h\<lparr>hi_finished := hi_finished h @ [job]\<rparr>)"
| run_shutdown: "pool_run p h \<Longrightarrow> pool_run (pool_begin_shutdown p) h"
| run_abort: "pool_run p h \<Longrightarrow> pl_started p \<Longrightarrow> pool_run (pool_begin_abort p) (h\<lparr>hi_dropped := hi_dropped h @ pl_queue p\<rparr>)"
| run_join: "pool_run p h \<Longrightarrow> pool_join p = Some p' \<Longrightarrow> pool_run p' h"

section \<open>The invariant\<close>

primrec worker_job :: "'j Worker \<Rightarrow> 'j list" where
  "worker_job W_Waiting = []"
| "worker_job (W_Running job) = [job]"
| "worker_job W_Exited = []"

definition running_jobs :: "'j WorkerPool \<Rightarrow> 'j multiset" where
  "running_jobs p = mset (concat (map worker_job (pl_threads p)))"

lemma running_update:
  assumes "i < length ts"
  shows "mset (concat (map worker_job (ts[i := w]))) + mset (worker_job (ts ! i)) =
    mset (concat (map worker_job ts)) + mset (worker_job w)"
  by (subst (3) id_take_nth_drop [OF assms], subst upd_conv_take_nth_drop [OF assms]) (simp add: ac_simps)

text \<open>
  Every accepted job is queued, started or dropped, in the order of acceptance; every started
  one is running or finished; jobs are dropped by an abort only; and a worker that has left
  means that the pool is stopping with nothing queued.
\<close>

definition pool_inv :: "'j WorkerPool \<Rightarrow> 'j PoolHistory \<Rightarrow> bool" where
  "pool_inv p h \<longleftrightarrow>
     hi_accepted h = hi_started h @ hi_dropped h @ pl_queue p \<and>
     mset (hi_started h) = mset (hi_finished h) + running_jobs p \<and>
     pl_active p = size (running_jobs p) \<and>
     length (pl_queue p) \<le> pl_capacity p \<and>
     (pl_discard p \<longrightarrow> pl_queue p = [] \<and> pl_stopping p) \<and>
     (\<not> pl_discard p \<longrightarrow> hi_dropped h = []) \<and>
     (W_Exited \<in> set (pl_threads p) \<or> \<not> pl_started p \<longrightarrow> pl_queue p = [] \<and> pl_stopping p) \<and>
     (pl_started p \<longleftrightarrow> pl_threads p \<noteq> [])"

lemma replicate_waiting: "concat (map worker_job (replicate n W_Waiting)) = []"
  by (induction n) simp_all

lemma wake_cases:
  assumes "worker_wake i p = Some p'"
  obtains (exits) "i < length (pl_threads p)" "pl_threads p ! i = W_Waiting" "pl_queue p = []" "pl_stopping p"
    "p' = p\<lparr>pl_threads := (pl_threads p)[i := W_Exited]\<rparr>"
  | (discards) job jobs where "i < length (pl_threads p)" "pl_threads p ! i = W_Waiting" "pl_queue p = job # jobs" "pl_discard p"
    "p' = p\<lparr>pl_queue := [], pl_discarded := pl_discarded p + 1,
       pl_threads := (if pl_stopping p then (pl_threads p)[i := W_Exited] else pl_threads p)\<rparr>"
  | (takes) job jobs where "i < length (pl_threads p)" "pl_threads p ! i = W_Waiting" "pl_queue p = job # jobs" "\<not> pl_discard p"
    "p' = p\<lparr>pl_queue := jobs, pl_active := pl_active p + 1, pl_threads := (pl_threads p)[i := W_Running job]\<rparr>"
  using assms by (auto simp: worker_wake_def split: if_splits list.splits)

lemma exited_update: "W_Exited \<in> set (ts[i := w]) \<Longrightarrow> w = W_Exited \<or> W_Exited \<in> set ts"
  using set_update_subset_insert by fastforce

lemma pool_inv_run: "pool_run p h \<Longrightarrow> pool_inv p h"
proof (induction rule: pool_run.induct)
  case (run_start threads capacity s p)
  then show ?case
    by (auto simp: pool_start_def worker_pool_def pool_inv_def no_history_def running_jobs_def replicate_waiting split: if_splits)
next
  case (run_submit p h job s p')
  then show ?case by (auto simp: pool_submit_def pool_inv_def running_jobs_def split: if_splits)
next
  case (run_take p h i p' job)
  from run_take(2) show ?case
  proof (cases rule: wake_cases)
    case (takes job' jobs)
    then have "job' = job" using run_take(3) by simp
    with takes running_update [OF takes(1), of "W_Running job"] run_take(4) show ?thesis
      by (auto simp: pool_inv_def running_jobs_def dest: exited_update)
  qed (use run_take(3) in \<open>auto split: if_splits\<close>)
next
  case (run_leave p h i p')
  from run_leave(2) show ?case
  proof (cases rule: wake_cases)
    case exits
    with running_update [OF exits(1), of W_Exited] run_leave(4) show ?thesis
      by (auto simp: pool_inv_def running_jobs_def)
  next
    case (discards job jobs)
    with run_leave(4) show ?thesis by (simp add: pool_inv_def)
  next
    case (takes job jobs)
    with run_leave(3) show ?thesis by simp
  qed
next
  case (run_done p h i p' job)
  then have i: "i < length (pl_threads p)" by (auto simp: worker_done_def split: if_splits)
  define p0 where "p0 = p\<lparr>pl_threads := (pl_threads p)[i := W_Waiting]\<rparr>"
  have r: "running_jobs p = add_mset job (running_jobs p0)"
    using running_update [OF i, of W_Waiting] run_done(3) by (simp add: running_jobs_def p0_def)
  have n: "0 < pl_active p" and inv: "pool_inv p h" using run_done(4) r by (simp_all add: pool_inv_def)
  have p': "p' = p\<lparr>pl_active := pl_active p - 1, pl_completed := pl_completed p + 1,
      pl_threads := (pl_threads p)[i := W_Waiting]\<rparr>"
    using run_done(2,3) i n by (simp add: worker_done_def)
  have "running_jobs p' = running_jobs p0" by (simp add: p' p0_def running_jobs_def)
  moreover have "W_Exited \<in> set (pl_threads p') \<Longrightarrow> W_Exited \<in> set (pl_threads p)"
    by (auto simp: p' p0_def dest: exited_update)
  moreover have "pl_threads p \<noteq> []" using i by auto
  ultimately show ?case using inv r by (auto simp: pool_inv_def p' p0_def)
next
  case (run_shutdown p h)
  then show ?case by (auto simp: pool_begin_shutdown_def pool_inv_def running_jobs_def)
next
  case (run_abort p h)
  then show ?case by (auto simp: pool_begin_abort_def pool_inv_def running_jobs_def)
next
  case (run_join p h p')
  show ?case
  proof (cases "pl_started p")
    case True
    with run_join(2) have x: "\<forall>w \<in> set (pl_threads p). w = W_Exited" and p': "p' = p\<lparr>pl_threads := [], pl_started := False\<rparr>"
      by (auto simp: pool_join_def list_all_iff split: if_splits)
    have e: "W_Exited \<in> set (pl_threads p)" using run_join(3) True x by (cases "pl_threads p") (auto simp: pool_inv_def)
    have "concat (map worker_job (pl_threads p)) = []"
    proof -
      have "worker_job w = []" if "w \<in> set (pl_threads p)" for w using bspec [OF x that] by (simp only: worker_job.simps)
      then show ?thesis by simp
    qed
    with e run_join(3) show ?thesis by (auto simp: p' pool_inv_def running_jobs_def)
  qed (use run_join(2,3) in \<open>simp add: pool_join_def\<close>)
qed

section \<open>Winding down\<close>

text \<open>
  Each step of a worker uses up work: a queued job counts three, a running one two, a waiting
  worker one. So the workers of a pool that gets no more work come to rest, and a stopping pool
  rests only when all of them have left.
\<close>

primrec worker_weight :: "'j Worker \<Rightarrow> nat" where
  "worker_weight W_Waiting = 1"
| "worker_weight (W_Running job) = 2"
| "worker_weight W_Exited = 0"

definition pool_work :: "'j WorkerPool \<Rightarrow> nat" where
  "pool_work p = 3 * length (pl_queue p) + sum_list (map worker_weight (pl_threads p))"

inductive worker_step :: "'j WorkerPool \<Rightarrow> 'j WorkerPool \<Rightarrow> bool" where
  step_wake: "worker_wake i p = Some p' \<Longrightarrow> worker_step p p'"
| step_done: "worker_done i p = Some p' \<Longrightarrow> worker_step p p'"

fun worker_steps :: "'j WorkerPool list \<Rightarrow> bool" where
  "worker_steps (p # q # ps) \<longleftrightarrow> worker_step p q \<and> worker_steps (q # ps)"
| "worker_steps ps \<longleftrightarrow> ps \<noteq> []"

lemma weight_update:
  assumes "i < length ts"
  shows "sum_list (map worker_weight (ts[i := w])) + worker_weight (ts ! i) =
    sum_list (map worker_weight ts) + worker_weight w"
  by (subst (3) id_take_nth_drop [OF assms], subst upd_conv_take_nth_drop [OF assms]) simp

lemma worker_step_work: "worker_step p p' \<Longrightarrow> pool_work p' < pool_work p"
proof (induction rule: worker_step.induct)
  case (step_wake i p p')
  then show ?case
  proof (cases rule: wake_cases)
    case exits
    with weight_update [OF exits(1), of W_Exited] show ?thesis by (simp add: pool_work_def)
  next
    case (discards job jobs)
    with weight_update [OF discards(1), of W_Exited] show ?thesis by (simp add: pool_work_def)
  next
    case (takes job jobs)
    with weight_update [OF takes(1), of "W_Running job"] show ?thesis by (simp add: pool_work_def)
  qed
next
  case (step_done i p p')
  then obtain job where i: "i < length (pl_threads p)" "pl_threads p ! i = W_Running job"
    by (auto simp: worker_done_def split: if_splits Worker.splits)
  with step_done weight_update [OF i(1), of W_Waiting] show ?case by (auto simp: worker_done_def pool_work_def)
qed

lemma worker_steps_bounded: "worker_steps (p # ps) \<Longrightarrow> length ps \<le> pool_work p"
proof (induction ps arbitrary: p)
  case (Cons q ps)
  then have "length ps \<le> pool_work q" "pool_work q < pool_work p" by (auto dest: worker_step_work)
  then show ?case by simp
qed simp

lemma worker_step_stopping: "worker_step p p' \<Longrightarrow> pl_stopping p' = pl_stopping p \<and> pl_started p' = pl_started p"
  by (induction rule: worker_step.induct) (auto elim!: wake_cases simp: worker_done_def split: if_splits Worker.splits)

lemma worker_steps_run:
  "worker_steps (p # ps) \<Longrightarrow> pool_run p h \<Longrightarrow>
     \<exists>h'. pool_run (last (p # ps)) h' \<and> hi_accepted h' = hi_accepted h \<and> pl_stopping (last (p # ps)) = pl_stopping p \<and>
       pl_started (last (p # ps)) = pl_started p"
proof (induction ps arbitrary: p h)
  case (Cons q ps)
  have s: "worker_step p q" and r: "worker_steps (q # ps)" using Cons.prems(1) by simp_all
  obtain h1 where h1: "pool_run q h1" "hi_accepted h1 = hi_accepted h"
    using s
  proof cases
    case (step_wake i)
    show ?thesis
    proof (cases "\<exists>job. pl_threads q ! i = W_Running job")
      case True
      then obtain job where "pl_threads q ! i = W_Running job" ..
      from run_take [OF Cons.prems(2) step_wake this] that show ?thesis by simp
    next
      case False
      then have "\<forall>job. pl_threads q ! i \<noteq> W_Running job" by simp
      from run_leave [OF Cons.prems(2) step_wake this] that show ?thesis by simp
    qed
  next
    case (step_done i)
    then obtain job where "pl_threads p ! i = W_Running job"
      by (auto simp: worker_done_def split: if_splits Worker.splits)
    from run_done [OF Cons.prems(2) step_done this] that show ?thesis by simp
  qed
  from Cons.IH [OF r h1(1)] h1(2) worker_step_stopping [OF s] show ?case by auto
qed auto

lemma stopping_rests:
  assumes "pl_stopping p" and "\<nexists>p'. worker_step p p'"
  shows "list_all (\<lambda>w. w = W_Exited) (pl_threads p)"
proof (rule ccontr)
  assume "\<not> ?thesis"
  then obtain i where i: "i < length (pl_threads p)" "pl_threads p ! i \<noteq> W_Exited"
    by (auto simp: list_all_length)
  show False
  proof (cases "pl_threads p ! i")
    case W_Waiting
    then have "\<exists>p'. worker_wake i p = Some p'" using i assms(1) by (auto simp: worker_wake_def split: list.splits)
    with assms(2) show False by (auto intro: step_wake)
  next
    case (W_Running job)
    with i have "\<exists>p'. worker_done i p = Some p'" by (simp add: worker_done_def)
    with assms(2) show False by (auto intro: step_done)
  qed (use i in simp)
qed

end
