(* ===== verification/Fabric.thy ===== *)
theory Fabric
  imports Engine Durable Pool
begin

text \<open>
  The runtime host: \<open>Fabric\<close> of \<open>include/backpressure/runtime/fabric.hpp\<close> and
  \<open>src/runtime/fabric.cpp\<close>, the part that runs under the state lock.

  A \<open>Fabric\<close> is the record of the members the lock guards; each method is one function that
  returns its result and the new members, because it holds the lock from its first line to its
  last. The publisher registry is an association list with distinct keys; no result depends on
  its order. The durable store is an option, as the pointer is. The asynchronous part (tickets
  and workers) is in \<open>Tickets\<close>.

  The process id and the reading of the steady clock are parameters of \<open>fabric_boot\<close>, as are the
  answers of the directory. An outer option is the fuel of the engine's search and of the
  topology's component search, which their theories show never to run out.
\<close>

section \<open>Configuration and state\<close>

record FabricConfig =
  fc_state_directory :: string
  fc_journal_limits :: JournalLimits
  fc_topology_limits :: TopologyLimits
  fc_max_publishers :: nat
  fc_lineage_capacity :: nat
  fc_application_capacity :: nat
  fc_damping_capacity :: nat
  fc_compaction_threshold :: nat
  fc_max_revalidation_entries :: nat
  fc_worker_threads :: nat
  fc_worker_queue_capacity :: nat
  fc_max_tickets :: nat

datatype PublisherState = PS_Unknown | PS_Live | PS_Retired | PS_Count

fun publisher_state_to_string :: "PublisherState \<Rightarrow> string" where
  "publisher_state_to_string PS_Unknown = ''Unknown''"
| "publisher_state_to_string PS_Live = ''Live''"
| "publisher_state_to_string PS_Retired = ''Retired''"
| "publisher_state_to_string PS_Count = ''Invalid''"

record PublisherRecord =
  pub_source :: SourceId
  pub_incarnation :: Incarnation
  pub_state :: PublisherState
  pub_registered_at :: Tick
  pub_last_heartbeat :: Tick
  pub_accepted :: u64
  pub_rejected :: u64
  pub_restored_from_durable :: bool

record Fabric =
  fab_config :: FabricConfig
  fab_store :: "DurableStore option"
  fab_topology :: "Topology option"
  fab_policy :: "PropagationPolicy option"
  fab_ledger :: PropagationLedger
  fab_fences :: FenceTable
  fab_publishers :: "(SourceId \<times> PublisherRecord) list"
  fab_revalidation :: "ResourceId list"
  fab_incarnation :: Incarnation
  fab_epoch :: Epoch
  fab_previous_epoch :: Epoch
  fab_topologies_installed :: u64
  fab_policies_installed :: u64
  fab_signals_accepted :: u64
  fab_signals_rejected :: u64
  fab_shutting_down :: bool
  fab_attempts :: u64

text \<open>\<open>Fabric::Fabric()\<close> and the first lines of \<open>open\<close>.\<close>

definition fabric_new :: "FabricConfig \<Rightarrow> Incarnation \<Rightarrow> Fabric" where
  "fabric_new config incarnation =
     \<lparr>fab_config = config, fab_store = None, fab_topology = None, fab_policy = None,
      fab_ledger = propagation_ledger (fc_lineage_capacity config) (fc_application_capacity config)
        (fc_damping_capacity config),
      fab_fences = [], fab_publishers = [], fab_revalidation = [], fab_incarnation = incarnation,
      fab_epoch = epoch_none, fab_previous_epoch = epoch_none, fab_topologies_installed = 0,
      fab_policies_installed = 0, fab_signals_accepted = 0, fab_signals_rejected = 0,
      fab_shutting_down = False, fab_attempts = 1\<rparr>"

text \<open>\<open>BPFAB_TRY(store_->op(...))\<close>, nothing without a store.\<close>

definition on_store :: "(DurableStore \<Rightarrow> Status \<times> DurableStore) \<Rightarrow> Fabric \<Rightarrow> Status \<times> Fabric" where
  "on_store g f =
     (case fab_store f of
        None \<Rightarrow> (status_success, f)
      | Some s \<Rightarrow> (let (e, s') = g s in (e, f\<lparr>fab_store := Some s'\<rparr>)))"

section \<open>Opening\<close>

definition durable_config :: "FabricConfig \<Rightarrow> string \<Rightarrow> DurableConfig" where
  "durable_config config name =
     \<lparr>dc_directory = fc_state_directory config, dc_journal_name = name,
      dc_journal_limits = fc_journal_limits config, dc_max_lineages = fc_lineage_capacity config,
      dc_max_footprint_entries =
        (if fc_max_revalidation_entries config < fc_application_capacity config
         then fc_max_revalidation_entries config else fc_application_capacity config)\<rparr>"

definition boot_incarnation :: "u64 \<Rightarrow> u32 \<Rightarrow> Incarnation" where
  "boot_incarnation nonce pid = mint (boot_from_seed nonce pid 0x9E3779B97F4A7C15) pid 0"

text \<open>The loop over the recovered fences stops at the first that the table refuses.\<close>

fun rebind_fences :: "Epoch \<Rightarrow> Fence list \<Rightarrow> FenceTable \<Rightarrow> Status \<times> FenceTable" where
  "rebind_fences epoch [] fs = (status_success, fs)"
| "rebind_fences epoch (fence # fences) fs =
     (let (e, fs') = fence_add fs (fence\<lparr>fence_epoch := epoch\<rparr>)
      in if status_ok e then rebind_fences epoch fences fs' else (e, fs'))"

definition restore_durable :: "DurableStore \<Rightarrow> Fabric \<Rightarrow> Status \<times> Fabric" where
  "restore_durable s f =
     (let st = ds_state s;
          f1 = f\<lparr>fab_store := Some s, fab_policy := (if rs_has_policy st then Some (rs_policy st) else None)\<rparr>;
          (e, fs) = rebind_fences (fab_epoch f1) (rs_fences st) (fab_fences f1);
          f2 = f1\<lparr>fab_fences := fs\<rparr>
      in if \<not> status_ok e then (e, f2)
         else (status_success,
           f2\<lparr>fab_ledger := fold (\<lambda>lineage l. snd (mark_lineage l lineage)) (rs_lineages st) (fab_ledger f2),
              fab_revalidation := rs_revalidation_required st\<rparr>))"

text \<open>\<open>Fabric::open\<close> up to the start of the workers. The file is returned as it was left.\<close>

definition fabric_boot ::
  "FabricConfig \<Rightarrow> string \<Rightarrow> StoreDirectory \<Rightarrow> u64 \<Rightarrow> u32 \<Rightarrow> JournalFile \<Rightarrow> Fabric result \<times> JournalFile" where
  "fabric_boot config name dir nonce pid file =
     (let f0 = fabric_new config (boot_incarnation nonce pid)
      in if fc_state_directory config = [] then (Inr (f0\<lparr>fab_epoch := Epoch 1\<rparr>), file)
         else case store_open (durable_config config name) dir file of
           (Inl e, file1) \<Rightarrow> (fail (st_code e) (st_context e) (st_detail e), file1)
         | (Inr s0, file1) \<Rightarrow>
             (let (e1, s1) = establish_epoch kNoTick s0
              in if \<not> status_ok e1 then (Inl e1, jn_file (ds_journal s1))
                 else
                   let f1 = f0\<lparr>fab_previous_epoch := rs_epoch (ds_state s0), fab_epoch := rs_epoch (ds_state s1)\<rparr>;
                       (e2, s2) = record_boot (fab_incarnation f1) kNoTick s1
                   in if \<not> status_ok e2 then (Inl e2, jn_file (ds_journal s2))
                      else
                        let (e3, f2) = restore_durable s2 f1
                        in (if status_ok e3 then Inr f2 else Inl e3, jn_file (ds_journal s2))))"

section \<open>Configuration\<close>

definition shutting_down_error :: "string \<Rightarrow> Status" where
  "shutting_down_error what = status_error ShuttingDown what 0"

definition install_topology ::
  "Resource list \<Rightarrow> DependencyEdge list \<Rightarrow> Tick \<Rightarrow> Fabric \<Rightarrow> (Status \<times> Fabric) option" where
  "install_topology resources edges now f =
     (if fab_shutting_down f then Some (shutting_down_error ''install topology'', f)
      else case build resources edges (fc_topology_limits (fab_config f)) True of
        None \<Rightarrow> None
      | Some (Inl e) \<Rightarrow> Some (e, f)
      | Some (Inr topology) \<Rightarrow>
          Some (try_state (on_store (bind_topology (top_digest topology) (top_generation topology) now) f) (\<lambda>f1.
            (status_success, f1\<lparr>fab_topology := Some topology,
               fab_topologies_installed := fab_topologies_installed f1 + 1\<rparr>))))"

definition install_policy :: "PropagationPolicy \<Rightarrow> Tick \<Rightarrow> Fabric \<Rightarrow> Status \<times> Fabric" where
  "install_policy policy now f =
     (let install = try_state (on_store (persist_policy policy now) f) (\<lambda>f1.
            (status_success, f1\<lparr>fab_policy := Some policy, fab_policies_installed := fab_policies_installed f1 + 1\<rparr>))
      in if fab_shutting_down f then (shutting_down_error ''install policy'', f)
         else if \<not> status_ok (policy_validate policy) then (policy_validate policy, f)
         else case fab_policy f of
           None \<Rightarrow> install
         | Some live \<Rightarrow>
             if pol_id live = pol_id policy \<and> pol_generation policy \<le> pol_generation live then
               (if policy_digest live = policy_digest policy then (status_success, f)
                else (status_error StaleGeneration ''policy generation'' (gen_value (pol_generation policy)), f))
             else install)"

section \<open>Publishers\<close>

definition find_publisher :: "SourceId \<Rightarrow> Fabric \<Rightarrow> PublisherRecord option" where
  "find_publisher source f = map_of (fab_publishers f) source"

definition set_publisher :: "SourceId \<Rightarrow> PublisherRecord \<Rightarrow> Fabric \<Rightarrow> Fabric" where
  "set_publisher source p f = f\<lparr>fab_publishers := AList.update source p (fab_publishers f)\<rparr>"

definition new_publisher :: "SourceId \<Rightarrow> Incarnation \<Rightarrow> Tick \<Rightarrow> PublisherRecord" where
  "new_publisher source incarnation now =
     \<lparr>pub_source = source, pub_incarnation = incarnation, pub_state = PS_Live, pub_registered_at = now,
      pub_last_heartbeat = now, pub_accepted = 0, pub_rejected = 0, pub_restored_from_durable = False\<rparr>"

definition register_publisher :: "SourceId \<Rightarrow> Incarnation \<Rightarrow> Tick \<Rightarrow> Fabric \<Rightarrow> Status \<times> Fabric" where
  "register_publisher source incarnation now f =
     (let fresh = (status_success, set_publisher source (new_publisher source incarnation now) f)
      in if fab_shutting_down f then (shutting_down_error ''register publisher'', f)
         else if \<not> id_valid source \<or> \<not> inc_valid incarnation then
           (status_error InvalidArgument ''publisher identity'' 0, f)
         else case find_publisher source f of
           Some p \<Rightarrow>
             if pub_incarnation p = incarnation then
               (status_success, set_publisher source (p\<lparr>pub_state := PS_Live, pub_last_heartbeat := now\<rparr>) f)
             else if same_boot (pub_incarnation p) incarnation \<and> inc_seq incarnation \<le> inc_seq (pub_incarnation p) then
               (status_error StaleIncarnation ''publisher incarnation'' (inc_seq incarnation), f)
             else fresh
         | None \<Rightarrow>
             if length (fab_publishers f) \<ge> fc_max_publishers (fab_config f) then
               (status_error LimitExceeded ''publisher registry'' (of_nat (length (fab_publishers f))), f)
             else fresh)"

definition publisher_heartbeat :: "SourceId \<Rightarrow> Incarnation \<Rightarrow> Tick \<Rightarrow> Fabric \<Rightarrow> Status \<times> Fabric" where
  "publisher_heartbeat source incarnation now f =
     (if fab_shutting_down f then (shutting_down_error ''heartbeat'', f)
      else case find_publisher source f of
        None \<Rightarrow> (status_error NotFound ''publisher'' (id_value source), f)
      | Some p \<Rightarrow>
          if pub_incarnation p \<noteq> incarnation then
            (status_error StaleIncarnation ''publisher incarnation'' (inc_seq incarnation), f)
          else if pub_state p \<noteq> PS_Live then (status_error NotReady ''publisher not live'' 0, f)
          else if now < pub_last_heartbeat p then (status_error InvalidArgument ''heartbeat regression'' now, f)
          else (status_success, set_publisher source (p\<lparr>pub_last_heartbeat := now\<rparr>) f))"

definition retire_publisher :: "SourceId \<Rightarrow> Incarnation \<Rightarrow> Tick \<Rightarrow> Fabric \<Rightarrow> Status \<times> Fabric" where
  "retire_publisher source incarnation now f =
     (case find_publisher source f of
        None \<Rightarrow> (status_error NotFound ''publisher'' (id_value source), f)
      | Some p \<Rightarrow>
          if pub_incarnation p \<noteq> incarnation then
            (status_error StaleIncarnation ''publisher incarnation'' (inc_seq incarnation), f)
          else (status_success, set_publisher source (p\<lparr>pub_state := PS_Retired, pub_last_heartbeat := now\<rparr>) f))"

section \<open>Fences and revalidation\<close>

definition fabric_put_fence :: "Fence \<Rightarrow> Tick \<Rightarrow> Fabric \<Rightarrow> Status \<times> Fabric" where
  "fabric_put_fence fence0 now f =
     (let fence = (if \<not> epoch_known (fence_epoch fence0) then fence0\<lparr>fence_epoch := fab_epoch f\<rparr> else fence0)
      in if fab_shutting_down f then (shutting_down_error ''put fence'', f)
         else if fence_epoch fence \<noteq> fab_epoch f then
           (status_error StaleEpoch ''fence epoch'' (epoch_value (fence_epoch fence)), f)
         else try_state (on_store (put_fence fence now) f) (\<lambda>f1.
           let (e, fs) = fence_add (fab_fences f1) fence in (e, f1\<lparr>fab_fences := fs\<rparr>)))"

definition fabric_clear_fence :: "FenceId \<Rightarrow> Tick \<Rightarrow> Fabric \<Rightarrow> Status \<times> Fabric" where
  "fabric_clear_fence i now f =
     try_state (on_store (remove_fence i now) f) (\<lambda>f1.
       let (e, fs) = fence_remove (fab_fences f1) i in (e, f1\<lparr>fab_fences := fs\<rparr>))"

definition mark_revalidation_required :: "ResourceId \<Rightarrow> Tick \<Rightarrow> Fabric \<Rightarrow> Status \<times> Fabric" where
  "mark_revalidation_required resource now f =
     (if fab_shutting_down f then (shutting_down_error ''mark revalidation'', f)
      else try_state (on_store (request_revalidation resource now) f) (\<lambda>f1.
        if resource \<in> set (fab_revalidation f1) then (status_success, f1)
        else if length (fab_revalidation f1) \<ge> fc_max_revalidation_entries (fab_config f1) then
          (status_error LimitExceeded ''revalidation list'' (of_nat (length (fab_revalidation f1))), f1)
        else (status_success, f1\<lparr>fab_revalidation := fab_revalidation f1 @ [resource]\<rparr>)))"

definition fabric_clear_revalidation :: "ResourceId \<Rightarrow> Tick \<Rightarrow> Fabric \<Rightarrow> Status \<times> Fabric" where
  "fabric_clear_revalidation resource now f =
     try_state (on_store (store_clear_revalidation resource now) f) (\<lambda>f1.
       (status_success, f1\<lparr>fab_revalidation := remove1 resource (fab_revalidation f1)\<rparr>))"

end
