(* ===== verification/Publish.thy ===== *)
theory Publish
  imports Fabric
begin

text \<open>
  Publishing, recovery, flush and shutdown of the fabric: the methods of \<open>src/runtime/fabric.cpp\<close>
  that run the engine on the fabric's own ledger and journal what they do.
\<close>

section \<open>The engine on the fabric's state\<close>

definition engine_context :: "Fabric \<Rightarrow> EngineContext" where
  "engine_context f =
     \<lparr>ctx_topology = fab_topology f, ctx_policy = fab_policy f, ctx_ledger = Some (fab_ledger f),
      ctx_fences = Some (fab_fences f), ctx_live_epoch = fab_epoch f\<rparr>"

text \<open>The context holds a pointer to the ledger, so what the engine leaves there is the fabric's ledger.\<close>

definition run_propagate ::
  "PropagationRequest \<Rightarrow> Fabric \<Rightarrow> (PropagationOutcome \<times> Fabric) option" where
  "run_propagate req f =
     map_option (\<lambda>(outcome, l). (outcome, case l of None \<Rightarrow> f | Some l' \<Rightarrow> f\<lparr>fab_ledger := l'\<rparr>))
       (propagate (engine_context f) req)"

text \<open>\<open>attempts_.fetch_add(1)\<close>.\<close>

definition next_attempt :: "Fabric \<Rightarrow> 'tag StrongId \<times> Fabric" where
  "next_attempt f = (StrongId (fab_attempts f), f\<lparr>fab_attempts := fab_attempts f + 1\<rparr>)"

definition publish_request ::
  "Topology \<Rightarrow> PropagationPolicy \<Rightarrow> PropagationId \<Rightarrow> PressureSignal list \<Rightarrow> Tick \<Rightarrow> Fabric \<Rightarrow> PropagationRequest" where
  "publish_request topo policy i signals now f =
     \<lparr>req_id = i, req_policy_id = pol_id policy, req_policy_generation = pol_generation policy,
      req_topology_digest = top_digest topo, req_epoch = fab_epoch f, req_now = now, req_signals = signals,
      req_pins = [], req_dry_run = True, req_record_budget_override = 0\<rparr>"

definition commit_request :: "PropagationRequest \<Rightarrow> PropagationRequest" where
  "commit_request req = req\<lparr>req_dry_run := False\<rparr>"

section \<open>Counting and journaling\<close>

definition reject_signal :: "Fabric \<Rightarrow> Fabric" where
  "reject_signal f = f\<lparr>fab_signals_rejected := fab_signals_rejected f + 1\<rparr>"

definition update_publisher :: "SourceId \<Rightarrow> (PublisherRecord \<Rightarrow> PublisherRecord) \<Rightarrow> Fabric \<Rightarrow> Fabric" where
  "update_publisher source g f =
     (case find_publisher source f of None \<Rightarrow> f | Some p \<Rightarrow> set_publisher source (g p) f)"

definition reject_publisher :: "SourceId \<Rightarrow> Fabric \<Rightarrow> Fabric" where
  "reject_publisher source f =
     reject_signal (update_publisher source (\<lambda>p. p\<lparr>pub_rejected := pub_rejected p + 1\<rparr>) f)"

definition accept_signal :: "SourceId \<Rightarrow> Fabric \<Rightarrow> Fabric" where
  "accept_signal source f =
     update_publisher source (\<lambda>p. p\<lparr>pub_accepted := pub_accepted p + 1\<rparr>)
       (f\<lparr>fab_signals_accepted := fab_signals_accepted f + 1\<rparr>)"

text \<open>\<open>fail<T>(st.code(), st.context(), st.detail())\<close>.\<close>

definition fail_with :: "Status \<Rightarrow> 'a result" where
  "fail_with s = fail (st_code s) (st_context s) (st_detail s)"

definition journal_compaction :: "Fabric \<Rightarrow> Fabric" where
  "journal_compaction f =
     (case fab_store f of
        None \<Rightarrow> f
      | Some s \<Rightarrow> f\<lparr>fab_store := Some (snd (compact_if_needed (fc_compaction_threshold (fab_config f)) s))\<rparr>)"

text \<open>The attempt is aborted when one was begun; whether that succeeds is not looked at.\<close>

definition abandon_attempt :: "AttemptId \<Rightarrow> Tick \<Rightarrow> Fabric \<Rightarrow> Fabric" where
  "abandon_attempt attempt now f =
     (if id_valid attempt then snd (on_store (abort_attempt attempt now) f) else f)"

text \<open>\<open>record_lineage\<close> for each signal, up to the first that fails.\<close>

fun record_lineages :: "PressureSignal list \<Rightarrow> Tick \<Rightarrow> Fabric \<Rightarrow> Status \<times> Fabric" where
  "record_lineages [] now f = (status_success, f)"
| "record_lineages (signal # signals) now f =
     try_state (on_store (record_lineage (sig_lineage signal) now) f) (record_lineages signals now)"

text \<open>
  The durable intent: an attempt is begun and the lineages are recorded before anything
  authoritative happens; nothing without a store or when no signal was accepted by the plan.
\<close>

definition durable_intent ::
  "bool \<Rightarrow> PropagationOutcome \<Rightarrow> PressureSignal list \<Rightarrow> Tick \<Rightarrow> Fabric \<Rightarrow> Status \<times> AttemptId \<times> Fabric" where
  "durable_intent wanted planned signals now f =
     (if fab_store f \<noteq> None \<and> wanted \<and> signals_accepted (out_counters planned) > 0 then
        (let (attempt, f1) = next_attempt f; (e1, f2) = on_store (begin_attempt attempt now) f1
         in if \<not> status_ok e1 then (e1, attempt, f2)
            else
              let (e2, f3) = record_lineages signals now f2
              in if \<not> status_ok e2 then (e2, attempt, abandon_attempt attempt now f3)
                 else (status_success, attempt, f3))
      else (status_success, id_invalid, f))"

definition close_intent :: "AttemptId \<Rightarrow> Tick \<Rightarrow> Fabric \<Rightarrow> Status \<times> Fabric" where
  "close_intent attempt now f =
     (if id_valid attempt then on_store (commit_attempt attempt now) f else (status_success, f))"

section \<open>Publishing one signal\<close>

text \<open>The checks before the plan: why a signal is not planned at all, and whether the rejection is counted.\<close>

definition publish_refusal :: "PressureSignal \<Rightarrow> Fabric \<Rightarrow> (Status \<times> bool) option" where
  "publish_refusal signal f =
     (if fab_shutting_down f then Some (shutting_down_error ''publish'', False)
      else case (fab_topology f, fab_policy f) of
        (Some topo, Some policy) \<Rightarrow>
          (case find_publisher (sig_source signal) f of
             None \<Rightarrow> Some (status_error NotFound ''publisher'' (id_value (sig_source signal)), False)
           | Some p \<Rightarrow>
               if pub_incarnation p \<noteq> sig_publisher signal then
                 Some (status_error StaleIncarnation ''publisher incarnation'' (inc_seq (sig_publisher signal)), True)
               else if pub_state p \<noteq> PS_Live then Some (status_error NotReady ''publisher not live'' 0, True)
               else if sig_epoch signal \<noteq> fab_epoch f then
                 Some (status_error StaleEpoch ''signal epoch'' (epoch_value (sig_epoch signal)), True)
               else if sig_topology_digest signal \<noteq> top_digest topo then
                 Some (status_error StaleGeneration ''signal topology'' 0, True)
               else None)
      | _ \<Rightarrow> Some (status_error NotReady ''fabric not configured'' 0, False))"

definition cancelled_outcome :: "PropagationOutcome \<Rightarrow> PropagationOutcome" where
  "cancelled_outcome planned = outcome_finalize
     (planned\<lparr>out_status := status_error Cancelled ''publish cancelled'' 0, out_complete := False\<rparr>)"

text \<open>Phases three and four, after the intent has been journaled.\<close>

definition publish_commit ::
  "PropagationRequest \<Rightarrow> PropagationOutcome \<Rightarrow> SourceId \<Rightarrow> AttemptId \<Rightarrow> Tick \<Rightarrow> Fabric \<Rightarrow>
   (PropagationOutcome result \<times> Fabric) option" where
  "publish_commit req planned source attempt now f =
     (case run_propagate (commit_request req) f of
        None \<Rightarrow> None
      | Some (outcome, f1) \<Rightarrow> Some
          (if \<not> status_ok (out_status outcome) then
             (Inr outcome, reject_publisher source (abandon_attempt attempt now f1))
           else if out_fingerprint outcome \<noteq> out_fingerprint planned then
             (fail Internal ''plan/commit fingerprint mismatch'' 0, reject_signal (abandon_attempt attempt now f1))
           else
             let (e, f2) = close_intent attempt now f1
             in if \<not> status_ok e then (fail_with e, reject_signal f2)
                else (Inr outcome, journal_compaction (accept_signal source f2))))"

text \<open>
  The flag of a cancellable publish is read once, after the plan; \<open>cancelled\<close> is what is read,
  false for a publish without a flag.
\<close>

definition publish_locked ::
  "PressureSignal \<Rightarrow> Tick \<Rightarrow> bool \<Rightarrow> bool \<Rightarrow> Fabric \<Rightarrow> (PropagationOutcome result \<times> Fabric) option" where
  "publish_locked signal now wanted cancelled f =
     (case publish_refusal signal f of
        Some (e, counted) \<Rightarrow> Some (Inl e, if counted then reject_publisher (sig_source signal) f else f)
      | None \<Rightarrow>
          (case (fab_topology f, fab_policy f) of
             (Some topo, Some policy) \<Rightarrow>
               (let (i, f1) = next_attempt f; req = publish_request topo policy i [signal] now f1
                in case run_propagate req f1 of
                  None \<Rightarrow> None
                | Some (planned, f2) \<Rightarrow>
                    if \<not> status_ok (out_status planned) then
                      Some (Inr planned, reject_publisher (sig_source signal) f2)
                    else if cancelled then Some (Inr (cancelled_outcome planned), reject_signal f2)
                    else
                      let (e, attempt, f3) = durable_intent wanted planned [signal] now f2
                      in if \<not> status_ok e then Some (fail_with e, reject_signal f3)
                         else publish_commit req planned (sig_source signal) attempt now f3)
           | _ \<Rightarrow> None))"

definition publish :: "PressureSignal \<Rightarrow> Tick \<Rightarrow> Fabric \<Rightarrow> (PropagationOutcome result \<times> Fabric) option" where
  "publish signal now f = publish_locked signal now True False f"

section \<open>Publishing a batch\<close>

fun batch_refusal :: "PressureSignal list \<Rightarrow> Fabric \<Rightarrow> Status" where
  "batch_refusal [] f = status_success"
| "batch_refusal (signal # signals) f =
     (case find_publisher (sig_source signal) f of
        None \<Rightarrow> status_error NotFound ''publisher'' (id_value (sig_source signal))
      | Some p \<Rightarrow>
          if pub_incarnation p \<noteq> sig_publisher signal then
            status_error StaleIncarnation ''publisher incarnation'' (inc_seq (sig_publisher signal))
          else if pub_state p \<noteq> PS_Live then status_error NotReady ''publisher not live'' 0
          else batch_refusal signals f)"

definition batch_commit ::
  "PropagationRequest \<Rightarrow> PropagationOutcome \<Rightarrow> AttemptId \<Rightarrow> Tick \<Rightarrow> Fabric \<Rightarrow>
   (PropagationOutcome result \<times> Fabric) option" where
  "batch_commit req planned attempt now f =
     (case run_propagate (commit_request req) f of
        None \<Rightarrow> None
      | Some (outcome, f1) \<Rightarrow> Some
          (if \<not> status_ok (out_status outcome) then (Inr outcome, reject_signal (abandon_attempt attempt now f1))
           else if out_fingerprint outcome \<noteq> out_fingerprint planned then
             (fail Internal ''plan/commit fingerprint mismatch'' 0, abandon_attempt attempt now f1)
           else
             let (e, f2) = close_intent attempt now f1
             in if \<not> status_ok e then (fail_with e, f2)
                else (Inr outcome, journal_compaction (f2
                  \<lparr>fab_signals_accepted := fab_signals_accepted f2 + signals_accepted (out_counters outcome),
                   fab_signals_rejected := fab_signals_rejected f2 + signals_rejected (out_counters outcome)\<rparr>))))"

definition publish_batch ::
  "PressureSignal list \<Rightarrow> Tick \<Rightarrow> Fabric \<Rightarrow> (PropagationOutcome result \<times> Fabric) option" where
  "publish_batch signals now f =
     (if fab_shutting_down f then Some (Inl (shutting_down_error ''publish batch''), f)
      else case (fab_topology f, fab_policy f) of
        (Some topo, Some policy) \<Rightarrow>
          (if signals = [] then Some (fail InvalidArgument ''empty signal batch'' 0, f)
           else if \<not> status_ok (batch_refusal signals f) then Some (Inl (batch_refusal signals f), f)
           else
             let (i, f1) = next_attempt f; req = publish_request topo policy i signals now f1
             in case run_propagate req f1 of
               None \<Rightarrow> None
             | Some (planned, f2) \<Rightarrow>
                 if \<not> status_ok (out_status planned) then Some (Inr planned, reject_signal f2)
                 else
                   let (e, attempt, f3) = durable_intent True planned signals now f2
                   in if \<not> status_ok e then Some (fail_with e, f3)
                      else batch_commit req planned attempt now f3)
      | _ \<Rightarrow> Some (fail NotReady ''fabric not configured'' 0, f))"

section \<open>Recovery\<close>

definition fabric_recover ::
  "SourceId \<Rightarrow> ResourceId \<Rightarrow> Generation \<Rightarrow> Magnitude \<Rightarrow> AuthorityVector \<Rightarrow> Tick \<Rightarrow> Fabric \<Rightarrow>
   PropagationOutcome result \<times> Fabric" where
  "fabric_recover source origin origin_generation residual authority now f =
     (if fab_shutting_down f then (Inl (shutting_down_error ''recover''), f)
      else case (fab_topology f, fab_policy f) of
        (Some topo, Some policy) \<Rightarrow>
          (case find_publisher source f of
             None \<Rightarrow> (fail NotFound ''publisher'' (id_value source), f)
           | Some p \<Rightarrow>
               if pub_state p \<noteq> PS_Live then (fail NotReady ''publisher not live'' 0, f)
               else
                 let (i, f1) = next_attempt f;
                     (outcome, l) = recover (engine_context f1)
                       \<lparr>rcv_id = i, rcv_source = source, rcv_origin = origin, rcv_origin_generation = origin_generation,
                        rcv_topology_digest = top_digest topo, rcv_epoch = fab_epoch f1, rcv_now = now,
                        rcv_residual = residual, rcv_authority = authority, rcv_dry_run = False\<rparr>
                 in (Inr outcome, case l of None \<Rightarrow> f1 | Some l' \<Rightarrow> f1\<lparr>fab_ledger := l'\<rparr>))
      | _ \<Rightarrow> (fail NotReady ''fabric not configured'' 0, f))"

section \<open>Flush and shutdown\<close>

text \<open>The pairs with pressure applied, in the order of the ledger's table.\<close>

definition footprint_of :: "PropagationLedger \<Rightarrow> (SourceId \<times> ResourceId) list" where
  "footprint_of l = map fst (filter (\<lambda>(key, record). rec_present record \<and> \<not> mag_is_zero (rec_magnitude record))
     (led_applications l))"

definition footprint_chunk :: "FabricConfig \<Rightarrow> nat" where
  "footprint_chunk config =
     (let max_bytes = jl_max_record_bytes (fc_journal_limits config);
          per_record = (if max_bytes > 16 then (max_bytes - 16) div 16 else 1)
      in if per_record = 0 then 1 else per_record)"

fun record_chunks ::
  "nat \<Rightarrow> (SourceId \<times> ResourceId) list \<Rightarrow> Tick \<Rightarrow> Fabric \<Rightarrow> Status \<times> Fabric" where
  "record_chunks chunk entries now f =
     (if entries = [] \<or> chunk = 0 then (status_success, f)
      else try_state (on_store (record_pressure_footprint (take chunk entries) now) f)
             (record_chunks chunk (drop chunk entries) now))"

declare record_chunks.simps [simp del]

definition flush_locked :: "Tick \<Rightarrow> Fabric \<Rightarrow> Status \<times> Fabric" where
  "flush_locked now f =
     (if fab_store f = None then (status_success, f)
      else
        let footprint = footprint_of (fab_ledger f)
        in if footprint = [] then on_store store_sync f
           else try_state (record_chunks (footprint_chunk (fab_config f)) footprint now f) (on_store store_sync))"

text \<open>The third part of \<open>shutdown\<close>, under the state lock.\<close>

definition shutdown_locked :: "Tick \<Rightarrow> Fabric \<Rightarrow> Status \<times> Fabric" where
  "shutdown_locked now f =
     (let (e, f1) = flush_locked now f
      in (e, f1\<lparr>fab_publishers := map (\<lambda>(source, p). (source, p\<lparr>pub_state := PS_Retired\<rparr>)) (fab_publishers f1),
                fab_ledger := ledger_clear (fab_ledger f1)\<rparr>))"

section \<open>Introspection\<close>

record FabricStatus =
  fs_epoch :: Epoch
  fs_previous_epoch :: Epoch
  fs_incarnation :: Incarnation
  fs_durable :: bool
  fs_has_topology :: bool
  fs_has_policy :: bool
  fs_topology_digest :: Digest128
  fs_topology_generation :: Generation
  fs_policy_id :: PolicyId
  fs_policy_generation :: Generation
  fs_publishers :: nat
  fs_live_publishers :: nat
  fs_fences :: nat
  fs_revalidation_required :: nat
  fs_recovered_lineages :: nat
  fs_lineage_evictions :: u64
  fs_ambiguous_attempts :: u64
  fs_corrupt_records :: u64
  fs_signals_accepted :: u64
  fs_signals_rejected :: u64
  fs_topologies_installed :: u64
  fs_policies_installed :: u64
  fs_shutting_down :: bool
  fs_restored_liveness :: bool

definition fabric_status :: "Fabric \<Rightarrow> FabricStatus" where
  "fabric_status f =
     \<lparr>fs_epoch = fab_epoch f, fs_previous_epoch = fab_previous_epoch f, fs_incarnation = fab_incarnation f,
      fs_durable = (fab_store f \<noteq> None), fs_has_topology = (fab_topology f \<noteq> None), fs_has_policy = (fab_policy f \<noteq> None),
      fs_topology_digest = (case fab_topology f of None \<Rightarrow> digest_zero | Some t \<Rightarrow> top_digest t),
      fs_topology_generation = (case fab_topology f of None \<Rightarrow> gen_unknown | Some t \<Rightarrow> top_generation t),
      fs_policy_id = (case fab_policy f of None \<Rightarrow> id_invalid | Some p \<Rightarrow> pol_id p),
      fs_policy_generation = (case fab_policy f of None \<Rightarrow> gen_unknown | Some p \<Rightarrow> pol_generation p),
      fs_publishers = length (fab_publishers f),
      fs_live_publishers = length (filter (\<lambda>(source, p). pub_state p = PS_Live) (fab_publishers f)),
      fs_fences = length (fab_fences f), fs_revalidation_required = length (fab_revalidation f),
      fs_recovered_lineages = (case fab_store f of None \<Rightarrow> 0 | Some s \<Rightarrow> length (rs_lineages (ds_state s))),
      fs_lineage_evictions = lineage_evictions (fab_ledger f),
      fs_ambiguous_attempts = (case fab_store f of None \<Rightarrow> 0 | Some s \<Rightarrow> rs_attempts_ambiguous (ds_state s)),
      fs_corrupt_records = (case fab_store f of None \<Rightarrow> 0 | Some s \<Rightarrow> rs_corrupt_records (ds_state s)),
      fs_signals_accepted = fab_signals_accepted f, fs_signals_rejected = fab_signals_rejected f,
      fs_topologies_installed = fab_topologies_installed f, fs_policies_installed = fab_policies_installed f,
      fs_shutting_down = fab_shutting_down f, fs_restored_liveness = False\<rparr>"

definition list_publishers :: "Fabric \<Rightarrow> PublisherRecord list" where
  "list_publishers f = std_sort (\<lambda>a b. pub_source a < pub_source b) (map snd (fab_publishers f))"

end
