(* ===== verification/Fabric_Engine.thy ===== *)
theory Fabric_Engine
  imports Publish Engine_Safety
begin

text \<open>
  How the fabric's use of the engine behaves: a commit repeats its plan. The request of the commit
  differs from the plan's in the dry-run flag only, so the two runs agree in everything but the
  ledger and what the ledger reports.
\<close>

section \<open>A commit repeats its plan\<close>

lemma commit_request_sel [simp]:
  "req_id (commit_request req) = req_id req" "req_policy_id (commit_request req) = req_policy_id req"
  "req_policy_generation (commit_request req) = req_policy_generation req"
  "req_topology_digest (commit_request req) = req_topology_digest req" "req_epoch (commit_request req) = req_epoch req"
  "req_now (commit_request req) = req_now req" "req_signals (commit_request req) = req_signals req"
  "req_pins (commit_request req) = req_pins req" "\<not> req_dry_run (commit_request req)"
  "req_record_budget_override (commit_request req) = req_record_budget_override req"
  by (simp_all add: commit_request_def)

lemma request_check_commit [simp]: "request_check topo policy e (commit_request req) = request_check topo policy e req"
  by (simp add: request_check_def)

lemma admission_check_commit [simp]: "admission_check policy (commit_request req) acc s = admission_check policy req acc s"
  by (simp add: admission_check_def)

lemma explanation_for_commit [simp]: "explanation_for topo policy (commit_request req) s = explanation_for topo policy req s"
  by (simp add: explanation_for_def)

lemma admit_commit [simp]: "admit policy (commit_request req) ss st = admit policy req ss st"
  by (induction policy req ss st rule: admit.induct) (simp_all add: Let_def)

lemma split_live_commit [simp]: "split_live topo policy l (commit_request req) ss st = split_live topo policy l req ss st"
  by (induction topo policy l req ss st rule: split_live.induct) (simp_all add: Let_def)

lemma record_budget_commit [simp]: "record_budget_for policy (commit_request req) = record_budget_for policy req"
  unfolding record_budget_for_def commit_request_sel ..

lemma traverse_signal_commit [simp]: "traverse_signal env (commit_request req) s ps = traverse_signal env req s ps"
  by (simp add: traverse_signal_def)

lemma traverse_all_commit [simp]: "traverse_all env (commit_request req) ss ps = traverse_all env req ss ps"
  by (induction env req ss ps rule: traverse_all.induct) (simp_all split: option.split)

lemma commit_nodes_ok: "status_ok (out_status (fst (commit_nodes now ns (w, l)))) \<Longrightarrow> fst (commit_nodes now ns (w, l)) = w"
  by (induction ns arbitrary: w l) (auto split: prod.splits if_splits)

lemma commit_ok: "status_ok (out_status (fst (commit req live w l))) \<Longrightarrow> fst (commit req live w l) = w"
  using commit_nodes_ok [of "req_now req" "out_nodes w" w "commit_lineages live l"]
  by (auto simp: commit_def Let_def split: prod.splits)

text \<open>The fingerprint covers nothing that the ledger reports.\<close>

definition with_evictions :: "u64 \<Rightarrow> PropagationOutcome \<Rightarrow> PropagationOutcome" where
  "with_evictions n w = w\<lparr>out_counters := (out_counters w)\<lparr>ctr_lineage_evictions := n\<rparr>\<rparr>"

lemma finalize_evictions: "outcome_finalize (with_evictions n w) = with_evictions n (outcome_finalize w)"
  by (simp add: outcome_finalize_def with_evictions_def)

lemma with_evictions_fingerprint [simp]: "out_fingerprint (with_evictions n w) = out_fingerprint w"
  by (simp add: with_evictions_def)

lemma with_evictions_twice: "with_evictions n (with_evictions m w) = with_evictions n w"
  by (simp add: with_evictions_def)

lemma conclude_commit:
  assumes "conclude policy (commit_request req) live ledger ps = (w', l')" and "status_ok (out_status w')"
    and "req_dry_run req" and "conclude policy req live ledger ps = (w, l)"
  shows "l = ledger \<and> (\<exists>n. w' = with_evictions n w)"
proof -
  define o1 where "o1 = (if ps_truncated ps then (ps_outcome ps)\<lparr>out_complete := False\<rparr> else ps_outcome ps)"
  obtain ns c where a: "aggregate_all policy (ps_acc ps) (out_counters o1) = (ns, c)" by (rule prod.exhaust)
  define nodes where "nodes = std_sort (\<lambda>a b. no_resource a < no_resource b) ns"
  define o2 where "o2 = o1\<lparr>out_nodes := nodes, out_counters := c, out_peak_depth := peak_depth_of nodes (out_peak_depth o1)\<rparr>"
  define stop where "stop \<longleftrightarrow> signals_accepted c = 0 \<and> out_rejections o2 \<noteq> []"
  have rej: "out_rejections o2 = out_rejections o1" by (simp add: o2_def)
  have plan: "conclude policy req live ledger ps =
      (if stop then (outcome_fail (rej_status (hd (out_rejections o2))) o2, ledger)
       else (outcome_finalize (with_evictions (lineage_evictions ledger) o2), ledger))"
    using assms(3) by (simp add: conclude_def Let_def with_evictions_def a stop_def rej
      flip: o1_def nodes_def o2_def)
  have go: "conclude policy (commit_request req) live ledger ps =
      (if stop then (outcome_fail (rej_status (hd (out_rejections o2))) o2, ledger)
       else if ps_truncated ps then (outcome_finalize (with_evictions (lineage_evictions ledger) o2), ledger)
       else (outcome_finalize (with_evictions (lineage_evictions (snd (commit (commit_request req) live o2 ledger)))
              (fst (commit (commit_request req) live o2 ledger))), snd (commit (commit_request req) live o2 ledger)))"
    by (simp add: conclude_def Let_def with_evictions_def a stop_def rej split_beta flip: o1_def nodes_def o2_def)
  have self: "with_evictions (ctr_lineage_evictions (out_counters v)) v = v" for v by (simp add: with_evictions_def)
  show ?thesis
  proof (cases "stop \<or> ps_truncated ps")
    case True
    then show ?thesis using assms(1,4) plan go self by (metis prod.inject)
  next
    case False
    then have "w' = outcome_finalize (with_evictions (lineage_evictions l') (fst (commit (commit_request req) live o2 ledger)))"
      using assms(1) go by auto
    moreover from this assms(2) have "fst (commit (commit_request req) live o2 ledger) = o2"
      by (intro commit_ok) (simp add: with_evictions_def)
    moreover have "w = outcome_finalize (with_evictions (lineage_evictions ledger) o2)" "l = ledger"
      using assms(4) plan False by auto
    ultimately show ?thesis by (metis finalize_evictions with_evictions_twice)
  qed
qed

lemma propagate_valid_commit:
  assumes "propagate_valid topo policy ledger fences e (commit_request req) = Some (w', l')" and "status_ok (out_status w')"
    and "req_dry_run req" and "propagate_valid topo policy ledger fences e req = Some (w, l)"
  shows "l = ledger \<and> (\<exists>n. w' = with_evictions n w)"
proof -
  have self: "\<exists>n. v = with_evictions n v" for v
    by (rule exI [of _ "ctr_lineage_evictions (out_counters v)"]) (simp add: with_evictions_def)
  have concluded: "l = ledger \<and> (\<exists>n. w' = with_evictions n w)"
    if p': "propagate_signals env (commit_request req) o1 = Some (w', l')" and p: "propagate_signals env req o1 = Some (w, l)"
      and l: "env_ledger env = ledger" for env o1
  proof -
    obtain accepted o2 where a: "admit (env_policy env) req (req_signals req) ([], o1) = (accepted, o2)" by (rule prod.exhaust)
    obtain live o3 where s: "split_live (env_topology env) (env_policy env) (env_ledger env) req accepted ([], o2) = (live, o3)"
      by (rule prod.exhaust)
    show ?thesis
    proof (cases "accepted = []")
      case True
      then show ?thesis using p p' a l self [of w] by (auto simp: propagate_signals_def)
    next
      case False
      with p p' a s obtain ps where c: "conclude (env_policy env) (commit_request req) live (env_ledger env) ps = (w', l')"
        "conclude (env_policy env) req live (env_ledger env) ps = (w, l)"
        by (auto simp: propagate_signals_def Let_def)
      from conclude_commit [OF c(1) assms(2,3) c(2)] l show ?thesis by simp
    qed
  qed
  show ?thesis
    using assms(1,4) self [of w] unfolding propagate_valid_def Let_def
    by (auto split: if_splits sum.splits prod.splits dest: concluded)
qed

section \<open>What a plan counts as accepted\<close>

text \<open>A traversal leaves the count of accepted signals to the caller.\<close>

lemma accepted_kept [simp]:
  "signals_accepted (run_counters (count_amplification b r)) = signals_accepted (run_counters r)"
  "signals_accepted (run_counters (note_depth d r)) = signals_accepted (run_counters r)"
  by (simp_all add: count_amplification_def note_depth_def Let_def)

interpretation accepting: traversal_invariant env signal pid "\<lambda>_. True" "\<lambda>r. signals_accepted (run_counters r) = n"
  for env signal pid n
proof
  fix r r3 :: Run and entry :: QueueEntry
  assume a: "signals_accepted (run_counters r) = n" "tr_wf (env_size env) (run_tr r)" "qe_node entry < env_size env"
  { assume b: "begin_node (qe_node entry) (settle_run entry r) = (True, r3)"
    show "signals_accepted (run_counters (settled_run env signal pid entry r3)) = n"
      using settle_begin_core(9) [OF a(2,3) b] a(1) by (simp add: settled_run_def) }
  { assume b: "begin_node (qe_node entry) (settle_run entry r) = (False, r3)"
    show "signals_accepted (run_counters (set_truncated r3\<lparr>run_record_stop := True\<rparr>)) = n"
      using settle_begin_core(9) [OF a(2,3) b] a(1) by simp }
next
  fix r :: Run and entry res e edge k nxt gain amp counted fanout
  assume a: "signals_accepted (run_counters r) = n" "tr_wf (env_size env) (run_tr r)"
    and c: "crossing env signal entry res e edge k nxt gain amp counted fanout r"
  let ?r = "count_amplification counted (count_up hops_considered_update r)"
  show "signals_accepted (run_counters (cross_edge res entry e edge k nxt gain amp ?r)) = n"
  proof (cases rule: cross_edge_cases [OF crossing_run [OF c a(2)], of res entry e edge nxt gain amp])
    case 1
    then show ?thesis using a(1) by simp
  next
    case 2
    then show ?thesis using a(1) by simp
  qed
next
  fix r r'
  assume "signals_accepted (run_counters r) = n" "flush_suppressions r = (False, r')"
  then show "signals_accepted (run_counters (set_truncated r')) = n" using flush_core [of r False r'] by simp
next
  fix r r'
  assume "signals_accepted (run_counters r) = n" "flush_suppressions r = (True, r')"
  then show "signals_accepted (run_counters r') = n" using flush_core [of r True r'] by simp
qed (auto simp: popped_def)

lemma run_accepted:
  assumes "topology_wf (env_topology env)" and "run_traversal env b signal pid acc c x t = Some (s, r)"
  shows "signals_accepted (run_counters r) = signals_accepted c"
  by (rule accepting.run_traversal_I [OF assms(1) _ _ _ assms(2)]) simp_all

lemma traverse_all_counts:
  assumes wf: "topology_wf (env_topology env)"
  shows "traverse_all env req ss ps = Some ps' \<Longrightarrow>
    \<exists>k. k + (length (out_rejections (ps_outcome ps')) - length (out_rejections (ps_outcome ps))) = length ss \<and>
      length (out_rejections (ps_outcome ps)) \<le> length (out_rejections (ps_outcome ps')) \<and>
      signals_accepted (out_counters (ps_outcome ps')) = signals_accepted (out_counters (ps_outcome ps)) + of_nat k"
proof (induction ss arbitrary: ps)
  case (Cons s ss)
  then obtain ps1 where ps1: "traverse_signal env req s ps = Some ps1" "traverse_all env req ss ps1 = Some ps'"
    by (auto split: option.splits)
  obtain st r where r: "run_traversal env (record_budget_for (env_policy env) req) s (req_id req) (ps_acc ps)
      (out_counters (ps_outcome ps)) (explanation_for (env_topology env) (env_policy env) req s) (ps_truncated ps) = Some (st, r)"
    using ps1(1) by (auto simp: traverse_signal_def Let_def split: option.splits)
  note acc = run_accepted [OF wf r]
  from Cons.IH [OF ps1(2)] obtain k where
    k: "k + (length (out_rejections (ps_outcome ps')) - length (out_rejections (ps_outcome ps1))) = length ss"
       "length (out_rejections (ps_outcome ps1)) \<le> length (out_rejections (ps_outcome ps'))"
       "signals_accepted (out_counters (ps_outcome ps')) = signals_accepted (out_counters (ps_outcome ps1)) + of_nat k"
    by blast
  show ?case
  proof (cases "status_ok st")
    case True
    then have "out_rejections (ps_outcome ps1) = out_rejections (ps_outcome ps)"
      "signals_accepted (out_counters (ps_outcome ps1)) = signals_accepted (out_counters (ps_outcome ps)) + 1"
      using ps1(1) r acc by (auto simp: traverse_signal_def Let_def)
    with k show ?thesis by (intro exI [of _ "Suc k"]) simp
  next
    case False
    then have "length (out_rejections (ps_outcome ps1)) = Suc (length (out_rejections (ps_outcome ps)))"
      "signals_accepted (out_counters (ps_outcome ps1)) = signals_accepted (out_counters (ps_outcome ps))"
      using ps1(1) r acc by (auto simp: traverse_signal_def Let_def)
    with k show ?thesis by (intro exI [of _ k]) simp
  qed
qed simp

lemma aggregate_all_accepted: "signals_accepted (snd (aggregate_all policy acc c)) = signals_accepted c"
proof (induction acc arbitrary: c)
  case (Cons p acc)
  obtain i a where p: "p = (i, a)" by (cases p)
  have "signals_accepted (snd (aggregate_node policy a c)) = signals_accepted c"
    by (simp add: aggregate_node_def Let_def)
  with Cons.IH [of "snd (aggregate_node policy a c)"] show ?case by (simp add: p split_beta)
qed simp

lemma commit_counters: "out_counters (fst (commit req live w l)) = out_counters w"
proof -
  have "out_counters (fst (commit_nodes now ns (w, l))) = out_counters w" for now ns w l
    by (induction ns arbitrary: w l) (auto split: prod.splits)
  then show ?thesis by (simp add: commit_def Let_def split_beta)
qed

lemma conclude_accepted:
  "signals_accepted (out_counters (fst (conclude policy req live ledger ps))) = signals_accepted (out_counters (ps_outcome ps))"
  using aggregate_all_accepted [of policy "ps_acc ps"]
  by (simp add: conclude_def Let_def split_beta commit_counters outcome_fail_def)

lemma propagate_valid_accepted:
  assumes "propagate_valid topo policy ledger fences e (commit_request req) = Some (w', l')"
    and "propagate_valid topo policy ledger fences e req = Some (w, l)"
  shows "signals_accepted (out_counters w') = signals_accepted (out_counters w)"
proof -
  have concluded: "signals_accepted (out_counters w') = signals_accepted (out_counters w)"
    if p': "propagate_signals env (commit_request req) o1 = Some (w', l')" and p: "propagate_signals env req o1 = Some (w, l)"
    for env o1
  proof -
    obtain accepted o2 where a: "admit (env_policy env) req (req_signals req) ([], o1) = (accepted, o2)" by (rule prod.exhaust)
    obtain live o3 where s: "split_live (env_topology env) (env_policy env) (env_ledger env) req accepted ([], o2) = (live, o3)"
      by (rule prod.exhaust)
    show ?thesis
    proof (cases "accepted = []")
      case True
      then show ?thesis using p p' a by (auto simp: propagate_signals_def)
    next
      case False
      with p p' a s obtain ps where c: "conclude (env_policy env) (commit_request req) live (env_ledger env) ps = (w', l')"
        "conclude (env_policy env) req live (env_ledger env) ps = (w, l)"
        by (auto simp: propagate_signals_def Let_def)
      from conclude_accepted [of "env_policy env" "commit_request req" live "env_ledger env" ps]
        conclude_accepted [of "env_policy env" req live "env_ledger env" ps] c show ?thesis by simp
    qed
  qed
  show ?thesis
    using assms unfolding propagate_valid_def Let_def
    by (auto split: if_splits sum.splits prod.splits dest: concluded)
qed

text \<open>What changes the ledger was counted as accepted by the plan of the same request.\<close>

lemma changed_counted:
  assumes wf: "topology_wf topo"
    and go: "propagate_valid topo policy ledger fences e req = Some (w, l)" and ch: "l \<noteq> ledger"
  shows "signals_accepted (out_counters w) > 0"
proof (cases rule: propagate_valid_cases [OF go])
  case (1 o0 s)
  with ch show ?thesis by simp
next
  case (2 present gens accepted o2 live o3 ps)
  have live: "live = filter (\<lambda>s. \<not> has_lineage ledger (sig_lineage s)) accepted"
    using split_live_spec(1) [OF 2(5)] by simp
  have "live \<noteq> []"
  proof
    assume "live = []"
    then have "\<forall>s \<in> set (admissible policy req). has_lineage ledger (sig_lineage s)"
      using admissible_eq [OF 2(3)] by (auto simp: live filter_empty_conv)
    with propagate_valid_replay [OF go] ch show False by blast
  qed
  moreover obtain k where k: "k + (length (out_rejections (ps_outcome ps)) - length (out_rejections o3)) = length live"
      "signals_accepted (out_counters (ps_outcome ps)) = signals_accepted (out_counters o3) + of_nat k"
    using traverse_all_counts [OF _ 2(6)] wf by auto
  moreover have "signals_accepted (out_counters o3) = 0"
    using split_live_spec(4) [OF 2(5)] admit_keeps [OF 2(3)] by (simp add: engine_counters_def)
  moreover have "k < 2 ^ 64"
  proof -
    have "length live \<le> length (req_signals req)" using live admit_spec [OF 2(3)] by (auto intro: order_trans [OF length_filter_le])
    also have "\<dots> \<le> unat (pol_max_sources policy)" by (rule 2(2))
    also have "\<dots> < 2 ^ 32" using unsigned_less [of "pol_max_sources policy"] by simp
    finally show ?thesis using k(1) by simp
  qed
  moreover have "k \<noteq> 0"
  proof
    assume "k = 0"
    with calculation have "out_rejections (ps_outcome ps) \<noteq> []" "signals_accepted (out_counters (ps_outcome ps)) = 0" by auto
    then have "snd (conclude policy req live ledger ps) = ledger"
      using aggregate_all_accepted [of policy "ps_acc ps"] by (simp add: conclude_def Let_def split_beta)
    with 2(7) ch show False by (metis snd_conv)
  qed
  ultimately have "signals_accepted (out_counters (ps_outcome ps)) \<noteq> 0"
    by (simp add: unat_of_nat word_unat_eq_iff)
  moreover have "signals_accepted (out_counters w) = signals_accepted (out_counters (ps_outcome ps))"
    using conclude_accepted [of policy req live ledger ps] 2(7) by (metis fst_conv)
  ultimately show ?thesis by (simp add: word_gt_0)
qed

end
