(* ===== verification/Fabric_Facts.thy ===== *)
theory Fabric_Facts
  imports Fabric_Engine Topology_Build
begin

text \<open>
  The invariant of the fabric's state: it holds after \<open>open\<close> and every operation keeps it, whatever
  the store answers; and no operation gets stuck.
\<close>

section \<open>Any sequence of calls\<close>

datatype FabricOp =
  FO_Topology "Resource list" "DependencyEdge list" | FO_Policy PropagationPolicy
  | FO_Register SourceId Incarnation | FO_Heartbeat SourceId Incarnation | FO_Retire SourceId Incarnation
  | FO_PutFence Fence | FO_ClearFence FenceId | FO_Mark ResourceId | FO_Clear ResourceId
  | FO_Publish PressureSignal bool | FO_Batch "PressureSignal list"
  | FO_Recover SourceId ResourceId Generation Magnitude AuthorityVector | FO_Flush | FO_Stop | FO_Shutdown

text \<open>\<open>FO_Stop\<close> is the exchange of the flag with which \<open>shutdown\<close> begins, \<open>FO_Shutdown\<close> its locked part.\<close>

fun fabric_op :: "FabricOp \<Rightarrow> Tick \<Rightarrow> Fabric \<Rightarrow> Fabric option" where
  "fabric_op (FO_Topology rs es) now f = map_option snd (install_topology rs es now f)"
| "fabric_op (FO_Policy p) now f = Some (snd (install_policy p now f))"
| "fabric_op (FO_Register s i) now f = Some (snd (register_publisher s i now f))"
| "fabric_op (FO_Heartbeat s i) now f = Some (snd (publisher_heartbeat s i now f))"
| "fabric_op (FO_Retire s i) now f = Some (snd (retire_publisher s i now f))"
| "fabric_op (FO_PutFence x) now f = Some (snd (fabric_put_fence x now f))"
| "fabric_op (FO_ClearFence i) now f = Some (snd (fabric_clear_fence i now f))"
| "fabric_op (FO_Mark r) now f = Some (snd (mark_revalidation_required r now f))"
| "fabric_op (FO_Clear r) now f = Some (snd (fabric_clear_revalidation r now f))"
| "fabric_op (FO_Publish s cancelled) now f = map_option snd (publish_locked s now True cancelled f)"
| "fabric_op (FO_Batch ss) now f = map_option snd (publish_batch ss now f)"
| "fabric_op (FO_Recover s r g m a) now f = Some (snd (fabric_recover s r g m a now f))"
| "fabric_op FO_Flush now f = Some (snd (flush_locked now f))"
| "fabric_op FO_Stop now f = Some (f\<lparr>fab_shutting_down := True\<rparr>)"
| "fabric_op FO_Shutdown now f = Some (snd (shutdown_locked now f))"

fun fabric_run :: "(FabricOp \<times> Tick) list \<Rightarrow> Fabric \<Rightarrow> Fabric option" where
  "fabric_run [] f = Some f"
| "fabric_run ((x, now) # xs) f = Option.bind (fabric_op x now f) (fabric_run xs)"

section \<open>The invariant\<close>

definition publisher_ok :: "SourceId \<Rightarrow> PublisherRecord \<Rightarrow> bool" where
  "publisher_ok source p \<longleftrightarrow>
     pub_source p = source \<and> id_valid source \<and> inc_valid (pub_incarnation p) \<and>
     pub_state p \<in> {PS_Live, PS_Retired} \<and> \<not> pub_restored_from_durable p"

definition publishers_ok :: "FabricConfig \<Rightarrow> (SourceId \<times> PublisherRecord) list \<Rightarrow> bool" where
  "publishers_ok config ps \<longleftrightarrow>
     distinct (map fst ps) \<and> length ps \<le> fc_max_publishers config \<and>
     (\<forall>x \<in> set ps. publisher_ok (fst x) (snd x))"

definition fabric_inv :: "Fabric \<Rightarrow> bool" where
  "fabric_inv f \<longleftrightarrow>
     ledger_inv (fab_ledger f) \<and>
     fence_table_inv (fab_fences f) \<and> (\<forall>x \<in> set (fab_fences f). fence_epoch x = fab_epoch f) \<and>
     publishers_ok (fab_config f) (fab_publishers f) \<and>
     distinct (fab_revalidation f) \<and> length (fab_revalidation f) \<le> fc_max_revalidation_entries (fab_config f) \<and>
     (\<forall>t. fab_topology f = Some t \<longrightarrow> topology_wf t) \<and>
     (\<forall>p. fab_policy f = Some p \<longrightarrow> status_ok (policy_validate p)) \<and>
     epoch_known (fab_epoch f)"

lemma fabric_inv_update [simp]:
  "fabric_inv (fab_store_update g1 f) = fabric_inv f"
  "fabric_inv (fab_attempts_update g2 f) = fabric_inv f"
  "fabric_inv (fab_signals_accepted_update g2 f) = fabric_inv f"
  "fabric_inv (fab_signals_rejected_update g2 f) = fabric_inv f"
  "fabric_inv (fab_topologies_installed_update g2 f) = fabric_inv f"
  "fabric_inv (fab_policies_installed_update g2 f) = fabric_inv f"
  "fabric_inv (fab_shutting_down_update g3 f) = fabric_inv f"
  by (simp_all add: fabric_inv_def)

lemma fabric_inv_ledger: "fabric_inv f \<Longrightarrow> ledger_inv l \<Longrightarrow> fabric_inv (f\<lparr>fab_ledger := l\<rparr>)"
  by (simp add: fabric_inv_def)

lemma on_store_frame: "on_store g f = (e, f') \<Longrightarrow> \<exists>so. f' = f\<lparr>fab_store := so\<rparr>"
  by (auto simp: on_store_def split: option.splits prod.splits intro: exI [of _ "fab_store f"])

lemma on_store_inv: "on_store g f = (e, f') \<Longrightarrow> fabric_inv f' = fabric_inv f"
  using on_store_frame [of g f e f'] by auto

lemma try_store:
  assumes "try_state (on_store g f) k = (e, f')"
  obtains (failed) so where "f' = f\<lparr>fab_store := so\<rparr>" | (went_on) so where "k (f\<lparr>fab_store := so\<rparr>) = (e, f')"
  using assms on_store_frame by (cases "on_store g f") (fastforce simp: try_state_def split: if_splits)

subsection \<open>Publishers\<close>

lemma publishers_update:
  assumes "publishers_ok c ps" and "map_of ps source \<noteq> None \<or> length ps < fc_max_publishers c" and "publisher_ok source p"
  shows "publishers_ok c (AList.update source p ps)"
proof -
  have d: "distinct (map fst ps)" "distinct (map fst (AList.update source p ps))"
    using assms(1) by (simp_all add: publishers_ok_def distinct_update)
  have n: "length (AList.update source p ps) \<le> fc_max_publishers c"
    using assms(1,2) by (auto simp: length_alist_update [OF d(1)] publishers_ok_def)
  have "publisher_ok k q" if "(k, q) \<in> set (AList.update source p ps)" for k q
  proof -
    have "map_of (AList.update source p ps) k = Some q" using that d(2) by simp
    then show ?thesis using assms(1,3) d(1) by (auto simp: update_conv' publishers_ok_def split: if_splits)
  qed
  then show ?thesis using n d(2) by (auto simp: publishers_ok_def)
qed

lemma find_publisherD: "fabric_inv f \<Longrightarrow> find_publisher source f = Some p \<Longrightarrow> publisher_ok source p"
  unfolding find_publisher_def fabric_inv_def publishers_ok_def by (drule map_of_SomeD) force

lemma set_publisher_inv:
  assumes "fabric_inv f" and "find_publisher source f \<noteq> None \<or> length (fab_publishers f) < fc_max_publishers (fab_config f)"
    and "publisher_ok source p"
  shows "fabric_inv (set_publisher source p f)"
  using publishers_update [OF _ _ assms(3)] assms(1,2) by (simp add: fabric_inv_def set_publisher_def find_publisher_def)

lemma update_publisher_inv:
  assumes "fabric_inv f" and "\<And>p. publisher_ok source (g p) = publisher_ok source p"
  shows "fabric_inv (update_publisher source g f)"
  using set_publisher_inv [OF assms(1)] find_publisherD [OF assms(1)] assms
  by (simp add: update_publisher_def split: option.split)

lemma reject_signal_inv [simp]: "fabric_inv (reject_signal f) = fabric_inv f"
  by (simp add: reject_signal_def)

lemma reject_publisher_inv: "fabric_inv f \<Longrightarrow> fabric_inv (reject_publisher source f)"
  by (simp add: reject_publisher_def update_publisher_inv publisher_ok_def)

lemma accept_signal_inv: "fabric_inv f \<Longrightarrow> fabric_inv (accept_signal source f)"
  by (simp add: accept_signal_def update_publisher_inv publisher_ok_def)

lemma register_inv:
  assumes "fabric_inv f" shows "fabric_inv (snd (register_publisher source i now f))"
proof -
  have "publisher_ok source (new_publisher source i now)" if "id_valid source" "inc_valid i"
    using that by (simp add: publisher_ok_def new_publisher_def)
  moreover have "publisher_ok source (p\<lparr>pub_state := PS_Live, pub_last_heartbeat := now\<rparr>)" if "find_publisher source f = Some p" for p
    using find_publisherD [OF assms that] by (simp add: publisher_ok_def)
  ultimately show ?thesis using assms set_publisher_inv [OF assms]
    by (simp add: register_publisher_def Let_def split: option.split)
qed

lemma heartbeat_inv:
  assumes "fabric_inv f" shows "fabric_inv (snd (publisher_heartbeat source i now f))"
proof -
  have "publisher_ok source (p\<lparr>pub_last_heartbeat := now\<rparr>)" if "find_publisher source f = Some p" for p
    using find_publisherD [OF assms that] by (simp add: publisher_ok_def)
  then show ?thesis using assms set_publisher_inv [OF assms] by (simp add: publisher_heartbeat_def split: option.split)
qed

lemma retire_inv:
  assumes "fabric_inv f" shows "fabric_inv (snd (retire_publisher source i now f))"
proof -
  have "publisher_ok source (p\<lparr>pub_state := PS_Retired, pub_last_heartbeat := now\<rparr>)" if "find_publisher source f = Some p" for p
    using find_publisherD [OF assms that] by (simp add: publisher_ok_def)
  then show ?thesis using assms set_publisher_inv [OF assms] by (simp add: retire_publisher_def split: option.split)
qed

subsection \<open>Configuration, fences and revalidation\<close>

lemma install_topology_inv:
  assumes "fabric_inv f" and "install_topology rs es now f = Some (e, f')"
  shows "fabric_inv f'"
proof (cases "fab_shutting_down f")
  case True
  with assms show ?thesis by (simp add: install_topology_def)
next
  case False
  then obtain r where r: "build rs es (fc_topology_limits (fab_config f)) True = Some r"
    using assms(2) by (auto simp: install_topology_def split: option.splits)
  show ?thesis
  proof (cases r)
    case (Inl x)
    with assms r False show ?thesis by (simp add: install_topology_def)
  next
    case (Inr t)
    with assms(2) r False have "try_state (on_store (bind_topology (top_digest t) (top_generation t) now) f) (\<lambda>f1.
        (status_success, f1\<lparr>fab_topology := Some t, fab_topologies_installed := fab_topologies_installed f1 + 1\<rparr>)) = (e, f')"
      by (simp add: install_topology_def)
    then show ?thesis
      by (cases rule: try_store) (use assms(1) build_wf r Inr in \<open>auto simp: fabric_inv_def\<close>)
  qed
qed

lemma install_policy_inv:
  assumes "fabric_inv f"
  shows "fabric_inv (snd (install_policy policy now f))"
proof -
  have "fabric_inv (snd (try_state (on_store (persist_policy policy now) f) (\<lambda>f1.
      (status_success, f1\<lparr>fab_policy := Some policy, fab_policies_installed := fab_policies_installed f1 + 1\<rparr>))))"
    if v: "status_ok (policy_validate policy)"
  proof -
    obtain e f' where t: "try_state (on_store (persist_policy policy now) f) (\<lambda>f1.
      (status_success, f1\<lparr>fab_policy := Some policy, fab_policies_installed := fab_policies_installed f1 + 1\<rparr>)) = (e, f')"
      by (rule prod.exhaust)
    then show ?thesis
      by (cases rule: try_store) (use assms v t in \<open>auto simp: fabric_inv_def\<close>)
  qed
  then show ?thesis using assms by (simp add: install_policy_def Let_def split: option.split)
qed

lemma fence_add_set: "fence_add fs x = (e, fs') \<Longrightarrow> set fs' \<subseteq> insert x (set fs)"
proof -
  have "fence_replace fs x = Some gs \<Longrightarrow> set gs \<subseteq> insert x (set fs)" for gs
    by (induction fs arbitrary: gs) (auto split: if_splits)
  then show "fence_add fs x = (e, fs') \<Longrightarrow> set fs' \<subseteq> insert x (set fs)"
    by (auto simp: fence_add_def split: if_splits option.splits)
qed

lemma fence_remove_set: "set (snd (fence_remove fs i)) \<subseteq> set fs"
proof -
  have "fence_erase fs i = Some gs \<Longrightarrow> set gs \<subseteq> set fs" for gs
    by (induction fs arbitrary: gs) (auto split: if_splits)
  then show ?thesis by (auto simp: fence_remove_def split: option.split)
qed

lemma put_fence_inv:
  assumes "fabric_inv f"
  shows "fabric_inv (snd (fabric_put_fence x now f))"
proof -
  define y where "y = (if \<not> epoch_known (fence_epoch x) then x\<lparr>fence_epoch := fab_epoch f\<rparr> else x)"
  show ?thesis
  proof (cases "fab_shutting_down f \<or> fence_epoch y \<noteq> fab_epoch f")
    case True
    with assms show ?thesis by (auto simp: fabric_put_fence_def Let_def simp flip: y_def)
  next
    case False
    obtain e f' where t: "try_state (on_store (put_fence y now) f) (\<lambda>f1.
        let (e, fs) = fence_add (fab_fences f1) y in (e, f1\<lparr>fab_fences := fs\<rparr>)) = (e, f')" by (rule prod.exhaust)
    then have "fabric_inv f'"
    proof (cases rule: try_store)
      case (failed so)
      with assms show ?thesis by simp
    next
      case (went_on so)
      obtain e1 fs where a: "fence_add (fab_fences f) y = (e1, fs)" by (rule prod.exhaust)
      have "fence_table_inv fs" "\<forall>z \<in> set fs. fence_epoch z = fab_epoch f"
        using fence_add_inv [of "fab_fences f" y] fence_add_set [OF a] assms False a by (auto simp: fabric_inv_def)
      with went_on a assms show ?thesis by (auto simp: fabric_inv_def)
    qed
    with False t show ?thesis by (simp add: fabric_put_fence_def Let_def flip: y_def)
  qed
qed

lemma clear_fence_inv:
  assumes "fabric_inv f"
  shows "fabric_inv (snd (fabric_clear_fence i now f))"
proof -
  obtain e f' where t: "fabric_clear_fence i now f = (e, f')" by (rule prod.exhaust)
  then have "fabric_inv f'" unfolding fabric_clear_fence_def
  proof (cases rule: try_store)
    case (went_on so)
    with assms fence_remove_inv [of "fab_fences f" i] fence_remove_set [of "fab_fences f" i] show ?thesis
      by (auto simp: fabric_inv_def split_beta)
  qed (use assms in simp)
  with t show ?thesis by simp
qed

lemma mark_inv:
  assumes "fabric_inv f"
  shows "fabric_inv (snd (mark_revalidation_required r now f))"
proof (cases "fab_shutting_down f")
  case False
  obtain e f' where t: "mark_revalidation_required r now f = (e, f')" by (rule prod.exhaust)
  then have "fabric_inv f'" unfolding mark_revalidation_required_def if_not_P [OF False]
    by (cases rule: try_store) (use assms in \<open>auto simp: fabric_inv_def split: if_splits\<close>)
  with t show ?thesis by simp
qed (use assms in \<open>simp add: mark_revalidation_required_def\<close>)

lemma clear_inv:
  assumes "fabric_inv f"
  shows "fabric_inv (snd (fabric_clear_revalidation r now f))"
proof -
  obtain e f' where t: "fabric_clear_revalidation r now f = (e, f')" by (rule prod.exhaust)
  then have "fabric_inv f'" unfolding fabric_clear_revalidation_def
    by (cases rule: try_store) (use assms in \<open>auto simp: fabric_inv_def length_remove1\<close>)
  with t show ?thesis by simp
qed

subsection \<open>Publishing\<close>

lemma run_propagate_total:
  assumes "fabric_inv f"
  obtains w f' where "run_propagate req f = Some (w, f')" "fabric_inv f'" "\<exists>l. f' = f\<lparr>fab_ledger := l\<rparr>"
proof -
  obtain w l where p: "propagate (engine_context f) req = Some (w, l)"
    using propagate_total [of "engine_context f" req] assms by (auto simp: engine_context_def fabric_inv_def)
  show ?thesis
  proof (cases l)
    case None
    show ?thesis by (rule that [of w f]) (use p None assms in \<open>auto simp: run_propagate_def intro: exI [of _ "fab_ledger f"]\<close>)
  next
    case (Some l')
    have "ledger_inv l'"
      by (rule propagate_ledger_inv [OF p [unfolded Some], of "fab_ledger f"]) (use assms in \<open>simp_all add: engine_context_def fabric_inv_def\<close>)
    with p Some assms show ?thesis
      by (intro that [of w "f\<lparr>fab_ledger := l'\<rparr>"]) (auto simp: run_propagate_def fabric_inv_ledger)
  qed
qed

lemma next_attempt_inv: "next_attempt f = (i, f') \<Longrightarrow> fabric_inv f' = fabric_inv f"
  by (auto simp: next_attempt_def)

lemma abandon_frame: "\<exists>so. abandon_attempt i now f = f\<lparr>fab_store := so\<rparr>"
  using on_store_frame [of "abort_attempt i now" f] 
  by (cases "on_store (abort_attempt i now) f") (auto simp: abandon_attempt_def intro: exI [of _ "fab_store f"])

lemma abandon_inv [simp]: "fabric_inv (abandon_attempt i now f) = fabric_inv f"
  using abandon_frame [of i now f] by auto

lemma record_lineages_frame: "record_lineages ss now f = (e, f') \<Longrightarrow> \<exists>so. f' = f\<lparr>fab_store := so\<rparr>"
proof (induction ss arbitrary: f)
  case Nil
  then show ?case by (auto intro: exI [of _ "fab_store f"])
next
  case (Cons s ss)
  from Cons.prems [unfolded record_lineages.simps] show ?case
  proof (cases rule: try_store)
    case (went_on so)
    from Cons.IH [OF this] show ?thesis by auto
  qed auto
qed

lemma durable_intent_frame:
  "durable_intent wanted planned ss now f = (e, i, f') \<Longrightarrow> \<exists>so n. f' = f\<lparr>fab_store := so, fab_attempts := n\<rparr>"
proof -
  assume a: "durable_intent wanted planned ss now f = (e, i, f')"
  show ?thesis
  proof (cases "fab_store f \<noteq> None \<and> wanted \<and> signals_accepted (out_counters planned) > 0")
    case False
    with a have "f' = f" by (auto simp: durable_intent_def)
    then show ?thesis by (intro exI [of _ "fab_store f"] exI [of _ "fab_attempts f"]) simp
  next
    case True
    define f1 where "f1 = f\<lparr>fab_attempts := fab_attempts f + 1\<rparr>"
    obtain e1 f2 where b: "on_store (begin_attempt (StrongId (fab_attempts f)) now) f1 = (e1, f2)" by (rule prod.exhaust)
    obtain e2 f3 where c: "record_lineages ss now f2 = (e2, f3)" by (rule prod.exhaust)
    obtain so2 where f2: "f2 = f1\<lparr>fab_store := so2\<rparr>" using on_store_frame [OF b] by blast
    obtain so3 where f3: "f3 = f1\<lparr>fab_store := so3\<rparr>" using record_lineages_frame [OF c] f2 by auto
    have "f' = f2 \<or> f' = f3 \<or> (\<exists>j. f' = abandon_attempt j now f3)"
      using a True b c by (auto simp: durable_intent_def next_attempt_def f1_def Let_def split: if_splits)
    moreover have "\<exists>so. abandon_attempt j now f3 = f1\<lparr>fab_store := so\<rparr>" for j
      using abandon_frame [of j now f3] by (simp add: f3)
    ultimately obtain so where "f' = f1\<lparr>fab_store := so\<rparr>" using f2 f3 by blast
    then show ?thesis by (intro exI [of _ so] exI [of _ "fab_attempts f + 1"]) (simp add: f1_def)
  qed
qed

lemma close_intent_frame: "close_intent i now f = (e, f') \<Longrightarrow> \<exists>so. f' = f\<lparr>fab_store := so\<rparr>"
  by (auto simp: close_intent_def intro: exI [of _ "fab_store f"] dest: on_store_frame split: if_splits)

lemma compaction_frame: "\<exists>so. journal_compaction f = f\<lparr>fab_store := so\<rparr>"
  by (auto simp: journal_compaction_def intro: exI [of _ "fab_store f"] split: option.split)

lemma compaction_inv [simp]: "fabric_inv (journal_compaction f) = fabric_inv f"
  using compaction_frame [of f] by auto

lemma publish_commit_total:
  assumes "fabric_inv f"
  shows "\<exists>r f'. publish_commit req planned source i now f = Some (r, f') \<and> fabric_inv f'"
proof -
  obtain w f1 where p: "run_propagate (commit_request req) f = Some (w, f1)" "fabric_inv f1"
    using run_propagate_total [OF assms] by blast
  obtain e f2 where c: "close_intent i now f1 = (e, f2)" by (rule prod.exhaust)
  have "fabric_inv f2" using close_intent_frame [OF c] p(2) by auto
  with p c show ?thesis by (auto simp: publish_commit_def reject_publisher_inv accept_signal_inv)
qed

lemma batch_commit_total:
  assumes "fabric_inv f"
  shows "\<exists>r f'. batch_commit req planned i now f = Some (r, f') \<and> fabric_inv f'"
proof -
  obtain w f1 where p: "run_propagate (commit_request req) f = Some (w, f1)" "fabric_inv f1"
    using run_propagate_total [OF assms] by blast
  obtain e f2 where c: "close_intent i now f1 = (e, f2)" by (rule prod.exhaust)
  have "fabric_inv f2" using close_intent_frame [OF c] p(2) by auto
  with p c show ?thesis by (auto simp: batch_commit_def)
qed

lemma publish_locked_total:
  assumes inv: "fabric_inv f"
  shows "\<exists>r f'. publish_locked s now wanted cancelled f = Some (r, f') \<and> fabric_inv f'"
proof (cases "publish_refusal s f")
  case (Some p)
  then show ?thesis using inv by (cases p) (auto simp: publish_locked_def reject_publisher_inv)
next
  case None
  then obtain topo policy where t: "fab_topology f = Some topo" "fab_policy f = Some policy"
    by (auto simp: publish_refusal_def split: if_splits option.splits)
  obtain i :: PropagationId and f1 where n: "next_attempt f = (i, f1)" by (rule prod.exhaust)
  have f1: "fabric_inv f1" using next_attempt_inv [OF n] inv by simp
  obtain w f2 where p: "run_propagate (publish_request topo policy i [s] now f1) f1 = Some (w, f2)" "fabric_inv f2"
    using run_propagate_total [OF f1] by blast
  obtain e j f3 where d: "durable_intent wanted w [s] now f2 = (e, j, f3)" by (rule prod_cases3)
  have f3: "fabric_inv f3" using durable_intent_frame [OF d] p(2) by auto
  show ?thesis
    using None t n p d f3 publish_commit_total [OF f3, of "publish_request topo policy i [s] now f1" w "sig_source s" j now]
    by (auto simp: publish_locked_def Let_def reject_publisher_inv)
qed

lemma publish_batch_total:
  assumes inv: "fabric_inv f"
  shows "\<exists>r f'. publish_batch ss now f = Some (r, f') \<and> fabric_inv f'"
proof (cases "fab_shutting_down f \<or> fab_topology f = None \<or> fab_policy f = None")
  case True
  then show ?thesis using inv by (auto simp: publish_batch_def split: option.split)
next
  case False
  then obtain topo policy where t: "fab_topology f = Some topo" "fab_policy f = Some policy" by auto
  obtain i :: PropagationId and f1 where n: "next_attempt f = (i, f1)" by (rule prod.exhaust)
  have f1: "fabric_inv f1" using next_attempt_inv [OF n] inv by simp
  obtain w f2 where p: "run_propagate (publish_request topo policy i ss now f1) f1 = Some (w, f2)" "fabric_inv f2"
    using run_propagate_total [OF f1] by blast
  obtain e j f3 where d: "durable_intent True w ss now f2 = (e, j, f3)" by (rule prod_cases3)
  have f3: "fabric_inv f3" using durable_intent_frame [OF d] p(2) by auto
  show ?thesis
    using False t n p d f3 inv batch_commit_total [OF f3, of "publish_request topo policy i ss now f1" w j now]
    by (auto simp: publish_batch_def Let_def)
qed

lemma fabric_recover_inv:
  assumes "fabric_inv f"
  shows "fabric_inv (snd (fabric_recover source r g m a now f))"
proof -
  have l: "ledger_inv (fab_ledger f)" using assms by (simp add: fabric_inv_def)
  have "ledger_inv l'" if "recover (engine_context (f\<lparr>fab_attempts := n\<rparr>)) req = (w, Some l')" for n req w l'
    by (rule recover_ledger_inv [OF that _ l]) (simp add: engine_context_def)
  then show ?thesis using assms
    by (auto simp: fabric_recover_def next_attempt_def Let_def split_beta fabric_inv_ledger prod_eq_iff split: option.split)
qed

subsection \<open>Flush and shutdown\<close>

lemma record_chunks_frame: "record_chunks k es now f = (e, f') \<Longrightarrow> \<exists>so. f' = f\<lparr>fab_store := so\<rparr>"
proof (induction k es now f rule: record_chunks.induct)
  case (1 k es now f)
  show ?case
  proof (cases "es = [] \<or> k = 0")
    case True
    with 1(2) show ?thesis by (auto simp: record_chunks.simps [of k es] intro: exI [of _ "fab_store f"])
  next
    case False
    from 1(2) False have "try_state (on_store (record_pressure_footprint (take k es) now) f) (record_chunks k (drop k es) now) = (e, f')"
      by (simp add: record_chunks.simps [of k es])
    then show ?thesis
    proof (cases rule: try_store)
      case (went_on so)
      from 1(1) [OF False this] show ?thesis by auto
    qed auto
  qed
qed

lemma flush_frame: "flush_locked now f = (e, f') \<Longrightarrow> \<exists>so. f' = f\<lparr>fab_store := so\<rparr>"
proof -
  assume a: "flush_locked now f = (e, f')"
  show ?thesis
  proof (cases "fab_store f = None")
    case True
    with a show ?thesis by (auto simp: flush_locked_def intro: exI [of _ "fab_store f"])
  next
    case False
    obtain e1 f1 where c: "record_chunks (footprint_chunk (fab_config f)) (footprint_of (fab_ledger f)) now f = (e1, f1)"
      by (rule prod.exhaust)
    obtain e2 f2 where d: "on_store store_sync f1 = (e2, f2)" by (rule prod.exhaust)
    from a False c d have "on_store store_sync f = (e, f') \<or> f' = f1 \<or> f' = f2"
      by (auto simp: flush_locked_def Let_def try_state_def split: if_splits)
    moreover have "\<exists>so. f1 = f\<lparr>fab_store := so\<rparr>" by (rule record_chunks_frame [OF c])
    moreover have "\<exists>so. f2 = f1\<lparr>fab_store := so\<rparr>" by (rule on_store_frame [OF d])
    ultimately show ?thesis using on_store_frame by fastforce
  qed
qed

lemma shutdown_inv:
  assumes "fabric_inv f"
  shows "fabric_inv (snd (shutdown_locked now f))"
proof -
  obtain e f1 where fl: "flush_locked now f = (e, f1)" by (rule prod.exhaust)
  have f1: "fabric_inv f1" using flush_frame [OF fl] assms by auto
  let ?ps = "map (\<lambda>(source, p). (source, p\<lparr>pub_state := PS_Retired\<rparr>)) (fab_publishers f1)"
  have m: "map fst ?ps = map fst (fab_publishers f1)" by (simp add: split_beta)
  have "publishers_ok (fab_config f1) ?ps"
    using f1 unfolding fabric_inv_def publishers_ok_def m by (fastforce simp: publisher_ok_def)
  with f1 show ?thesis by (simp add: shutdown_locked_def fl ledger_clear_inv fabric_inv_def)
qed

section \<open>Every call keeps the invariant\<close>

lemma fabric_op_total:
  assumes "fabric_inv f"
  shows "\<exists>f'. fabric_op x now f = Some f' \<and> fabric_inv f'"
proof (cases x)
  case (FO_Topology rs es)
  obtain r where "build rs es (fc_topology_limits (fab_config f)) True = Some r" using build_returns by blast
  then have "install_topology rs es now f \<noteq> None" by (auto simp: install_topology_def split: sum.split)
  then obtain e f' where "install_topology rs es now f = Some (e, f')" by auto
  with FO_Topology show ?thesis using install_topology_inv [OF assms] by auto
next
  case (FO_Publish s c)
  with publish_locked_total [OF assms, of s now True c] show ?thesis by auto
next
  case (FO_Batch ss)
  with publish_batch_total [OF assms, of ss now] show ?thesis by auto
next
  case FO_Flush
  then show ?thesis using flush_frame [of now f] assms by (cases "flush_locked now f") auto
qed (simp_all add: assms install_policy_inv register_inv heartbeat_inv retire_inv put_fence_inv clear_fence_inv
  mark_inv clear_inv fabric_recover_inv shutdown_inv)

lemma fabric_run_total: "fabric_inv f \<Longrightarrow> \<exists>f'. fabric_run xs f = Some f' \<and> fabric_inv f'"
proof (induction xs f rule: fabric_run.induct)
  case (2 x now xs f)
  from fabric_op_total [OF 2(2), of x now] obtain f1 where "fabric_op x now f = Some f1" "fabric_inv f1" by blast
  with 2(1) show ?case by simp
qed simp

end
