(* ===== verification/Fabric_Boot.thy ===== *)
theory Fabric_Boot
  imports Fabric_Facts Store_Run
begin

text \<open>
  Opening a fabric: what is taken over from the durable store, what is not, and that the state
  it starts in satisfies the invariant.
\<close>

section \<open>The store while it is opened\<close>

lemma persistD:
  assumes "persist type now epoch payload s k = (e, s')" and "status_ok e"
  shows "\<exists>j. k (s\<lparr>ds_journal := j\<rparr>) = (e, s')"
proof -
  obtain e1 j1 where a: "journal_append type now epoch payload (ds_journal s) = (e1, j1)" by (rule prod.exhaust)
  obtain e2 j2 where b: "journal_sync j1 = (e2, j2)" by (rule prod.exhaust)
  from try_stateD [OF assms(1) [unfolded persist_def] assms(2)]
  have "try_state (on_journal journal_sync (s\<lparr>ds_journal := j1\<rparr>)) k = (e, s')" by (simp add: on_journal_def a)
  from try_stateD [OF this assms(2)] show ?thesis by (auto simp: on_journal_def b)
qed

lemma establish_state:
  assumes "establish_epoch now s = (e, s')" and "status_ok e"
  shows "e = status_success \<and> (\<exists>next1. ds_state s' = (ds_state s)\<lparr>rs_previous_epoch := rs_epoch (ds_state s), rs_epoch := next1\<rparr> \<and>
    ds_config s' = ds_config s \<and> ds_open_attempts s' = ds_open_attempts s \<and>
    epoch_known next1 \<and> unat (epoch_value next1) = unat (epoch_value (rs_epoch (ds_state s))) + 1)"
proof -
  obtain next1 where n: "(if \<not> store_epoch_known s then Inr (Epoch 1) else epoch_next (rs_epoch (ds_state s))) = Inr next1"
    using assms by (cases "if \<not> store_epoch_known s then Inr (Epoch 1) else epoch_next (rs_epoch (ds_state s))")
      (auto simp: establish_epoch_def epoch_next_def fail_def split: if_splits)
  have k: "epoch_known next1 \<and> unat (epoch_value next1) = unat (epoch_value (rs_epoch (ds_state s))) + 1"
    using n epoch_next_succ [of "rs_epoch (ds_state s)" next1]
    by (auto simp: store_epoch_known_def epoch_known_def epoch_kNone_def split: if_splits)
  from assms n obtain j where "(\<lambda>s2. (status_success, upd_state (\<lambda>st. st\<lparr>rs_previous_epoch := rs_epoch st, rs_epoch := next1\<rparr>) s2))
      (s\<lparr>ds_journal := j\<rparr>) = (e, s')"
    by (auto simp: establish_epoch_def payload_u64 dest!: persistD)
  with k show ?thesis by (auto simp: upd_state_def)
qed

lemma boot_state:
  assumes "record_boot i now s = (e, s')" and "status_ok e"
  shows "e = status_success \<and> ds_state s' = (ds_state s)\<lparr>rs_boot := inc_boot i, rs_incarnation := i, rs_boot_recorded := True\<rparr> \<and>
    ds_config s' = ds_config s \<and> ds_open_attempts s' = ds_open_attempts s"
proof -
  from assms obtain j where "(\<lambda>s2. (status_success, upd_state (\<lambda>st. st\<lparr>rs_boot := inc_boot i, rs_incarnation := i,
      rs_boot_recorded := True\<rparr>) s2)) (s\<lparr>ds_journal := j\<rparr>) = (e, s')"
    by (auto simp: record_boot_def payload_boot not_established_def dest!: persistD split: if_splits)
  then show ?thesis by (auto simp: upd_state_def)
qed

lemma replay_list_content: "replay_list rs s = Inr t \<Longrightarrow> content_ok s \<Longrightarrow> content_ok t"
proof (induction rs arbitrary: s)
  case (Cons r rs)
  then obtain s1 where s1: "apply_record r s = Inr s1"
    and r: "replay_list rs (upd_state (\<lambda>st. st\<lparr>rs_records_replayed := rs_records_replayed st + 1\<rparr>) s1) = Inr t"
    by (auto simp: bpfab_try_decl_Inr)
  have "content_ok (upd_state (\<lambda>st. st\<lparr>rs_records_replayed := rs_records_replayed st + 1\<rparr>) s1)"
    using content_apply [OF Cons.prems(2) s1] by (simp add: content_ok_def upd_state_def Let_def)
  from Cons.IH [OF r this] show ?case .
qed simp

lemma store_open_content:
  assumes "store_open config dir file = (Inr s, file')"
  shows "content_ok s" and "ds_config s = config"
proof -
  obtain j where r: "replay (store_start config (sd_stale_files dir) j) = Inr s"
    using assms by (auto simp: store_open_def fail_def split: if_splits sum.splits prod.splits)
  have k: "jn_records (ds_journal (store_start config (sd_stale_files dir) j)) = jn_records j" by (simp add: store_start_def)
  obtain t where t: "replay_list (jn_records j) (store_start config (sd_stale_files dir) j) = Inr t"
    using r unfolding replay_def k by (auto simp: bpfab_try_decl_Inr)
  define n :: u64 where "n = of_nat (length (ds_open_attempts t))"
  have s: "s = upd_state (\<lambda>st. st\<lparr>rs_corrupt_records := js_truncated_tail_records (jn_stats (ds_journal t)),
      rs_journal_repaired := js_repaired (jn_stats (ds_journal t)), rs_attempts_open := n, rs_attempts_ambiguous := n\<rparr>) t"
    using r unfolding replay_def k t n_def by (simp add: Let_def)
  have "content_ok t" by (rule replay_list_content [OF t content_start])
  then show "content_ok s" by (simp add: content_ok_def Let_def s upd_state_def)
  show "ds_config s = config" using replay_list_keeps [OF t] by (simp add: s store_start_def upd_state_def)
qed

section \<open>What is restored\<close>

lemma rebind_fences_all:
  "\<forall>x \<in> set xs. status_ok (fence_validate x) \<Longrightarrow> distinct (map fence_id (fs @ xs)) \<Longrightarrow> length (fs @ xs) \<le> kMaxFences \<Longrightarrow>
     epoch_known e \<Longrightarrow> rebind_fences e xs fs = (status_success, fs @ map (\<lambda>x. x\<lparr>fence_epoch := e\<rparr>) xs)"
proof (induction xs arbitrary: fs)
  case (Cons x xs)
  have v: "status_ok (fence_validate (x\<lparr>fence_epoch := e\<rparr>))"
    using Cons.prems(1,4) by (auto simp: fence_validate_def split: if_splits)
  have "fence_replace fs (x\<lparr>fence_epoch := e\<rparr>) = None"
    using Cons.prems(2) by (induction fs) auto
  with v Cons.prems(3) have a: "fence_add fs (x\<lparr>fence_epoch := e\<rparr>) = (status_success, fs @ [x\<lparr>fence_epoch := e\<rparr>])"
    by (simp add: fence_add_def)
  show ?case using Cons.IH [of "fs @ [x\<lparr>fence_epoch := e\<rparr>]"] Cons.prems by (simp add: a)
qed simp

lemma restore_lineages_inv: "ledger_inv l \<Longrightarrow> ledger_inv (fold (\<lambda>d l. snd (mark_lineage l d)) ls l)"
  by (induction ls arbitrary: l) (simp_all add: mark_lineage_inv)

lemma restore_lineages:
  assumes "ledger_inv l" and "distinct (lineage_order l @ ls)" and "length (lineage_order l @ ls) \<le> lineage_capacity l"
  shows "fold (\<lambda>d l. snd (mark_lineage l d)) ls l =
    l\<lparr>lineage_order := lineage_order l @ ls, lineage_index := lineage_index l \<union> set ls\<rparr>"
  using assms
proof (induction ls arbitrary: l)
  case (Cons d ls)
  have m: "snd (mark_lineage l d) = l\<lparr>lineage_order := lineage_order l @ [d], lineage_index := insert d (lineage_index l)\<rparr>"
    using Cons.prems by (simp add: mark_lineage_eq [OF Cons.prems(1)] has_lineage_def ledger_inv_def)
  have "ledger_inv (snd (mark_lineage l d))" by (rule mark_lineage_inv [OF Cons.prems(1)])
  from Cons.IH [OF this] Cons.prems(2,3) show ?case by (simp add: m)
qed simp

text \<open>
  The fabric that opens on a store: the durable configuration is taken over, every durable fence is
  bound to the new epoch, every durable lineage is known; there is no publisher and no pressure.
\<close>

definition restored :: "FabricConfig \<Rightarrow> DurableStore \<Rightarrow> Fabric \<Rightarrow> bool" where
  "restored config s f \<longleftrightarrow>
     fab_policy f = (if rs_has_policy (ds_state s) then Some (rs_policy (ds_state s)) else None) \<and>
     fab_previous_epoch f = rs_epoch (ds_state s) \<and>
     unat (epoch_value (fab_epoch f)) = unat (epoch_value (rs_epoch (ds_state s))) + 1 \<and>
     fab_fences f = map (\<lambda>x. x\<lparr>fence_epoch := fab_epoch f\<rparr>) (rs_fences (ds_state s)) \<and>
     lineage_order (fab_ledger f) = rs_lineages (ds_state s) \<and>
     fab_revalidation f = rs_revalidation_required (ds_state s)"

definition fresh_start :: "FabricConfig \<Rightarrow> Fabric \<Rightarrow> bool" where
  "fresh_start config f \<longleftrightarrow>
     fab_config f = config \<and> fab_topology f = None \<and> fab_publishers f = [] \<and>
     led_applications (fab_ledger f) = [] \<and> led_damping (fab_ledger f) = [] \<and> \<not> fab_shutting_down f"

lemma restore_durable_spec:
  assumes c: "content_ok s" and e: "epoch_known (fab_epoch f)" and f: "fab_ledger f = propagation_ledger lc ac dc" "fab_fences f = []"
    and lc: "dc_max_lineages (ds_config s) = lc"
  shows "restore_durable s f = (status_success, f
    \<lparr>fab_store := Some s, fab_policy := (if rs_has_policy (ds_state s) then Some (rs_policy (ds_state s)) else None),
     fab_fences := map (\<lambda>x. x\<lparr>fence_epoch := fab_epoch f\<rparr>) (rs_fences (ds_state s)),
     fab_ledger := (fab_ledger f)\<lparr>lineage_order := rs_lineages (ds_state s), lineage_index := set (rs_lineages (ds_state s))\<rparr>,
     fab_revalidation := rs_revalidation_required (ds_state s)\<rparr>) \<and>
    ledger_inv ((fab_ledger f)\<lparr>lineage_order := rs_lineages (ds_state s), lineage_index := set (rs_lineages (ds_state s))\<rparr>)"
proof -
  let ?xs = "rs_fences (ds_state s)" and ?ls = "rs_lineages (ds_state s)"
  have x: "\<forall>x \<in> set ?xs. status_ok (fence_validate x)" "distinct (map fence_id ([] @ ?xs))" "length ([] @ ?xs) \<le> kMaxFences"
    using c by (simp_all add: content_ok_def Let_def)
  note r = rebind_fences_all [OF x e]
  have l: "ledger_inv (fab_ledger f)" "lineage_order (fab_ledger f) = []" "lineage_index (fab_ledger f) = {}"
    "lineage_capacity (fab_ledger f) = max 1 lc"
    by (simp_all add: f ledger_inv_start) (simp_all add: propagation_ledger_def max_def)
  have "distinct (lineage_order (fab_ledger f) @ ?ls)" "length (lineage_order (fab_ledger f) @ ?ls) \<le> lineage_capacity (fab_ledger f)"
    using c lc by (simp_all add: content_ok_def Let_def l)
  note eq = restore_lineages [OF l(1) this, unfolded l(2,3) append_Nil Un_empty_left]
  note inv = restore_lineages_inv [OF l(1), of ?ls, unfolded eq]
  show ?thesis using r inv by (simp add: restore_durable_def \<open>fab_fences f = []\<close> Let_def eq)
qed

lemma fabric_new_inv: "epoch_known e \<Longrightarrow> fabric_inv ((fabric_new config i)\<lparr>fab_epoch := e\<rparr>)"
  by (simp add: fabric_inv_def fabric_new_def ledger_inv_start fence_table_inv_def publishers_ok_def)

lemma fabric_boot_spec:
  assumes "fabric_boot config name dir nonce pid file = (Inr f, file')"
  shows "fabric_inv f \<and> fresh_start config f \<and>
    (if fc_state_directory config = [] then fab_store f = None \<and> file' = file \<and> fab_epoch f = Epoch 1
     else \<exists>s file1. store_open (durable_config config name) dir file = (Inr s, file1) \<and> restored config s f \<and>
       (\<exists>s1 s2. establish_epoch kNoTick s = (status_success, s1) \<and>
         record_boot (boot_incarnation nonce pid) kNoTick s1 = (status_success, s2) \<and>
         fab_store f = Some s2 \<and> file' = jn_file (ds_journal s2)))"
proof (cases "fc_state_directory config = []")
  case True
  with assms show ?thesis
    using fabric_new_inv [of "Epoch 1" config "boot_incarnation nonce pid"]
    by (auto simp: fabric_boot_def Let_def fresh_start_def epoch_known_def epoch_kNone_def)
      (simp_all add: fabric_new_def propagation_ledger_def)
next
  case False
  define f0 where "f0 = fabric_new config (boot_incarnation nonce pid)"
  obtain s file1 where s: "store_open (durable_config config name) dir file = (Inr s, file1)"
    using assms False by (cases "store_open (durable_config config name) dir file") (auto simp: fabric_boot_def Let_def fail_def split: sum.splits)
  obtain e1 s1 where e1: "establish_epoch kNoTick s = (e1, s1)" by (rule prod.exhaust)
  define f1 where "f1 = f0\<lparr>fab_previous_epoch := rs_epoch (ds_state s), fab_epoch := rs_epoch (ds_state s1)\<rparr>"
  obtain e2 s2 where e2: "record_boot (boot_incarnation nonce pid) kNoTick s1 = (e2, s2)" by (rule prod.exhaust)
  obtain e3 f2 where r: "restore_durable s2 f1 = (e3, f2)" by (rule prod.exhaust)
  have inc: "fab_incarnation f1 = boot_incarnation nonce pid" by (simp add: f1_def f0_def fabric_new_def)
  from assms False s e1 have ok1: "status_ok e1" by (auto simp: fabric_boot_def Let_def split: if_splits)
  with assms False s e1 e2 inc have ok2: "status_ok e2"
    by (auto simp: fabric_boot_def Let_def f1_def f0_def split: if_splits)
  with ok1 assms False s e1 e2 inc r have f: "status_ok e3" "f = f2" "file' = jn_file (ds_journal s2)"
    by (auto simp: fabric_boot_def Let_def f1_def f0_def split: if_splits)
  obtain n where n: "ds_state s1 = (ds_state s)\<lparr>rs_previous_epoch := rs_epoch (ds_state s), rs_epoch := n\<rparr>"
      "ds_config s1 = ds_config s" "ds_open_attempts s1 = ds_open_attempts s" "epoch_known n"
      "unat (epoch_value n) = unat (epoch_value (rs_epoch (ds_state s))) + 1"
    using establish_state [OF e1 ok1] by blast
  note b = boot_state [OF e2 ok2]
  note c = store_open_content [OF s]
  have c2: "content_ok s2" using c(1) n b unfolding content_ok_def Let_def by simp
  have l: "fab_ledger f1 = propagation_ledger (fc_lineage_capacity config) (fc_application_capacity config) (fc_damping_capacity config)"
    "fab_fences f1 = []" "fab_epoch f1 = n" "dc_max_lineages (ds_config s2) = fc_lineage_capacity config"
    using b n(1,2) c(2) by (simp_all add: f1_def f0_def fabric_new_def durable_config_def)
  note rd = restore_durable_spec [OF c2 _ l(1,2,4), unfolded l(3), OF n(4)]
  have fe: "f = f1\<lparr>fab_store := Some s2, fab_policy := (if rs_has_policy (ds_state s2) then Some (rs_policy (ds_state s2)) else None),
     fab_fences := map (\<lambda>x. x\<lparr>fence_epoch := n\<rparr>) (rs_fences (ds_state s2)),
     fab_ledger := (fab_ledger f1)\<lparr>lineage_order := rs_lineages (ds_state s2), lineage_index := set (rs_lineages (ds_state s2))\<rparr>,
     fab_revalidation := rs_revalidation_required (ds_state s2)\<rparr>"
    and li: "ledger_inv ((fab_ledger f1)\<lparr>lineage_order := rs_lineages (ds_state s2), lineage_index := set (rs_lineages (ds_state s2))\<rparr>)"
    using rd r f by simp_all
  have fresh: "fresh_start config f" "restored config s f"
    using b n by (simp_all add: fe fresh_start_def restored_def l(1)) (simp_all add: f1_def f0_def fabric_new_def propagation_ledger_def)
  have fences: "fence_table_inv (map (\<lambda>x. x\<lparr>fence_epoch := n\<rparr>) (rs_fences (ds_state s2)))"
    using c2 n(4) by (auto simp: content_ok_def fence_table_inv_def Let_def comp_def fence_validate_def split: if_splits)
  have "distinct (rs_revalidation_required (ds_state s2))"
    "length (rs_revalidation_required (ds_state s2)) \<le> fc_max_revalidation_entries config"
    "rs_has_policy (ds_state s2) \<Longrightarrow> status_ok (policy_validate (rs_policy (ds_state s2)))"
    using c2 b n(2) c(2) by (auto simp: content_ok_def Let_def durable_config_def split: if_splits)
  moreover have "fab_config f1 = config" "fab_publishers f1 = []" "fab_topology f1 = None"
    by (simp_all add: f1_def f0_def fabric_new_def)
  ultimately have "fabric_inv f"
    using li fences n(4) l(3) by (simp add: fe fabric_inv_def publishers_ok_def)
  moreover have "e1 = status_success" "e2 = status_success"
    using establish_state [OF e1 ok1] b by simp_all
  ultimately show ?thesis using False fresh s e1 e2 f(3) by (auto simp: fe)
qed

end
