(* ===== verification/Fabric_Publish.thy ===== *)
theory Fabric_Publish
  imports Fabric_Boot
begin

text \<open>
  What a publish does to the fabric: which checks stand before any effect, that the durable intent
  precedes it, and that the commit repeats the plan.
\<close>

section \<open>The engine sees the same fabric twice\<close>

lemma engine_context_update [simp]:
  "engine_context (fab_store_update g f) = engine_context f"
  "engine_context (fab_attempts_update h f) = engine_context f"
  by (simp_all add: engine_context_def)

lemma run_propagate_valid:
  assumes "fab_topology f = Some topo" and "fab_policy f = Some policy" and "run_propagate req f = Some (w, f')"
  shows "\<exists>l. propagate_valid topo policy (fab_ledger f) (Some (fab_fences f)) (fab_epoch f) req = Some (w, l) \<and>
    f' = f\<lparr>fab_ledger := l\<rparr>"
  using assms by (auto simp: run_propagate_def propagate_def engine_context_def)

lemma run_propagate_unconfigured:
  assumes "fab_topology f = None \<or> fab_policy f = None" and "run_propagate req f = Some (w, f')"
  shows "f' = f \<and> \<not> status_ok (out_status w)"
  using assms by (auto simp: run_propagate_def propagate_def engine_context_def split: option.splits)

lemma plan_commit:
  assumes plan: "run_propagate req f = Some (planned, f1)" and dry: "req_dry_run req"
    and f2: "f2 = f1\<lparr>fab_store := so, fab_attempts := n\<rparr>"
    and go: "run_propagate (commit_request req) f2 = Some (outcome, f3)"
  shows "f1 = f" and "status_ok (out_status outcome) \<Longrightarrow> \<exists>n. outcome = with_evictions n planned"
proof -
  have *: "f1 = f \<and> (status_ok (out_status outcome) \<longrightarrow> (\<exists>n. outcome = with_evictions n planned))"
  proof (cases "fab_topology f = None \<or> fab_policy f = None")
    case True
    with run_propagate_unconfigured [OF _ plan] have "f1 = f" by blast
    with True f2 run_propagate_unconfigured [OF _ go] show ?thesis by simp
  next
    case False
    then obtain topo policy where t: "fab_topology f = Some topo" "fab_policy f = Some policy" by auto
    obtain l where l: "propagate_valid topo policy (fab_ledger f) (Some (fab_fences f)) (fab_epoch f) req = Some (planned, l)"
      "f1 = f\<lparr>fab_ledger := l\<rparr>" using run_propagate_valid [OF t plan] by blast
    have "propagate (engine_context f) req = Some (planned, Some l)" using l t by (simp add: propagate_def engine_context_def)
    from propagate_ledger [OF this] dry have "l = fab_ledger f" by (auto simp: engine_context_def)
    then have f1: "f1 = f" using l(2) by simp
    obtain l' where "propagate_valid topo policy (fab_ledger f) (Some (fab_fences f)) (fab_epoch f) (commit_request req) = Some (outcome, l')"
      using run_propagate_valid [of f2 topo policy, OF _ _ go] t f1 f2 by auto
    from propagate_valid_commit [OF this _ dry l(1)] f1 show ?thesis by blast
  qed
  then show "f1 = f" "status_ok (out_status outcome) \<Longrightarrow> \<exists>n. outcome = with_evictions n planned" by blast+
qed

section \<open>The lineages of the store\<close>

definition store_lineages :: "Fabric \<Rightarrow> Digest128 set" where
  "store_lineages f = (case fab_store f of None \<Rightarrow> {} | Some s \<Rightarrow> set (rs_lineages (ds_state s)))"

lemma persist_state:
  assumes "persist type now epoch payload s k = (e, s')"
  shows "ds_state s' = ds_state s \<and> \<not> status_ok e \<or> (\<exists>j. k (s\<lparr>ds_journal := j\<rparr>) = (e, s'))"
proof -
  obtain e1 j1 where a: "journal_append type now epoch payload (ds_journal s) = (e1, j1)" by (rule prod.exhaust)
  obtain e2 j2 where b: "journal_sync j1 = (e2, j2)" by (rule prod.exhaust)
  from assms show ?thesis by (auto simp: persist_def try_state_def on_journal_def a b split: if_splits)
qed

lemma close_lineages:
  assumes "\<And>st. rs_lineages (tally st) = rs_lineages st" and "close_attempt type what tally i now s = (e, s')"
  shows "rs_lineages (ds_state s') = rs_lineages (ds_state s)"
  using assms(2) persist_state
  by (fastforce simp: close_attempt_def payload_u64 upd_state_def drop_attempt_def assms(1) Let_def split: if_splits)

lemma commit_attempt_lineages: "commit_attempt i now s = (e, s') \<Longrightarrow> rs_lineages (ds_state s') = rs_lineages (ds_state s)"
  unfolding commit_attempt_def by (erule close_lineages [rotated]) simp

lemma abort_attempt_lineages: "abort_attempt i now s = (e, s') \<Longrightarrow> rs_lineages (ds_state s') = rs_lineages (ds_state s)"
  unfolding abort_attempt_def by (erule close_lineages [rotated]) simp

lemma compact_lineages: "rs_lineages (ds_state (snd (compact_if_needed n s))) = rs_lineages (ds_state s)"
proof -
  have "rs_lineages (ds_state (snd (compact s))) = rs_lineages (ds_state s)"
    by (auto simp: compact_def try_state_def on_journal_def upd_state_def split_beta Let_def split: sum.split)
  then show ?thesis by (simp add: compact_if_needed_def split_beta Let_def)
qed

lemma record_lineage_kept:
  assumes "record_lineage d now s = (e, s')" and "status_ok e"
  shows "d \<in> set (rs_lineages (ds_state s'))"
proof -
  obtain e1 j where j: "journal_append RT_Lineage now (rs_epoch (ds_state s)) (digest_bytes d) (ds_journal s) = (e1, j)"
    by (rule prod.exhaust)
  with assms have "s' = remember_lineage d (s\<lparr>ds_journal := j\<rparr>)"
    by (auto simp: record_lineage_def payload_digest on_journal_def try_state_def not_established_def split: if_splits)
  then show ?thesis by (simp add: remember_lineage_def Let_def)
qed

lemma on_store_lineages:
  assumes "\<And>s e s'. g s = (e, s') \<Longrightarrow> rs_lineages (ds_state s') = rs_lineages (ds_state s)" and "on_store g f = (e, f')"
  shows "store_lineages f' = store_lineages f"
  using assms by (auto simp: on_store_def store_lineages_def split: option.splits prod.splits)

lemma abandon_lineages: "store_lineages (abandon_attempt i now f) = store_lineages f"
proof -
  obtain e f' where a: "on_store (abort_attempt i now) f = (e, f')" by (rule prod.exhaust)
  have "store_lineages f' = store_lineages f" by (rule on_store_lineages [OF abort_attempt_lineages a])
  then show ?thesis by (simp add: abandon_attempt_def a)
qed

lemma close_intent_lineages: "close_intent i now f = (e, f') \<Longrightarrow> store_lineages f' = store_lineages f"
  using on_store_lineages [OF commit_attempt_lineages] by (auto simp: close_intent_def split: if_splits)

lemma compaction_lineages: "store_lineages (journal_compaction f) = store_lineages f"
  by (simp add: journal_compaction_def store_lineages_def compact_lineages split: option.split)

lemma publisher_frame [simp]:
  "fab_ledger (update_publisher source g f) = fab_ledger f" "fab_store (update_publisher source g f) = fab_store f"
  "fab_ledger (reject_publisher source f) = fab_ledger f" "fab_store (reject_publisher source f) = fab_store f"
  "fab_ledger (reject_signal f) = fab_ledger f" "fab_store (reject_signal f) = fab_store f"
  "fab_ledger (accept_signal source f) = fab_ledger f" "fab_store (accept_signal source f) = fab_store f"
  by (simp_all add: update_publisher_def reject_publisher_def reject_signal_def accept_signal_def set_publisher_def split: option.split)

lemma publisher_lineages [simp]:
  "store_lineages (reject_publisher source f) = store_lineages f" "store_lineages (reject_signal f) = store_lineages f"
  "store_lineages (accept_signal source f) = store_lineages f"
  by (simp_all add: store_lineages_def)

section \<open>The phases of a publish\<close>

lemma frame_ledger [simp]: "fab_ledger (journal_compaction f) = fab_ledger f" "fab_ledger (abandon_attempt i now f) = fab_ledger f"
  using compaction_frame [of f] abandon_frame [of i now f] by auto

definition accepted_result :: "PropagationOutcome result \<Rightarrow> bool" where
  "accepted_result r \<longleftrightarrow> (\<exists>w. r = Inr w \<and> status_ok (out_status w))"

lemma not_accepted [simp]: "\<not> accepted_result (fail c m d)" "\<not> accepted_result (fail_with e)" "\<not> accepted_result (Inl e)"
  by (simp_all add: accepted_result_def fail_with_def fail_def)

lemma publish_commit_spec:
  assumes "publish_commit req planned source i now f = Some (r, f')"
  obtains outcome f1 where "run_propagate (commit_request req) f = Some (outcome, f1)"
    "fab_ledger f' = fab_ledger f1" "store_lineages f' = store_lineages f1"
    "accepted_result r \<Longrightarrow> r = Inr outcome \<and> status_ok (out_status outcome) \<and>
       (\<exists>e f2. close_intent i now f1 = (e, f2) \<and> status_ok e \<and> f' = journal_compaction (accept_signal source f2))"
proof -
  obtain outcome f1 where g: "run_propagate (commit_request req) f = Some (outcome, f1)"
    using assms by (auto simp: publish_commit_def split: option.splits)
  obtain e f2 where c: "close_intent i now f1 = (e, f2)" by (rule prod.exhaust)
  have f2: "fab_ledger f2 = fab_ledger f1" "store_lineages f2 = store_lineages f1"
    using close_intent_frame [OF c] close_intent_lineages [OF c] by auto
  note run = assms [unfolded publish_commit_def g option.case prod.case c Let_def]
  show ?thesis
  proof (cases "status_ok (out_status outcome) \<and> out_fingerprint outcome = out_fingerprint planned \<and> status_ok e")
    case True
    with run have "r = Inr outcome" "f' = journal_compaction (accept_signal source f2)" by simp_all
    then show ?thesis using that [OF g] f2 True c by (simp add: compaction_lineages)
  next
    case False
    show ?thesis
    proof (cases "status_ok (out_status outcome)")
      case ok: True
      show ?thesis
      proof (cases "out_fingerprint outcome = out_fingerprint planned")
        case True
        with ok False have e: "\<not> status_ok e" by simp
        from run have "Some (fail_with e, reject_signal f2) = Some (r, f')" by (simp only: ok e True simp_thms if_True if_False not_not)
        then have "r = fail_with e" "f' = reject_signal f2" by simp_all
        then show ?thesis using that [OF g] f2 by simp
      next
        case no: False
        from run have "Some (fail Internal ''plan/commit fingerprint mismatch'' 0, reject_signal (abandon_attempt i now f1)) = Some (r, f')"
          by (simp only: ok no simp_thms if_True if_False not_not)
        then have "r = fail Internal ''plan/commit fingerprint mismatch'' 0" "f' = reject_signal (abandon_attempt i now f1)" by simp_all
        then show ?thesis using that [OF g] by (simp add: abandon_lineages)
      qed
    next
      case bad: False
      with run have "r = Inr outcome" "f' = reject_publisher source (abandon_attempt i now f1)" by simp_all
      then show ?thesis using that [OF g] bad by (simp add: abandon_lineages accepted_result_def)
    qed
  qed
qed

lemma record_lineages_kept:
  "record_lineages [signal] now f = (e, f') \<Longrightarrow> status_ok e \<Longrightarrow> fab_store f \<noteq> None \<Longrightarrow> sig_lineage signal \<in> store_lineages f'"
  by (auto simp: on_store_def try_state_def store_lineages_def dest: record_lineage_kept split: option.splits prod.splits if_splits)

lemma durable_intent_kept:
  assumes "durable_intent True planned [signal] now f = (e, i, f')" and "status_ok e"
    and "fab_store f \<noteq> None" and "signals_accepted (out_counters planned) > 0"
  shows "sig_lineage signal \<in> store_lineages f'"
proof -
  obtain e1 f2 where b: "on_store (begin_attempt (StrongId (fab_attempts f)) now) (f\<lparr>fab_attempts := fab_attempts f + 1\<rparr>) = (e1, f2)"
    by (rule prod.exhaust)
  obtain e2 f3 where c: "record_lineages [signal] now f2 = (e2, f3)" by (rule prod.exhaust)
  have "fab_store f2 \<noteq> None" using b assms(3) by (auto simp: on_store_def split: prod.splits)
  moreover have "status_ok e2" "f' = f3"
    using assms b c by (auto simp: durable_intent_def next_attempt_def Let_def simp del: record_lineages.simps split: if_splits)
  ultimately show ?thesis using record_lineages_kept [OF c] by simp
qed

definition publish_admitted :: "PressureSignal \<Rightarrow> Fabric \<Rightarrow> bool" where
  "publish_admitted signal f \<longleftrightarrow> \<not> fab_shutting_down f \<and>
     (\<exists>topo policy p. fab_topology f = Some topo \<and> fab_policy f = Some policy \<and>
        find_publisher (sig_source signal) f = Some p \<and> pub_incarnation p = sig_publisher signal \<and> pub_state p = PS_Live \<and>
        sig_epoch signal = fab_epoch f \<and> sig_topology_digest signal = top_digest topo)"

lemma publish_refusal_None: "publish_refusal signal f = None \<longleftrightarrow> publish_admitted signal f"
  by (auto simp: publish_refusal_def publish_admitted_def split: option.splits)

lemma publish_locked_cases:
  assumes p: "publish_locked signal now wanted cancelled f = Some (r, f')"
  obtains (idle) "fab_ledger f' = fab_ledger f" "\<not> accepted_result r"
  | (runs) topo policy planned e i f3 where "publish_admitted signal f" "\<not> cancelled"
      "fab_topology f = Some topo" "fab_policy f = Some policy"
      "run_propagate (publish_request topo policy (StrongId (fab_attempts f)) [signal] now f) (f\<lparr>fab_attempts := fab_attempts f + 1\<rparr>) =
         Some (planned, f\<lparr>fab_attempts := fab_attempts f + 1\<rparr>)"
      "status_ok (out_status planned)"
      "durable_intent wanted planned [signal] now (f\<lparr>fab_attempts := fab_attempts f + 1\<rparr>) = (e, i, f3)" "status_ok e"
      "publish_commit (publish_request topo policy (StrongId (fab_attempts f)) [signal] now f) planned (sig_source signal) i now f3 = Some (r, f')"
proof (cases "publish_refusal signal f")
  case (Some q)
  then show ?thesis using p by (intro idle) (auto simp: publish_locked_def accepted_result_def split: prod.splits)
next
  case None
  then have adm: "publish_admitted signal f" by (simp add: publish_refusal_None)
  then obtain topo policy where t: "fab_topology f = Some topo" "fab_policy f = Some policy" by (auto simp: publish_admitted_def)
  define f1 where "f1 = f\<lparr>fab_attempts := fab_attempts f + 1\<rparr>"
  define req where "req = publish_request topo policy (StrongId (fab_attempts f)) [signal] now f"
  have req: "publish_request topo policy (StrongId (fab_attempts f)) [signal] now f1 = req" "req_dry_run req"
    by (simp_all add: req_def f1_def publish_request_def)
  obtain planned f2 where plan: "run_propagate req f1 = Some (planned, f2)"
    using p None t req(1) by (auto simp: publish_locked_def next_attempt_def Let_def f1_def split: option.splits)
  have f2: "f2 = f1"
  proof -
    obtain l where l: "propagate_valid topo policy (fab_ledger f1) (Some (fab_fences f1)) (fab_epoch f1) req = Some (planned, l)"
      "f2 = f1\<lparr>fab_ledger := l\<rparr>" using run_propagate_valid [of f1, OF _ _ plan] t by (auto simp: f1_def)
    have "propagate (engine_context f1) req = Some (planned, Some l)" using l t by (simp add: propagate_def engine_context_def f1_def)
    from propagate_ledger [OF this] req(2) have "l = fab_ledger f1" by (auto simp: engine_context_def)
    then show ?thesis using l(2) by simp
  qed
  obtain e i f3 where d: "durable_intent wanted planned [signal] now f1 = (e, i, f3)" by (rule prod_cases3)
  have f3: "fab_ledger f3 = fab_ledger f" using durable_intent_frame [OF d] by (auto simp: f1_def)
  have c: "\<not> status_ok (out_status (cancelled_outcome planned))"
    by (simp add: cancelled_outcome_def)
  note run = p [unfolded publish_locked_def None option.case t prod.case next_attempt_def Let_def, folded f1_def, unfolded req(1) plan option.case prod.case f2 d]
  show ?thesis
  proof (cases "status_ok (out_status planned) \<and> \<not> cancelled \<and> status_ok e")
    case True
    with run have "publish_commit req planned (sig_source signal) i now f3 = Some (r, f')" by simp
    then have c: "publish_commit (publish_request topo policy (StrongId (fab_attempts f)) [signal] now f) planned
        (sig_source signal) i now f3 = Some (r, f')" by (simp add: req_def)
    have g: "run_propagate (publish_request topo policy (StrongId (fab_attempts f)) [signal] now f) (f\<lparr>fab_attempts := fab_attempts f + 1\<rparr>) =
         Some (planned, f\<lparr>fab_attempts := fab_attempts f + 1\<rparr>)" using plan f2 by (simp add: req_def f1_def)
    from True have "status_ok (out_status planned)" "\<not> cancelled" "status_ok e" by blast+
    then show ?thesis using runs adm t g d c unfolding f1_def by blast
  next
    case False
    with run c f3 show ?thesis
      by (intro idle) (auto simp: accepted_result_def f1_def fail_with_def fail_def split: if_splits)
  qed
qed

end
