(* ===== verification/Fabric_Restart.thy ===== *)
theory Fabric_Restart
  imports Fabric_Publish
begin

text \<open>
  What a published signal leaves in the store, and what a fabric opened again on that store after
  a crash knows of it.
\<close>

section \<open>Opening again what was synced\<close>

lemma synced_reopens:
  assumes inv: "store_inv s" and sync: "synced s" and dir: "directory_ready dir"
  shows "\<exists>t. store_open (ds_config s) dir ((crash k (jn_file (ds_journal s)))\<lparr>file_tape := []\<rparr>) = (Inr t, jn_file (ds_journal t)) \<and>
    store_inv t \<and> same_view t s \<and> jn_records (ds_journal t) = jn_records (ds_journal s) \<and> file_tape (jn_file (ds_journal t)) = []"
proof -
  let ?j = "ds_journal s" and ?lim = "dc_journal_limits (ds_config s)"
  have j: "config_ok (ds_config s)" "journal_inv ?j" "jn_limits ?j = ?lim" "replayed (ds_config s) (jn_records ?j) = Inr (view_of s)"
    using inv by (simp_all add: store_inv_def)
  have f: "file_bytes (jn_file ?j) = Some (image (jn_records ?j))" "limits_ok ?lim" "well_chained ?lim (jn_records ?j)"
    using j(2,3) by (auto simp: journal_inv_def journal_mem_def)
  let ?d = "(crash k (jn_file ?j))\<lparr>file_tape := []\<rparr>"
  have d: "file_bytes ?d = Some (image (jn_records ?j) @ [])" "file_tape ?d = []" "file_durable ?d \<le> length (image (jn_records ?j) @ [])"
    using f(1) sync by (simp_all add: crash_def synced_def file_contents_def)
  from journal_open_image [OF f(2) d(1,2) f(3) _ d(3), of True] obtain j' where
    o: "journal_open ?lim True ?d = (Inr j', jn_file j')" "jn_records j' = jn_records ?j" "jn_limits j' = ?lim" "journal_inv j'"
      "file_tape (jn_file j') = []" by auto
  have "replayed (ds_config s) (jn_records j') = Inr (view_of s)" using j(4) o(2) by simp
  from store_open_replays [OF j(1) dir o(1) refl o(4,3) this] o show ?thesis by (auto simp: view_of_eq)
qed

section \<open>The store of a publish\<close>

lemma begin_state:
  assumes "begin_attempt i now s = (e, s')" and "status_ok e"
  shows "id_valid i \<and> rs_epoch (ds_state s') = rs_epoch (ds_state s) \<and> ds_config s' = ds_config s"
proof -
  from assms obtain j where "id_valid i" "s' = upd_state (\<lambda>st. st\<lparr>rs_attempts_open := of_nat (length (ds_open_attempts s @ [i]))\<rparr>)
      (s\<lparr>ds_journal := j, ds_open_attempts := ds_open_attempts s @ [i]\<rparr>)"
    by (auto simp: begin_attempt_def payload_u64 not_established_def Let_def dest!: persistD split: if_splits)
  then show ?thesis by (simp add: upd_state_def)
qed

lemma lineage_state:
  assumes "record_lineage d now s = (e, s')" and "status_ok e"
  shows "rs_epoch (ds_state s') = rs_epoch (ds_state s) \<and> ds_config s' = ds_config s"
proof -
  obtain e1 j where "journal_append RT_Lineage now (rs_epoch (ds_state s)) (digest_bytes d) (ds_journal s) = (e1, j)"
    by (rule prod.exhaust)
  with assms have "s' = remember_lineage d (s\<lparr>ds_journal := j\<rparr>)"
    by (auto simp: record_lineage_def payload_digest on_journal_def try_state_def not_established_def split: if_splits)
  then show ?thesis by (simp add: remember_lineage_def Let_def)
qed

lemma commit_state:
  assumes "commit_attempt i now s = (e, s')" and "status_ok e"
  shows "rs_epoch (ds_state s') = rs_epoch (ds_state s) \<and> ds_config s' = ds_config s \<and> s' \<noteq> s"
proof -
  from assms obtain j where i: "i \<in> set (ds_open_attempts s)" and s': "ds_open_attempts s' = remove1 i (ds_open_attempts s)"
    "rs_epoch (ds_state s') = rs_epoch (ds_state s)" "ds_config s' = ds_config s"
    by (auto simp: commit_attempt_def close_attempt_def payload_u64 upd_state_def drop_attempt_def Let_def dest!: persistD split: if_splits)
  have "length (ds_open_attempts s') < length (ds_open_attempts s)"
    using length_pos_if_in_set [OF i] i s'(1) by (simp add: length_remove1)
  with s' show ?thesis by auto
qed

lemma durable_intent_store:
  assumes s: "fab_store f = Some s" "store_inv s"
    and d: "durable_intent True planned [signal] now f = (e, i, f')" "status_ok e" and n: "signals_accepted (out_counters planned) > 0"
  obtains s' where "fab_store f' = Some s'" "store_inv s'" "id_valid i" "sig_lineage signal \<in> set (rs_lineages (ds_state s'))"
    "rs_epoch (ds_state s') = rs_epoch (ds_state s)" "ds_config s' = ds_config s"
    "length (jn_records (ds_journal s')) \<le> length (jn_records (ds_journal s)) + 2"
proof -
  define k :: AttemptId where "k = StrongId (fab_attempts f)"
  obtain e1 s1 where b: "begin_attempt k now s = (e1, s1)" by (rule prod.exhaust)
  obtain e2 s2 where c: "record_lineage (sig_lineage signal) now s1 = (e2, s2)" by (rule prod.exhaust)
  have st: "on_store g f0 = (fst (g s0), f0\<lparr>fab_store := Some (snd (g s0))\<rparr>)" if "fab_store f0 = Some s0" for g f0 s0
    using that by (simp add: on_store_def split_beta)
  have rl: "record_lineages [signal] now f0 = (fst (record_lineage (sig_lineage signal) now s0),
      f0\<lparr>fab_store := Some (snd (record_lineage (sig_lineage signal) now s0))\<rparr>)
      \<or> status_ok (fst (record_lineage (sig_lineage signal) now s0)) \<and>
        record_lineages [signal] now f0 = (status_success, f0\<lparr>fab_store := Some (snd (record_lineage (sig_lineage signal) now s0))\<rparr>)"
    if "fab_store f0 = Some s0" for f0 s0
    by (simp add: st [OF that] try_state_def split_beta)
  have ok: "status_ok e1" "status_ok e2" "i = k" "fab_store f' = Some s2"
    using d n s(1) b c rl [of "f\<lparr>fab_attempts := fab_attempts f + 1, fab_store := Some s1\<rparr>" s1]
    by (auto simp: durable_intent_def next_attempt_def k_def st [of _ s] Let_def simp del: record_lineages.simps split: if_splits)
  note lb = beginning.op_logs [OF TrueI s(2) b ok(1)]
  have i1: "store_inv s1" by (rule beginning.op_inv [OF TrueI s(2) b ok(1)])
  note lc = lineages.op_logs [OF TrueI i1 c ok(2)]
  have "length (jn_records (ds_journal s2)) \<le> length (jn_records (ds_journal s)) + 2"
    using lb lc by (auto simp: kept_def logs_def)
  then show ?thesis
    using that [OF ok(4)] lineages.op_inv [OF TrueI i1 c ok(2)] begin_state [OF b ok(1)] lineage_state [OF c ok(2)]
      record_lineage_kept [OF c ok(2)] ok(3) by simp
qed

lemma close_intent_store:
  assumes s: "fab_store f = Some s" "store_inv s" "id_valid i" and c: "close_intent i now f = (e, f')" "status_ok e"
  obtains s' where "fab_store f' = Some s'" "store_inv s'" "synced s'" "rs_lineages (ds_state s') = rs_lineages (ds_state s)"
    "rs_epoch (ds_state s') = rs_epoch (ds_state s)" "ds_config s' = ds_config s"
    "length (jn_records (ds_journal s')) \<le> length (jn_records (ds_journal s)) + 1"
proof -
  obtain e1 s1 where b: "commit_attempt i now s = (e1, s1)" by (rule prod.exhaust)
  have ok: "status_ok e1" "fab_store f' = Some s1" using s(1,3) c b by (auto simp: close_intent_def on_store_def)
  have "synced s1" using committing.op_syncs [OF TrueI s(2) b ok(1)] commit_state [OF b ok(1)] by simp
  moreover have "length (jn_records (ds_journal s1)) \<le> length (jn_records (ds_journal s)) + 1"
    using committing.op_logs [OF TrueI s(2) b ok(1)] by (auto simp: kept_def logs_def)
  ultimately show ?thesis
    using that [OF ok(2)] committing.op_inv [OF TrueI s(2) b ok(1)] commit_state [OF b ok(1)] commit_attempt_lineages [OF b] by simp
qed

text \<open>No compaction falls due while one signal is published.\<close>

definition compaction_far :: "Fabric \<Rightarrow> DurableStore \<Rightarrow> bool" where
  "compaction_far f s \<longleftrightarrow> fc_compaction_threshold (fab_config f) = 0 \<or>
     length (jn_records (ds_journal s)) + 3 < fc_compaction_threshold (fab_config f)"

lemma published_store:
  assumes s: "fab_store f = Some s" "store_inv s" "compaction_far f s"
    and p: "publish_locked signal now True cancelled f = Some (Inr w, f')" "status_ok (out_status w)" "signals_accepted (out_counters w) > 0"
  obtains s' where "fab_store f' = Some s'" "store_inv s'" "synced s'" "sig_lineage signal \<in> set (rs_lineages (ds_state s'))"
    "rs_epoch (ds_state s') = rs_epoch (ds_state s)" "ds_config s' = ds_config s" "sig_epoch signal = fab_epoch f"
proof (cases rule: publish_locked_cases [OF p(1)])
  case 1
  with p(2) show ?thesis by (simp add: accepted_result_def)
next
  case (2 topo policy planned e i f3)
  let ?f1 = "f\<lparr>fab_attempts := fab_attempts f + 1\<rparr>"
  let ?req = "publish_request topo policy (StrongId (fab_attempts f)) [signal] now f"
  have acc: "accepted_result (Inr w :: PropagationOutcome result)" using p(2) by (simp add: accepted_result_def)
  from 2(9) obtain outcome f4 where g: "run_propagate (commit_request ?req) f3 = Some (outcome, f4)"
    and fin: "Inr w = Inr outcome \<and> status_ok (out_status outcome) \<and>
       (\<exists>e f2. close_intent i now f4 = (e, f2) \<and> status_ok e \<and> f' = journal_compaction (accept_signal (sig_source signal) f2))"
    by (rule publish_commit_spec) (use acc in blast)
  then obtain e2 f5 where w: "outcome = w" and c: "close_intent i now f4 = (e2, f5)" "status_ok e2"
    "f' = journal_compaction (accept_signal (sig_source signal) f5)" by auto
  have dry: "req_dry_run ?req" by (simp add: publish_request_def)
  obtain so n where f3: "f3 = ?f1\<lparr>fab_store := so, fab_attempts := n\<rparr>" using durable_intent_frame [OF 2(7)] by auto
  from plan_commit(2) [OF 2(5) dry f3 g] p(2) w obtain m where "w = with_evictions m planned" by auto
  then have n: "signals_accepted (out_counters planned) > 0" using p(3) by (simp add: with_evictions_def)
  have "fab_store ?f1 = Some s" using s(1) by simp
  from durable_intent_store [OF this s(2) 2(7,8) n] obtain s3 where s3: "fab_store f3 = Some s3" "store_inv s3" "id_valid i"
    "sig_lineage signal \<in> set (rs_lineages (ds_state s3))" "rs_epoch (ds_state s3) = rs_epoch (ds_state s)" "ds_config s3 = ds_config s"
    "length (jn_records (ds_journal s3)) \<le> length (jn_records (ds_journal s)) + 2" by blast
  have f4: "fab_store f4 = fab_store f3" "fab_config f4 = fab_config f"
    using g f3 by (auto simp: run_propagate_def split: option.splits)
  from close_intent_store [of f4, OF _ s3(2,3) c(1,2)] f4(1) s3(1) obtain s5 where s5: "fab_store f5 = Some s5" "store_inv s5" "synced s5"
    "rs_lineages (ds_state s5) = rs_lineages (ds_state s3)" "rs_epoch (ds_state s5) = rs_epoch (ds_state s3)" "ds_config s5 = ds_config s3"
    "length (jn_records (ds_journal s5)) \<le> length (jn_records (ds_journal s3)) + 1" by auto
  have cfg: "fab_config (accept_signal (sig_source signal) f5) = fab_config f"
    using close_intent_frame [OF c(1)] f4(2) by (auto simp: accept_signal_def update_publisher_def set_publisher_def split: option.split)
  have "fab_store f' = Some s5"
    using s(3) s3(7) s5(1,7) cfg by (auto simp: c(3) journal_compaction_def compact_if_needed_def compaction_far_def)
  moreover have "sig_epoch signal = fab_epoch f" using 2(1) by (auto simp: publish_admitted_def)
  ultimately show ?thesis using that s3 s5 by simp
qed


section \<open>The pressure that a flush records\<close>

lemma add_footprint_all:
  "length (rs_revalidation_required st) + length rs \<le> n \<Longrightarrow>
     set (rs_revalidation_required (add_footprint n rs st)) = set (rs_revalidation_required st) \<union> set rs \<and>
     length (rs_revalidation_required (add_footprint n rs st)) \<le> length (rs_revalidation_required st) + length rs"
proof (induction n rs st rule: add_footprint.induct)
  case (2 n r rs st)
  then show ?case by (auto simp: insert_absorb)
qed simp

lemma footprint_recorded:
  assumes "record_pressure_footprint es now s = (e, s')" and "status_ok e"
  shows "rs_revalidation_required (ds_state s') =
      rs_revalidation_required (add_footprint (dc_max_footprint_entries (ds_config s)) (map snd es) (ds_state s)) \<and>
    ds_config s' = ds_config s"
proof -
  from assms obtain j where "(status_success, upd_state (\<lambda>st.
      let st1 = add_footprint (dc_max_footprint_entries (ds_config s)) (map snd es) st
      in st1\<lparr>rs_footprint_entries := length (rs_revalidation_required st1)\<rparr>) (s\<lparr>ds_journal := j\<rparr>)) = (e, s')"
    by (auto simp: record_pressure_footprint_def payload_footprint not_established_def Let_def dest!: persistD split: if_splits)
  then show ?thesis by (auto simp: upd_state_def Let_def)
qed

lemma record_chunks_store:
  assumes "record_chunks k es now f = (e, f')" and "status_ok e" and "0 < k" and "fab_store f = Some s" and "store_inv s"
    and "footprint_valid es" and "length (rs_revalidation_required (ds_state s)) + length es \<le> dc_max_footprint_entries (ds_config s)"
  shows "\<exists>s'. fab_store f' = Some s' \<and> store_inv s' \<and> ds_config s' = ds_config s \<and>
    set (rs_revalidation_required (ds_state s')) = set (rs_revalidation_required (ds_state s)) \<union> snd ` set es"
  using assms
proof (induction k es now f arbitrary: s rule: record_chunks.induct)
  case (1 k es now f)
  note prems = 1(2-)
  show ?case
  proof (cases "es = []")
    case True
    with prems show ?thesis by (auto simp: record_chunks.simps)
  next
    case False
    obtain e1 s1 where r: "record_pressure_footprint (take k es) now s = (e1, s1)" by (rule prod.exhaust)
    have o: "on_store (record_pressure_footprint (take k es) now) f = (e1, f\<lparr>fab_store := Some s1\<rparr>)"
      using prems(4) r by (simp add: on_store_def)
    have t: "try_state (e1, f\<lparr>fab_store := Some s1\<rparr>) (record_chunks k (drop k es) now) = (e, f')"
      using prems(1,3) False by (simp add: record_chunks.simps o)
    from try_stateD [OF t prems(2)] have ok: "status_ok e1" and rest: "record_chunks k (drop k es) now (f\<lparr>fab_store := Some s1\<rparr>) = (e, f')"
      by simp_all
    have v: "footprint_valid (take k es)" "footprint_valid (drop k es)"
      using prems(6) by (auto simp: footprint_valid_def dest: in_set_takeD in_set_dropD)
    have i1: "store_inv s1" by (rule footprints.op_inv [OF v(1) prems(5) r ok])
    have len: "length (rs_revalidation_required (ds_state s)) + length (map snd (take k es)) \<le> dc_max_footprint_entries (ds_config s)"
      "length (map snd (take k es)) + length (drop k es) = length es" using prems(7) by auto
    note fr = footprint_recorded [OF r ok] and all = add_footprint_all [OF len(1)]
    have "length (rs_revalidation_required (ds_state s1)) + length (drop k es) \<le> dc_max_footprint_entries (ds_config s1)"
      using conjunct2 [OF all] len(2) prems(7) by (simp only: fr)
    from 1(1) [OF _ rest prems(2,3) _ i1 v(2) this] False prems(3) obtain s' where
      s': "fab_store f' = Some s'" "store_inv s'" "ds_config s' = ds_config s1"
        "set (rs_revalidation_required (ds_state s')) = set (rs_revalidation_required (ds_state s1)) \<union> snd ` set (drop k es)" by auto
    have "set es = set (take k es) \<union> set (drop k es)" by (metis append_take_drop_id set_append)
    then have "snd ` set es = snd ` set (take k es) \<union> snd ` set (drop k es)" by (simp add: image_Un)
    with s' fr all show ?thesis by (intro exI [of _ s']) auto
  qed
qed

lemma store_sync_store:
  assumes "store_sync s = (e, s')" and "status_ok e" and "store_inv s"
  shows "store_inv s' \<and> synced s' \<and> ds_config s' = ds_config s \<and> ds_state s' = ds_state s"
proof -
  obtain e1 j where j: "journal_sync (ds_journal s) = (e1, j)" by (rule prod.exhaust)
  with assms(1) have s': "s' = s\<lparr>ds_journal := j\<rparr>" "e1 = e" by (auto simp: store_sync_def on_journal_def)
  have inv: "store_inv s'" by (rule syncing.op_inv [OF TrueI assms(3,1,2)])
  have "journal_inv (ds_journal s)" using assms(3) by (simp add: store_inv_def)
  then have "file_durable (jn_file j) = length (image (jn_records (ds_journal s)))" "jn_records j = jn_records (ds_journal s)"
    using journal_sync_inv(2) [OF j] journal_sync_ok(1) [OF j] s'(2) assms(2) by simp_all
  with s' inv show ?thesis by (simp add: synced_def)
qed

lemma flush_store:
  assumes fl: "flush_locked now f = (e, f')" "status_ok e" and s: "fab_store f = Some s" "store_inv s"
    and v: "footprint_valid (footprint_of (fab_ledger f))"
    and n: "length (rs_revalidation_required (ds_state s)) + length (footprint_of (fab_ledger f)) \<le> dc_max_footprint_entries (ds_config s)"
  obtains s' where "fab_store f' = Some s'" "store_inv s'" "synced s'" "ds_config s' = ds_config s"
    "set (rs_revalidation_required (ds_state s')) =
       set (rs_revalidation_required (ds_state s)) \<union> snd ` set (footprint_of (fab_ledger f))"
proof -
  let ?es = "footprint_of (fab_ledger f)"
  have sync: "\<exists>s'. fab_store g' = Some s' \<and> store_inv s' \<and> synced s' \<and> ds_config s' = ds_config s0 \<and> ds_state s' = ds_state s0"
    if "on_store store_sync g = (e, g')" "fab_store g = Some s0" "store_inv s0" for g g' s0
    using that store_sync_store [OF _ fl(2)] by (auto simp: on_store_def split: prod.splits)
  show ?thesis
  proof (cases "?es = []")
    case True
    then have "on_store store_sync f = (e, f')" using fl(1) s(1) by (simp add: flush_locked_def)
    from sync [OF this s] True show ?thesis using that by auto
  next
    case False
    obtain e1 f1 where r: "record_chunks (footprint_chunk (fab_config f)) ?es now f = (e1, f1)" by (rule prod.exhaust)
    have "try_state (record_chunks (footprint_chunk (fab_config f)) ?es now f) (on_store store_sync) = (e, f')"
      using fl(1) s(1) False by (simp add: flush_locked_def Let_def)
    from try_stateD [OF this fl(2)] r have ok: "status_ok e1" "on_store store_sync f1 = (e, f')" by simp_all
    have "0 < footprint_chunk (fab_config f)" by (simp add: footprint_chunk_def Let_def)
    from record_chunks_store [OF r ok(1) this s v n] obtain s1 where s1: "fab_store f1 = Some s1" "store_inv s1" "ds_config s1 = ds_config s"
      "set (rs_revalidation_required (ds_state s1)) = set (rs_revalidation_required (ds_state s)) \<union> snd ` set ?es" by blast
    from sync [OF ok(2) s1(1,2)] s1(3,4) show ?thesis using that by auto
  qed
qed

section \<open>The fabric that opens on it\<close>

text \<open>After a crash that keeps what was synced, the fabric knows what the store knew.\<close>

lemma boot_after_crash:
  assumes s: "store_inv s" "synced s" "ds_config s = durable_config config name" and dir: "directory_ready dir"
    and c: "fc_state_directory config \<noteq> []"
    and b: "fabric_boot config name dir nonce pid ((crash k (jn_file (ds_journal s)))\<lparr>file_tape := []\<rparr>) = (Inr g, file)"
  shows "fabric_inv g \<and> fresh_start config g \<and> lineage_order (fab_ledger g) = rs_lineages (ds_state s) \<and>
    fab_revalidation g = rs_revalidation_required (ds_state s) \<and>
    unat (epoch_value (fab_epoch g)) = unat (epoch_value (rs_epoch (ds_state s))) + 1"
proof -
  obtain t where t: "store_open (ds_config s) dir ((crash k (jn_file (ds_journal s)))\<lparr>file_tape := []\<rparr>) = (Inr t, jn_file (ds_journal t))"
    "same_view t s" using synced_reopens [OF s(1,2) dir] by blast
  from fabric_boot_spec [OF b] c t(1) s(3) have g: "fabric_inv g" "fresh_start config g" "restored config t g" by auto
  have "durable_part (ds_state t) = durable_part (ds_state s)" using t(2) by (simp add: same_view_def durable_view_def)
  then have "rs_lineages (ds_state t) = rs_lineages (ds_state s)" "rs_epoch (ds_state t) = rs_epoch (ds_state s)"
    "rs_revalidation_required (ds_state t) = rs_revalidation_required (ds_state s)"
    by (metis durable_part_fields(3), metis durable_part_fields(1), metis durable_part_fields(4))
  with g show ?thesis by (simp add: restored_def)
qed

end
