(* ===== verification/Fabric_Steps.thy ===== *)
theory Fabric_Steps
  imports Fabric_Restart
begin

text \<open>
  What one call may change: the epoch, the identity and the configuration of an open fabric are
  fixed, registrations and policies only move forward, and shutting down is final.
\<close>

definition incarnation_forward :: "Incarnation \<Rightarrow> Incarnation \<Rightarrow> bool" where
  "incarnation_forward i k \<longleftrightarrow> (same_boot i k \<longrightarrow> inc_seq i \<le> inc_seq k)"

definition publishers_forward :: "Fabric \<Rightarrow> Fabric \<Rightarrow> bool" where
  "publishers_forward f f' \<longleftrightarrow>
     (\<forall>source p. find_publisher source f = Some p \<longrightarrow>
        (\<exists>q. find_publisher source f' = Some q \<and> incarnation_forward (pub_incarnation p) (pub_incarnation q)))"

definition policy_forward :: "Fabric \<Rightarrow> Fabric \<Rightarrow> bool" where
  "policy_forward f f' \<longleftrightarrow>
     (\<forall>p. fab_policy f = Some p \<longrightarrow>
        (\<exists>q. fab_policy f' = Some q \<and> (pol_id q = pol_id p \<longrightarrow> pol_generation p \<le> pol_generation q)))"

definition advances :: "Fabric \<Rightarrow> Fabric \<Rightarrow> bool" where
  "advances f f' \<longleftrightarrow>
     fab_epoch f' = fab_epoch f \<and> fab_incarnation f' = fab_incarnation f \<and> fab_config f' = fab_config f \<and>
     publishers_forward f f' \<and> policy_forward f f' \<and>
     (fab_shutting_down f \<longrightarrow> fab_shutting_down f' \<and> fab_topology f' = fab_topology f \<and> fab_policy f' = fab_policy f \<and>
        fab_signals_accepted f' = fab_signals_accepted f)"

text \<open>What the operations on the store leave alone.\<close>

definition same_front :: "Fabric \<Rightarrow> Fabric \<Rightarrow> bool" where
  "same_front f f' \<longleftrightarrow>
     fab_epoch f' = fab_epoch f \<and> fab_incarnation f' = fab_incarnation f \<and> fab_config f' = fab_config f \<and>
     fab_publishers f' = fab_publishers f \<and> fab_policy f' = fab_policy f \<and> fab_topology f' = fab_topology f \<and>
     fab_shutting_down f' = fab_shutting_down f \<and> fab_signals_accepted f' = fab_signals_accepted f"

lemma incarnation_forward_refl [simp]: "incarnation_forward i i"
  by (simp add: incarnation_forward_def)

lemma same_front_advances: "same_front f f' \<Longrightarrow> advances f f'"
  by (auto simp: same_front_def advances_def publishers_forward_def policy_forward_def find_publisher_def)

lemma same_front_refl [simp]: "same_front f f"
  by (simp add: same_front_def)

lemma advances_refl [simp]: "advances f f"
  by (simp add: same_front_advances)

lemma same_front_trans [trans]: "same_front f g \<Longrightarrow> same_front g h \<Longrightarrow> same_front f h"
  by (simp add: same_front_def)

lemma same_front_advances_trans: "same_front f g \<Longrightarrow> advances g h \<Longrightarrow> advances f h"
  by (simp add: same_front_def advances_def publishers_forward_def policy_forward_def find_publisher_def)

lemma advances_same_front_trans: "advances f g \<Longrightarrow> same_front g h \<Longrightarrow> advances f h"
  by (simp add: same_front_def advances_def publishers_forward_def policy_forward_def find_publisher_def)

lemma same_front_update [simp]:
  "same_front f (fab_store_update g1 f)" "same_front f (fab_attempts_update g2 f)" "same_front f (fab_ledger_update g3 f)"
  "same_front f (fab_fences_update g4 f)" "same_front f (fab_revalidation_update g5 f)" "same_front f (reject_signal f)"
  by (simp_all add: same_front_def reject_signal_def)

lemma set_publisher_advances:
  assumes "\<And>q. find_publisher source f = Some q \<Longrightarrow> incarnation_forward (pub_incarnation q) (pub_incarnation p)"
  shows "advances f (set_publisher source p f)"
  using assms by (auto simp: advances_def publishers_forward_def policy_forward_def set_publisher_def find_publisher_def update_conv')

lemma update_publisher_advances:
  assumes "\<And>p. pub_incarnation (g p) = pub_incarnation p"
  shows "advances f (update_publisher source g f)"
  by (auto simp: update_publisher_def assms intro: set_publisher_advances split: option.split)

lemma reject_publisher_advances: "advances f (reject_publisher source f)"
  unfolding reject_publisher_def by (rule advances_same_front_trans [OF update_publisher_advances same_front_update(6)]) simp

lemma accept_signal_advances: "\<not> fab_shutting_down f \<Longrightarrow> advances f (accept_signal source f)"
  using update_publisher_advances [of "\<lambda>p. p\<lparr>pub_accepted := pub_accepted p + 1\<rparr>" "f\<lparr>fab_signals_accepted := fab_signals_accepted f + 1\<rparr>" source]
  by (simp add: accept_signal_def advances_def publishers_forward_def policy_forward_def find_publisher_def)

lemma on_store_front: "on_store g f = (e, f') \<Longrightarrow> same_front f f'"
  by (auto dest: on_store_frame)

lemma try_store_advances:
  assumes "try_state (on_store g f) k = (e, f')" and "\<And>f1. same_front f f1 \<Longrightarrow> k f1 = (e, f') \<Longrightarrow> advances f1 f'"
  shows "advances f f'"
  using assms(1)
proof (cases rule: try_store)
  case (failed so)
  then show ?thesis by (simp add: same_front_advances)
next
  case (went_on so)
  then show ?thesis using assms(2) [OF same_front_update(1) went_on] same_front_advances_trans same_front_update(1) by blast
qed

section \<open>The operations\<close>

lemma install_topology_advances:
  assumes "install_topology rs es now f = Some (e, f')"
  shows "advances f f'"
proof (cases "fab_shutting_down f")
  case True
  with assms show ?thesis by (auto simp: install_topology_def intro: same_front_advances)
next
  case False
  show ?thesis
  proof (cases "build rs es (fc_topology_limits (fab_config f)) True")
    case None
    with assms False show ?thesis by (simp add: install_topology_def)
  next
    case (Some r)
    show ?thesis
    proof (cases r)
      case (Inl e1)
      with assms False Some show ?thesis by (auto simp: install_topology_def intro: same_front_advances)
    next
      case (Inr topo)
      with assms False Some have t: "try_state (on_store (bind_topology (top_digest topo) (top_generation topo) now) f) (\<lambda>f1.
            (status_success, f1\<lparr>fab_topology := Some topo, fab_topologies_installed := fab_topologies_installed f1 + 1\<rparr>)) = (e, f')"
        by (simp add: install_topology_def)
      show ?thesis
        by (rule try_store_advances [OF t])
          (use False in \<open>auto simp: same_front_def advances_def publishers_forward_def policy_forward_def find_publisher_def\<close>)
    qed
  qed
qed

lemma install_policy_advances:
  assumes "install_policy p now f = (e, f')"
  shows "advances f f'"
proof (cases "f' = f")
  case True
  then show ?thesis by (simp add: same_front_advances)
next
  case False
  with assms have i: "try_state (on_store (persist_policy p now) f) (\<lambda>f1.
      (status_success, f1\<lparr>fab_policy := Some p, fab_policies_installed := fab_policies_installed f1 + 1\<rparr>)) = (e, f')"
    and g: "\<not> fab_shutting_down f" "\<forall>q. fab_policy f = Some q \<longrightarrow> pol_id q \<noteq> pol_id p \<or> pol_generation q < pol_generation p"
    by (auto simp: install_policy_def Let_def not_le split: option.splits if_splits)
  show ?thesis
    by (rule try_store_advances [OF i])
      (use g in \<open>auto simp: same_front_def advances_def publishers_forward_def policy_forward_def find_publisher_def\<close>)
qed

lemma register_advances: "register_publisher source i now f = (e, f') \<Longrightarrow> advances f f'"
  by (auto simp: register_publisher_def Let_def new_publisher_def incarnation_forward_def not_le split: if_splits option.splits
      intro!: set_publisher_advances)

lemma heartbeat_advances: "publisher_heartbeat source i now f = (e, f') \<Longrightarrow> advances f f'"
  by (auto simp: publisher_heartbeat_def split: if_splits option.splits intro!: set_publisher_advances)

lemma retire_advances: "retire_publisher source i now f = (e, f') \<Longrightarrow> advances f f'"
  by (auto simp: retire_publisher_def split: if_splits option.splits intro!: set_publisher_advances)

lemma put_fence_advances:
  assumes "fabric_put_fence x now f = (e, f')"
  shows "advances f f'"
proof (cases "f' = f")
  case True
  then show ?thesis by (simp add: same_front_advances)
next
  case False
  with assms obtain y where y: "try_state (on_store (put_fence y now) f) (\<lambda>f1.
      let (e, fs) = fence_add (fab_fences f1) y in (e, f1\<lparr>fab_fences := fs\<rparr>)) = (e, f')"
    by (auto simp: fabric_put_fence_def Let_def split: if_splits)
  show ?thesis by (rule try_store_advances [OF y]) (auto split: prod.splits intro!: same_front_advances)
qed

lemma clear_fence_advances: "fabric_clear_fence i now f = (e, f') \<Longrightarrow> advances f f'"
  unfolding fabric_clear_fence_def by (erule try_store_advances) (auto split: prod.splits intro!: same_front_advances)

lemma mark_advances:
  assumes "mark_revalidation_required r now f = (e, f')"
  shows "advances f f'"
proof (cases "fab_shutting_down f")
  case True
  with assms show ?thesis by (auto simp: mark_revalidation_required_def intro: same_front_advances)
next
  case False
  with assms show ?thesis unfolding mark_revalidation_required_def
    by (simp add: False) (erule try_store_advances, auto split: if_splits intro!: same_front_advances)
qed

lemma clear_advances: "fabric_clear_revalidation r now f = (e, f') \<Longrightarrow> advances f f'"
  unfolding fabric_clear_revalidation_def by (erule try_store_advances) (auto intro!: same_front_advances)

lemma run_propagate_front: "run_propagate req f = Some (w, f') \<Longrightarrow> same_front f f'"
  by (auto simp: run_propagate_def split: option.splits)

lemma abandon_front: "same_front f (abandon_attempt i now f)"
  using abandon_frame [of i now f] by auto

lemma compaction_front: "same_front f (journal_compaction f)"
  using compaction_frame [of f] by auto

lemma intent_front: "durable_intent wanted planned ss now f = (e, i, f') \<Longrightarrow> same_front f f'"
  by (auto dest!: durable_intent_frame simp: same_front_def)

lemma close_intent_front: "close_intent i now f = (e, f') \<Longrightarrow> same_front f f'"
  by (auto dest: close_intent_frame)

lemma same_front_running: "same_front f g \<Longrightarrow> fab_shutting_down g = fab_shutting_down f"
  by (simp add: same_front_def)

lemma publish_commit_advances:
  assumes "publish_commit req planned source i now f = Some (r, f')" and run: "\<not> fab_shutting_down f"
  shows "advances f f'"
proof -
  obtain w f1 where g: "run_propagate (commit_request req) f = Some (w, f1)"
    using assms(1) by (auto simp: publish_commit_def split: option.splits)
  obtain e f2 where c: "close_intent i now f1 = (e, f2)" by (rule prod.exhaust)
  have f1: "same_front f f1" by (rule run_propagate_front [OF g])
  have f2: "same_front f f2" by (rule same_front_trans [OF f1 close_intent_front [OF c]])
  have ab: "same_front f (abandon_attempt i now f1)" by (rule same_front_trans [OF f1 abandon_front])
  have "f' \<in> {reject_publisher source (abandon_attempt i now f1), reject_signal (abandon_attempt i now f1), reject_signal f2,
      journal_compaction (accept_signal source f2)}"
    using assms(1) by (simp only: publish_commit_def g c option.case prod.case Let_def split: if_split_asm) simp_all
  moreover have "advances f (reject_publisher source (abandon_attempt i now f1))"
    by (rule same_front_advances_trans [OF ab reject_publisher_advances])
  moreover have "advances f (reject_signal (abandon_attempt i now f1))" "advances f (reject_signal f2)"
    by (rule same_front_advances, rule same_front_trans [OF ab]; simp)
      (rule same_front_advances, rule same_front_trans [OF f2]; simp)
  moreover have "advances f (journal_compaction (accept_signal source f2))"
    using same_front_advances_trans [OF f2 accept_signal_advances] run same_front_running [OF f2]
    by (blast intro: advances_same_front_trans compaction_front)
  ultimately show ?thesis by blast
qed


lemma publish_locked_advances:
  assumes "publish_locked signal now wanted cancelled f = Some (r, f')"
  shows "advances f f'"
proof (cases "publish_refusal signal f")
  case (Some q)
  with assms show ?thesis by (auto simp: publish_locked_def reject_publisher_advances split: prod.splits)
next
  case None
  then obtain topo policy where t: "fab_topology f = Some topo" "fab_policy f = Some policy" and run: "\<not> fab_shutting_down f"
    by (auto simp: publish_refusal_None publish_admitted_def)
  define f1 where "f1 = f\<lparr>fab_attempts := fab_attempts f + 1\<rparr>"
  define req where "req = publish_request topo policy (StrongId (fab_attempts f)) [signal] now f1"
  obtain planned f2 where plan: "run_propagate req f1 = Some (planned, f2)"
    using assms None t by (auto simp: publish_locked_def next_attempt_def Let_def f1_def req_def split: option.splits)
  obtain e i f3 where d: "durable_intent wanted planned [signal] now f2 = (e, i, f3)" by (rule prod_cases3)
  have f2: "same_front f f2" using run_propagate_front [OF plan] by (simp add: same_front_def f1_def)
  have f3: "same_front f f3" by (rule same_front_trans [OF f2 intent_front [OF d]])
  have "(r, f') \<in> {(Inr planned, reject_publisher (sig_source signal) f2), (Inr (cancelled_outcome planned), reject_signal f2),
      (fail_with e, reject_signal f3)} \<or> publish_commit req planned (sig_source signal) i now f3 = Some (r, f')"
    using assms by (simp only: publish_locked_def None t next_attempt_def Let_def option.case prod.case plan d
      f1_def [symmetric] req_def [symmetric] split: if_split_asm) simp_all
  moreover have "advances f (reject_publisher (sig_source signal) f2)"
    by (rule same_front_advances_trans [OF f2 reject_publisher_advances])
  moreover have "advances f (reject_signal f2)" "advances f (reject_signal f3)"
    by (rule same_front_advances [OF same_front_trans [OF f2 same_front_update(6)]])
      (rule same_front_advances [OF same_front_trans [OF f3 same_front_update(6)]])
  moreover have "advances f f'" if "publish_commit req planned (sig_source signal) i now f3 = Some (r, f')"
    using publish_commit_advances [OF that] run same_front_running [OF f3] same_front_advances_trans [OF f3] by simp
  ultimately show ?thesis by blast
qed

lemma batch_commit_advances:
  assumes "batch_commit req planned i now f = Some (r, f')" and run: "\<not> fab_shutting_down f"
  shows "advances f f'"
proof -
  obtain w f1 where g: "run_propagate (commit_request req) f = Some (w, f1)"
    using assms(1) by (auto simp: batch_commit_def split: option.splits)
  obtain e f2 where c: "close_intent i now f1 = (e, f2)" by (rule prod.exhaust)
  have f1: "same_front f f1" by (rule run_propagate_front [OF g])
  have f2: "same_front f f2" by (rule same_front_trans [OF f1 close_intent_front [OF c]])
  have ab: "same_front f (abandon_attempt i now f1)" by (rule same_front_trans [OF f1 abandon_front])
  define f3 where "f3 = f2\<lparr>fab_signals_accepted := fab_signals_accepted f2 + signals_accepted (out_counters w),
     fab_signals_rejected := fab_signals_rejected f2 + signals_rejected (out_counters w)\<rparr>"
  have "f' \<in> {abandon_attempt i now f1, reject_signal (abandon_attempt i now f1), f2, journal_compaction f3}"
    using assms(1) by (simp only: batch_commit_def g c option.case prod.case Let_def f3_def [symmetric] split: if_split_asm) simp_all
  moreover have "advances f (reject_signal (abandon_attempt i now f1))"
    by (rule same_front_advances [OF same_front_trans [OF ab same_front_update(6)]])
  moreover have "advances f f3"
    using f2 run by (simp add: f3_def same_front_def advances_def publishers_forward_def policy_forward_def find_publisher_def)
  then have "advances f (journal_compaction f3)" by (rule advances_same_front_trans [OF _ compaction_front])
  ultimately show ?thesis using same_front_advances f2 ab by blast
qed

lemma publish_batch_advances:
  assumes "publish_batch signals now f = Some (r, f')"
  shows "advances f f'"
proof (cases "f' = f")
  case True
  then show ?thesis by simp
next
  case False
  then obtain topo policy where t: "fab_topology f = Some topo" "fab_policy f = Some policy" and run: "\<not> fab_shutting_down f"
    and ok: "signals \<noteq> []" "status_ok (batch_refusal signals f)"
    using assms by (auto simp: publish_batch_def split: option.splits if_splits)
  define f1 where "f1 = f\<lparr>fab_attempts := fab_attempts f + 1\<rparr>"
  define req where "req = publish_request topo policy (StrongId (fab_attempts f)) signals now f1"
  obtain planned f2 where plan: "run_propagate req f1 = Some (planned, f2)"
    using assms t run ok by (auto simp: publish_batch_def next_attempt_def Let_def f1_def req_def split: option.splits)
  obtain e i f3 where d: "durable_intent True planned signals now f2 = (e, i, f3)" by (rule prod_cases3)
  have f2: "same_front f f2" using run_propagate_front [OF plan] by (simp add: same_front_def f1_def)
  have f3: "same_front f f3" by (rule same_front_trans [OF f2 intent_front [OF d]])
  have "f' = reject_signal f2 \<or> f' = f3 \<or> batch_commit req planned i now f3 = Some (r, f')"
    using assms run ok by (simp only: publish_batch_def t next_attempt_def Let_def option.case prod.case plan d if_False not_not if_True simp_thms
      f1_def [symmetric] req_def [symmetric] split: if_split_asm) simp_all
  moreover have "advances f (reject_signal f2)"
    by (rule same_front_advances [OF same_front_trans [OF f2 same_front_update(6)]])
  moreover have "advances f f'" if "batch_commit req planned i now f3 = Some (r, f')"
    using batch_commit_advances [OF that] run same_front_running [OF f3] same_front_advances_trans [OF f3] by simp
  ultimately show ?thesis using same_front_advances [OF f3] by blast
qed

lemma recover_advances: "fabric_recover source origin g m a now f = (r, f') \<Longrightarrow> advances f f'"
  by (rule same_front_advances)
    (auto simp: fabric_recover_def next_attempt_def Let_def same_front_def split: if_splits option.splits prod.splits)

lemma flush_front: "flush_locked now f = (e, f') \<Longrightarrow> same_front f f'"
  by (auto dest: flush_frame)

lemma shutdown_advances:
  assumes "shutdown_locked now f = (e, f')"
  shows "advances f f'"
proof -
  obtain e1 f1 where fl: "flush_locked now f = (e1, f1)" by (rule prod.exhaust)
  have m: "map_of (map (\<lambda>(source, p). (source, p\<lparr>pub_state := PS_Retired\<rparr>)) ps) k =
      map_option (\<lambda>p. p\<lparr>pub_state := PS_Retired\<rparr>) (map_of ps k)" for ps :: "(SourceId \<times> PublisherRecord) list" and k
    by (induction ps) auto
  show ?thesis
    by (rule same_front_advances_trans [OF flush_front [OF fl]])
      (use assms fl in \<open>auto simp: shutdown_locked_def advances_def publishers_forward_def policy_forward_def find_publisher_def m\<close>)
qed

lemma stop_advances: "advances f (f\<lparr>fab_shutting_down := True\<rparr>)"
  by (simp add: advances_def publishers_forward_def policy_forward_def find_publisher_def)

lemma advances_snd: "(\<And>e f'. r = (e, f') \<Longrightarrow> advances f f') \<Longrightarrow> advances f (snd r)"
  by (cases r) simp

lemmas op_advances =
  install_topology_advances install_policy_advances register_advances heartbeat_advances retire_advances put_fence_advances
  clear_fence_advances mark_advances clear_advances publish_locked_advances publish_batch_advances recover_advances
  same_front_advances [OF flush_front] stop_advances shutdown_advances

lemma fabric_op_advances: "fabric_op x now f = Some f' \<Longrightarrow> advances f f'"
  by (cases x) (auto intro: op_advances advances_snd)

lemma fabric_run_epoch: "fabric_run xs f = Some f' \<Longrightarrow> fab_epoch f' = fab_epoch f"
proof (induction xs f rule: fabric_run.induct)
  case (2 x now xs f)
  then obtain f1 where f1: "fabric_op x now f = Some f1" "fabric_run xs f1 = Some f'" by (auto split: Option.bind_splits)
  from 2(1) [OF f1] fabric_op_advances [OF f1(1)] show ?case by (simp add: advances_def)
qed simp

end
