(* ===== verification/Fabric_Demo.thy ===== *)
theory Fabric_Demo
  imports Fabric_Steps Store_Demo Demo
begin

text \<open>
  A small fabric on which the theorems about publishing are exercised: the single port, one live
  publisher, no fence, with or without a store.
\<close>

section \<open>One publish of the engine\<close>

definition open_env :: TraversalEnv where
  "open_env = solo_env\<lparr>env_fences := Some []\<rparr>"

lemma open_run:
  "case run_traversal open_env (record_budget_for demo_policy (demo_request True)) demo_signal (StrongId 1) []
     (engine_counters\<lparr>signals_received := 1\<rparr>)
     (explanation_for solo_topology demo_policy (demo_request True) demo_signal) False of
   None \<Rightarrow> False | Some (s, r) \<Rightarrow> status_ok s \<and> \<not> run_truncated r \<and> length (run_acc r) = 1"
  by code_simp

lemma aggregate_all_length: "length (fst (aggregate_all policy acc c)) = length acc"
proof (induction acc arbitrary: c)
  case (Cons p acc)
  then show ?case by (cases p) (simp add: split_beta)
qed simp

lemma commit_one_node:
  assumes "length ns \<le> 1" and "led_applications l = []" and "0 < application_capacity l"
  shows "fst (commit_nodes now ns (w, l)) = w"
  using assms by (cases ns) (auto simp: record_application_def split: prod.splits)

lemma demo_lineages: "led_applications (commit_lineages [demo_signal] demo_ledger) = []"
  "application_capacity (commit_lineages [demo_signal] demo_ledger) = 4"
  by (simp_all add: commit_lineages_def demo_ledger_def mark_lineage_def propagation_ledger_def Let_def)

lemma demo_commit_request: "commit_request (demo_request True) = demo_request False"
  by (simp add: commit_request_def demo_request_def)

lemma demo_admits_dry: "admit demo_policy (demo_request True) [demo_signal] ([], w) = ([demo_signal], w)"
  using demo_admits [of w] unfolding demo_commit_request [symmetric] admit_commit .

lemma open_traverses:
  obtains ps where "traverse_all open_env (demo_request True) [demo_signal]
      \<lparr>ps_acc = [], ps_outcome = solo_outcome, ps_truncated = False\<rparr> = Some ps"
    "\<not> ps_truncated ps" "out_rejections (ps_outcome ps) = []" "length (ps_acc ps) = 1" "status_ok (out_status (ps_outcome ps))"
proof -
  have c: "out_counters solo_outcome = engine_counters\<lparr>signals_received := 1\<rparr>" "out_rejections solo_outcome = []"
    "status_ok (out_status solo_outcome)"
    "req_id (demo_request True) = StrongId 1" "env_policy open_env = demo_policy" "env_topology open_env = solo_topology"
    by (simp_all add: solo_outcome_def propagation_outcome_def demo_request_def solo_env_def open_env_def)
  obtain s r where "run_traversal open_env (record_budget_for demo_policy (demo_request True)) demo_signal (StrongId 1) []
     (engine_counters\<lparr>signals_received := 1\<rparr>)
     (explanation_for solo_topology demo_policy (demo_request True) demo_signal) False = Some (s, r)"
    "status_ok s" "\<not> run_truncated r" "length (run_acc r) = 1"
    using open_run by (auto split: option.splits)
  then show ?thesis using that by (simp add: traverse_signal_def c Let_def)
qed

lemma open_propagates:
  obtains planned outcome l where
    "propagate_valid solo_topology demo_policy demo_ledger (Some []) (Epoch 1) (demo_request True) = Some (planned, demo_ledger)"
    "propagate_valid solo_topology demo_policy demo_ledger (Some []) (Epoch 1) (demo_request False) = Some (outcome, l)"
    "status_ok (out_status planned)" "status_ok (out_status outcome)" "has_lineage l demo_digest"
proof -
  obtain ps where ps: "traverse_all open_env (demo_request True) [demo_signal]
      \<lparr>ps_acc = [], ps_outcome = solo_outcome, ps_truncated = False\<rparr> = Some ps"
    "\<not> ps_truncated ps" "out_rejections (ps_outcome ps) = []" "length (ps_acc ps) = 1" "status_ok (out_status (ps_outcome ps))"
    by (rule open_traverses)
  have go: "propagate_valid solo_topology demo_policy demo_ledger (Some []) (Epoch 1) (demo_request dry) =
      Some (conclude demo_policy (demo_request dry) [demo_signal] demo_ledger ps)" for dry
  proof -
    have t: "traverse_all open_env (demo_request dry) [demo_signal]
      \<lparr>ps_acc = [], ps_outcome = solo_outcome, ps_truncated = False\<rparr> = Some ps"
      using ps(1) traverse_all_commit [of open_env "demo_request True"] demo_commit_request by (cases dry) metis+
    have a: "admit demo_policy (demo_request dry) [demo_signal] ([], w) = ([demo_signal], w)" for w
      using demo_admits demo_admits_dry by (cases dry) simp_all
    have sig: "req_signals (demo_request dry) = [demo_signal]" "req_pins (demo_request dry) = []"
      "req_id (demo_request dry) = StrongId 1" "req_epoch (demo_request dry) = Epoch 1"
      "req_topology_digest (demo_request dry) = demo_digest" "req_now (demo_request dry) = 1"
      "top_generation solo_topology = Generation 1" "top_edges solo_topology = []"
      by (simp_all add: demo_request_def solo_topology_def)
    have ok: "status_ok (request_check solo_topology demo_policy (Epoch 1) (demo_request dry))"
      using solo_request_ok request_check_commit [of solo_topology demo_policy "Epoch 1" "demo_request True"] demo_commit_request
      by (cases dry) simp_all
    have "1 \<le> unat (pol_max_sources demo_policy)" by code_simp
    have so: "split_live solo_topology demo_policy demo_ledger (demo_request dry) [demo_signal] ([], w0) = ([demo_signal], w0)" for w0
      by (simp add: has_lineage_def demo_ledger_def propagation_ledger_def)
    have env: "env_topology open_env = solo_topology" "env_policy open_env = demo_policy" "env_ledger open_env = demo_ledger"
      by (simp_all add: solo_env_def open_env_def)
    have "propagate_signals open_env (demo_request dry) solo_outcome =
        Some (conclude demo_policy (demo_request dry) [demo_signal] demo_ledger ps)"
      unfolding propagate_signals_def env sig Let_def a so using t by (simp add: so del: split_live.simps traverse_all.simps)
    moreover have "propagate_valid solo_topology demo_policy demo_ledger (Some []) (Epoch 1) (demo_request dry) =
        propagate_signals open_env (demo_request dry) solo_outcome"
      using \<open>1 \<le> unat _\<close> ok
      by (simp add: propagate_valid_def sig Let_def solo_env_def open_env_def solo_outcome_def propagation_outcome_def)
    ultimately show ?thesis by simp
  qed
  obtain ns c where ns: "aggregate_all demo_policy (ps_acc ps) (out_counters (ps_outcome ps)) = (ns, c)" by (rule prod.exhaust)
  have "length ns = 1" using aggregate_all_length [of demo_policy "ps_acc ps" "out_counters (ps_outcome ps)"] ns ps(4) by simp
  then obtain n where n: "ns = [n]" by (auto simp: length_Suc_conv)
  define w where "w = (ps_outcome ps)\<lparr>out_nodes := std_sort (\<lambda>a b. no_resource a < no_resource b) [n], out_counters := c,
    out_peak_depth := peak_depth_of (std_sort (\<lambda>a b. no_resource a < no_resource b) [n]) (out_peak_depth (ps_outcome ps))\<rparr>"
  have wf: "length (out_nodes w) \<le> 1" "status_ok (out_status w)" using ps(5) by (simp_all add: w_def std_sort_def)
  have dry: "req_dry_run (demo_request d) = d" for d by (simp add: demo_request_def)
  have con: "conclude demo_policy (demo_request d) [demo_signal] demo_ledger ps =
      (let (o3, l3) = (if \<not> d then commit (demo_request d) [demo_signal] w demo_ledger else (w, demo_ledger))
       in (outcome_finalize (o3\<lparr>out_counters := (out_counters o3)\<lparr>ctr_lineage_evictions := lineage_evictions l3\<rparr>\<rparr>), l3))" for d
    using ps(2,3) by (simp add: conclude_def Let_def ns n dry w_def)
  obtain o3 l3 where c3: "commit (demo_request False) [demo_signal] w demo_ledger = (o3, l3)" by (rule prod.exhaust)
  have "o3 = fst (commit_nodes (req_now (demo_request False)) (out_nodes w) (w, commit_lineages [demo_signal] demo_ledger))"
    using c3 by (auto simp: commit_def Let_def split: prod.splits)
  then have o3: "o3 = w" using commit_one_node [OF wf(1)] demo_lineages by simp
  have "has_lineage l3 d \<longleftrightarrow> has_lineage (commit_lineages [demo_signal] demo_ledger) d" for d
    using commit_lineage_index [of "demo_request False" "[demo_signal]" w demo_ledger] c3 by (simp add: has_lineage_def)
  then have h: "has_lineage l3 demo_digest"
    using mark_lineage_marked [OF ledger_inv_start, of 4 4 4 demo_digest]
    by (simp add: commit_lineages_def demo_ledger_def demo_signal_def)
  note p = go [of True, unfolded con, simplified] go [of False, unfolded con c3, simplified]
  show ?thesis by (rule that [OF p]) (use wf o3 h in \<open>simp_all add: outcome_finalize_def\<close>)
qed


section \<open>The fabric\<close>

definition demo_fabric_config :: FabricConfig where
  "demo_fabric_config =
     \<lparr>fc_state_directory = ''/var/fabric'', fc_journal_limits = journal_limits, fc_topology_limits = demo_limits,
      fc_max_publishers = 4, fc_lineage_capacity = 4, fc_application_capacity = 4, fc_damping_capacity = 4,
      fc_compaction_threshold = 0, fc_max_revalidation_entries = 4, fc_worker_threads = 1, fc_worker_queue_capacity = 4,
      fc_max_tickets = 4\<rparr>"

lemma demo_durable: "durable_config demo_fabric_config ''fabric.bpfj'' = demo_config"
  by (simp add: durable_config_def demo_fabric_config_def demo_config_def)

definition demo_publisher :: PublisherRecord where
  "demo_publisher = new_publisher (StrongId 1) (mint (boot_from_raw 1 1) 1 0) 1"

definition demo_fabric :: "DurableStore option \<Rightarrow> Fabric" where
  "demo_fabric so =
     \<lparr>fab_config = demo_fabric_config, fab_store = so, fab_topology = Some solo_topology, fab_policy = Some demo_policy,
      fab_ledger = demo_ledger, fab_fences = [], fab_publishers = [(StrongId 1, demo_publisher)], fab_revalidation = [],
      fab_incarnation = boot_incarnation 1 1, fab_epoch = Epoch 1, fab_previous_epoch = epoch_none,
      fab_topologies_installed = 1, fab_policies_installed = 1, fab_signals_accepted = 0, fab_signals_rejected = 0,
      fab_shutting_down = False, fab_attempts = 1\<rparr>"

lemma demo_admitted: "publish_admitted demo_signal (demo_fabric so)"
  by (simp add: publish_admitted_def demo_fabric_def find_publisher_def demo_publisher_def new_publisher_def demo_signal_def
      solo_topology_def)

lemma demo_publish_request:
  "publish_request solo_topology demo_policy (StrongId 1) [demo_signal] 1 (demo_fabric so) = demo_request True"
  by (simp add: publish_request_def demo_request_def demo_fabric_def solo_topology_def)
    (simp add: demo_policy_def)

text \<open>The publish goes through as soon as its intent can be journaled and closed.\<close>

lemma demo_publishes:
  obtains planned outcome l where
    "run_propagate (demo_request True) ((demo_fabric so)\<lparr>fab_attempts := 2\<rparr>) = Some (planned, (demo_fabric so)\<lparr>fab_attempts := 2\<rparr>)"
    "\<forall>so' n. run_propagate (demo_request False) ((demo_fabric so)\<lparr>fab_store := so', fab_attempts := n\<rparr>) =
       Some (outcome, (demo_fabric so)\<lparr>fab_store := so', fab_attempts := n, fab_ledger := l\<rparr>)"
    "status_ok (out_status planned)" "status_ok (out_status outcome)" "out_fingerprint outcome = out_fingerprint planned"
    "has_lineage l demo_digest" "signals_accepted (out_counters planned) > 0" "signals_accepted (out_counters outcome) > 0"
proof -
  obtain planned outcome l where p: 
    "propagate_valid solo_topology demo_policy demo_ledger (Some []) (Epoch 1) (demo_request True) = Some (planned, demo_ledger)"
    "propagate_valid solo_topology demo_policy demo_ledger (Some []) (Epoch 1) (demo_request False) = Some (outcome, l)"
    "status_ok (out_status planned)" "status_ok (out_status outcome)" "has_lineage l demo_digest"
    by (rule open_propagates)
  have dry: "req_dry_run (demo_request True)" by (simp add: demo_request_def)
  from propagate_valid_commit [of solo_topology demo_policy demo_ledger "Some []" "Epoch 1" "demo_request True",
      unfolded demo_commit_request, OF p(2,4) dry p(1)]
  obtain n where n: "outcome = with_evictions n planned" by blast
  have "l \<noteq> demo_ledger" using p(5) by (auto simp: has_lineage_def demo_ledger_def propagation_ledger_def)
  from changed_counted [OF solo_topology_wf p(2) this] have c: "signals_accepted (out_counters outcome) > 0" .
  have "out_fingerprint outcome = out_fingerprint planned" "signals_accepted (out_counters planned) > 0"
    using n c by (simp_all add: with_evictions_def)
  moreover have "run_propagate (demo_request True) ((demo_fabric so)\<lparr>fab_attempts := 2\<rparr>) = Some (planned, (demo_fabric so)\<lparr>fab_attempts := 2\<rparr>)"
    using p(1) by (simp add: run_propagate_def propagate_def engine_context_def demo_fabric_def)
  moreover have "run_propagate (demo_request False) ((demo_fabric so)\<lparr>fab_store := so', fab_attempts := n\<rparr>) =
       Some (outcome, (demo_fabric so)\<lparr>fab_store := so', fab_attempts := n, fab_ledger := l\<rparr>)" for so' n
    using p(2) by (simp add: run_propagate_def propagate_def engine_context_def demo_fabric_def)
  ultimately show ?thesis using that p(3-5) c by blast
qed

lemma demo_compaction: "fab_config f = demo_fabric_config \<Longrightarrow> journal_compaction f = f"
  by (cases f) (simp add: journal_compaction_def compact_if_needed_def demo_fabric_config_def split: option.split)

lemma demo_publish_with:
  assumes i: "\<And>planned. signals_accepted (out_counters planned) > 0 \<Longrightarrow>
      durable_intent True planned [demo_signal] 1 ((demo_fabric so)\<lparr>fab_attempts := 2\<rparr>) =
        (status_success, i, (demo_fabric so)\<lparr>fab_store := sa, fab_attempts := n\<rparr>)"
    and c: "\<And>l. close_intent i 1 ((demo_fabric so)\<lparr>fab_store := sa, fab_attempts := n, fab_ledger := l\<rparr>) =
      (status_success, (demo_fabric so)\<lparr>fab_store := sb, fab_attempts := n, fab_ledger := l\<rparr>)"
  shows "\<exists>w f'. publish_locked demo_signal 1 True False (demo_fabric so) = Some (Inr w, f') \<and> status_ok (out_status w) \<and>
     signals_accepted (out_counters w) > 0 \<and> has_lineage (fab_ledger f') demo_digest \<and> fab_store f' = sb"
proof -
  obtain planned outcome l where p:
    "run_propagate (demo_request True) ((demo_fabric so)\<lparr>fab_attempts := 2\<rparr>) = Some (planned, (demo_fabric so)\<lparr>fab_attempts := 2\<rparr>)"
    "\<forall>so' n. run_propagate (demo_request False) ((demo_fabric so)\<lparr>fab_store := so', fab_attempts := n\<rparr>) =
       Some (outcome, (demo_fabric so)\<lparr>fab_store := so', fab_attempts := n, fab_ledger := l\<rparr>)"
    "status_ok (out_status planned)" "status_ok (out_status outcome)" "out_fingerprint outcome = out_fingerprint planned"
    "has_lineage l demo_digest" "signals_accepted (out_counters planned) > 0" "signals_accepted (out_counters outcome) > 0"
    by (rule demo_publishes [of so])
  have r: "publish_refusal demo_signal (demo_fabric so) = None" by (simp add: publish_refusal_None demo_admitted)
  have t: "fab_topology (demo_fabric so) = Some solo_topology" "fab_policy (demo_fabric so) = Some demo_policy"
    "fab_attempts (demo_fabric so) = 1" by (simp_all add: demo_fabric_def)
  have q: "publish_request solo_topology demo_policy (StrongId 1) [demo_signal] 1 ((demo_fabric so)\<lparr>fab_attempts := 2\<rparr>) = demo_request True"
    using demo_publish_request [of so] by (simp add: publish_request_def)
  let ?f = "accept_signal (sig_source demo_signal) ((demo_fabric so)\<lparr>fab_store := sb, fab_attempts := n, fab_ledger := l\<rparr>)"
  have "fab_config ?f = demo_fabric_config"
    by (simp add: accept_signal_def update_publisher_def set_publisher_def demo_fabric_def split: option.split)
  note k = demo_compaction [OF this]
  have "publish_commit (demo_request True) planned (sig_source demo_signal) i 1 ((demo_fabric so)\<lparr>fab_store := sa, fab_attempts := n\<rparr>) =
      Some (Inr outcome, ?f)"
    using p(4,5) by (simp add: publish_commit_def demo_commit_request p(2) c k)
  then have "publish_locked demo_signal 1 True False (demo_fabric so) = Some (Inr outcome, ?f)"
    using p(3) by (simp add: publish_locked_def r t next_attempt_def q p(1) i [OF p(7)] Let_def)
  then show ?thesis using p by simp
qed

text \<open>Without a store there is nothing to journal.\<close>

lemma demo_publish_volatile:
  "\<exists>w f'. publish_locked demo_signal 1 True False (demo_fabric None) = Some (Inr w, f') \<and> status_ok (out_status w) \<and>
     signals_accepted (out_counters w) > 0 \<and> has_lineage (fab_ledger f') demo_digest \<and> fab_store f' = None"
  by (rule demo_publish_with [where i = id_invalid and n = 2 and sa = None])
    (simp_all add: durable_intent_def close_intent_def demo_fabric_def id_valid_def id_invalid_def)

section \<open>Its store\<close>

lemma working_fresh:
  "\<exists>s. working s \<and> rs_epoch (ds_state s) = Epoch 1 \<and> ds_open_attempts s = []"
proof -
  obtain s0 s where s: "store_open demo_config demo_directory no_file = (Inr s0, jn_file (ds_journal s0))"
    "establish_epoch 1 s0 = (status_success, s)" "working s" using working_exists by blast
  have "\<exists>t. store_open demo_config demo_directory no_file = (Inr t, jn_file (ds_journal t)) \<and>
      durable_view t = (demo_config, durable_part recovered_state, [])"
    using store_open_fresh [OF demo_ready, of no_file] by (auto simp: no_file_def)
  then have v: "durable_view s0 = (demo_config, durable_part recovered_state, [])" using s(1) by auto
  then have d: "durable_part (ds_state s0) = durable_part recovered_state" "ds_open_attempts s0 = []" by (simp_all add: durable_view_def)
  have e: "rs_epoch (ds_state s0) = epoch_none" "ds_open_attempts s0 = []"
    using arg_cong [OF d(1), of rs_epoch, unfolded durable_part_fields] d(2) by (simp_all add: recovered_state_def)
  from establish_state [OF s(2)] e have "ds_open_attempts s = []" "unat (epoch_value (rs_epoch (ds_state s))) = 1"
    by (auto simp: epoch_none_def epoch_kNone_def)
  then have "epoch_value (rs_epoch (ds_state s)) = 1" by (simp add: word_unat_eq_iff)
  then have "rs_epoch (ds_state s) = Epoch 1" by (cases "rs_epoch (ds_state s)") simp
  with s(3) \<open>ds_open_attempts s = []\<close> show ?thesis by blast
qed

text \<open>What each step needs of the store and leaves of it.\<close>

lemma roomy_logged:
  assumes "roomy n s" and "store_inv s'" and "ds_config s' = ds_config s" and "file_tape (jn_file (ds_journal s')) = []"
    and "length (jn_records (ds_journal s')) = Suc (length (jn_records (ds_journal s)))"
    and "payload_total (jn_records (ds_journal s')) = payload_total (jn_records (ds_journal s)) + k" and "1 \<le> m" and "k \<le> m"
  shows "roomy (n + m) s'"
  using assms by (simp add: roomy_def)

lemma begin_roomy:
  assumes s: "roomy n s" "n \<le> 1000" and i: "id_valid i" "store_epoch_known s" "i \<notin> set (ds_open_attempts s)"
  shows "\<exists>s'. begin_attempt i now s = (status_success, s') \<and> roomy (n + 8) s' \<and> ds_open_attempts s' = ds_open_attempts s @ [i] \<and>
    store_epoch_known s'"
proof -
  let ?k = "\<lambda>s2. let open1 = ds_open_attempts s2 @ [i]
          in (status_success, upd_state (\<lambda>st. st\<lparr>rs_attempts_open := of_nat (length open1)\<rparr>) (s2\<lparr>ds_open_attempts := open1\<rparr>))"
  obtain j where j: "persist RT_AttemptBegin now (rs_epoch (ds_state s)) (le_encode 8 (id_value i)) s ?k = ?k (s\<lparr>ds_journal := j\<rparr>)"
      "file_tape (jn_file j) = []" "length (jn_records j) = Suc (length (jn_records (ds_journal s)))"
      "payload_total (jn_records j) = payload_total (jn_records (ds_journal s)) + length (le_encode 8 (id_value i))"
    using persist_succeeds [OF s, of "le_encode 8 (id_value i)" RT_AttemptBegin now "rs_epoch (ds_state s)" ?k] by auto
  define s' where "s' = snd (?k (s\<lparr>ds_journal := j\<rparr>))"
  have b: "begin_attempt i now s = (status_success, s')"
    using i j(1) by (simp add: begin_attempt_def payload_u64 s'_def Let_def)
  have "store_inv s" using s(1) by (simp add: roomy_def)
  from beginning.op_inv [OF TrueI this b] have "store_inv s'" by simp
  then have "roomy (n + 8) s'" by (rule roomy_logged [OF s(1), where k = 8]) (use j(2-4) in \<open>simp_all add: s'_def Let_def\<close>)
  then show ?thesis using b i(2) by (intro exI [of _ s']) (simp add: s'_def Let_def store_epoch_known_def)
qed

lemma lineage_roomy:
  assumes s: "roomy n s" "n \<le> 1000" and e: "store_epoch_known s" "\<not> digest_is_zero d"
  shows "\<exists>s'. record_lineage d now s = (status_success, s') \<and> roomy (n + 16) s' \<and> ds_open_attempts s' = ds_open_attempts s"
proof -
  have r: "has_room (length (digest_bytes d)) (ds_journal s)" "jn_handle (ds_journal s)"
    using roomy_has_room [OF s, of "length (digest_bytes d)"] by (simp_all add: digest_bytes_def)
  have t: "file_tape (jn_file (ds_journal s)) = []" "store_inv s" using s(1) by (simp_all add: roomy_def)
  obtain j where j: "journal_append RT_Lineage now (rs_epoch (ds_state s)) (digest_bytes d) (ds_journal s) = (status_success, j)"
      "file_tape (jn_file j) = []" "\<exists>r. jn_records j = jn_records (ds_journal s) @ [r] \<and> jr_payload r = digest_bytes d"
    using append_succeeds [OF r(2,1) t(1), of RT_Lineage now "rs_epoch (ds_state s)"] by auto
  define s' where "s' = remember_lineage d (s\<lparr>ds_journal := j\<rparr>)"
  have b: "record_lineage d now s = (status_success, s')"
    using e j(1) by (simp add: record_lineage_def payload_digest on_journal_def try_state_def s'_def)
  from lineages.op_inv [OF TrueI t(2) b] have "store_inv s'" by simp
  then have "roomy (n + 16) s'" by (rule roomy_logged [OF s(1), where k = 16]) (use j(2,3) in \<open>auto simp: s'_def digest_bytes_def\<close>)
  then show ?thesis using b by (intro exI [of _ s']) (simp add: s'_def)
qed

lemma commit_roomy:
  assumes s: "roomy n s" "n \<le> 1000" and i: "i \<in> set (ds_open_attempts s)"
  shows "\<exists>s'. commit_attempt i now s = (status_success, s') \<and> roomy (n + 8) s'"
proof -
  let ?k = "\<lambda>s2. let s3 = drop_attempt i s2; n = of_nat (length (ds_open_attempts s3))
          in (status_success, upd_state (\<lambda>st. (st\<lparr>rs_attempts_committed := rs_attempts_committed st + 1\<rparr>)
                \<lparr>rs_attempts_open := n, rs_attempts_ambiguous := n\<rparr>) s3)"
  obtain j where j: "persist RT_AttemptCommit now (rs_epoch (ds_state s)) (le_encode 8 (id_value i)) s ?k = ?k (s\<lparr>ds_journal := j\<rparr>)"
      "file_tape (jn_file j) = []" "length (jn_records j) = Suc (length (jn_records (ds_journal s)))"
      "payload_total (jn_records j) = payload_total (jn_records (ds_journal s)) + length (le_encode 8 (id_value i))"
    using persist_succeeds [OF s, of "le_encode 8 (id_value i)" RT_AttemptCommit now "rs_epoch (ds_state s)" ?k] by auto
  define s' where "s' = snd (?k (s\<lparr>ds_journal := j\<rparr>))"
  have b: "commit_attempt i now s = (status_success, s')"
    using i j(1) by (simp add: commit_attempt_def close_attempt_def payload_u64 s'_def Let_def)
  have "store_inv s" using s(1) by (simp add: roomy_def)
  from committing.op_inv [OF TrueI this b] have "store_inv s'" by simp
  then have "roomy (n + 8) s'" by (rule roomy_logged [OF s(1), where k = 8]) (use j(2-4) in \<open>simp_all add: s'_def Let_def drop_attempt_def\<close>)
  then show ?thesis using b by blast
qed

text \<open>The same publish, journaled.\<close>

lemma demo_publish_durable:
  assumes s: "roomy n s" "n \<le> 900" "store_epoch_known s" "ds_open_attempts s = []"
  shows "\<exists>w f' s'. publish_locked demo_signal 1 True False (demo_fabric (Some s)) = Some (Inr w, f') \<and> status_ok (out_status w) \<and>
     signals_accepted (out_counters w) > 0 \<and> has_lineage (fab_ledger f') demo_digest \<and> fab_store f' = Some s' \<and> roomy (n + 32) s'"
proof -
  have i: "id_valid (StrongId 2 :: AttemptId)" by (simp add: id_valid_def id_kInvalid_def)
  obtain s1 where s1: "begin_attempt (StrongId 2) 1 s = (status_success, s1)" "roomy (n + 8) s1" "ds_open_attempts s1 = [StrongId 2]"
    "store_epoch_known s1" using begin_roomy [OF s(1) _ i s(3), of 1] s(2,4) by auto
  obtain s2 where s2: "record_lineage demo_digest 1 s1 = (status_success, s2)" "roomy (n + 24) s2" "ds_open_attempts s2 = [StrongId 2]"
    using lineage_roomy [OF s1(2) _ s1(4), of demo_digest 1] s(2) s1(3) by (auto simp: demo_digest_def digest_is_zero_def add.commute)
  obtain s3 where s3: "commit_attempt (StrongId 2) 1 s2 = (status_success, s3)" "roomy (n + 32) s3"
    using commit_roomy [OF s2(2), of "StrongId 2" 1] s(2) s2(3) by (auto simp: add.commute)
  have l: "sig_lineage demo_signal = demo_digest" by (simp add: demo_signal_def)
  have "\<exists>w f'. publish_locked demo_signal 1 True False (demo_fabric (Some s)) = Some (Inr w, f') \<and> status_ok (out_status w) \<and>
     signals_accepted (out_counters w) > 0 \<and> has_lineage (fab_ledger f') demo_digest \<and> fab_store f' = Some s3"
    by (rule demo_publish_with [where i = "StrongId 2" and n = 3 and sa = "Some s2"])
      (simp_all add: durable_intent_def close_intent_def next_attempt_def on_store_def try_state_def demo_fabric_def Let_def s1 s2 s3 i l)
  with s3(2) show ?thesis by blast
qed


text \<open>Opening the fabric again on a store with room.\<close>

lemma establish_roomy:
  assumes s: "roomy n s" "n \<le> 1000" and e: "rs_epoch (ds_state s) = Epoch k" "k < 1000"
  shows "\<exists>s'. establish_epoch now s = (status_success, s') \<and> roomy (n + 8) s' \<and> store_epoch_known s'"
proof -
  obtain next1 where n: "(if \<not> store_epoch_known s then Inr (Epoch 1) else epoch_next (rs_epoch (ds_state s))) = Inr next1"
      "epoch_known next1"
  proof (cases "k = 0")
    case True
    then show ?thesis using e(1) that by (simp add: store_epoch_known_def epoch_known_def epoch_kNone_def)
  next
    case False
    have m: "k \<noteq> max_of_u64" using e(2) by (auto simp: max_of_u64_def)
    have "k + 1 \<noteq> 0" using m by (metis max_of_u64_def add_eq_0_iff2)
    then show ?thesis using e(1) False m that [of "Epoch (k + 1)"]
      by (simp add: store_epoch_known_def epoch_known_def epoch_kNone_def epoch_next_def)
  qed
  let ?k = "\<lambda>s2. (status_success, upd_state (\<lambda>st. st\<lparr>rs_previous_epoch := rs_epoch st, rs_epoch := next1\<rparr>) s2)"
  obtain j where j: "persist RT_Epoch now next1 (le_encode 8 (epoch_value next1)) s ?k = ?k (s\<lparr>ds_journal := j\<rparr>)"
      "file_tape (jn_file j) = []" "length (jn_records j) = Suc (length (jn_records (ds_journal s)))"
      "payload_total (jn_records j) = payload_total (jn_records (ds_journal s)) + length (le_encode 8 (epoch_value next1))"
    using persist_succeeds [OF s, of "le_encode 8 (epoch_value next1)" RT_Epoch now next1 ?k] by auto
  define s' where "s' = snd (?k (s\<lparr>ds_journal := j\<rparr>))"
  have b: "establish_epoch now s = (status_success, s')"
    using n(1) j(1) by (simp add: establish_epoch_def payload_u64 s'_def)
  have "store_inv s" using s(1) by (simp add: roomy_def)
  from establishing.op_inv [OF TrueI this b] have "store_inv s'" by simp
  then have "roomy (n + 8) s'" by (rule roomy_logged [OF s(1), where k = 8]) (use j(2-4) in \<open>simp_all add: s'_def\<close>)
  then show ?thesis using b n(2) by (intro exI [of _ s']) (simp add: s'_def store_epoch_known_def)
qed

lemma record_boot_roomy:
  assumes s: "roomy n s" "n \<le> 1000" and e: "store_epoch_known s" "inc_valid i"
  shows "\<exists>s'. record_boot i now s = (status_success, s')"
proof -
  let ?k = "\<lambda>s2. (status_success, upd_state (\<lambda>st. st\<lparr>rs_boot := inc_boot i, rs_incarnation := i, rs_boot_recorded := True\<rparr>) s2)"
  obtain j where "persist RT_Boot now (rs_epoch (ds_state s)) (boot_bytes i) s ?k = ?k (s\<lparr>ds_journal := j\<rparr>)"
    using persist_succeeds [OF s, of "boot_bytes i" RT_Boot now "rs_epoch (ds_state s)" ?k] by (auto simp: boot_bytes_def)
  then show ?thesis using e by (simp add: record_boot_def payload_boot)
qed

lemma demo_boots:
  assumes o: "store_open demo_config dir file = (Inr s, file1)" and s: "roomy n s" "n \<le> 900"
    and e: "rs_epoch (ds_state s) = Epoch k" "k < 1000" and i: "inc_valid (boot_incarnation nonce pid)"
  shows "\<exists>g file'. fabric_boot demo_fabric_config ''fabric.bpfj'' dir nonce pid file = (Inr g, file')"
proof -
  obtain s1 where s1: "establish_epoch kNoTick s = (status_success, s1)" "roomy (n + 8) s1" "store_epoch_known s1"
    using establish_roomy [OF s(1) _ e] s(2) by auto
  obtain s2 where s2: "record_boot (boot_incarnation nonce pid) kNoTick s1 = (status_success, s2)"
    using record_boot_roomy [OF s1(2) _ s1(3) i] s(2) by auto
  note st = establish_state [OF s1(1)] and bo = boot_state [OF s2]
  define f1 where "f1 = (fabric_new demo_fabric_config (boot_incarnation nonce pid))
    \<lparr>fab_previous_epoch := rs_epoch (ds_state s), fab_epoch := rs_epoch (ds_state s1)\<rparr>"
  have c: "content_ok s2"
    using store_open_content [OF o] st bo unfolding content_ok_def Let_def by auto
  have l: "fab_ledger f1 = propagation_ledger 4 4 4" "fab_fences f1 = []" "epoch_known (fab_epoch f1)" "dc_max_lineages (ds_config s2) = 4"
    using store_open_content(2) [OF o] st bo s1(3)
    by (auto simp: f1_def fabric_new_def demo_fabric_config_def demo_config_def store_epoch_known_def)
  have "status_ok (fst (restore_durable s2 f1))" using restore_durable_spec [OF c l(3,1,2,4)] by simp
  moreover have "fc_state_directory demo_fabric_config \<noteq> []" by (simp add: demo_fabric_config_def)
  moreover have "fab_incarnation (fabric_new c j) = j" for c j by (simp add: fabric_new_def)
  moreover have "fab_incarnation f1 = boot_incarnation nonce pid" by (simp add: f1_def fabric_new_def)
  ultimately show ?thesis
    using o s1(1) s2 by (simp add: fabric_boot_def demo_durable Let_def split_beta flip: f1_def)
qed


lemma demo_boots_after_crash:
  assumes s: "store_inv s" "synced s" "ds_config s = demo_config" "rs_epoch (ds_state s) = Epoch 1" "roomy n s" and n: "n \<le> 900"
  shows "\<exists>g left. fabric_boot demo_fabric_config ''fabric.bpfj'' demo_directory 1 1 ((crash k (jn_file (ds_journal s)))\<lparr>file_tape := []\<rparr>) =
    (Inr g, left)"
proof -
  obtain u where u: "store_open demo_config demo_directory ((crash k (jn_file (ds_journal s)))\<lparr>file_tape := []\<rparr>) = (Inr u, jn_file (ds_journal u))"
    "store_inv u" "same_view u s" "jn_records (ds_journal u) = jn_records (ds_journal s)" "file_tape (jn_file (ds_journal u)) = []"
    using synced_reopens [OF s(1,2) demo_ready(2), of k] s(3) by auto
  have v: "durable_part (ds_state u) = durable_part (ds_state s)" "ds_config u = ds_config s" using u(3) by (simp_all add: same_view_def durable_view_def)
  have "rs_epoch (ds_state u) = Epoch 1" using arg_cong [OF v(1), of rs_epoch] s(4) by simp
  moreover have "roomy n u" using s(5) u v(2) by (simp add: roomy_def)
  moreover have "inc_valid (boot_incarnation 1 1)" by code_simp
  ultimately show ?thesis using demo_boots [OF u(1) _ n, of 1 1 1] by auto
qed

section \<open>Shutdown\<close>

lemma demo_footprint: "footprint_of demo_pressed = [(StrongId 1, StrongId 2)]"
  by code_simp

lemma footprint_roomy:
  assumes s: "roomy n s" "n \<le> 1000" and e: "store_epoch_known s" "ds_config s = demo_config"
  shows "\<exists>s'. record_pressure_footprint [(StrongId 1, StrongId 2)] now s = (status_success, s') \<and> roomy (n + 21) s' \<and>
    ds_config s' = demo_config \<and> rs_epoch (ds_state s') = rs_epoch (ds_state s)"
proof -
  let ?es = "[(StrongId 1, StrongId 2)] :: (SourceId \<times> ResourceId) list"
  define bs where "bs = kRevalidationFootprint # le_encode 4 (of_nat (length ?es) :: u32) @ footprint_bytes ?es"
  define g where "g = (\<lambda>s2. upd_state (\<lambda>st.
               let st1 = add_footprint (dc_max_footprint_entries (ds_config s2)) (map snd ?es) st
               in st1\<lparr>rs_footprint_entries := length (rs_revalidation_required st1)\<rparr>) s2)"
  have len: "length bs = 21" by (simp add: bs_def footprint_bytes_def)
  have v: "footprint_valid ?es" by (simp add: footprint_valid_def id_valid_def id_kInvalid_def)
  have lim: "5 + length ?es * 16 \<le> 4096" by simp
  have pl: "payload_of 4096 (footprint_fields ?es) = Inr bs" using payload_footprint [OF lim] by (simp only: bs_def)
  obtain j where j: "persist RT_Revalidation now (rs_epoch (ds_state s)) bs s (\<lambda>s2. (status_success, g s2)) =
      (status_success, g (s\<lparr>ds_journal := j\<rparr>))"
      "file_tape (jn_file j) = []" "length (jn_records j) = Suc (length (jn_records (ds_journal s)))"
      "payload_total (jn_records j) = payload_total (jn_records (ds_journal s)) + length bs"
    using persist_succeeds [OF s, of bs RT_Revalidation now "rs_epoch (ds_state s)" "\<lambda>s2. (status_success, g s2)"] len by auto
  have c: "dc_max_footprint_entries (ds_config s) = 4" "jl_max_record_bytes (dc_journal_limits (ds_config s)) = 4096"
    using e(2) by (simp_all add: demo_config_def journal_limits_def)
  have b: "record_pressure_footprint ?es now s = (status_success, g (s\<lparr>ds_journal := j\<rparr>))"
    using e(1) j(1) pl unfolding record_pressure_footprint_def c Let_def g_def by simp
  have i: "store_inv s" using s(1) by (simp add: roomy_def)
  from footprints.op_inv [OF v i b] have "store_inv (g (s\<lparr>ds_journal := j\<rparr>))" by simp
  then have "roomy (n + 21) (g (s\<lparr>ds_journal := j\<rparr>))"
    by (rule roomy_logged [OF s(1), where k = 21]) (use j(2-4) len in \<open>simp_all add: g_def\<close>)
  moreover have "rs_epoch (add_footprint m rs st) = rs_epoch st" for m rs st
    by (induction m rs st rule: add_footprint.induct) simp_all
  ultimately show ?thesis using b e(2)
    by (intro exI [of _ "g (s\<lparr>ds_journal := j\<rparr>)"]) (simp add: g_def Let_def upd_state_def del: add_footprint.simps)
qed

lemma sync_roomy:
  assumes "roomy n s"
  shows "\<exists>s'. store_sync s = (status_success, s') \<and> roomy n s' \<and> synced s' \<and> ds_config s' = ds_config s \<and> ds_state s' = ds_state s"
proof -
  have s: "store_inv s" "file_tape (jn_file (ds_journal s)) = []" using assms by (simp_all add: roomy_def)
  have "jn_handle (ds_journal s)" using s(1) by (simp add: store_inv_def journal_inv_def journal_mem_def)
  from sync_succeeds [OF this s(2)] obtain f where f: "journal_sync (ds_journal s) = (status_success, (ds_journal s)\<lparr>jn_file := f\<rparr>)"
    "file_tape f = []" by blast
  then have b: "store_sync s = (status_success, s\<lparr>ds_journal := (ds_journal s)\<lparr>jn_file := f\<rparr>\<rparr>)"
    by (simp add: store_sync_def on_journal_def)
  from store_sync_store [OF b _ s(1)] f(2) assms b show ?thesis by (simp add: roomy_def)
qed

lemma demo_shuts_down:
  assumes s: "roomy n s" "n \<le> 900" "store_epoch_known s" "ds_config s = demo_config"
  shows "\<exists>f' s'. shutdown_locked now ((demo_fabric (Some s))\<lparr>fab_ledger := demo_pressed\<rparr>) = (status_success, f') \<and>
    fab_store f' = Some s' \<and> roomy (n + 21) s' \<and> synced s' \<and> ds_config s' = demo_config \<and> rs_epoch (ds_state s') = rs_epoch (ds_state s)"
proof -
  let ?f = "(demo_fabric (Some s))\<lparr>fab_ledger := demo_pressed\<rparr>"
  have n: "n \<le> 1000" using s(2) by simp
  obtain s1 where s1: "record_pressure_footprint [(StrongId 1, StrongId 2)] now s = (status_success, s1)" "roomy (n + 21) s1"
    "ds_config s1 = demo_config" "rs_epoch (ds_state s1) = rs_epoch (ds_state s)" using footprint_roomy [OF s(1) n s(3,4)] by blast
  obtain s2 where s2: "store_sync s1 = (status_success, s2)" "roomy (n + 21) s2" "synced s2" "ds_config s2 = ds_config s1"
    "ds_state s2 = ds_state s1" using sync_roomy [OF s1(2)] by blast
  have k: "footprint_chunk (fab_config (demo_fabric (Some s))) = 255" by (simp add: demo_fabric_def demo_fabric_config_def footprint_chunk_def journal_limits_def)
  have st: "fab_store ?f = Some s" "fab_ledger ?f = demo_pressed" by (simp_all add: demo_fabric_def)
  have "record_chunks 255 [(StrongId 1, StrongId 2)] now ?f = (status_success, ?f\<lparr>fab_store := Some s1\<rparr>)"
    by (simp add: record_chunks.simps [of 255] on_store_def st s1(1) try_state_def)
  then have "flush_locked now ?f = (status_success, ?f\<lparr>fab_store := Some s2\<rparr>)"
    by (simp add: flush_locked_def st demo_footprint k try_state_def on_store_def s2(1) Let_def)
  with s1 s2 show ?thesis by (simp add: shutdown_locked_def)
qed

end
