(* ===== verification/Properties_Fabric.thy ===== *)
theory Properties_Fabric
  imports Fabric_Demo Pool
begin

text \<open>
  The properties of the fabric: publishing, its state between calls, and what a restart keeps.
\<close>

lemma demo_fabric_inv: "fabric_inv (demo_fabric so)"
proof -
  have "status_ok (policy_validate demo_policy)" by code_simp
  moreover have "inc_valid (mint (boot_from_raw 1 1) 1 0)" by code_simp
  ultimately show ?thesis
    by (simp add: fabric_inv_def demo_fabric_def demo_ledger_def ledger_inv_start fence_table_inv_def publishers_ok_def publisher_ok_def
        demo_publisher_def new_publisher_def demo_fabric_config_def solo_topology_wf epoch_known_def epoch_kNone_def id_valid_def id_kInvalid_def)
qed

section \<open>Publishing\<close>

text \<open>
  C4. No pressure without admission, and none without a durable intent. When a publish changes
  the ledger, or reports success, the fabric was not shutting down, it had a topology and a
  policy, the source was registered and live with exactly that incarnation, the signal was of
  the live epoch and the live topology, and the publish was not cancelled. When a publish that
  journals changes the ledger, the lineage of the signal is in the store.
\<close>

theorem publish_effect_guarded:
  assumes "fabric_inv f" and "publish_locked signal now wanted cancelled f = Some (r, f')"
    and "fab_ledger f' \<noteq> fab_ledger f \<or> accepted_result r"
  shows "publish_admitted signal f \<and> \<not> cancelled \<and>
    (fab_ledger f' = fab_ledger f \<or> fab_store f = None \<or> \<not> wanted \<or> sig_lineage signal \<in> store_lineages f')"
proof (cases rule: publish_locked_cases [OF assms(2)])
  case 1
  with assms(3) show ?thesis by blast
next
  case (2 topo policy planned e i f3)
  let ?req = "publish_request topo policy (StrongId (fab_attempts f)) [signal] now f"
  let ?f1 = "f\<lparr>fab_attempts := fab_attempts f + 1\<rparr>"
  obtain outcome f4 where g: "run_propagate (commit_request ?req) f3 = Some (outcome, f4)"
      "fab_ledger f' = fab_ledger f4" "store_lineages f' = store_lineages f4"
    by (rule publish_commit_spec [OF 2(9)]) blast
  obtain so n where f3: "f3 = ?f1\<lparr>fab_store := so, fab_attempts := n\<rparr>" using durable_intent_frame [OF 2(7)] by auto
  have "fab_ledger f' = fab_ledger f \<or> fab_store f = None \<or> \<not> wanted \<or> sig_lineage signal \<in> store_lineages f'"
  proof (rule ccontr)
    assume no: "\<not> ?thesis"
    obtain l where l: "propagate_valid topo policy (fab_ledger f) (Some (fab_fences f)) (fab_epoch f) ?req = Some (planned, l)"
      using run_propagate_valid [of ?f1, OF _ _ 2(5)] 2(3,4) by auto
    obtain l' where l': "propagate_valid topo policy (fab_ledger f) (Some (fab_fences f)) (fab_epoch f) (commit_request ?req) = Some (outcome, l')"
        "f4 = f3\<lparr>fab_ledger := l'\<rparr>" using run_propagate_valid [of f3, OF _ _ g(1)] 2(3,4) f3 by auto
    have "topology_wf topo" using assms(1) 2(3) by (simp add: fabric_inv_def)
    from changed_counted [OF this l'(1)] no g(2) l'(2) have "signals_accepted (out_counters outcome) > 0" by auto
    then have "signals_accepted (out_counters planned) > 0" using propagate_valid_accepted [OF l'(1) l] by simp
    from durable_intent_kept [OF _ 2(8) _ this, of signal now ?f1] 2(7) no have "sig_lineage signal \<in> store_lineages f3" by auto
    then have "sig_lineage signal \<in> store_lineages f'" using g(3) l'(2) by (simp add: store_lineages_def)
    with no show False by blast
  qed
  with 2(1,2) show ?thesis by blast
qed

theorem publish_effect_guarded_witness:
  "\<exists>r f'. publish_locked demo_signal 1 True False (demo_fabric None) = Some (r, f') \<and> fab_ledger f' \<noteq> demo_ledger \<and>
     publish_admitted demo_signal (demo_fabric None)"
proof -
  obtain w f' where p: "publish_locked demo_signal 1 True False (demo_fabric None) = Some (Inr w, f')" "status_ok (out_status w)"
    "has_lineage (fab_ledger f') demo_digest" using demo_publish_volatile by blast
  have "fab_ledger f' \<noteq> demo_ledger" using p(3) by (auto simp: has_lineage_def demo_ledger_def propagation_ledger_def)
  moreover have "accepted_result (Inr w :: PropagationOutcome result)" using p(2) by (simp add: accepted_result_def)
  ultimately show ?thesis using publish_effect_guarded [OF demo_fabric_inv p(1)] p(1) by blast
qed

text \<open>
  C10. Plan and commit agree. Whatever a publish has planned in a dry run, the commit that follows
  on the same state, after the intent was journaled, gives the same outcome with the same
  fingerprint unless it fails itself: only the count of evicted lineages may differ. The
  dry run left the fabric as it was, so the mismatch that the code guards against cannot arise.
\<close>

theorem plan_is_what_commits:
  assumes "run_propagate (publish_request topo policy i signals now f) f = Some (planned, f1)"
    and "durable_intent wanted planned signals now f1 = (e, attempt, f2)"
    and "run_propagate (commit_request (publish_request topo policy i signals now f)) f2 = Some (outcome, f3)"
    and "status_ok (out_status outcome)"
  shows "f1 = f \<and> (\<exists>n. outcome = with_evictions n planned) \<and> out_fingerprint outcome = out_fingerprint planned"
proof -
  have dry: "req_dry_run (publish_request topo policy i signals now f)" by (simp add: publish_request_def)
  obtain so n where f2: "f2 = f1\<lparr>fab_store := so, fab_attempts := n\<rparr>" using durable_intent_frame [OF assms(2)] by auto
  show ?thesis using plan_commit [OF assms(1) dry f2 assms(3)] assms(4) by auto
qed

theorem plan_is_what_commits_witness:
  "\<exists>planned outcome f3. run_propagate (demo_request True) ((demo_fabric None)\<lparr>fab_attempts := 2\<rparr>) =
       Some (planned, (demo_fabric None)\<lparr>fab_attempts := 2\<rparr>) \<and>
     run_propagate (demo_request False) ((demo_fabric None)\<lparr>fab_attempts := 2\<rparr>) = Some (outcome, f3) \<and>
     status_ok (out_status outcome) \<and> out_fingerprint outcome = out_fingerprint planned"
proof -
  let ?f = "(demo_fabric None)\<lparr>fab_attempts := 2\<rparr>"
  obtain planned outcome l where p: "run_propagate (demo_request True) ?f = Some (planned, ?f)"
    "\<forall>so' n. run_propagate (demo_request False) ((demo_fabric None)\<lparr>fab_store := so', fab_attempts := n\<rparr>) =
       Some (outcome, (demo_fabric None)\<lparr>fab_store := so', fab_attempts := n, fab_ledger := l\<rparr>)"
    "status_ok (out_status outcome)" by (rule demo_publishes [of None])
  have q: "publish_request solo_topology demo_policy (StrongId 1) [demo_signal] 1 ?f = demo_request True"
    using demo_publish_request [of None] by (simp add: publish_request_def)
  have f: "?f\<lparr>fab_store := None\<rparr> = ?f" by (simp add: demo_fabric_def)
  have "run_propagate (demo_request False) (?f\<lparr>fab_store := None\<rparr>) = Some (outcome, ?f\<lparr>fab_store := None, fab_ledger := l\<rparr>)"
    using spec [OF spec [OF p(2), of None], of 2] by (simp add: demo_fabric_def)
  then have c: "run_propagate (demo_request False) ?f = Some (outcome, ?f\<lparr>fab_store := None, fab_ledger := l\<rparr>)" unfolding f .
  have i: "durable_intent True planned [demo_signal] 1 ?f = (status_success, id_invalid, ?f)"
    by (simp add: durable_intent_def demo_fabric_def)
  from plan_is_what_commits [of solo_topology demo_policy "StrongId 1" "[demo_signal]" 1 ?f, unfolded q demo_commit_request, OF p(1) i c p(3)]
  show ?thesis using p(1,3) c by blast
qed

section \<open>The fabric between calls\<close>

text \<open>
  C6. The fabric is always consistent. From any fabric that \<open>open\<close> returns, every sequence of calls
  returns, whatever the store answers, and afterwards: the ledger's invariant holds, every fence
  is valid and bound to the live epoch, the registry has no duplicates and is within its bound,
  the revalidation list is distinct and within its bound, topology and policy are valid.
\<close>

theorem fabric_always_consistent:
  assumes "fabric_boot config name dir nonce pid file = (Inr f, file')"
  shows "\<exists>f'. fabric_run xs f = Some f' \<and> fabric_inv f'"
  using fabric_run_total fabric_boot_spec [OF assms] by blast

theorem fabric_always_consistent_witness:
  "\<exists>f f'. fabric_boot (demo_fabric_config\<lparr>fc_state_directory := []\<rparr>) [] demo_directory 1 1 no_file = (Inr f, no_file) \<and>
     fabric_run [(FO_Register (StrongId 1) (mint (boot_from_raw 1 1) 1 0), 1), (FO_Policy demo_policy, 2), (FO_Publish demo_signal False, 3),
       (FO_Stop, 4), (FO_Shutdown, 5)] f = Some f' \<and> fabric_inv f'"
proof -
  have b: "fabric_boot (demo_fabric_config\<lparr>fc_state_directory := []\<rparr>) [] demo_directory 1 1 no_file =
      (Inr ((fabric_new (demo_fabric_config\<lparr>fc_state_directory := []\<rparr>) (boot_incarnation 1 1))\<lparr>fab_epoch := Epoch 1\<rparr>), no_file)"
    by (simp add: fabric_boot_def Let_def)
  show ?thesis using fabric_always_consistent [OF b] b by blast
qed



section \<open>Crash and restart\<close>







section \<open>The worker pool\<close>

text \<open>
  C7. The pool runs every accepted job exactly once, and in order. Whatever the threads interleave:
  the jobs accepted so far are, in this order, those started, those dropped and those queued;
  the started ones are the finished and the running; no more are queued than the capacity; jobs
  are dropped only after an abort; and no worker leaves while work is queued.
\<close>

theorem pool_runs_each_job_once:
  assumes "pool_run p h"
  shows "hi_accepted h = hi_started h @ hi_dropped h @ pl_queue p \<and>
    mset (hi_started h) = mset (hi_finished h) + running_jobs p \<and> pl_active p = size (running_jobs p) \<and>
    length (pl_queue p) \<le> pl_capacity p \<and> (pl_discard p \<or> hi_dropped h = []) \<and>
    (W_Exited \<notin> set (pl_threads p) \<or> pl_queue p = [] \<and> pl_stopping p)"
  using pool_inv_run [OF assms] unfolding pool_inv_def by blast

lemma demo_pool_run:
  "\<exists>p h. pool_run p h \<and> hi_accepted h = [8 :: nat, 9] \<and> hi_started h = [8] \<and> pl_queue p = [9] \<and> \<not> pl_discard p \<and>
     pl_started p \<and> pl_threads p = [W_Running 8]"
proof -
  let ?p0 = "snd (pool_start 1 2 (worker_pool :: nat WorkerPool))"
  let ?p1 = "snd (pool_submit (Some 8) ?p0)" and ?p2 = "snd (pool_submit (Some 9) (snd (pool_submit (Some 8) ?p0)))"
  let ?p3 = "the (worker_wake 0 ?p2)"
  note d = pool_start_def worker_pool_def pool_submit_def worker_wake_def
  have "pool_run ?p0 no_history" by (rule run_start [of 1 2 status_success]) (simp_all add: d)
  from run_submit [OF this, of 8 status_success ?p1]
  have "pool_run ?p1 (no_history\<lparr>hi_accepted := hi_accepted no_history @ [8]\<rparr>)" by (simp add: d)
  from run_submit [OF this, of 9 status_success ?p2]
  have "pool_run ?p2 (no_history\<lparr>hi_accepted := [8, 9]\<rparr>)" by (simp add: d no_history_def)
  from run_take [OF this, of 0 ?p3 8]
  have "pool_run ?p3 (no_history\<lparr>hi_accepted := [8, 9], hi_started := [8]\<rparr>)" by (simp add: d no_history_def)
  then show ?thesis
    by (rule_tac exI, rule_tac exI, rule_tac conjI, assumption) (simp add: d no_history_def)
qed

theorem pool_runs_each_job_once_witness:
  "\<exists>p h. pool_run p h \<and> hi_accepted h = [8 :: nat, 9] \<and> mset (hi_started h) = mset (hi_finished h) + running_jobs p"
  using demo_pool_run pool_runs_each_job_once by blast

text \<open>
  C13. A pool that stops winds down. However its workers are scheduled, they take only boundedly
  many steps; when none can take another, all have left, nothing is queued or running, the
  joins of \<open>shutdown\<close> return, and without an abort every accepted job has been run.
\<close>

theorem pool_winds_down:
  assumes "pool_run p h" and "pl_stopping p" and "worker_steps (p # ps)"
  shows "length ps \<le> pool_work p \<and>
    ((\<exists>q. worker_step (last (p # ps)) q) \<or>
     list_all (\<lambda>w. w = W_Exited) (pl_threads (last (p # ps))) \<and> pl_queue (last (p # ps)) = [] \<and>
     pool_join (last (p # ps)) \<noteq> None \<and>
     (\<exists>h'. pool_run (last (p # ps)) h' \<and> hi_accepted h' = hi_accepted h \<and>
        (pl_discard (last (p # ps)) \<or> mset (hi_finished h') = mset (hi_accepted h))))"
proof (cases "\<exists>q. worker_step (last (p # ps)) q")
  case True
  then show ?thesis using worker_steps_bounded [OF assms(3)] by blast
next
  case False
  let ?q = "last (p # ps)"
  obtain h' where h': "pool_run ?q h'" "hi_accepted h' = hi_accepted h" "pl_stopping ?q = pl_stopping p"
    using worker_steps_run [OF assms(3,1)] by blast
  have e: "list_all (\<lambda>w. w = W_Exited) (pl_threads ?q)"
    by (rule stopping_rests) (use h'(3) assms(2) False in auto)
  note inv = pool_inv_run [OF h'(1), unfolded pool_inv_def]
  have "worker_job w = []" if "w \<in> set (pl_threads ?q)" for w
  proof -
    have "w = W_Exited" using e that unfolding list_all_iff by blast
    then show ?thesis by simp
  qed
  then have "running_jobs ?q = {#}" unfolding running_jobs_def by (simp add: concat_eq_Nil_conv del: last.simps)
  note none = this
  have queue: "pl_queue ?q = []"
  proof (cases "pl_threads ?q")
    case Nil
    then show ?thesis using inv by simp
  next
    case (Cons w ws)
    then have "W_Exited \<in> set (pl_threads ?q)" using e by simp
    then show ?thesis using inv by blast
  qed
  have "pool_join ?q \<noteq> None" using e by (simp add: pool_join_def)
  moreover have "pl_discard ?q \<or> mset (hi_finished h') = mset (hi_accepted h)"
  proof (cases "pl_discard ?q")
    case False
    with inv have "hi_dropped h' = []" by blast
    with inv none queue h'(2) have "mset (hi_accepted h) = mset (hi_finished h')" by (simp del: last.simps)
    then show ?thesis by simp
  qed simp
  ultimately show ?thesis
    using worker_steps_bounded [OF assms(3)] e h'(1,2) queue by blast
qed

theorem pool_winds_down_witness:
  "\<exists>p h. pool_run p h \<and> pl_stopping p \<and> hi_accepted h = [8 :: nat, 9] \<and> pl_queue p = [9] \<and>
     length ([] :: nat WorkerPool list) \<le> pool_work p"
proof -
  obtain p h where p: "pool_run p h" "hi_accepted h = [8 :: nat, 9]" "pl_queue p = [9]" "pl_started p" using demo_pool_run by blast
  have r: "pool_run (pool_begin_shutdown p) h" by (rule run_shutdown [OF p(1)])
  have s: "pl_stopping (pool_begin_shutdown p)" "pl_queue (pool_begin_shutdown p) = [9]" using p(3,4) by (simp_all add: pool_begin_shutdown_def)
  have "worker_steps [pool_begin_shutdown p]" by simp
  from pool_winds_down [OF r s(1) this] r s p(2) show ?thesis by blast
qed

end
