(* ===== verification/Tickets.thy ===== *)
theory Tickets
  imports Fabric_Facts Pool
begin

text \<open>
  Asynchronous publishing: the tickets of \<open>include/backpressure/runtime/fabric.hpp\<close> and the methods
  of \<open>src/runtime/fabric.cpp\<close> that create, run, cancel and release them, with the three parts of
  \<open>shutdown\<close>.

  The host is the fabric, its worker pool and its ticket store. The state lock, the pool lock and
  the ticket lock are never held together, so every section under one of them is a function of its
  own, and so is every access to an atomic in between; what the threads may do in any order is the
  relation \<open>host_step\<close>. The cancellation flag that a ticket shares with its job is allocated with
  the ticket and named by the ticket's number.
\<close>

section \<open>Tickets\<close>

type_synonym TicketId = u64

definition kInvalidTicket :: TicketId where
  "kInvalidTicket = 0"

datatype TicketState = TS_Pending | TS_Running | TS_Completed | TS_Failed | TS_Cancelled | TS_Count

fun ticket_state_to_string :: "TicketState \<Rightarrow> string" where
  "ticket_state_to_string TS_Pending = ''Pending''"
| "ticket_state_to_string TS_Running = ''Running''"
| "ticket_state_to_string TS_Completed = ''Completed''"
| "ticket_state_to_string TS_Failed = ''Failed''"
| "ticket_state_to_string TS_Cancelled = ''Cancelled''"
| "ticket_state_to_string TS_Count = ''Invalid''"

definition ticket_in_flight :: "TicketState \<Rightarrow> bool" where
  "ticket_in_flight s \<longleftrightarrow> s = TS_Pending \<or> s = TS_Running"

record PublishTicket =
  tk_id :: TicketId
  tk_state :: TicketState
  tk_status :: Status
  tk_outcome :: PropagationOutcome
  tk_committed :: bool
  tk_cancelled :: bool
  tk_flag :: "TicketId option"

definition publish_ticket :: PublishTicket where
  "publish_ticket = \<lparr>tk_id = kInvalidTicket, tk_state = TS_Pending, tk_status = status_success,
     tk_outcome = propagation_outcome id_invalid epoch_none digest_zero kNoTick, tk_committed = False,
     tk_cancelled = False, tk_flag = None\<rparr>"

text \<open>What the submitted closure captures.\<close>

record TicketJob =
  job_ticket :: TicketId
  job_signal :: PressureSignal
  job_now :: Tick

text \<open>
  How far a call of \<open>publish_async\<close> and its job have come: the ticket was stored, the pool refused
  the job, it was queued, the ticket was marked running, the flag was found, the flag was seen
  unset, the result is to be stored, all is done.
\<close>

datatype TicketPhase =
  TP_None | TP_Issued | TP_Refused | TP_Queued | TP_Marked | TP_Flag TicketId | TP_Publish TicketId
  | TP_Store PublishTicket | TP_Left

record Host =
  host_fabric :: Fabric
  host_pool :: "TicketJob WorkerPool"
  host_tickets :: "(TicketId \<times> PublishTicket) list"
  host_order :: "TicketId list"
  host_next :: TicketId
  host_flags :: "TicketId \<Rightarrow> bool"
  host_phase :: "TicketId \<Rightarrow> TicketPhase"

definition find_ticket :: "TicketId \<Rightarrow> Host \<Rightarrow> PublishTicket option" where
  "find_ticket i h = map_of (host_tickets h) i"

definition set_ticket :: "TicketId \<Rightarrow> PublishTicket \<Rightarrow> Host \<Rightarrow> Host" where
  "set_ticket i t h = h\<lparr>host_tickets := AList.update i t (host_tickets h)\<rparr>"

definition erase_ticket :: "TicketId \<Rightarrow> Host \<Rightarrow> Host" where
  "erase_ticket i h = h\<lparr>host_tickets := AList.delete i (host_tickets h), host_order := remove1 i (host_order h)\<rparr>"

definition set_phase :: "TicketId \<Rightarrow> TicketPhase \<Rightarrow> Host \<Rightarrow> Host" where
  "set_phase i p h = h\<lparr>host_phase := (host_phase h)(i := p)\<rparr>"

text \<open>\<open>Fabric::open\<close>, the start of the workers included.\<close>

definition host_new :: "Fabric \<Rightarrow> TicketJob WorkerPool \<Rightarrow> Host" where
  "host_new f p = \<lparr>host_fabric = f, host_pool = p, host_tickets = [], host_order = [], host_next = 1,
     host_flags = (\<lambda>i. False), host_phase = (\<lambda>i. TP_None)\<rparr>"

definition fabric_open ::
  "FabricConfig \<Rightarrow> string \<Rightarrow> StoreDirectory \<Rightarrow> u64 \<Rightarrow> u32 \<Rightarrow> JournalFile \<Rightarrow> Host result \<times> JournalFile" where
  "fabric_open config name dir nonce pid file =
     (case fabric_boot config name dir nonce pid file of
        (Inl e, file1) \<Rightarrow> (Inl e, file1)
      | (Inr f, file1) \<Rightarrow>
          if fc_worker_threads config > 0 then
            (let (e, p) = pool_start (fc_worker_threads config) (fc_worker_queue_capacity config) worker_pool
             in (if status_ok e then Inr (host_new f p) else Inl e, file1))
          else (Inr (host_new f worker_pool), file1))"

section \<open>Issuing a ticket\<close>

definition async_check :: "Host \<Rightarrow> Status" where
  "async_check h =
     (if fab_shutting_down (host_fabric h) then shutting_down_error ''publish async''
      else if \<not> pl_started (host_pool h) then status_error NotReady ''worker pool not started'' 0
      else status_success)"

text \<open>The loop over the order of issue that looks for the oldest settled ticket.\<close>

fun oldest_settled :: "TicketId list \<Rightarrow> Host \<Rightarrow> TicketId option" where
  "oldest_settled [] h = None"
| "oldest_settled (i # is) h =
     (case find_ticket i h of
        Some t \<Rightarrow> if \<not> ticket_in_flight (tk_state t) then Some i else oldest_settled is h
      | None \<Rightarrow> oldest_settled is h)"

definition store_ticket :: "TicketId \<Rightarrow> Host \<Rightarrow> Host" where
  "store_ticket i h = set_phase i TP_Issued
     ((set_ticket i (publish_ticket\<lparr>tk_id := i, tk_state := TS_Pending, tk_flag := Some i\<rparr>) h)
        \<lparr>host_order := host_order h @ [i], host_flags := (host_flags h)(i := False)\<rparr>)"

definition async_ticket :: "Host \<Rightarrow> TicketId result \<times> Host" where
  "async_ticket h =
     (let i = host_next h; ha = h\<lparr>host_next := host_next h + 1\<rparr>; n = length (host_tickets ha)
      in if n \<ge> fc_max_tickets (fab_config (host_fabric ha)) then
           (case oldest_settled (host_order ha) ha of
              Some k \<Rightarrow> (Inr i, store_ticket i (erase_ticket k ha))
            | None \<Rightarrow> (fail LimitExceeded ''ticket store'' (of_nat n), ha))
         else (Inr i, store_ticket i ha))"

definition async_submit :: "TicketId \<Rightarrow> PressureSignal \<Rightarrow> Tick \<Rightarrow> Host \<Rightarrow> Status \<times> Host" where
  "async_submit i signal now h =
     (let (e, p) = pool_submit (Some \<lparr>job_ticket = i, job_signal = signal, job_now = now\<rparr>) (host_pool h)
      in (e, set_phase i (if status_ok e then TP_Queued else TP_Refused) (h\<lparr>host_pool := p\<rparr>)))"

definition async_withdraw :: "TicketId \<Rightarrow> Host \<Rightarrow> Host" where
  "async_withdraw i h = set_phase i TP_Left (erase_ticket i h)"

text \<open>The whole call, when no other thread comes between.\<close>

definition publish_async :: "PressureSignal \<Rightarrow> Tick \<Rightarrow> Host \<Rightarrow> TicketId result \<times> Host" where
  "publish_async signal now h =
     (if \<not> status_ok (async_check h) then (Inl (async_check h), h)
      else case async_ticket h of
        (Inl e, ha) \<Rightarrow> (Inl e, ha)
      | (Inr i, ha) \<Rightarrow>
          let (e, hb) = async_submit i signal now ha
          in if status_ok e then (Inr i, hb) else (fail_with e, async_withdraw i hb))"

section \<open>The job of a ticket\<close>

definition mark_ticket_running :: "TicketId \<Rightarrow> Host \<Rightarrow> Host" where
  "mark_ticket_running i h =
     (case find_ticket i h of None \<Rightarrow> h | Some t \<Rightarrow> set_ticket i (t\<lparr>tk_state := TS_Running\<rparr>) h)"

definition ticket_cancelled :: "TicketId \<Rightarrow> Host \<Rightarrow> bool" where
  "ticket_cancelled i h =
     (case find_ticket i h of
        None \<Rightarrow> True
      | Some t \<Rightarrow> (case tk_flag t of None \<Rightarrow> False | Some k \<Rightarrow> host_flags h k))"

definition complete_ticket :: "TicketId \<Rightarrow> PublishTicket \<Rightarrow> Host \<Rightarrow> Host" where
  "complete_ticket i t h = set_ticket i (t\<lparr>tk_id := i\<rparr>) h"

definition cancelled_ticket :: "TicketId \<Rightarrow> PublishTicket" where
  "cancelled_ticket flag = publish_ticket
     \<lparr>tk_state := TS_Cancelled, tk_status := status_error Cancelled ''publish cancelled'' 0, tk_committed := False,
      tk_cancelled := True, tk_flag := Some flag\<rparr>"

definition result_ticket :: "TicketId \<Rightarrow> PropagationOutcome result \<Rightarrow> PublishTicket" where
  "result_ticket flag r =
     (case r of
        Inr w \<Rightarrow>
          let t = publish_ticket\<lparr>tk_flag := Some flag, tk_outcome := w, tk_status := out_status w\<rparr>
          in if st_code (out_status w) = Cancelled then t\<lparr>tk_state := TS_Cancelled, tk_cancelled := True, tk_committed := False\<rparr>
             else if status_ok (out_status w) then t\<lparr>tk_state := TS_Completed, tk_committed := True\<rparr>
             else t\<lparr>tk_state := TS_Failed, tk_committed := signals_accepted (out_counters w) > 0\<rparr>
      | Inl e \<Rightarrow> publish_ticket
          \<lparr>tk_flag := Some flag, tk_status := e,
           tk_state := (if st_code e = Cancelled then TS_Cancelled else TS_Failed),
           tk_cancelled := (st_code e = Cancelled)\<rparr>)"

text \<open>
  One step of the job. In the publish the flag is read between the plan and the durable intent;
  \<open>seen\<close> is what that read gives.
\<close>

definition job_step :: "bool \<Rightarrow> TicketJob \<Rightarrow> Host \<Rightarrow> Host option" where
  "job_step seen job h =
     (let i = job_ticket job
      in case host_phase h i of
        TP_Queued \<Rightarrow> Some (set_phase i TP_Marked (mark_ticket_running i h))
      | TP_Marked \<Rightarrow> Some (set_phase i
          (case find_ticket i h of
             None \<Rightarrow> TP_Left
           | Some t \<Rightarrow> (case tk_flag t of None \<Rightarrow> TP_Left | Some flag \<Rightarrow> TP_Flag flag)) h)
      | TP_Flag flag \<Rightarrow> Some (set_phase i
          (if host_flags h flag then TP_Store (cancelled_ticket flag) else TP_Publish flag) h)
      | TP_Publish flag \<Rightarrow>
          map_option (\<lambda>(r, f). set_phase i (TP_Store (result_ticket flag r)) (h\<lparr>host_fabric := f\<rparr>))
            (publish_locked (job_signal job) (job_now job) True seen (host_fabric h))
      | TP_Store t \<Rightarrow> Some (set_phase i TP_Left (complete_ticket i t h))
      | _ \<Rightarrow> None)"

section \<open>Looking up, releasing and cancelling\<close>

definition lookup_ticket :: "TicketId \<Rightarrow> Host \<Rightarrow> PublishTicket result" where
  "lookup_ticket i h = (case find_ticket i h of None \<Rightarrow> fail NotFound ''ticket'' i | Some t \<Rightarrow> Inr t)"

definition release_ticket :: "TicketId \<Rightarrow> Host \<Rightarrow> Status \<times> Host" where
  "release_ticket i h =
     (case find_ticket i h of
        None \<Rightarrow> (status_error NotFound ''ticket'' i, h)
      | Some t \<Rightarrow>
          if ticket_in_flight (tk_state t) then (status_error Conflict ''ticket still in flight'' i, h)
          else (status_success, erase_ticket i h))"

definition raise_flag :: "PublishTicket \<Rightarrow> (TicketId \<Rightarrow> bool) \<Rightarrow> TicketId \<Rightarrow> bool" where
  "raise_flag t flags = (case tk_flag t of None \<Rightarrow> flags | Some k \<Rightarrow> flags(k := True))"

definition cancel_pending :: "string \<Rightarrow> PublishTicket \<Rightarrow> PublishTicket" where
  "cancel_pending what t =
     (if tk_state t = TS_Pending then
        t\<lparr>tk_state := TS_Cancelled, tk_cancelled := True, tk_status := status_error Cancelled what 0, tk_committed := False\<rparr>
      else t)"

definition cancel_ticket :: "TicketId \<Rightarrow> Host \<Rightarrow> Status \<times> Host" where
  "cancel_ticket i h =
     (case find_ticket i h of
        None \<Rightarrow> (status_error NotFound ''ticket'' i, h)
      | Some t \<Rightarrow> (status_success,
          set_ticket i (cancel_pending ''publish cancelled'' t) (h\<lparr>host_flags := raise_flag t (host_flags h)\<rparr>)))"

definition pending_tickets :: "Host \<Rightarrow> nat" where
  "pending_tickets h = length (filter (\<lambda>(i, t). ticket_in_flight (tk_state t)) (host_tickets h))"

definition host_drained :: "Host \<Rightarrow> bool" where
  "host_drained h \<longleftrightarrow> \<not> pl_started (host_pool h) \<or> pool_idle (host_pool h)"

section \<open>Shutdown\<close>

text \<open>\<open>shutting_down_.exchange(true)\<close> gives the old value; then every ticket is cancelled.\<close>

definition host_stop :: "Host \<Rightarrow> bool \<times> Host" where
  "host_stop h = (fab_shutting_down (host_fabric h), h\<lparr>host_fabric := (host_fabric h)\<lparr>fab_shutting_down := True\<rparr>\<rparr>)"

definition host_cancel_all :: "Host \<Rightarrow> Host" where
  "host_cancel_all h = h
     \<lparr>host_flags := fold (\<lambda>(i, t). raise_flag t) (host_tickets h) (host_flags h),
      host_tickets := map (\<lambda>(i, t). (i, cancel_pending ''fabric shutdown'' t)) (host_tickets h)\<rparr>"

section \<open>What the threads may do\<close>

text \<open>
  Clients call any method at any time; a call of \<open>publish_async\<close> that has passed its first checks
  may store its ticket at any later time. The number of tickets stays below \<open>2 ^ 64\<close>.
\<close>

inductive host_step :: "Host \<Rightarrow> Host \<Rightarrow> bool" where
  hs_call: "fabric_op x now (host_fabric h) = Some f \<Longrightarrow> host_step h (h\<lparr>host_fabric := f\<rparr>)"
| hs_ticket: "host_next h \<noteq> -1 \<Longrightarrow> host_step h (snd (async_ticket h))"
| hs_submit: "host_phase h i = TP_Issued \<Longrightarrow> host_step h (snd (async_submit i signal now h))"
| hs_withdraw: "host_phase h i = TP_Refused \<Longrightarrow> host_step h (async_withdraw i h)"
| hs_release: "host_step h (snd (release_ticket i h))"
| hs_cancel: "host_step h (snd (cancel_ticket i h))"
| hs_cancel_all: "fab_shutting_down (host_fabric h) \<Longrightarrow> host_step h (host_cancel_all h)"
| hs_wake: "worker_wake k (host_pool h) = Some p \<Longrightarrow> host_step h (h\<lparr>host_pool := p\<rparr>)"
| hs_job: "pl_threads (host_pool h) ! k = W_Running job \<Longrightarrow> (host_flags h (job_ticket job) \<Longrightarrow> seen) \<Longrightarrow>
    job_step seen job h = Some h' \<Longrightarrow> host_step h h'"
| hs_done: "pl_threads (host_pool h) ! k = W_Running job \<Longrightarrow> host_phase h (job_ticket job) = TP_Left \<Longrightarrow>
    worker_done k (host_pool h) = Some p \<Longrightarrow> host_step h (h\<lparr>host_pool := p\<rparr>)"
| hs_abort: "fab_shutting_down (host_fabric h) \<Longrightarrow> host_step h (h\<lparr>host_pool := pool_begin_abort (host_pool h)\<rparr>)"
| hs_join: "pool_join (host_pool h) = Some p \<Longrightarrow> host_step h (h\<lparr>host_pool := p\<rparr>)"

end
