(* ===== verification/Tickets_Facts.thy ===== *)
theory Tickets_Facts
  imports Tickets Fabric_Steps
begin

text \<open>
  The ticket store under every interleaving of clients and workers: what its invariant is, and
  that a publish whose cancellation flag was raised in time never takes effect.
\<close>

section \<open>A cancelled publish\<close>

lemma admit_status:
  "admit policy req ss (acc, w) = (taken, w') \<Longrightarrow> out_status w' = out_status w"
proof (induction ss arbitrary: acc w)
  case (Cons s ss)
  then show ?case by (auto simp: Let_def split: if_splits)
qed simp

lemma split_live_status:
  "split_live topo policy ledger req ss (live0, w) = (live, w') \<Longrightarrow> out_status w' = out_status w"
proof (induction ss arbitrary: live0 w)
  case (Cons s ss)
  then show ?case by (auto simp: Let_def split: if_splits)
qed simp

lemma traverse_all_status:
  "traverse_all env req ss ps = Some ps' \<Longrightarrow> out_status (ps_outcome ps') = out_status (ps_outcome ps)"
proof (induction ss arbitrary: ps)
  case (Cons s ss)
  then obtain ps1 where "traverse_signal env req s ps = Some ps1" "traverse_all env req ss ps1 = Some ps'"
    by (auto split: option.splits)
  moreover from this(1) have "out_status (ps_outcome ps1) = out_status (ps_outcome ps)"
    by (auto simp: traverse_signal_def Let_def split: option.splits if_splits)
  ultimately show ?case using Cons.IH by simp
qed simp

lemma conclude_dry_status:
  assumes "req_dry_run req" and "conclude policy req live ledger ps = (w, l)" and "status_ok (out_status (ps_outcome ps))"
    and "\<not> status_ok (out_status w)"
  shows "signals_accepted (out_counters w) = 0"
proof (rule ccontr)
  assume n: "signals_accepted (out_counters w) \<noteq> 0"
  then have "signals_accepted (out_counters (ps_outcome ps)) \<noteq> 0"
    using conclude_accepted [of policy req live ledger ps] assms(2) by simp
  then have "status_ok (out_status w)"
    using assms aggregate_all_accepted [of policy "ps_acc ps" "out_counters (ps_outcome ps)"]
    by (auto simp: conclude_def Let_def outcome_finalize_def split: prod.splits if_splits)
  with assms(4) show False by simp
qed

text \<open>A dry run that fails has taken nothing.\<close>

lemma plan_refused_empty:
  assumes "propagate_valid topo policy ledger fences e req = Some (w, l)" and "req_dry_run req" and "\<not> status_ok (out_status w)"
  shows "signals_accepted (out_counters w) = 0"
proof -
  have concluded: "signals_accepted (out_counters w) = 0"
    if p: "propagate_signals env req o1 = Some (w, l)" and o: "signals_accepted (out_counters o1) = 0" "status_ok (out_status o1)"
    for env o1
  proof -
    obtain taken o2 where a: "admit (env_policy env) req (req_signals req) ([], o1) = (taken, o2)" by (rule prod.exhaust)
    obtain live o3 where s: "split_live (env_topology env) (env_policy env) (env_ledger env) req taken ([], o2) = (live, o3)"
      by (rule prod.exhaust)
    show ?thesis
    proof (cases "taken = []")
      case True
      then show ?thesis using p a admit_keeps [OF a] o(1) by (auto simp: propagate_signals_def outcome_fail_def)
    next
      case False
      with p a s obtain ps where ps: "traverse_all env req live \<lparr>ps_acc = [], ps_outcome = o3, ps_truncated = False\<rparr> = Some ps"
        and c: "conclude (env_policy env) req live (env_ledger env) ps = (w, l)"
        by (auto simp: propagate_signals_def Let_def)
      have "status_ok (out_status (ps_outcome ps))"
        using traverse_all_status [OF ps] split_live_status [OF s] admit_status [OF a] o(2) by simp
      from conclude_dry_status [OF assms(2) c this assms(3)] show ?thesis .
    qed
  qed
  have init: "signals_accepted (out_counters (propagation_outcome a b c d)) = 0" "status_ok (out_status (propagation_outcome a b c d))"
    for a b c d by (simp_all add: propagation_outcome_def engine_counters_def)
  show ?thesis
    using assms unfolding propagate_valid_def Let_def
    by (auto simp: init outcome_fail_def engine_counters_def propagation_outcome_def split: if_splits sum.splits prod.splits dest!: concluded)
qed

lemma publish_cancelled:
  assumes "publish_locked signal now wanted True f = Some (r, f')"
  shows "fab_ledger f' = fab_ledger f \<and> fab_store f' = fab_store f \<and>
    (\<forall>w. r = Inr w \<longrightarrow> st_code (out_status w) = Cancelled \<or> \<not> status_ok (out_status w) \<and> signals_accepted (out_counters w) = 0)"
proof (cases "publish_refusal signal f")
  case (Some q)
  with assms show ?thesis by (auto simp: publish_locked_def split: prod.splits)
next
  case None
  then obtain topo policy where t: "fab_topology f = Some topo" "fab_policy f = Some policy"
    by (auto simp: publish_refusal_None publish_admitted_def)
  define f1 where "f1 = f\<lparr>fab_attempts := fab_attempts f + 1\<rparr>"
  define req where "req = publish_request topo policy (StrongId (fab_attempts f)) [signal] now f1"
  obtain planned f2 where plan: "run_propagate req f1 = Some (planned, f2)"
    using assms None t by (auto simp: publish_locked_def next_attempt_def Let_def f1_def req_def split: option.splits)
  have dry: "req_dry_run req" by (simp add: req_def publish_request_def)
  obtain l where l: "propagate_valid topo policy (fab_ledger f1) (Some (fab_fences f1)) (fab_epoch f1) req = Some (planned, l)"
    "f2 = f1\<lparr>fab_ledger := l\<rparr>" using run_propagate_valid [of f1, OF _ _ plan] t by (auto simp: f1_def)
  have "propagate (engine_context f1) req = Some (planned, Some l)" using l t by (simp add: propagate_def engine_context_def f1_def)
  from propagate_ledger [OF this] dry have "l = fab_ledger f1" by (auto simp: engine_context_def)
  then have f2: "fab_ledger f2 = fab_ledger f" "fab_store f2 = fab_store f" using l(2) by (simp_all add: f1_def)
  have "(r, f') = (if status_ok (out_status planned) then (Inr (cancelled_outcome planned), reject_signal f2)
      else (Inr planned, reject_publisher (sig_source signal) f2))"
    using assms by (simp only: publish_locked_def None t next_attempt_def Let_def option.case prod.case plan if_True
      f1_def [symmetric] req_def [symmetric] split: if_split_asm) simp_all
  moreover have "st_code (out_status (cancelled_outcome planned)) = Cancelled"
    by (simp add: cancelled_outcome_def outcome_finalize_def status_error_def)
  ultimately show ?thesis using f2 plan_refused_empty [OF l(1) dry] by (auto split: if_splits)
qed

section \<open>The invariant of the ticket store\<close>

text \<open>What a stored ticket looks like while its call and job are in a phase.\<close>

definition phase_fits :: "TicketPhase \<Rightarrow> PublishTicket \<Rightarrow> bool" where
  "phase_fits p t \<longleftrightarrow>
     (case p of
        TP_None \<Rightarrow> False
      | TP_Issued \<Rightarrow> tk_state t \<in> {TS_Pending, TS_Cancelled} \<and> \<not> tk_committed t
      | TP_Refused \<Rightarrow> tk_state t \<in> {TS_Pending, TS_Cancelled} \<and> \<not> tk_committed t
      | TP_Queued \<Rightarrow> tk_state t \<in> {TS_Pending, TS_Cancelled} \<and> \<not> tk_committed t
      | TP_Left \<Rightarrow> \<not> ticket_in_flight (tk_state t)
      | _ \<Rightarrow> tk_state t = TS_Running \<and> \<not> tk_committed t)"

definition ticket_ok :: "TicketId \<Rightarrow> TicketPhase \<Rightarrow> PublishTicket \<Rightarrow> bool" where
  "ticket_ok i p t \<longleftrightarrow> tk_id t = i \<and> tk_flag t = Some i \<and> phase_fits p t"

text \<open>What a phase that carries data carries, and that its ticket is still stored.\<close>

definition phase_ok :: "TicketId \<Rightarrow> bool \<Rightarrow> TicketPhase \<Rightarrow> bool" where
  "phase_ok i stored p \<longleftrightarrow>
     (case p of
        TP_Flag k \<Rightarrow> k = i \<and> stored
      | TP_Publish k \<Rightarrow> k = i \<and> stored
      | TP_Store t \<Rightarrow> tk_flag t = Some i \<and> \<not> ticket_in_flight (tk_state t) \<and> stored
      | _ \<Rightarrow> True)"

definition store_shape :: "(TicketId \<times> PublishTicket) list \<Rightarrow> TicketId list \<Rightarrow> nat \<Rightarrow> bool" where
  "store_shape ts order cap \<longleftrightarrow> distinct (map fst ts) \<and> distinct order \<and> set order = fst ` set ts \<and> length ts \<le> cap"

definition host_inv :: "Host \<Rightarrow> bool" where
  "host_inv h \<longleftrightarrow>
     fabric_inv (host_fabric h) \<and>
     store_shape (host_tickets h) (host_order h) (fc_max_tickets (fab_config (host_fabric h))) \<and>
     (\<forall>i. i \<ge> host_next h \<longrightarrow> host_phase h i = TP_None) \<and>
     (\<forall>i t. find_ticket i h = Some t \<longrightarrow> ticket_ok i (host_phase h i) t) \<and>
     (\<forall>i. phase_ok i (find_ticket i h \<noteq> None) (host_phase h i))"

lemma shape_update:
  assumes "store_shape ts order cap" and "map_of ts i \<noteq> None"
  shows "store_shape (AList.update i t ts) order cap"
proof -
  have d: "distinct (map fst ts)" "i \<in> fst ` set ts"
    using assms by (simp_all add: store_shape_def map_of_eq_None_iff)
  then have "length (AList.update i t ts) = length ts" "fst ` set (AList.update i t ts) = fst ` set ts"
    using length_alist_update [OF d(1), of i t] assms(2) by (auto simp: dom_update)
  then show ?thesis using assms(1) distinct_update [OF d(1)] by (simp add: store_shape_def)
qed

lemma shape_add:
  assumes "store_shape ts order cap" and "map_of ts i = None" and "length ts < cap"
  shows "store_shape (AList.update i t ts) (order @ [i]) cap"
proof -
  have d: "distinct (map fst ts)" "i \<notin> fst ` set ts"
    using assms by (simp_all add: store_shape_def map_of_eq_None_iff)
  then have "length (AList.update i t ts) = Suc (length ts)" "fst ` set (AList.update i t ts) = insert i (fst ` set ts)"
    using length_alist_update [OF d(1), of i t] assms(2) by (auto simp: dom_update)
  then show ?thesis using assms(1,3) distinct_update [OF d(1)] d(2) by (simp add: store_shape_def)
qed

lemma delete_keys_set: "fst ` set (AList.delete i ts) = fst ` set ts - {i}"
  using arg_cong [OF delete_keys [of i ts], of set] by (simp add: set_removeAll)

lemma shape_erase:
  assumes "store_shape ts order cap"
  shows "store_shape (AList.delete i ts) (remove1 i order) cap"
  using assms distinct_delete [of ts i] length_delete_le [of i ts] by (simp add: store_shape_def delete_keys_set)

lemma erase_length:
  assumes "map_of ts i \<noteq> None"
  shows "length (AList.delete i ts) < length ts"
proof -
  have "length (map fst (AList.delete i ts)) < length (map fst ts)"
    unfolding delete_keys using assms by (intro length_removeAll_less) (simp add: map_of_eq_None_iff)
  then show ?thesis by simp
qed

lemma find_update: "find_ticket k (set_ticket i t h) = (if k = i then Some t else find_ticket k h)"
  by (simp add: find_ticket_def set_ticket_def update_conv')

lemma find_erase: "find_ticket k (erase_ticket i h) = (if k = i then None else find_ticket k h)"
  by (simp add: find_ticket_def erase_ticket_def delete_conv')

section \<open>Every step keeps it\<close>

lemma host_field_simps [simp]:
  "find_ticket i (host_fabric_update f1 h) = find_ticket i h" "find_ticket i (host_pool_update f2 h) = find_ticket i h"
  "find_ticket i (host_order_update f3 h) = find_ticket i h" "find_ticket i (host_next_update f4 h) = find_ticket i h"
  "find_ticket i (host_flags_update f5 h) = find_ticket i h" "find_ticket i (set_phase k p h) = find_ticket i h"
  "host_phase (set_phase k p h) = (host_phase h)(k := p)" "host_phase (set_ticket k t h) = host_phase h"
  "host_phase (erase_ticket k h) = host_phase h" "host_next (set_phase k p h) = host_next h"
  "host_next (set_ticket k t h) = host_next h" "host_next (erase_ticket k h) = host_next h"
  "host_fabric (set_phase k p h) = host_fabric h" "host_fabric (set_ticket k t h) = host_fabric h"
  "host_fabric (erase_ticket k h) = host_fabric h" "host_flags (set_phase k p h) = host_flags h"
  "host_flags (set_ticket k t h) = host_flags h" "host_flags (erase_ticket k h) = host_flags h"
  "host_order (set_phase k p h) = host_order h" "host_order (set_ticket k t h) = host_order h"
  "host_tickets (set_phase k p h) = host_tickets h" "host_pool (set_phase k p h) = host_pool h"
  "host_pool (set_ticket k t h) = host_pool h" "host_pool (erase_ticket k h) = host_pool h"
  by (simp_all add: find_ticket_def set_phase_def set_ticket_def erase_ticket_def)

lemma host_inv_update [simp]:
  "host_inv (host_pool_update g1 h) = host_inv h" "host_inv (host_flags_update g2 h) = host_inv h"
  by (simp_all add: host_inv_def)

lemma host_inv_fabric:
  assumes "host_inv h" and "fabric_inv f" and "fab_config f = fab_config (host_fabric h)"
  shows "host_inv (h\<lparr>host_fabric := f\<rparr>)"
  using assms by (simp add: host_inv_def)

lemma host_invD:
  assumes "host_inv h"
  shows "find_ticket i h = Some t \<Longrightarrow> ticket_ok i (host_phase h i) t" "phase_ok i (find_ticket i h \<noteq> None) (host_phase h i)"
    "store_shape (host_tickets h) (host_order h) (fc_max_tickets (fab_config (host_fabric h)))"
    "i \<ge> host_next h \<Longrightarrow> host_phase h i = TP_None" "host_phase h i \<noteq> TP_None \<Longrightarrow> i < host_next h"
  using assms unfolding host_inv_def by (blast, blast, blast, blast, metis not_le)

lemma stored_issued: "host_inv h \<Longrightarrow> find_ticket i h \<noteq> None \<Longrightarrow> host_phase h i \<noteq> TP_None \<and> i < host_next h"
  using host_invD(1,5) [of h i] by (cases "host_phase h i") (auto simp: ticket_ok_def phase_fits_def)

text \<open>A step that touches one ticket.\<close>

lemma host_inv_one:
  assumes inv: "host_inv h"
    and frame: "host_fabric h' = host_fabric h" "host_next h \<le> host_next h'"
      "\<And>k. k \<noteq> i \<Longrightarrow> find_ticket k h' = find_ticket k h" "\<And>k. k \<noteq> i \<Longrightarrow> host_phase h' k = host_phase h k"
    and shape: "store_shape (host_tickets h') (host_order h') (fc_max_tickets (fab_config (host_fabric h)))"
    and here: "\<And>t. find_ticket i h' = Some t \<Longrightarrow> ticket_ok i (host_phase h' i) t"
      "phase_ok i (find_ticket i h' \<noteq> None) (host_phase h' i)" "i < host_next h' \<or> host_phase h' i = TP_None"
  shows "host_inv h'"
  unfolding host_inv_def
proof (intro conjI allI impI)
  show "fabric_inv (host_fabric h')" using inv frame(1) by (simp add: host_inv_def)
  show "store_shape (host_tickets h') (host_order h') (fc_max_tickets (fab_config (host_fabric h')))" using shape frame(1) by simp
  show "host_phase h' k = TP_None" if "k \<ge> host_next h'" for k
  proof (cases "k = i")
    case True
    then show ?thesis using here(3) that by auto
  next
    case False
    have "host_next h \<le> k" using frame(2) that by (rule order_trans)
    then show ?thesis using frame(4) [OF False] host_invD(4) [OF inv] by simp
  qed
  show "ticket_ok k (host_phase h' k) t" if "find_ticket k h' = Some t" for k t
    using that here(1) frame(3,4) host_invD(1) [OF inv] by (cases "k = i") auto
  show "phase_ok k (find_ticket k h' \<noteq> None) (host_phase h' k)" for k
    using here(2) frame(3,4) host_invD(2) [OF inv] by (cases "k = i") auto
qed

lemma erase_settled:
  assumes inv: "host_inv h" and t: "find_ticket i h = Some t" "\<not> ticket_in_flight (tk_state t)"
  shows "host_inv (erase_ticket i h)"
proof (rule host_inv_one [OF inv])
  have "ticket_ok i (host_phase h i) t" using host_invD(1) [OF inv t(1)] .
  then show "phase_ok i (find_ticket i (erase_ticket i h) \<noteq> None) (host_phase (erase_ticket i h) i)"
    using t(2) by (auto simp: ticket_ok_def phase_fits_def phase_ok_def ticket_in_flight_def split: TicketPhase.splits)
  show "store_shape (host_tickets (erase_ticket i h)) (host_order (erase_ticket i h)) (fc_max_tickets (fab_config (host_fabric h)))"
    using shape_erase [OF host_invD(3) [OF inv]] by (simp add: erase_ticket_def)
  show "i < host_next (erase_ticket i h) \<or> host_phase (erase_ticket i h) i = TP_None"
    using stored_issued [OF inv, of i] t(1) by simp
qed (simp_all add: find_erase)

text \<open>Replacing a stored ticket.\<close>

lemma replace_ticket:
  assumes inv: "host_inv h" and t: "find_ticket i h \<noteq> None" and ok: "ticket_ok i p t'" "phase_ok i True p"
  shows "host_inv (set_phase i p (set_ticket i t' h))"
proof (rule host_inv_one [OF inv])
  show "store_shape (host_tickets (set_phase i p (set_ticket i t' h))) (host_order (set_phase i p (set_ticket i t' h)))
      (fc_max_tickets (fab_config (host_fabric h)))"
    using shape_update [OF host_invD(3) [OF inv]] t by (simp add: set_ticket_def set_phase_def find_ticket_def)
  show "i < host_next (set_phase i p (set_ticket i t' h)) \<or> host_phase (set_phase i p (set_ticket i t' h)) i = TP_None"
    using stored_issued [OF inv t] by simp
qed (use ok t in \<open>simp_all add: find_update\<close>)

lemma change_phase:
  assumes inv: "host_inv h" and ok: "\<And>t. find_ticket i h = Some t \<Longrightarrow> ticket_ok i p t" "phase_ok i (find_ticket i h \<noteq> None) p"
    and i: "host_phase h i \<noteq> TP_None"
  shows "host_inv (set_phase i p h)"
proof (rule host_inv_one [OF inv])
  show "i < host_next (set_phase i p h) \<or> host_phase (set_phase i p h) i = TP_None" using host_invD(5) [OF inv i] by simp
qed (use ok host_invD(3) [OF inv] in simp_all)

lemma oldest_settled_found:
  "oldest_settled order h = Some k \<Longrightarrow> \<exists>t. find_ticket k h = Some t \<and> \<not> ticket_in_flight (tk_state t)"
  by (induction order h rule: oldest_settled.induct) (auto split: option.splits if_splits)

lemma store_ticket_inv:
  assumes inv: "host_inv h" and i: "host_phase h i = TP_None" "i < host_next h"
    and n: "length (host_tickets h) < fc_max_tickets (fab_config (host_fabric h))"
  shows "host_inv (store_ticket i h)"
proof (rule host_inv_one [OF inv])
  have f: "find_ticket i h = None" using stored_issued [OF inv, of i] i(1) by (cases "find_ticket i h") simp_all
  show "store_shape (host_tickets (store_ticket i h)) (host_order (store_ticket i h)) (fc_max_tickets (fab_config (host_fabric h)))"
    using shape_add [OF host_invD(3) [OF inv] _ n] f by (simp add: store_ticket_def set_ticket_def set_phase_def find_ticket_def)
  show "find_ticket k (store_ticket i h) = find_ticket k h" if "k \<noteq> i" for k using that by (simp add: store_ticket_def find_update)
  show "host_phase (store_ticket i h) k = host_phase h k" if "k \<noteq> i" for k using that by (simp add: store_ticket_def)
  show "ticket_ok i (host_phase (store_ticket i h) i) t" if "find_ticket i (store_ticket i h) = Some t" for t
    using that by (auto simp: store_ticket_def find_update ticket_ok_def phase_fits_def publish_ticket_def)
  show "phase_ok i (find_ticket i (store_ticket i h) \<noteq> None) (host_phase (store_ticket i h) i)"
    by (simp add: store_ticket_def phase_ok_def)
qed (use i in \<open>simp_all add: store_ticket_def\<close>)

lemma host_inv_next:
  assumes inv: "host_inv h" and n: "host_next h \<noteq> - 1"
  shows "host_inv (h\<lparr>host_next := host_next h + 1\<rparr>)" and "host_next h < host_next h + 1"
proof -
  have "unat (host_next h + 1) = unat (host_next h) + 1"
    using n by (simp add: u64_succ max_of_u64_def)
  then show lt: "host_next h < host_next h + 1" by (simp add: word_less_nat_alt)
  have "host_phase h i = TP_None" if "i \<ge> host_next h + 1" for i
    using lt that host_invD(4) [OF inv, of i] by simp
  then show "host_inv (h\<lparr>host_next := host_next h + 1\<rparr>)" using inv unfolding host_inv_def by (simp add: find_ticket_def)
qed

lemma async_ticket_inv:
  assumes inv: "host_inv h" and n: "host_next h \<noteq> - 1"
  shows "host_inv (snd (async_ticket h))"
proof -
  define g where "g = h\<lparr>host_next := host_next h + 1\<rparr>"
  have g: "host_inv g" "host_phase g (host_next h) = TP_None" "host_next h < host_next g"
    using host_inv_next [OF inv n] host_invD(4) [OF inv, of "host_next h"] by (simp_all add: g_def)
  show ?thesis
  proof (cases "length (host_tickets g) \<ge> fc_max_tickets (fab_config (host_fabric g))")
    case False
    then have "snd (async_ticket h) = store_ticket (host_next h) g" by (simp add: async_ticket_def Let_def g_def)
    with store_ticket_inv [OF g] False show ?thesis by simp
  next
    case True
    show ?thesis
    proof (cases "oldest_settled (host_order g) g")
      case None
      with True g(1) show ?thesis by (simp add: async_ticket_def Let_def flip: g_def)
    next
      case (Some k)
      then obtain t where t: "find_ticket k g = Some t" "\<not> ticket_in_flight (tk_state t)"
        using oldest_settled_found by blast
      have e: "host_inv (erase_ticket k g)" by (rule erase_settled [OF g(1) t])
      have "length (host_tickets g) \<le> fc_max_tickets (fab_config (host_fabric g))"
        using host_invD(3) [OF g(1)] by (simp add: store_shape_def)
      then have l: "length (host_tickets (erase_ticket k g)) < fc_max_tickets (fab_config (host_fabric (erase_ticket k g)))"
        using erase_length [of "host_tickets g" k] t(1) by (simp add: erase_ticket_def find_ticket_def)
      have "snd (async_ticket h) = store_ticket (host_next h) (erase_ticket k g)"
        using True Some by (simp add: async_ticket_def Let_def flip: g_def)
      then show ?thesis using store_ticket_inv [OF e _ _ l, of "host_next h"] g(2,3) by simp
    qed
  qed
qed

lemma async_submit_inv:
  assumes inv: "host_inv h" and p: "host_phase h i = TP_Issued"
  shows "host_inv (snd (async_submit i signal now h))"
proof -
  obtain e q where s: "pool_submit (Some \<lparr>job_ticket = i, job_signal = signal, job_now = now\<rparr>) (host_pool h) = (e, q)"
    by (rule prod.exhaust)
  have t: "ticket_ok i TP_Queued t" "ticket_ok i TP_Refused t" if "find_ticket i h = Some t" for t
    using host_invD(1) [OF inv that] p by (simp_all add: ticket_ok_def phase_fits_def)
  have "host_inv (set_phase i (if status_ok e then TP_Queued else TP_Refused) (h\<lparr>host_pool := q\<rparr>))"
    by (rule change_phase) (use inv p t in \<open>simp_all add: phase_ok_def\<close>)
  then show ?thesis by (simp add: async_submit_def s)
qed

lemma withdraw_inv:
  assumes inv: "host_inv h" and p: "host_phase h i = TP_Refused"
  shows "host_inv (async_withdraw i h)"
proof (rule host_inv_one [OF inv])
  show "store_shape (host_tickets (async_withdraw i h)) (host_order (async_withdraw i h)) (fc_max_tickets (fab_config (host_fabric h)))"
    using shape_erase [OF host_invD(3) [OF inv]] by (simp add: async_withdraw_def erase_ticket_def set_phase_def)
  show "i < host_next (async_withdraw i h) \<or> host_phase (async_withdraw i h) i = TP_None"
    using host_invD(5) [OF inv, of i] p by (simp add: async_withdraw_def)
qed (simp_all add: async_withdraw_def find_erase phase_ok_def)

lemma release_inv:
  assumes "host_inv h"
  shows "host_inv (snd (release_ticket i h))"
  using assms erase_settled [OF assms] by (simp add: release_ticket_def split: option.split)

lemma cancel_pending_ok: "ticket_ok i p t \<Longrightarrow> ticket_ok i p (cancel_pending what t)"
  by (auto simp: ticket_ok_def phase_fits_def cancel_pending_def ticket_in_flight_def split: TicketPhase.splits)

lemma cancel_inv:
  assumes inv: "host_inv h"
  shows "host_inv (snd (cancel_ticket i h))"
proof (cases "find_ticket i h")
  case None
  with inv show ?thesis by (simp add: cancel_ticket_def)
next
  case (Some t)
  let ?g = "h\<lparr>host_flags := raise_flag t (host_flags h)\<rparr>"
  have "host_inv (set_phase i (host_phase h i) (set_ticket i (cancel_pending ''publish cancelled'' t) ?g))"
    using cancel_pending_ok [OF host_invD(1) [OF inv Some]] host_invD(2) [OF inv, of i] inv Some
    by (intro replace_ticket) simp_all
  moreover have "set_phase i (host_phase h i) (set_ticket i t' ?g) = set_ticket i t' ?g" for t'
    by (simp add: set_phase_def set_ticket_def fun_upd_idem)
  ultimately show ?thesis using Some by (simp add: cancel_ticket_def)
qed

lemma cancel_all_find:
  "find_ticket i (host_cancel_all h) = map_option (cancel_pending ''fabric shutdown'') (find_ticket i h)"
proof -
  have "map_of (map (\<lambda>(i, t). (i, g t)) ts) i = map_option g (map_of ts i)" for g :: "PublishTicket \<Rightarrow> PublishTicket" and ts
    by (induction ts) auto
  then show ?thesis by (simp add: find_ticket_def host_cancel_all_def)
qed

lemma cancel_all_inv:
  assumes inv: "host_inv h"
  shows "host_inv (host_cancel_all h)"
proof -
  have "map fst (map (\<lambda>(i, t). (i, g t)) ts) = map fst ts" for g :: "PublishTicket \<Rightarrow> PublishTicket" and ts :: "(TicketId \<times> PublishTicket) list"
    by (induction ts) auto
  moreover have "fst ` set (map (\<lambda>(i, t). (i, g t)) ts) = fst ` set ts"
    for g :: "PublishTicket \<Rightarrow> PublishTicket" and ts :: "(TicketId \<times> PublishTicket) list" by force
  ultimately have "store_shape (host_tickets (host_cancel_all h)) (host_order h) (fc_max_tickets (fab_config (host_fabric h)))"
    using host_invD(3) [OF inv] by (simp add: store_shape_def host_cancel_all_def del: map_map set_map)
  moreover have "host_fabric (host_cancel_all h) = host_fabric h" "host_order (host_cancel_all h) = host_order h"
    "host_phase (host_cancel_all h) = host_phase h" "host_next (host_cancel_all h) = host_next h" by (simp_all add: host_cancel_all_def)
  ultimately show ?thesis
    using inv cancel_pending_ok unfolding host_inv_def by (auto simp: cancel_all_find)
qed

lemma job_step_inv:
  assumes inv: "host_inv h" and s: "job_step seen job h = Some h'"
  shows "host_inv h'"
proof -
  let ?i = "job_ticket job"
  note ok = host_invD(1) [OF inv, of ?i] and ph = host_invD(2) [OF inv, of ?i]
  show ?thesis
  proof (cases "host_phase h ?i")
    case TP_Queued
    then have h': "h' = set_phase ?i TP_Marked (mark_ticket_running ?i h)" using s by (simp add: job_step_def Let_def)
    show ?thesis
    proof (cases "find_ticket ?i h")
      case None
      with h' TP_Queued show ?thesis by (simp add: mark_ticket_running_def) (rule change_phase [OF inv]; simp add: phase_ok_def)
    next
      case (Some t)
      have "ticket_ok ?i TP_Marked (t\<lparr>tk_state := TS_Running\<rparr>)"
        using ok [OF Some] TP_Queued by (simp add: ticket_ok_def phase_fits_def)
      with replace_ticket [OF inv, of ?i TP_Marked] Some h' show ?thesis by (simp add: mark_ticket_running_def phase_ok_def)
    qed
  next
    case TP_Marked
    show ?thesis
    proof (cases "find_ticket ?i h")
      case None
      with s TP_Marked have "h' = set_phase ?i TP_Left h" by (simp add: job_step_def)
      moreover have "host_inv (set_phase ?i TP_Left h)" by (rule change_phase [OF inv]) (use None TP_Marked in \<open>simp_all add: phase_ok_def\<close>)
      ultimately show ?thesis by simp
    next
      case (Some t)
      with s TP_Marked ok [OF Some] have "h' = set_phase ?i (TP_Flag ?i) h" by (auto simp: job_step_def ticket_ok_def)
      moreover have "host_inv (set_phase ?i (TP_Flag ?i) h)"
        by (rule change_phase [OF inv]) (use Some TP_Marked ok [OF Some] in \<open>simp_all add: phase_ok_def ticket_ok_def phase_fits_def\<close>)
      ultimately show ?thesis by simp
    qed
  next
    case (TP_Flag k)
    then have k: "k = ?i" "find_ticket ?i h \<noteq> None" using ph by (simp_all add: phase_ok_def)
    have "ticket_ok ?i (TP_Store (cancelled_ticket k)) t" "ticket_ok ?i (TP_Publish k) t" if "find_ticket ?i h = Some t" for t
      using ok [OF that] TP_Flag by (simp_all add: ticket_ok_def phase_fits_def)
    moreover have "phase_ok ?i True (TP_Store (cancelled_ticket k))" "phase_ok ?i True (TP_Publish k)"
      using k by (simp_all add: phase_ok_def cancelled_ticket_def ticket_in_flight_def)
    ultimately have "host_inv (set_phase ?i (TP_Store (cancelled_ticket k)) h)" "host_inv (set_phase ?i (TP_Publish k) h)"
      using k(2) TP_Flag by (auto intro!: change_phase [OF inv])
    then show ?thesis using s TP_Flag by (auto simp: job_step_def split: if_splits)
  next
    case (TP_Publish k)
    then have k: "k = ?i" "find_ticket ?i h \<noteq> None" using ph by (simp_all add: phase_ok_def)
    obtain r f where r: "publish_locked (job_signal job) (job_now job) True seen (host_fabric h) = Some (r, f)"
      and h': "h' = set_phase ?i (TP_Store (result_ticket k r)) (h\<lparr>host_fabric := f\<rparr>)"
      using s TP_Publish by (auto simp: job_step_def)
    have "fabric_inv (host_fabric h)" using inv by (simp add: host_inv_def)
    from publish_locked_total [OF this, of "job_signal job" "job_now job" True seen] r have "fabric_inv f" by simp
    moreover have "fab_config f = fab_config (host_fabric h)" using publish_locked_advances [OF r] by (simp add: advances_def)
    ultimately have g: "host_inv (h\<lparr>host_fabric := f\<rparr>)" by (rule host_inv_fabric [OF inv])
    have "phase_ok ?i True (TP_Store (result_ticket k r))"
      using k(1) by (auto simp: phase_ok_def result_ticket_def ticket_in_flight_def publish_ticket_def Let_def split: sum.split)
    then show ?thesis
      unfolding h' using k(2) TP_Publish ok by (intro change_phase [OF g]) (auto simp: ticket_ok_def phase_fits_def)
  next
    case (TP_Store t)
    then have t: "tk_flag t = Some ?i" "\<not> ticket_in_flight (tk_state t)" "find_ticket ?i h \<noteq> None" using ph by (simp_all add: phase_ok_def)
    have "h' = set_phase ?i TP_Left (set_ticket ?i (t\<lparr>tk_id := ?i\<rparr>) h)" using s TP_Store by (simp add: job_step_def complete_ticket_def Let_def)
    moreover have "ticket_ok ?i TP_Left (t\<lparr>tk_id := ?i\<rparr>)" using t by (simp add: ticket_ok_def phase_fits_def)
    ultimately show ?thesis using replace_ticket [OF inv t(3)] by (simp add: phase_ok_def)
  qed (use s in \<open>simp_all add: job_step_def\<close>)
qed

lemma host_step_inv: "host_step h h' \<Longrightarrow> host_inv h \<Longrightarrow> host_inv h'"
proof (induction rule: host_step.induct)
  case (hs_call x now h f)
  have "fabric_inv f" using fabric_op_total [of "host_fabric h" x now] hs_call by (auto simp: host_inv_def)
  moreover have "fab_config f = fab_config (host_fabric h)" using fabric_op_advances [OF hs_call(1)] by (simp add: advances_def)
  ultimately show ?case by (rule host_inv_fabric [OF hs_call(2)])
qed (simp_all add: async_ticket_inv async_submit_inv withdraw_inv release_inv cancel_inv cancel_all_inv job_step_inv)

lemma host_steps_inv: "host_step\<^sup>*\<^sup>* h h' \<Longrightarrow> host_inv h \<Longrightarrow> host_inv h'"
  by (induction rule: rtranclp_induct) (auto dest: host_step_inv)

lemma fabric_open_inv:
  assumes "fabric_open config name dir nonce pid file = (Inr h, file')"
  shows "host_inv h"
proof -
  obtain f file1 where f: "fabric_boot config name dir nonce pid file = (Inr f, file1)"
    using assms by (auto simp: fabric_open_def split: sum.splits prod.splits)
  obtain p where h: "h = host_new f p" using assms f by (auto simp: fabric_open_def Let_def split: if_splits prod.splits)
  have "fabric_inv f" using fabric_boot_spec [OF f] by blast
  then show ?thesis by (simp add: h host_inv_def host_new_def store_shape_def find_ticket_def phase_ok_def)
qed

section \<open>A cancellation that came in time\<close>

definition uncommitted :: "PublishTicket \<Rightarrow> bool" where
  "uncommitted t \<longleftrightarrow> \<not> tk_committed t \<and> tk_state t \<noteq> TS_Completed"

text \<open>The publish of the ticket has not begun.\<close>

definition before_publish :: "TicketPhase \<Rightarrow> bool" where
  "before_publish p \<longleftrightarrow>
     (case p of TP_None \<Rightarrow> False | TP_Store t \<Rightarrow> False | TP_Left \<Rightarrow> False | _ \<Rightarrow> True)"

definition doomed :: "TicketId \<Rightarrow> Host \<Rightarrow> bool" where
  "doomed i h \<longleftrightarrow> host_flags h i \<and>
     (before_publish (host_phase h i) \<or>
      (case host_phase h i of
         TP_Store t \<Rightarrow> uncommitted t
       | TP_Left \<Rightarrow> (\<forall>t. find_ticket i h = Some t \<longrightarrow> uncommitted t)
       | _ \<Rightarrow> False))"

lemma doomed_uncommitted:
  assumes "host_inv h" and "doomed i h" and "find_ticket i h = Some t"
  shows "uncommitted t"
  using host_invD(1) [OF assms(1,3)] assms(2,3)
  by (cases "host_phase h i") (auto simp: doomed_def before_publish_def ticket_ok_def phase_fits_def uncommitted_def ticket_in_flight_def)

text \<open>Steps that leave the phase of the ticket and its flag alone, and at most remove or cancel it.\<close>

lemma doomed_frame:
  assumes "doomed i h" and "host_phase h' i = host_phase h i" and "host_flags h' i"
    and "\<And>t. find_ticket i h' = Some t \<Longrightarrow> \<exists>t0. find_ticket i h = Some t0 \<and> (uncommitted t0 \<longrightarrow> uncommitted t)"
  shows "doomed i h'"
  using assms(1-3) assms(4) unfolding doomed_def by (cases "host_phase h i") (auto dest: assms(4))

lemma doomed_update [simp]:
  "doomed i (host_pool_update g1 h) = doomed i h" "doomed i (host_fabric_update g2 h) = doomed i h"
  "doomed i (host_next_update g3 h) = doomed i h"
  by (cases "host_phase h i"; simp add: doomed_def before_publish_def)+

lemma cancel_pending_uncommitted: "uncommitted t \<Longrightarrow> uncommitted (cancel_pending what t)"
  by (simp add: uncommitted_def cancel_pending_def)

lemma raise_flag_mono: "flags i \<Longrightarrow> raise_flag t flags i"
  by (simp add: raise_flag_def split: option.split)

lemma raise_all_mono: "flags i \<Longrightarrow> fold (\<lambda>(k, t). raise_flag t) ts flags i"
proof (induction ts arbitrary: flags)
  case (Cons x ts)
  obtain k t where x: "x = (k, t)" by (cases x)
  have "raise_flag t flags i" using Cons.prems by (rule raise_flag_mono [where flags = flags])
  with Cons.IH [of "raise_flag t flags"] show ?case by (simp add: x)
qed simp

lemma store_ticket_doomed:
  assumes inv: "host_inv h" and d: "doomed i h" and k: "host_phase h k = TP_None"
  shows "doomed i (store_ticket k h)"
proof -
  have "i \<noteq> k" using d k by (auto simp: doomed_def before_publish_def)
  then show ?thesis by (intro doomed_frame [OF d]) (use d in \<open>auto simp: store_ticket_def find_update doomed_def\<close>)
qed

lemma erase_doomed: "doomed i h \<Longrightarrow> doomed i (erase_ticket k h)"
  by (rule doomed_frame) (auto simp: find_erase doomed_def split: if_splits)

lemma async_ticket_doomed:
  assumes inv: "host_inv h" and n: "host_next h \<noteq> - 1" and d: "doomed i h"
  shows "doomed i (snd (async_ticket h))"
proof -
  define g where "g = h\<lparr>host_next := host_next h + 1\<rparr>"
  have g: "host_inv g" "host_phase g (host_next h) = TP_None" "doomed i g"
    using host_inv_next [OF inv n] host_invD(4) [OF inv, of "host_next h"] d by (simp_all add: g_def)
  have e: "host_inv (erase_ticket k g)" if "oldest_settled (host_order g) g = Some k" for k
    using oldest_settled_found [OF that] erase_settled [OF g(1)] by blast
  show ?thesis
    using store_ticket_doomed [OF g(1,3,2)] store_ticket_doomed [OF e erase_doomed [OF g(3)]] g(2,3)
    by (auto simp: async_ticket_def Let_def simp flip: g_def split: option.split)
qed

lemma job_step_doomed:
  assumes inv: "host_inv h" and d: "doomed i h" and s: "job_step seen job h = Some h'"
    and seen: "host_flags h (job_ticket job) \<Longrightarrow> seen"
  shows "doomed i h'"
proof (cases "job_ticket job = i")
  case False
  show ?thesis
  proof (rule doomed_frame [OF d])
    show "host_phase h' i = host_phase h i" "host_flags h' i"
      using s False d by (auto simp: job_step_def Let_def mark_ticket_running_def complete_ticket_def doomed_def split: TicketPhase.splits option.splits)
    show "\<exists>t0. find_ticket i h = Some t0 \<and> (uncommitted t0 \<longrightarrow> uncommitted t)" if "find_ticket i h' = Some t" for t
      using that s False
      by (auto simp: job_step_def Let_def mark_ticket_running_def complete_ticket_def find_update split: TicketPhase.splits option.splits)
  qed
next
  case True
  have fl: "host_flags h i" using d by (simp add: doomed_def)
  then have seen: "seen" using seen True by simp
  have unc: "\<And>t. find_ticket i h = Some t \<Longrightarrow> uncommitted t" by (rule doomed_uncommitted [OF inv d])
  show ?thesis
  proof (cases "host_phase h i")
    case TP_Queued
    then have "host_phase h' i = TP_Marked" "host_flags h' i"
      using s True fl by (auto simp: job_step_def Let_def mark_ticket_running_def split: option.splits)
    then show ?thesis by (simp add: doomed_def before_publish_def)
  next
    case TP_Marked
    then have "host_phase h' i = TP_Left \<and> find_ticket i h' = None \<or> (\<exists>k. host_phase h' i = TP_Flag k)" "host_flags h' i"
      using s True fl host_invD(1) [OF inv, of i] by (auto simp: job_step_def ticket_ok_def split: option.splits)
    then show ?thesis by (auto simp: doomed_def before_publish_def)
  next
    case (TP_Flag k)
    then have "k = i" using host_invD(2) [OF inv, of i] by (simp add: phase_ok_def)
    then have "host_phase h' i = TP_Store (cancelled_ticket i)" "host_flags h' i"
      using s True TP_Flag fl by (auto simp: job_step_def)
    then show ?thesis by (simp add: doomed_def uncommitted_def cancelled_ticket_def)
  next
    case (TP_Publish k)
    obtain r f where r: "publish_locked (job_signal job) (job_now job) True True (host_fabric h) = Some (r, f)"
      and h': "h' = set_phase i (TP_Store (result_ticket k r)) (h\<lparr>host_fabric := f\<rparr>)"
      using s TP_Publish True seen by (auto simp: job_step_def)
    have "uncommitted (result_ticket k r)"
      using publish_cancelled [OF r]
      by (auto simp: uncommitted_def result_ticket_def publish_ticket_def status_ok_def Let_def split: sum.split)
    then show ?thesis by (simp add: h' doomed_def fl)
  next
    case (TP_Store t)
    then have "uncommitted t" using d by (simp add: doomed_def before_publish_def)
    then have "uncommitted (t\<lparr>tk_id := i\<rparr>)" by (simp add: uncommitted_def)
    then show ?thesis using s True TP_Store fl by (auto simp: job_step_def complete_ticket_def doomed_def find_update)
  qed (use s True in \<open>simp_all add: job_step_def\<close>)
qed

lemma host_step_doomed: "host_step h h' \<Longrightarrow> host_inv h \<Longrightarrow> doomed i h \<Longrightarrow> doomed i h'"
proof (induction rule: host_step.induct)
  case (hs_ticket h)
  then show ?case by (simp add: async_ticket_doomed)
next
  case (hs_submit h k signal now)
  obtain e q where s: "pool_submit (Some \<lparr>job_ticket = k, job_signal = signal, job_now = now\<rparr>) (host_pool h) = (e, q)"
    by (rule prod.exhaust)
  then show ?case using hs_submit by (auto simp: async_submit_def doomed_def before_publish_def split: TicketPhase.splits)
next
  case (hs_withdraw h k)
  then show ?case
    by (cases "k = i") (auto simp: async_withdraw_def doomed_def find_erase split: TicketPhase.splits)
next
  case (hs_release h k)
  then show ?case by (auto simp: release_ticket_def erase_doomed split: option.split)
next
  case (hs_cancel h k)
  show ?case
  proof (cases "find_ticket k h")
    case (Some t)
    then have "snd (cancel_ticket k h) = set_ticket k (cancel_pending ''publish cancelled'' t) (h\<lparr>host_flags := raise_flag t (host_flags h)\<rparr>)"
      by (simp add: cancel_ticket_def)
    moreover have "doomed i \<dots>"
      by (rule doomed_frame [OF hs_cancel(2)])
        (use hs_cancel(2) Some in \<open>auto simp: find_update doomed_def raise_flag_mono cancel_pending_uncommitted split: if_splits\<close>)
    ultimately show ?thesis by simp
  qed (use hs_cancel in \<open>simp add: cancel_ticket_def\<close>)
next
  case (hs_cancel_all h)
  show ?case
  proof (rule doomed_frame [OF hs_cancel_all(3)])
    show "host_flags (host_cancel_all h) i" using hs_cancel_all(3) by (auto simp: host_cancel_all_def doomed_def intro: raise_all_mono)
    show "host_phase (host_cancel_all h) i = host_phase h i" by (simp add: host_cancel_all_def)
  qed (auto simp: cancel_all_find cancel_pending_uncommitted)
next
  case (hs_job h k job seen h')
  then show ?case using job_step_doomed by blast
qed simp_all

lemma host_steps_doomed: "host_step\<^sup>*\<^sup>* h h' \<Longrightarrow> host_inv h \<Longrightarrow> doomed i h \<Longrightarrow> host_inv h' \<and> doomed i h'"
  by (induction rule: rtranclp_induct) (auto dest: host_step_inv host_step_doomed)

text \<open>And the job of a doomed ticket changes neither the ledger nor the store.\<close>

lemma doomed_job_harmless:
  assumes "job_step True job h = Some h'"
  shows "fab_ledger (host_fabric h') = fab_ledger (host_fabric h) \<and> fab_store (host_fabric h') = fab_store (host_fabric h)"
  using assms publish_cancelled
  by (fastforce simp: job_step_def Let_def mark_ticket_running_def complete_ticket_def split: TicketPhase.splits option.splits)

end
