(* ===== verification/Properties_Host.thy ===== *)
theory Properties_Host
  imports Tickets_Facts Demo
begin

text \<open>
  The properties of asynchronous publishing, for every interleaving of clients, workers and
  shutdown.
\<close>

section \<open>A small host\<close>

definition demo_host_config :: FabricConfig where
  "demo_host_config =
     \<lparr>fc_state_directory = [], fc_journal_limits = journal_limits, fc_topology_limits = demo_limits,
      fc_max_publishers = 4, fc_lineage_capacity = 4, fc_application_capacity = 4, fc_damping_capacity = 4,
      fc_compaction_threshold = 0, fc_max_revalidation_entries = 4, fc_worker_threads = 1, fc_worker_queue_capacity = 2,
      fc_max_tickets = 2\<rparr>"

definition demo_host :: Host where
  "demo_host = host_new ((fabric_new demo_host_config (boot_incarnation 1 1))\<lparr>fab_epoch := Epoch 1\<rparr>)
     (snd (pool_start 1 2 worker_pool))"

lemma demo_host_opens: "fabric_open demo_host_config [] dir 1 1 file = (Inr demo_host, file)"
  by (simp add: fabric_open_def fabric_boot_def demo_host_config_def demo_host_def pool_start_def worker_pool_def Let_def)

lemmas demo_host_fields =
  demo_host_def host_new_def fabric_new_def demo_host_config_def pool_start_def worker_pool_def

text \<open>One ticket is issued, its job queued, and then the client cancels it.\<close>

definition demo_issued :: Host where
  "demo_issued = snd (async_submit 1 demo_signal 5 (snd (async_ticket demo_host)))"

lemma demo_ticket: "async_ticket demo_host = (Inr 1, store_ticket 1 (demo_host\<lparr>host_next := 2\<rparr>))"
  by (simp add: async_ticket_def Let_def demo_host_fields)

lemma demo_issues: "host_step\<^sup>*\<^sup>* demo_host demo_issued"
  "host_phase demo_issued 1 = TP_Queued" "find_ticket 1 demo_issued = Some (publish_ticket\<lparr>tk_id := 1, tk_flag := Some 1\<rparr>)"
proof -
  have "host_step demo_host (snd (async_ticket demo_host))" by (rule hs_ticket) (simp add: demo_host_fields)
  moreover have "host_step (snd (async_ticket demo_host)) demo_issued"
    unfolding demo_issued_def by (rule hs_submit) (simp add: demo_ticket store_ticket_def)
  ultimately show "host_step\<^sup>*\<^sup>* demo_host demo_issued" by simp
  show "host_phase demo_issued 1 = TP_Queued" "find_ticket 1 demo_issued = Some (publish_ticket\<lparr>tk_id := 1, tk_flag := Some 1\<rparr>)"
    by (simp_all add: demo_issued_def demo_ticket async_submit_def pool_submit_def store_ticket_def find_update publish_ticket_def)
      (simp_all add: demo_host_fields)
qed

section \<open>Tickets\<close>

text \<open>
  C9. The ticket store stays consistent. However clients, workers and shutdown interleave: the order
  of issue lists exactly the stored tickets, each once; there are no more of them than the
  configured maximum; each carries its own number and its own flag; a ticket whose job has
  ended is settled; and a ticket that is not settled is not marked committed. The fabric below
  keeps its invariant.
\<close>

theorem tickets_consistent:
  assumes "fabric_open config name dir nonce pid file = (Inr h0, file')" and "host_step\<^sup>*\<^sup>* h0 h"
  shows "distinct (host_order h) \<and> distinct (map fst (host_tickets h)) \<and> set (host_order h) = fst ` set (host_tickets h) \<and>
    length (host_tickets h) \<le> fc_max_tickets (fab_config (host_fabric h)) \<and> fabric_inv (host_fabric h) \<and>
    (\<forall>i t. find_ticket i h = Some t \<longrightarrow> tk_id t = i \<and> tk_flag t = Some i \<and>
       (host_phase h i = TP_Left \<longrightarrow> \<not> ticket_in_flight (tk_state t)) \<and>
       (ticket_in_flight (tk_state t) \<longrightarrow> \<not> tk_committed t))"
proof -
  have inv: "host_inv h" using host_steps_inv [OF assms(2) fabric_open_inv [OF assms(1)]] .
  have "tk_id t = i \<and> tk_flag t = Some i \<and> (host_phase h i = TP_Left \<longrightarrow> \<not> ticket_in_flight (tk_state t)) \<and>
      (ticket_in_flight (tk_state t) \<longrightarrow> \<not> tk_committed t)" if t: "find_ticket i h = Some t" for i t
    using host_invD(1) [OF inv t] by (cases "host_phase h i") (simp_all add: ticket_ok_def phase_fits_def)
  then show ?thesis using inv by (simp add: host_inv_def store_shape_def)
qed

theorem tickets_consistent_witness:
  "\<exists>h. host_step\<^sup>*\<^sup>* demo_host h \<and> find_ticket 1 h \<noteq> None \<and> set (host_order h) = fst ` set (host_tickets h) \<and> length (host_tickets h) \<le> 2"
proof -
  have "fc_max_tickets (fab_config (host_fabric demo_issued)) = 2"
    by (simp add: demo_issued_def demo_ticket async_submit_def pool_submit_def store_ticket_def) (simp add: demo_host_fields)
  then show ?thesis
    using tickets_consistent [OF demo_host_opens demo_issues(1)] demo_issues(1,3) by (intro exI [of _ demo_issued]) simp
qed

text \<open>
  C8. A cancellation that comes in time holds. When the flag of a ticket is set before the
  publish of its job has begun, by \<open>cancel\<close> or by \<open>shutdown\<close>, then whatever happens afterwards the
  ticket is never reported as completed or committed, and no step of its job, its publish
  included, changes the ledger or the store.
\<close>

theorem cancelled_never_commits:
  assumes "fabric_open config name dir nonce pid file = (Inr h0, file')" and "host_step\<^sup>*\<^sup>* h0 h"
    and "host_flags h i" and "before_publish (host_phase h i)" and "host_step\<^sup>*\<^sup>* h h'"
  shows "host_flags h' i \<and>
    (\<forall>t. find_ticket i h' = Some t \<longrightarrow> \<not> tk_committed t \<and> tk_state t \<noteq> TS_Completed) \<and>
    (\<forall>job h2. job_ticket job = i \<and> job_step (host_flags h' i) job h' = Some h2 \<longrightarrow>
       fab_ledger (host_fabric h2) = fab_ledger (host_fabric h') \<and> fab_store (host_fabric h2) = fab_store (host_fabric h'))"
proof -
  have inv: "host_inv h" using host_steps_inv [OF assms(2) fabric_open_inv [OF assms(1)]] .
  have "doomed i h" using assms(3,4) by (simp add: doomed_def)
  from host_steps_doomed [OF assms(5) inv this] have d: "host_inv h'" "doomed i h'" by simp_all
  then have "host_flags h' i" by (simp add: doomed_def)
  then show ?thesis using doomed_uncommitted [OF d] doomed_job_harmless by (auto simp: uncommitted_def)
qed

theorem cancelled_never_commits_witness:
  "\<exists>h t. host_step\<^sup>*\<^sup>* demo_host h \<and> host_flags h 1 \<and> find_ticket 1 h = Some t \<and> tk_state t = TS_Cancelled \<and> \<not> tk_committed t"
proof -
  let ?h = "snd (cancel_ticket 1 demo_issued)"
  have r: "host_step\<^sup>*\<^sup>* demo_host ?h" using demo_issues(1) hs_cancel by (rule rtranclp.rtrancl_into_rtrancl)
  have f: "host_flags ?h 1" "before_publish (host_phase ?h 1)" "\<exists>t. find_ticket 1 ?h = Some t \<and> tk_state t = TS_Cancelled"
    using demo_issues(2,3) by (simp_all add: cancel_ticket_def raise_flag_def before_publish_def find_update cancel_pending_def publish_ticket_def)
  from cancelled_never_commits [OF demo_host_opens r f(1,2) rtranclp.rtrancl_refl] r f show ?thesis by blast
qed

section \<open>A ticket that is never settled\<close>

text \<open>
  A call of \<open>publish_async\<close> that has passed its first check when \<open>shutdown\<close> begins may store its
  ticket after \<open>shutdown\<close> has cancelled the tickets and before it aborts the pool. The pool then
  drops the job, and the ticket stays pending after the workers have gone.
\<close>

definition demo_stopped :: Host where
  "demo_stopped = host_cancel_all (demo_host\<lparr>host_fabric := (host_fabric demo_host)\<lparr>fab_shutting_down := True\<rparr>\<rparr>)"

definition demo_late :: Host where
  "demo_late = snd (async_submit 1 demo_signal 5 (snd (async_ticket demo_stopped)))"

definition demo_aborted :: Host where
  "demo_aborted = demo_late\<lparr>host_pool := pool_begin_abort (host_pool demo_late)\<rparr>"

lemma demo_aborted_pool:
  "host_pool demo_aborted = (snd (pool_start 1 2 worker_pool))\<lparr>pl_stopping := True, pl_discard := True, pl_discarded := 1\<rparr>"
  by (simp add: demo_aborted_def demo_late_def async_ticket_def Let_def demo_stopped_def host_cancel_all_def demo_host_fields
      async_submit_def pool_submit_def store_ticket_def set_phase_def set_ticket_def pool_begin_abort_def)

theorem ticket_left_pending:
  "\<exists>h t. host_step\<^sup>*\<^sup>* demo_host h \<and> fab_shutting_down (host_fabric h) \<and> \<not> pl_started (host_pool h) \<and>
     pl_queue (host_pool h) = [] \<and> find_ticket 1 h = Some t \<and> tk_state t = TS_Pending"
proof -
  let ?s = "demo_host\<lparr>host_fabric := (host_fabric demo_host)\<lparr>fab_shutting_down := True\<rparr>\<rparr>"
  note w = worker_wake_def pool_join_def pool_start_def worker_pool_def
  note step = converse_rtranclp_into_rtranclp [where r = host_step]
  have 1: "host_step demo_host ?s" by (rule hs_call [of FO_Stop 0]) simp
  have 2: "host_step ?s demo_stopped" unfolding demo_stopped_def by (rule hs_cancel_all) simp
  have 3: "host_step demo_stopped (snd (async_ticket demo_stopped))"
    by (rule hs_ticket) (simp add: demo_stopped_def host_cancel_all_def demo_host_fields)
  have t: "async_ticket demo_stopped = (Inr 1, store_ticket 1 (demo_stopped\<lparr>host_next := 2\<rparr>))"
    by (simp add: async_ticket_def Let_def demo_stopped_def host_cancel_all_def demo_host_fields)
  have 4: "host_step (snd (async_ticket demo_stopped)) demo_late"
    unfolding demo_late_def by (rule hs_submit) (simp add: t store_ticket_def)
  have sd: "fab_shutting_down (host_fabric demo_late)"
    by (simp add: demo_late_def t async_submit_def split_beta store_ticket_def) (simp add: demo_stopped_def host_cancel_all_def)
  have 5: "host_step demo_late demo_aborted" unfolding demo_aborted_def by (rule hs_abort [OF sd])
  obtain p q where p: "worker_wake 0 (host_pool demo_aborted) = Some p" "pool_join p = Some q" "pl_queue q = []" "\<not> pl_started q"
    unfolding demo_aborted_pool by (simp add: w)
  have 6: "host_step demo_aborted (demo_aborted\<lparr>host_pool := p\<rparr>)" by (rule hs_wake [OF p(1)])
  have "host_step (demo_aborted\<lparr>host_pool := p\<rparr>) (demo_aborted\<lparr>host_pool := p\<rparr>\<lparr>host_pool := q\<rparr>)"
    by (rule hs_join) (simp add: p(2))
  then have 7: "host_step (demo_aborted\<lparr>host_pool := p\<rparr>) (demo_aborted\<lparr>host_pool := q\<rparr>)" by simp
  have "host_step\<^sup>*\<^sup>* demo_host (demo_aborted\<lparr>host_pool := q\<rparr>)"
    by (rule step [OF 1 step [OF 2 step [OF 3 step [OF 4 step [OF 5 step [OF 6 step [OF 7 rtranclp.rtrancl_refl]]]]]]])
  moreover have "fab_shutting_down (host_fabric (demo_aborted\<lparr>host_pool := q\<rparr>))" using sd by (simp add: demo_aborted_def)
  moreover have "find_ticket 1 demo_aborted = Some (publish_ticket\<lparr>tk_id := 1, tk_flag := Some 1\<rparr>)"
    by (simp add: demo_aborted_def demo_late_def t async_submit_def split_beta store_ticket_def find_update publish_ticket_def)
  ultimately show ?thesis using p(3,4)
    by (intro exI [of _ "demo_aborted\<lparr>host_pool := q\<rparr>"] exI [of _ "publish_ticket\<lparr>tk_id := 1, tk_flag := Some 1\<rparr>"])
      (simp add: publish_ticket_def)
qed

end
