(* ===== verification/Synthetic.thy ===== *)
theory Synthetic
  imports Clock_Rng Topology Engine
begin

text \<open>
  The synthetic benchmark: \<open>include/backpressure/bench/synthetic.hpp\<close> and
  \<open>src/bench/synthetic.cpp\<close>. The generator builds a layered graph from its seed and closes some
  cycles in it; a benchmark case builds the topology of that graph and runs the engine on it.

  Vector sizes are natural numbers, counters keep their width. A draw of the generator takes
  fuel, as in \<open>Clock_Rng\<close>, and so does what draws; \<open>Synthetic_Facts\<close> gives a fuel that always
  suffices. The readings of the steady clock and the three floating-point fields of a
  \<open>BenchResult\<close> that are computed from them are left out, as is the table that prints them.
\<close>

section \<open>Graphs\<close>

record SyntheticGraphSpec =
  spec_nodes :: u32
  spec_depth :: u32
  spec_fanout :: u32
  spec_sources :: u32
  spec_cycle_edges :: u32
  spec_attenuation_per_100k :: u32
  spec_seed :: u32

definition synthetic_graph_spec :: SyntheticGraphSpec where
  "synthetic_graph_spec =
     \<lparr>spec_nodes = 512, spec_depth = 6, spec_fanout = 3, spec_sources = 1, spec_cycle_edges = 0,
      spec_attenuation_per_100k = 85000, spec_seed = 0x5EED\<rparr>"

record SyntheticGraph =
  sg_resources :: "Resource list"
  sg_edges :: "DependencyEdge list"
  sg_origins :: "ResourceId list"
  sg_depth :: u32
  sg_fanout :: u32
  sg_cycle_edges :: u32
  sg_sources :: u32

definition kGenerated :: Generation where
  "kGenerated = gen_initial"

definition attenuation_for :: "SyntheticGraphSpec \<Rightarrow> Attenuation result" where
  "attenuation_for spec = att_from_percent_milli (spec_attenuation_per_100k spec)"

text \<open>The lambda \<open>add_resource\<close>.\<close>

definition synthetic_resource :: "ResourceId \<Rightarrow> Resource" where
  "synthetic_resource i =
     \<lparr>res_id = i, res_name = kInvalidSymbol, res_klass = QueueGroup, res_protection = PC_None,
      res_definition_generation = kGenerated, res_accepts_propagation = True,
      res_provenance = digest_zero\<rparr>"

definition add_resource :: "ResourceId \<Rightarrow> SyntheticGraph \<Rightarrow> SyntheticGraph" where
  "add_resource i g = g\<lparr>sg_resources := sg_resources g @ [synthetic_resource i]\<rparr>"

text \<open>The edge that both loops build: its number is one more than the edges there are.\<close>

definition synthetic_edge :: "Attenuation \<Rightarrow> EdgeId \<Rightarrow> ResourceId \<Rightarrow> ResourceId \<Rightarrow> DependencyEdge" where
  "synthetic_edge att i from to =
     \<lparr>edge_id = i, edge_from = from, edge_to = to, edge_attenuation = att,
      edge_amplification = gain_unity, edge_max_hops = 0, edge_dependency_generation = kGenerated,
      edge_cooldown_ticks = 0, edge_priority = 0, edge_flags = flags_none,
      edge_provenance = digest_zero\<rparr>"

definition add_edge :: "Attenuation \<Rightarrow> ResourceId \<Rightarrow> ResourceId \<Rightarrow> SyntheticGraph \<Rightarrow> SyntheticGraph" where
  "add_edge att from to g = g\<lparr>sg_edges := sg_edges g @
     [synthetic_edge att (StrongId (of_nat (length (sg_edges g)) + 1)) from to]\<rparr>"

fun add_origins :: "nat \<Rightarrow> SyntheticGraph \<Rightarrow> SyntheticGraph" where
  "add_origins 0 g = g"
| "add_origins (Suc n) g =
     (let i = StrongId (of_nat (length (sg_resources g)) + 1)
      in add_origins n ((add_resource i g)\<lparr>sg_origins := sg_origins g @ [i]\<rparr>))"

section \<open>Levels\<close>

text \<open>The graph, the level under construction and \<open>next_id\<close>.\<close>

type_synonym growth = "SyntheticGraph \<times> ResourceId list \<times> u64"

definition is_full :: "SyntheticGraphSpec \<Rightarrow> SyntheticGraph \<Rightarrow> bool" where
  "is_full spec g \<longleftrightarrow> length (sg_resources g) \<ge> unat (spec_nodes spec)"

fun add_children :: "SyntheticGraphSpec \<Rightarrow> Attenuation \<Rightarrow> ResourceId \<Rightarrow> nat \<Rightarrow> growth \<Rightarrow> growth" where
  "add_children spec att parent 0 st = st"
| "add_children spec att parent (Suc n) (g, current, next_id) =
     (if is_full spec g then (g, current, next_id)
      else add_children spec att parent n
        (add_edge att parent (StrongId next_id) (add_resource (StrongId next_id) g),
         current @ [StrongId next_id], next_id + 1))"

fun add_level :: "SyntheticGraphSpec \<Rightarrow> Attenuation \<Rightarrow> ResourceId list \<Rightarrow> growth \<Rightarrow> growth" where
  "add_level spec att [] st = st"
| "add_level spec att (parent # parents) st =
     (let st1 = add_children spec att parent (unat (spec_fanout spec)) st
      in if is_full spec (fst st1) then st1 else add_level spec att parents st1)"

fun add_levels ::
  "SyntheticGraphSpec \<Rightarrow> Attenuation \<Rightarrow> nat \<Rightarrow> SyntheticGraph \<times> u64 \<times> ResourceId list list \<Rightarrow>
   SyntheticGraph \<times> ResourceId list list" where
  "add_levels spec att 0 (g, next_id, levels) = (g, levels)"
| "add_levels spec att (Suc n) (g, next_id, levels) =
     (let (g1, current, next1) = add_level spec att (last levels) (g, [], next_id)
      in if current = [] then (g1, levels)
         else if is_full spec g1 then (g1, levels @ [current])
         else add_levels spec att n (g1, next1, levels @ [current]))"

section \<open>Cycles\<close>

text \<open>
  One round of the loop that closes cycles: a deeper level, a shallower one, a resource of
  each. The first component of the result says whether an edge was added.
\<close>

definition add_cycle ::
  "nat \<Rightarrow> Attenuation \<Rightarrow> ResourceId list list \<Rightarrow> SyntheticGraph \<times> SplitMix64 \<Rightarrow>
   (bool \<times> SyntheticGraph \<times> SplitMix64) option" where
  "add_cycle fuel att levels st =
     (let (g, rng) = st
      in Option.bind (splitmix_next_bounded fuel rng (of_nat (length levels - 1))) (\<lambda>(d, rng1).
         let deep_index = 1 + unat d
         in Option.bind (splitmix_next_bounded fuel rng1 (of_nat deep_index)) (\<lambda>(s, rng2).
         let deep = levels ! deep_index; shallow = levels ! unat s
         in if deep = [] \<or> shallow = [] then Some (False, g, rng2)
         else Option.bind (splitmix_next_bounded fuel rng2 (of_nat (length deep))) (\<lambda>(i, rng3).
         Option.bind (splitmix_next_bounded fuel rng3 (of_nat (length shallow))) (\<lambda>(j, rng4).
         let from = deep ! unat i; to = shallow ! unat j
         in if list_ex (\<lambda>e. edge_from e = from \<and> edge_to e = to) (sg_edges g) then Some (False, g, rng4)
            else Some (True, add_edge att from to g, rng4))))))"

text \<open>The loop itself; \<open>left\<close> is what remains of \<open>max_attempts\<close>.\<close>

fun add_cycles ::
  "nat \<Rightarrow> SyntheticGraphSpec \<Rightarrow> Attenuation \<Rightarrow> ResourceId list list \<Rightarrow> nat \<Rightarrow> u32 \<Rightarrow>
   SyntheticGraph \<times> SplitMix64 \<Rightarrow> (u32 \<times> SyntheticGraph) option" where
  "add_cycles fuel spec att levels 0 added st = Some (added, fst st)"
| "add_cycles fuel spec att levels (Suc left) added st =
     (if added < spec_cycle_edges spec \<and> length levels > 1 then
        case add_cycle fuel att levels st of
          None \<Rightarrow> None
        | Some (closed, st1) \<Rightarrow>
            add_cycles fuel spec att levels left (if closed then added + 1 else added) st1
      else Some (added, fst st))"

definition max_attempts :: "SyntheticGraphSpec \<Rightarrow> u32" where
  "max_attempts spec = spec_cycle_edges spec * 64 + 64"

definition synthetic_start :: "SyntheticGraphSpec \<Rightarrow> SyntheticGraph" where
  "synthetic_start spec =
     \<lparr>sg_resources = [], sg_edges = [], sg_origins = [], sg_depth = spec_depth spec,
      sg_fanout = spec_fanout spec, sg_cycle_edges = 0, sg_sources = spec_sources spec\<rparr>"

definition synthetic_layers :: "SyntheticGraphSpec \<Rightarrow> Attenuation \<Rightarrow> SyntheticGraph \<times> ResourceId list list" where
  "synthetic_layers spec att =
     (let g = add_origins (unat (spec_sources spec)) (synthetic_start spec)
      in add_levels spec att (unat (spec_depth spec))
           (g, of_nat (length (sg_resources g)) + 1, [sg_origins g]))"

definition make_synthetic_graph :: "nat \<Rightarrow> SyntheticGraphSpec \<Rightarrow> SyntheticGraph result option" where
  "make_synthetic_graph fuel spec =
     (if spec_nodes spec = 0 \<or> spec_depth spec = 0 \<or> spec_fanout spec = 0 \<or> spec_sources spec = 0
      then Some (fail InvalidArgument ''synthetic graph shape'' 0)
      else if spec_sources spec > spec_nodes spec
      then Some (fail InvalidArgument ''synthetic graph sources'' 0)
      else case attenuation_for spec of
        Inl s \<Rightarrow> Some (Inl s)
      | Inr att \<Rightarrow>
          let rng = \<lparr>sm_state = derive_seed (ucast (spec_seed spec)) ''synthetic-graph''\<rparr>;
              (g, levels) = synthetic_layers spec att
          in map_option (\<lambda>(added, g1). Inr (g1\<lparr>sg_cycle_edges := added\<rparr>))
               (add_cycles fuel spec att levels (unat (max_attempts spec)) 0 (g, rng)))"

section \<open>Benchmark cases\<close>

record BenchCase =
  bc_name :: string
  bc_spec :: SyntheticGraphSpec
  bc_iterations :: u32
  bc_publish_batch :: u32

definition bench_case :: "string \<Rightarrow> SyntheticGraphSpec \<Rightarrow> u32 \<Rightarrow> BenchCase" where
  "bench_case name spec iterations =
     \<lparr>bc_name = name, bc_spec = spec, bc_iterations = iterations, bc_publish_batch = 1\<rparr>"

definition default_benchmark_cases :: "BenchCase list" where
  "default_benchmark_cases =
     [bench_case ''size-small'' (synthetic_graph_spec
        \<lparr>spec_nodes := 128, spec_depth := 4, spec_fanout := 3\<rparr>) 32,
      bench_case ''size-large'' (synthetic_graph_spec
        \<lparr>spec_nodes := 4096, spec_depth := 6, spec_fanout := 4\<rparr>) 8,
      bench_case ''depth-1'' (synthetic_graph_spec
        \<lparr>spec_nodes := 2048, spec_depth := 1, spec_fanout := 8\<rparr>) 16,
      bench_case ''depth-10'' (synthetic_graph_spec
        \<lparr>spec_nodes := 2048, spec_depth := 10, spec_fanout := 2\<rparr>) 8,
      bench_case ''fanout-32'' (synthetic_graph_spec
        \<lparr>spec_nodes := 2048, spec_depth := 3, spec_fanout := 32\<rparr>) 8,
      bench_case ''sources-8'' (synthetic_graph_spec
        \<lparr>spec_nodes := 2048, spec_depth := 5, spec_fanout := 3, spec_sources := 8\<rparr>) 8,
      bench_case ''cycles-dense'' (synthetic_graph_spec
        \<lparr>spec_nodes := 1024, spec_depth := 5, spec_fanout := 3, spec_cycle_edges := 512\<rparr>) 8,
      bench_case ''attenuation-decay'' (synthetic_graph_spec
        \<lparr>spec_nodes := 2048, spec_depth := 8, spec_fanout := 3, spec_attenuation_per_100k := 40000\<rparr>) 8]"

record BenchResult =
  br_name :: string
  br_status :: Status
  br_valid :: bool
  br_synthetic :: bool
  br_iterations :: u64
  br_completed_propagations :: u64
  br_nodes_settled :: u64
  br_hops_propagated :: u64
  br_hops_suppressed :: u64
  br_loop_preventions :: u64
  br_lineage_evictions :: u64
  br_graph_nodes :: u64
  br_graph_edges :: u64
  br_depth :: u32
  br_fanout :: u32
  br_sources :: u32
  br_cycle_edges :: u32

definition bench_result :: "string \<Rightarrow> BenchResult" where
  "bench_result name =
     \<lparr>br_name = name, br_status = status_success, br_valid = False, br_synthetic = True,
      br_iterations = 0, br_completed_propagations = 0, br_nodes_settled = 0, br_hops_propagated = 0,
      br_hops_suppressed = 0, br_loop_preventions = 0, br_lineage_evictions = 0, br_graph_nodes = 0,
      br_graph_edges = 0, br_depth = 0, br_fanout = 0, br_sources = 0, br_cycle_edges = 0\<rparr>"

record BenchConfig =
  cfg_cases :: "BenchCase list"
  cfg_start_tick :: Tick
  cfg_seed :: u32
  cfg_build_topology :: bool

section \<open>Running a case\<close>

text \<open>The policy and the limits that \<open>run_benchmark\<close> sets up for all cases.\<close>

definition bench_policy :: "PropagationPolicy \<Rightarrow> PropagationPolicy" where
  "bench_policy p =
     (let p1 = p\<lparr>pol_max_hops := 16, pol_max_fanout := 64, pol_max_expansions := push_bit 15 1,
                 pol_max_visited := push_bit 14 1\<rparr>;
          p2 = p1\<lparr>pol_max_records := 2 * pol_max_expansions p1 + pol_max_visited p1\<rparr>
      in p2\<lparr>pol_max_path_records := pol_max_records p2, pol_max_sources := 16,
            pol_lifetime_ticks := push_bit 30 1\<rparr>)"

definition bench_limits :: TopologyLimits where
  "bench_limits =
     \<lparr>lim_max_resources = 2 ^ 18, lim_max_edges = 2 ^ 20, lim_max_out_degree = 2 ^ 16,
      lim_max_in_degree = 2 ^ 16\<rparr>"

text \<open>The signal of source \<open>s\<close> in one iteration.\<close>

definition bench_signal ::
  "PropagationPolicy \<Rightarrow> Topology \<Rightarrow> Tick \<Rightarrow> u32 \<Rightarrow> nat \<Rightarrow> ResourceId \<Rightarrow> PressureSignal" where
  "bench_signal policy topo start_tick iteration s origin =
     (let publisher = mint (boot_from_raw 1 1) 1 (of_nat s);
          hop = provenance_hop
            \<lparr>hop_publisher := publisher, hop_epoch := Epoch 1, hop_generation := kGenerated,
             hop_tick := start_tick\<rparr>
      in snd (bind_lineage
           \<lparr>sig_id = StrongId (ucast iteration * 1024 + of_nat s + 1), sig_source = StrongId (of_nat s + 1),
            sig_origin = origin,
            sig_observation = observed (mag_from_raw_q16_saturating 52428) (pol_thresholds policy),
            sig_origin_generation = kGenerated, sig_topology_digest = top_digest topo,
            sig_epoch = Epoch 1, sig_publisher = publisher, sig_issued_at = start_tick,
            sig_valid_until = start_tick + push_bit 24 1,
            sig_authority = make_global (Epoch 1) kGenerated 16,
            sig_provenance = provenance_push provenance_empty hop, sig_lineage = digest_zero,
            sig_source_priority = 0, sig_weight_q16 = 65536\<rparr>))"

definition bench_request ::
  "PropagationPolicy \<Rightarrow> Topology \<Rightarrow> Tick \<Rightarrow> u32 \<Rightarrow> ResourceId list \<Rightarrow> PropagationRequest" where
  "bench_request policy topo start_tick iteration origins =
     \<lparr>req_id = StrongId (ucast iteration + 1), req_policy_id = pol_id policy,
      req_policy_generation = pol_generation policy, req_topology_digest = top_digest topo,
      req_epoch = Epoch 1, req_now = start_tick + ucast iteration,
      req_signals = map (\<lambda>s. bench_signal policy topo start_tick iteration s (origins ! s)) [0..<length origins],
      req_pins = [], req_dry_run = False, req_record_budget_override = 0\<rparr>"

definition count_iteration :: "PropagationOutcome \<Rightarrow> BenchResult \<Rightarrow> BenchResult" where
  "count_iteration o1 r =
     (let c = out_counters o1
      in r\<lparr>br_iterations := br_iterations r + 1,
           br_completed_propagations := br_completed_propagations r + propagations c,
           br_nodes_settled := br_nodes_settled r + nodes_settled c,
           br_hops_propagated := br_hops_propagated r + hops_propagated c,
           br_hops_suppressed := br_hops_suppressed r + hops_suppressed c,
           br_loop_preventions := br_loop_preventions r + loop_preventions c,
           br_lineage_evictions := ctr_lineage_evictions c\<rparr>)"

text \<open>The loop over the iterations; the first component of its result is \<open>failed\<close>.\<close>

fun bench_iterations ::
  "PropagationPolicy \<Rightarrow> Topology \<Rightarrow> Tick \<Rightarrow> ResourceId list \<Rightarrow> nat \<Rightarrow> u32 \<Rightarrow>
   PropagationLedger option \<times> BenchResult \<Rightarrow> (bool \<times> BenchResult) option" where
  "bench_iterations policy topo start_tick origins 0 iteration (ledger, r) = Some (False, r)"
| "bench_iterations policy topo start_tick origins (Suc n) iteration (ledger, r) =
     (case propagate \<lparr>ctx_topology = Some topo, ctx_policy = Some policy, ctx_ledger = ledger,
                      ctx_fences = None, ctx_live_epoch = Epoch 1\<rparr>
             (bench_request policy topo start_tick iteration origins) of
        None \<Rightarrow> None
      | Some (o1, ledger1) \<Rightarrow>
          if \<not> status_ok (out_status o1) then Some (True, r\<lparr>br_status := out_status o1\<rparr>)
          else bench_iterations policy topo start_tick origins n (iteration + 1)
                 (ledger1, count_iteration o1 r))"

text \<open>One round of the loop over the cases.\<close>

definition run_case :: "nat \<Rightarrow> PropagationPolicy \<Rightarrow> BenchConfig \<Rightarrow> BenchCase \<Rightarrow> BenchResult option" where
  "run_case fuel policy config c =
     (case make_synthetic_graph fuel (bc_spec c) of
        None \<Rightarrow> None
      | Some (Inl s) \<Rightarrow> Some ((bench_result (bc_name c))\<lparr>br_status := s\<rparr>)
      | Some (Inr g) \<Rightarrow>
          let r = (bench_result (bc_name c))
                \<lparr>br_graph_nodes := of_nat (length (sg_resources g)),
                 br_graph_edges := of_nat (length (sg_edges g)), br_depth := sg_depth g,
                 br_fanout := sg_fanout g, br_sources := sg_sources g, br_cycle_edges := sg_cycle_edges g\<rparr>
          in if \<not> cfg_build_topology config then Some (r\<lparr>br_status := status_success, br_valid := True\<rparr>)
             else case build (sg_resources g) (sg_edges g) bench_limits True of
               None \<Rightarrow> None
             | Some (Inl s) \<Rightarrow> Some (r\<lparr>br_status := s\<rparr>)
             | Some (Inr topo) \<Rightarrow>
                 map_option (\<lambda>(failed, r1).
                     if failed then r1 else r1\<lparr>br_status := status_success, br_valid := True\<rparr>)
                   (bench_iterations policy topo (cfg_start_tick config) (sg_origins g)
                     (unat (bc_iterations c)) 0
                     (Some (propagation_ledger (2 ^ 18) (2 ^ 18) (2 ^ 18)), r)))"

fun run_cases ::
  "nat \<Rightarrow> PropagationPolicy \<Rightarrow> BenchConfig \<Rightarrow> BenchCase list \<Rightarrow> BenchResult list option" where
  "run_cases fuel policy config [] = Some []"
| "run_cases fuel policy config (c # cs) =
     Option.bind (run_case fuel policy config c) (\<lambda>r.
       map_option ((#) r) (run_cases fuel policy config cs))"

definition run_benchmark :: "nat \<Rightarrow> BenchConfig \<Rightarrow> BenchResult list result option" where
  "run_benchmark fuel config =
     (if cfg_cases config = [] then Some (fail InvalidArgument ''no benchmark cases'' 0)
      else case make_conservative_policy (StrongId 1) kGenerated of
        Inl s \<Rightarrow> Some (fail (st_code s) (st_context s) 0)
      | Inr p \<Rightarrow>
          let policy = bench_policy p; s = policy_validate policy
          in if \<not> status_ok s then Some (fail (st_code s) (st_context s) 0)
             else map_option Inr (run_cases fuel policy config (cfg_cases config)))"

end
