(* ===== verification/Synthetic_Facts.thy ===== *)
theory Synthetic_Facts
  imports Synthetic Topology_Build Engine_Facts
begin

text \<open>
  What the synthetic benchmark guarantees: a draw of the generator ends within \<open>2 ^ 64\<close>
  rounds, so a graph is always returned; the graph has the shape it promises; and
  \<open>Topology::build\<close> accepts it.
\<close>

section \<open>Draws end\<close>

text \<open>
  The counter of the generator advances by an odd constant, so it passes through every word;
  one word whose output is large enough for every threshold is 2.
\<close>

definition golden :: u64 where
  "golden = 0x9E3779B97F4A7C15"

lemma splitmix_draw_reaches:
  "threshold \<le> mix64 (sm_state g + of_nat (Suc k) * golden) \<Longrightarrow> k < fuel \<Longrightarrow>
   \<exists>v. splitmix_draw fuel threshold bound g = Some v"
proof (induction k arbitrary: fuel g)
  case 0
  then obtain f where "fuel = Suc f" by (cases fuel) auto
  with 0 show ?case by (simp add: splitmix_next_u64_mix64 golden_def)
next
  case (Suc k)
  then obtain f where f: "fuel = Suc f" "k < f" by (cases fuel) auto
  let ?g = "g\<lparr>sm_state := sm_state g + golden\<rparr>"
  have "sm_state ?g = sm_state g + golden" by simp
  then have "sm_state g + of_nat (Suc (Suc k)) * golden = sm_state ?g + of_nat (Suc k) * golden"
    by (simp only: of_nat_Suc [of "Suc k"] distrib_right mult_1_left add.assoc)
  with Suc.prems(1) have "threshold \<le> mix64 (sm_state ?g + of_nat (Suc k) * golden)" by (simp only:)
  with Suc.IH f(2) have "\<exists>v. splitmix_draw f threshold bound ?g = Some v" by blast
  then show ?case by (auto simp: f splitmix_next_u64_mix64 golden_def)
qed

lemma draw_threshold: "bound \<noteq> 0 \<Longrightarrow> (0xFFFFFFFFFFFFFFFF mod bound) + 1 \<le> (0x8000000000000000 :: u64)"
proof -
  assume b: "bound \<noteq> 0"
  let ?m = "0xFFFFFFFFFFFFFFFF :: u64"
  have p: "0 < unat bound" using b by (simp add: unat_gt_0)
  have le: "unat bound \<le> 2 ^ 64 - 1" using unat_u64_bound [of bound] by simp
  have "unat (?m mod bound) = (2 ^ 64 - 1) mod unat bound" by (simp add: unat_mod)
  moreover have "(2 ^ 64 - 1 :: nat) mod unat bound \<le> 2 ^ 63 - 1"
  proof (cases "unat bound \<le> 2 ^ 63")
    case True
    then show ?thesis using mod_less_divisor [OF p, of "2 ^ 64 - 1"] by linarith
  next
    case False
    then have "(2 ^ 64 - 1 :: nat) mod unat bound = (2 ^ 64 - 1 - unat bound) mod unat bound"
      using le by (intro le_mod_geq) simp
    also have "\<dots> \<le> 2 ^ 64 - 1 - unat bound" by (rule mod_less_eq_dividend)
    finally show ?thesis using False by simp
  qed
  ultimately have u: "unat (?m mod bound) \<le> 2 ^ 63 - 1" by simp
  then have "unat (?m mod bound) + unat (1 :: u64) < 2 ^ 64" by simp
  then have "unat (?m mod bound + 1) = unat (?m mod bound) + unat (1 :: u64)"
    by (intro unat_add_no_overflow) simp
  with u show ?thesis by (simp add: word_le_nat_alt)
qed

lemma splitmix_next_bounded_total:
  assumes "2 ^ 64 \<le> fuel" shows "\<exists>v. splitmix_next_bounded fuel g bound = Some v"
proof (cases "bound = 0")
  case False
  define k where "k = unat ((2 - sm_state g) * 0xF1DE83E19937733D - 1)"
  have "of_nat (Suc k) = (2 - sm_state g) * 0xF1DE83E19937733D" by (simp add: k_def)
  then have "of_nat (Suc k) * golden = (2 - sm_state g) * (0xF1DE83E19937733D * golden)"
    by (simp only: mult.assoc)
  moreover have "0xF1DE83E19937733D * golden = 1" by (simp add: golden_def)
  ultimately have two: "sm_state g + of_nat (Suc k) * golden = 2" by simp
  have "(0x8000000000000000 :: u64) \<le> mix64 2" by code_simp
  then have "(0xFFFFFFFFFFFFFFFF mod bound) + 1 \<le> mix64 (sm_state g + of_nat (Suc k) * golden)"
    unfolding two by (rule order_trans [OF draw_threshold [OF False]])
  moreover have "k < fuel" using assms unat_u64_bound [of "(2 - sm_state g) * 0xF1DE83E19937733D - 1"]
    by (simp add: k_def)
  ultimately show ?thesis using splitmix_draw_reaches False by (simp add: splitmix_next_bounded_def)
qed (simp add: splitmix_next_bounded_def)

lemma splitmix_next_bounded_less:
  "splitmix_next_bounded fuel g bound = Some (r, g') \<Longrightarrow> bound \<noteq> 0 \<Longrightarrow> r < bound"
  by (auto simp: splitmix_next_bounded_def dest: splitmix_draw_bound)

lemma drawn_index:
  assumes "splitmix_next_bounded fuel g (of_nat n) = Some (r, g')" and "0 < n" and "n < 2 ^ 64"
  shows "unat r < n"
proof -
  have u: "unat (of_nat n :: u64) = n" using assms(3) by (simp add: unat_of_nat)
  then have "(of_nat n :: u64) \<noteq> 0" using assms(2) by (metis less_irrefl unat_0)
  from splitmix_next_bounded_less [OF assms(1) this] show ?thesis by (simp add: word_less_nat_alt u)
qed

section \<open>Numbered identities\<close>

definition numbered :: "nat \<Rightarrow> 'tag StrongId list" where
  "numbered n = map (\<lambda>k. StrongId (of_nat k + 1)) [0..<n]"

lemma numbered_0 [simp]: "numbered 0 = []"
  by (simp add: numbered_def)

lemma length_numbered [simp]: "length (numbered n) = n"
  by (simp add: numbered_def)

lemma numbered_Nil [simp]: "numbered n = [] \<longleftrightarrow> n = 0"
  by (simp add: numbered_def)

lemma numbered_Suc: "numbered (Suc n) = numbered n @ [StrongId (of_nat n + 1)]"
  by (simp add: numbered_def)

lemma set_numbered_Suc: "set (numbered (Suc n)) = insert (StrongId (of_nat n + 1)) (set (numbered n))"
  by (auto simp: numbered_Suc)

lemma numbered_inj:
  "a < 2 ^ 64 \<Longrightarrow> b < 2 ^ 64 \<Longrightarrow> StrongId (of_nat a + 1) = (StrongId (of_nat b + 1) :: 'tag StrongId) \<longleftrightarrow> a = b"
  by (auto simp: unat_of_nat dest: arg_cong [where f = unat])

lemma numbered_inj_on: "n \<le> 2 ^ 64 \<Longrightarrow> inj_on (\<lambda>k. StrongId (of_nat k + 1) :: 'tag StrongId) {0..<n}"
  by (intro inj_onI) (subst (asm) numbered_inj, simp_all)

lemma distinct_numbered: "n \<le> 2 ^ 64 \<Longrightarrow> distinct (numbered n)"
  by (simp only: numbered_def distinct_map distinct_upt set_upt numbered_inj_on simp_thms)

lemma numbered_fresh: "n < 2 ^ 64 \<Longrightarrow> StrongId (of_nat n + 1) \<notin> set (numbered n)"
  using distinct_numbered [of "Suc n"] by (simp only: numbered_Suc distinct_append disjoint_iff list.set) auto

lemma numbered_mono: "m \<le> n \<Longrightarrow> set (numbered m) \<subseteq> set (numbered n)"
  by (auto simp: numbered_def)

lemma numbered_valid:
  assumes "i \<in> set (numbered n)" and "n < 2 ^ 63" shows "id_valid i"
proof -
  obtain k where k: "i = StrongId (of_nat k + 1)" "k < n" using assms(1) by (auto simp: numbered_def)
  have "unat (of_nat k + 1 :: u64) = k + 1"
    using k(2) assms(2) by (simp add: unat_add_no_overflow unat_of_nat)
  then have "(of_nat k + 1 :: u64) \<noteq> 0xFFFFFFFFFFFFFFFF" using k(2) assms(2) by auto
  then show ?thesis by (simp add: k id_valid_def id_kInvalid_def)
qed

section \<open>The shape of the graph\<close>

text \<open>What every step keeps; \<open>nodes\<close> is the limit the specification sets.\<close>

definition ends :: "DependencyEdge \<Rightarrow> ResourceId \<times> ResourceId" where
  "ends e = (edge_from e, edge_to e)"

definition ids :: "SyntheticGraph \<Rightarrow> ResourceId set" where
  "ids g = set (numbered (length (sg_resources g)))"

definition graph_ok :: "nat \<Rightarrow> Attenuation \<Rightarrow> SyntheticGraph \<Rightarrow> bool" where
  "graph_ok nodes att g \<longleftrightarrow>
     length (sg_resources g) \<le> nodes \<and> nodes < 2 ^ 32 \<and>
     sg_resources g = map synthetic_resource (numbered (length (sg_resources g))) \<and>
     map edge_id (sg_edges g) = numbered (length (sg_edges g)) \<and> distinct (map ends (sg_edges g)) \<and>
     (\<forall>e \<in> set (sg_edges g). e = synthetic_edge att (edge_id e) (edge_from e) (edge_to e) \<and>
        edge_from e \<in> ids g \<and> edge_to e \<in> ids g)"

lemma synthetic_edge_sel [simp]:
  "edge_id (synthetic_edge att i x y) = i" "edge_from (synthetic_edge att i x y) = x"
  "edge_to (synthetic_edge att i x y) = y" "ends (synthetic_edge att i x y) = (x, y)"
  by (simp_all add: synthetic_edge_def ends_def)

lemma graph_ok_edge:
  assumes "graph_ok nodes att g" and "from \<in> ids g" and "to \<in> ids g" and "(from, to) \<notin> ends ` set (sg_edges g)"
  shows "graph_ok nodes att (add_edge att from to g)"
  using assms by (auto simp: graph_ok_def add_edge_def numbered_Suc ids_def)

lemma graph_ok_resource:
  assumes "graph_ok nodes att g" and "length (sg_resources g) < nodes"
  shows "graph_ok nodes att (add_resource (StrongId (of_nat (length (sg_resources g)) + 1)) g)"
  using assms by (auto simp: graph_ok_def add_resource_def numbered_Suc ids_def)

lemma ids_length:
  assumes "ids g \<subseteq> ids g'" and "graph_ok nodes att g" and "graph_ok nodes att g'"
  shows "length (sg_resources g) \<le> length (sg_resources g')"
proof -
  have "card (ids h) = length (sg_resources h)" if "graph_ok nodes att h" for h
    using distinct_card [OF distinct_numbered, of "length (sg_resources h)"] that
    by (simp add: ids_def graph_ok_def)
  then show ?thesis using assms card_mono [of "ids g'" "ids g"] by (simp add: ids_def)
qed

section \<open>Growing the layers\<close>

text \<open>
  While the layers grow, the edges enter exactly the resources that are not origins, each
  once and in order.
\<close>

definition grow_ok :: "nat \<Rightarrow> Attenuation \<Rightarrow> nat \<Rightarrow> growth \<Rightarrow> bool" where
  "grow_ok nodes att sources st \<longleftrightarrow> (case st of (g, current, next_id) \<Rightarrow>
     graph_ok nodes att g \<and> next_id = of_nat (length (sg_resources g)) + 1 \<and>
     sources \<le> length (sg_resources g) \<and> sg_origins g = numbered sources \<and>
     map edge_to (sg_edges g) = drop sources (numbered (length (sg_resources g))) \<and>
     set current \<subseteq> ids g \<and> length current \<le> length (sg_resources g))"

lemma grow_step:
  assumes ok: "grow_ok nodes att sources (g, current, x)" and p: "parent \<in> ids g"
    and room: "length (sg_resources g) < nodes"
  shows "grow_ok nodes att sources
    (add_edge att parent (StrongId x) (add_resource (StrongId x) g), current @ [StrongId x], x + 1)"
proof -
  let ?n = "length (sg_resources g)" and ?r = "add_resource (StrongId x) g"
  have x: "x = of_nat ?n + 1" and g: "graph_ok nodes att g" using ok by (auto simp: grow_ok_def)
  have r: "graph_ok nodes att ?r" unfolding x by (rule graph_ok_resource [OF g room])
  have ids: "ids ?r = insert (StrongId x) (ids g)"
    by (simp add: ids_def add_resource_def set_numbered_Suc x)
  have "StrongId x \<notin> ids g"
    unfolding ids_def x by (rule numbered_fresh) (use g room in \<open>simp add: graph_ok_def\<close>)
  then have "(parent, StrongId x) \<notin> ends ` set (sg_edges ?r)"
    using g by (auto simp: graph_ok_def ends_def add_resource_def)
  then have "graph_ok nodes att (add_edge att parent (StrongId x) ?r)"
    using r p by (intro graph_ok_edge) (simp_all add: ids)
  then show ?thesis using ok
    by (auto simp: grow_ok_def add_edge_def add_resource_def ids_def numbered_Suc x)
qed

lemma add_children_ok:
  assumes "grow_ok (unat (spec_nodes spec)) att sources (g, current, x)" and "parent \<in> ids g"
    and "add_children spec att parent k (g, current, x) = (g', current', x')"
  shows "grow_ok (unat (spec_nodes spec)) att sources (g', current', x') \<and> ids g \<subseteq> ids g'"
  using assms
proof (induction k arbitrary: g current x)
  case (Suc k)
  show ?case
  proof (cases "is_full spec g")
    case False
    let ?g = "add_edge att parent (StrongId x) (add_resource (StrongId x) g)"
    have s: "grow_ok (unat (spec_nodes spec)) att sources (?g, current @ [StrongId x], x + 1)"
      using grow_step [OF Suc.prems(1,2)] False by (simp add: is_full_def)
    have i: "ids g \<subseteq> ids ?g" by (simp add: ids_def add_edge_def add_resource_def numbered_mono)
    then have "parent \<in> ids ?g" using Suc.prems(2) by blast
    from Suc.IH [OF s this] i Suc.prems(3) False show ?thesis by auto
  qed (use Suc.prems in auto)
qed auto

lemma add_level_ok:
  assumes "grow_ok (unat (spec_nodes spec)) att sources (g, current, x)" and "set parents \<subseteq> ids g"
    and "add_level spec att parents (g, current, x) = (g', current', x')"
  shows "grow_ok (unat (spec_nodes spec)) att sources (g', current', x') \<and> ids g \<subseteq> ids g'"
  using assms
proof (induction parents arbitrary: g current x)
  case (Cons p ps)
  obtain g1 c1 x1 where c: "add_children spec att p (unat (spec_fanout spec)) (g, current, x) = (g1, c1, x1)"
    by (rule prod_cases3)
  have "p \<in> ids g" using Cons.prems(2) by simp
  note 1 = add_children_ok [OF Cons.prems(1) this c]
  then have "set ps \<subseteq> ids g1" using Cons.prems(2) by auto
  with 1 Cons.IH [of g1 c1 x1] Cons.prems(3) show ?case by (auto simp: c Let_def split: if_splits)
qed auto

text \<open>Every level is non-empty and holds resources of the graph.\<close>

definition levels_ok :: "SyntheticGraph \<Rightarrow> ResourceId list list \<Rightarrow> bool" where
  "levels_ok g levels \<longleftrightarrow>
     (\<forall>l \<in> set levels. l \<noteq> [] \<and> set l \<subseteq> ids g \<and> length l \<le> length (sg_resources g))"

lemma add_levels_ok:
  assumes "grow_ok (unat (spec_nodes spec)) att sources (g, [], x)" and "levels_ok g levels" and "levels \<noteq> []"
    and "add_levels spec att n (g, x, levels) = (g', levels')"
  shows "(\<exists>x'. grow_ok (unat (spec_nodes spec)) att sources (g', [], x')) \<and> levels_ok g' levels' \<and>
    length levels' \<le> length levels + n"
  using assms
proof (induction n arbitrary: g x levels)
  case (Suc n)
  obtain g1 c1 x1 where c: "add_level spec att (last levels) (g, [], x) = (g1, c1, x1)"
    by (rule prod_cases3)
  have "set (last levels) \<subseteq> ids g" using Suc.prems(2,3) by (simp add: levels_ok_def)
  note 1 = add_level_ok [OF Suc.prems(1) this c]
  then have g1: "grow_ok (unat (spec_nodes spec)) att sources (g1, [], x1)" by (simp add: grow_ok_def)
  have len: "length (sg_resources g) \<le> length (sg_resources g1)"
    using 1 Suc.prems(1) by (intro ids_length) (auto simp: grow_ok_def)
  then have l1: "levels_ok g1 levels" using Suc.prems(2) 1 by (fastforce simp: levels_ok_def)
  show ?case
  proof (cases "c1 = []")
    case False
    then have "levels_ok g1 (levels @ [c1])" using l1 1 by (auto simp: levels_ok_def grow_ok_def)
    with Suc.IH [OF g1 this] g1 Suc.prems(4) False show ?thesis
      by (fastforce simp: c Let_def split: if_splits)
  qed (use g1 l1 Suc.prems(4) in \<open>auto simp: c Let_def\<close>)
qed auto

lemma add_origins_ok:
  assumes "graph_ok nodes att g" and "sg_origins g = numbered (length (sg_resources g))" and "sg_edges g = []"
    and "length (sg_resources g) + n \<le> nodes"
  shows "graph_ok nodes att (add_origins n g) \<and> sg_edges (add_origins n g) = [] \<and>
    length (sg_resources (add_origins n g)) = length (sg_resources g) + n \<and>
    sg_origins (add_origins n g) = numbered (length (sg_resources g) + n)"
  using assms
proof (induction n arbitrary: g)
  case (Suc n)
  let ?i = "StrongId (of_nat (length (sg_resources g)) + 1)"
  let ?g = "(add_resource ?i g)\<lparr>sg_origins := sg_origins g @ [?i]\<rparr>"
  have "graph_ok nodes att (add_resource ?i g)" using Suc.prems by (intro graph_ok_resource) simp_all
  then have "graph_ok nodes att ?g" by (simp add: graph_ok_def ids_def)
  moreover have "sg_origins ?g = numbered (length (sg_resources ?g))" "sg_edges ?g = []"
    "length (sg_resources ?g) = Suc (length (sg_resources g))"
    using Suc.prems by (simp_all add: add_resource_def numbered_Suc)
  ultimately show ?case using Suc.IH [of ?g] Suc.prems(4) by (simp add: Let_def)
qed simp

lemma synthetic_layers_ok:
  assumes "synthetic_layers spec att = (g, levels)" and "spec_sources spec \<le> spec_nodes spec" and "spec_sources spec \<noteq> 0"
  shows "\<exists>x. grow_ok (unat (spec_nodes spec)) att (unat (spec_sources spec)) (g, [], x)"
    and "levels_ok g levels" and "length levels < 2 ^ 64"
proof -
  let ?s = "unat (spec_sources spec)" and ?n = "unat (spec_nodes spec)"
  let ?start = "synthetic_start spec" and ?g = "add_origins (unat (spec_sources spec)) (synthetic_start spec)"
  have n: "?n < 2 ^ 32" "?s \<le> ?n" "0 < ?s" using unat_u32_bound [of "spec_nodes spec"] assms(2,3)
    by (simp_all add: word_le_nat_alt unat_gt_0)
  have "graph_ok ?n att ?start" "sg_origins ?start = numbered (length (sg_resources ?start))" "sg_edges ?start = []"
    "length (sg_resources ?start) + ?s \<le> ?n"
    using n by (simp_all add: graph_ok_def synthetic_start_def)
  note o = add_origins_ok [OF this]
  have len: "length (sg_resources ?g) = ?s" using o by (simp add: synthetic_start_def)
  have 1: "grow_ok ?n att ?s (?g, [], of_nat (length (sg_resources ?g)) + 1)"
    using o len by (simp add: grow_ok_def synthetic_start_def)
  have 2: "levels_ok ?g [sg_origins ?g]" using o len n(3)
    by (auto simp: levels_ok_def ids_def synthetic_start_def)
  have 3: "add_levels spec att (unat (spec_depth spec)) (?g, of_nat (length (sg_resources ?g)) + 1, [sg_origins ?g]) = (g, levels)"
    using assms(1) by (simp add: synthetic_layers_def Let_def)
  note 4 = add_levels_ok [OF 1 2 _ 3]
  show "\<exists>x. grow_ok ?n att ?s (g, [], x)" "levels_ok g levels" using 4 by auto
  show "length levels < 2 ^ 64" using 4 unat_u32_bound [of "spec_depth spec"] by simp
qed

section \<open>Closing cycles\<close>

text \<open>\<open>g\<close> is \<open>g0\<close> with \<open>k\<close> edges more, between its resources.\<close>

definition closed_ok :: "nat \<Rightarrow> Attenuation \<Rightarrow> SyntheticGraph \<Rightarrow> SyntheticGraph \<Rightarrow> nat \<Rightarrow> bool" where
  "closed_ok nodes att g0 g k \<longleftrightarrow>
     graph_ok nodes att g \<and> sg_resources g = sg_resources g0 \<and> sg_origins g = sg_origins g0 \<and>
     (\<exists>more. sg_edges g = sg_edges g0 @ more \<and> length more = k)"

lemma add_cycle_ok:
  assumes "add_cycle fuel att levels (g, rng) = Some (closed, g', rng')"
    and "closed_ok nodes att g0 g k" and "levels_ok g0 levels" and "1 < length levels" and "length levels < 2 ^ 64"
  shows "closed_ok nodes att g0 g' (if closed then Suc k else k)"
proof -
  obtain d r1 s r2 where d: "splitmix_next_bounded fuel rng (of_nat (length levels - 1)) = Some (d, r1)"
    and s: "splitmix_next_bounded fuel r1 (1 + d) = Some (s, r2)"
    using assms(1) by (auto simp: add_cycle_def Let_def bind_eq_Some_conv)
  have dl: "unat d < length levels - 1" by (rule drawn_index [OF d]) (use assms in simp_all)
  have sl: "unat s < 1 + unat d" by (rule drawn_index [of fuel r1]) (use s dl assms in simp_all)
  let ?deep = "levels ! (1 + unat d)" and ?shallow = "levels ! unat s"
  have lev: "?deep \<in> set levels" "?shallow \<in> set levels" using dl sl by simp_all
  have ne: "?deep \<noteq> []" "?shallow \<noteq> []" using lev assms(3) by (auto simp: levels_ok_def)
  then obtain i r3 j r4 where i: "splitmix_next_bounded fuel r2 (of_nat (length ?deep)) = Some (i, r3)"
    and j: "splitmix_next_bounded fuel r3 (of_nat (length ?shallow)) = Some (j, r4)"
    using assms(1) by (auto simp: add_cycle_def Let_def bind_eq_Some_conv d [simplified] s)
  have g: "graph_ok nodes att g" "sg_resources g = sg_resources g0" using assms(2) by (auto simp: closed_ok_def)
  then have small: "length (sg_resources g0) < 2 ^ 32" by (simp add: graph_ok_def)
  have "unat i < length ?deep" by (rule drawn_index [OF i]) (use lev ne assms(3) small in \<open>auto simp: levels_ok_def\<close>)
  moreover have "unat j < length ?shallow"
    by (rule drawn_index [OF j]) (use lev ne assms(3) small in \<open>auto simp: levels_ok_def\<close>)
  ultimately have "?deep ! unat i \<in> set ?deep" "?shallow ! unat j \<in> set ?shallow" by simp_all
  then have in_g: "?deep ! unat i \<in> ids g" "?shallow ! unat j \<in> ids g"
    using lev assms(3) g(2) by (auto simp: levels_ok_def ids_def)
  show ?thesis
  proof (cases "list_ex (\<lambda>e. edge_from e = ?deep ! unat i \<and> edge_to e = ?shallow ! unat j) (sg_edges g)")
    case True
    then show ?thesis using assms(1,2) ne by (simp add: add_cycle_def Let_def d [simplified] s i [simplified] j)
  next
    case False
    let ?g = "add_edge att (?deep ! unat i) (?shallow ! unat j) g"
    have "graph_ok nodes att ?g"
      by (rule graph_ok_edge [OF g(1) in_g]) (use False in \<open>auto simp: ends_def list_ex_iff\<close>)
    moreover have "g' = ?g" "closed" using False assms(1) ne by (simp_all add: add_cycle_def Let_def d [simplified] s i [simplified] j)
    ultimately show ?thesis using assms(2) by (auto simp: closed_ok_def add_edge_def)
  qed
qed

lemma add_cycles_ok:
  assumes "add_cycles fuel spec att levels left added (g, rng) = Some (added', g')"
    and "closed_ok nodes att g0 g (unat added)" and "levels_ok g0 levels" and "length levels < 2 ^ 64"
    and "added \<le> spec_cycle_edges spec"
  shows "closed_ok nodes att g0 g' (unat added') \<and> added' \<le> spec_cycle_edges spec"
  using assms
proof (induction left arbitrary: added g rng)
  case (Suc left)
  show ?case
  proof (cases "added < spec_cycle_edges spec \<and> length levels > 1")
    case True
    then obtain closed g1 r1 where c: "add_cycle fuel att levels (g, rng) = Some (closed, g1, r1)"
      using Suc.prems(1) by (auto split: option.splits)
    have "unat (added + 1) = unat added + unat (1 :: u32)"
      by (intro unat_add_no_overflow) (use True unat_u32_bound [of "spec_cycle_edges spec"] in \<open>simp add: word_less_nat_alt\<close>)
    then have inc: "unat (added + 1) = Suc (unat added)" "added + 1 \<le> spec_cycle_edges spec"
      using True by (simp_all add: word_less_nat_alt word_le_nat_alt)
    have "closed_ok nodes att g0 g1 (unat (if closed then added + 1 else added))"
      using add_cycle_ok [OF c Suc.prems(2,3) _ Suc.prems(4)] True inc by auto
    with Suc.IH [of "if closed then added + 1 else added" g1 r1] Suc.prems True inc show ?thesis
      by (auto simp: c split: if_splits)
  qed (use Suc.prems in auto)
qed auto

lemma add_cycle_total: "2 ^ 64 \<le> fuel \<Longrightarrow> \<exists>v. add_cycle fuel att levels st = Some v"
proof -
  assume f: "2 ^ 64 \<le> fuel"
  note draw = splitmix_next_bounded_total [OF f]
  have bind: "Option.bind (splitmix_next_bounded fuel g b) h \<noteq> None" if "\<forall>v. h v \<noteq> None" for g b h
    using draw [of g b] that by auto
  have "add_cycle fuel att levels st \<noteq> None"
    unfolding add_cycle_def Let_def by (simp add: bind del: not_None_eq split: prod.split)
  then show ?thesis by auto
qed

lemma add_cycles_total:
  assumes "2 ^ 64 \<le> fuel" shows "\<exists>v. add_cycles fuel spec att levels left added st = Some v"
proof (induction left arbitrary: added st)
  case (Suc left)
  obtain closed st1 where "add_cycle fuel att levels st = Some (closed, st1)"
    using add_cycle_total [OF assms, of att levels st] by auto
  with Suc [of "if closed then added + 1 else added" st1] show ?case by auto
qed simp

section \<open>The generated graph\<close>

text \<open>The shape of a specification the generator accepts.\<close>

definition spec_ok :: "SyntheticGraphSpec \<Rightarrow> bool" where
  "spec_ok spec \<longleftrightarrow>
     spec_depth spec \<noteq> 0 \<and> spec_fanout spec \<noteq> 0 \<and> spec_sources spec \<noteq> 0 \<and>
     spec_sources spec \<le> spec_nodes spec \<and> spec_attenuation_per_100k spec \<le> 100000"

text \<open>
  The resources are numbered from 1, the origins first, and number at most \<open>nodes\<close>; the edges
  are numbered from 1 and no two have the same ends; the first of them enter exactly the
  resources that are not origins, each once, and the others are the cycle edges counted.
\<close>

definition synthetic_ok :: "SyntheticGraphSpec \<Rightarrow> SyntheticGraph \<Rightarrow> bool" where
  "synthetic_ok spec g \<longleftrightarrow>
     (let n = length (sg_resources g); s = unat (spec_sources spec); m = length (sg_edges g)
      in s \<le> n \<and> n \<le> unat (spec_nodes spec) \<and>
         sg_resources g = map synthetic_resource (numbered n) \<and> sg_origins g = numbered s \<and>
         m = n - s + unat (sg_cycle_edges g) \<and> sg_cycle_edges g \<le> spec_cycle_edges spec \<and>
         map edge_id (sg_edges g) = numbered m \<and> distinct (map ends (sg_edges g)) \<and>
         map edge_to (take (n - s) (sg_edges g)) = drop s (numbered n) \<and>
         (\<forall>e \<in> set (sg_edges g). \<exists>att. attenuation_for spec = Inr att \<and>
            e = synthetic_edge att (edge_id e) (edge_from e) (edge_to e) \<and>
            edge_from e \<in> ids g \<and> edge_to e \<in> ids g))"

lemma attenuation_for_ok: "\<not> isl (attenuation_for spec) \<longleftrightarrow> spec_attenuation_per_100k spec \<le> 100000"
  by (auto simp: attenuation_for_def att_from_percent_milli_def q16_from_percent_milli_def Let_def
      bpfab_try_decl_def fail_def split: sum.splits if_splits)

lemma make_synthetic_graph_cases:
  assumes "make_synthetic_graph fuel spec = Some (Inr g)"
  obtains att g0 levels rng added g1 where "spec_ok spec" "attenuation_for spec = Inr att"
    "synthetic_layers spec att = (g0, levels)"
    "add_cycles fuel spec att levels (unat (max_attempts spec)) 0 (g0, rng) = Some (added, g1)"
    "g = g1\<lparr>sg_cycle_edges := added\<rparr>"
proof -
  obtain att where a: "attenuation_for spec = Inr att"
    using assms by (cases "attenuation_for spec") (auto simp: make_synthetic_graph_def split: if_splits)
  obtain g0 levels where l: "synthetic_layers spec att = (g0, levels)" by (rule prod.exhaust)
  have ok: "spec_ok spec" using assms attenuation_for_ok [of spec] a
    by (auto simp: make_synthetic_graph_def spec_ok_def not_less split: if_splits)
  then have nz: "spec_nodes spec \<noteq> 0" "\<not> spec_nodes spec < spec_sources spec" by (auto simp: spec_ok_def)
  obtain added g1 where "add_cycles fuel spec att levels (unat (max_attempts spec)) 0
      (g0, \<lparr>sm_state = derive_seed (ucast (spec_seed spec)) ''synthetic-graph''\<rparr>) = Some (added, g1)"
    "g = g1\<lparr>sg_cycle_edges := added\<rparr>"
    using assms ok nz by (auto simp: make_synthetic_graph_def spec_ok_def a l Let_def)
  with ok a l that show thesis by blast
qed

lemma make_synthetic_graph_ok:
  assumes "make_synthetic_graph fuel spec = Some (Inr g)" shows "synthetic_ok spec g"
proof -
  obtain att g0 levels rng added g1 where c: "spec_ok spec" "attenuation_for spec = Inr att"
    "synthetic_layers spec att = (g0, levels)"
    "add_cycles fuel spec att levels (unat (max_attempts spec)) 0 (g0, rng) = Some (added, g1)"
    "g = g1\<lparr>sg_cycle_edges := added\<rparr>"
    using make_synthetic_graph_cases [OF assms] .
  note l = synthetic_layers_ok [OF c(3)]
  obtain x where grow: "grow_ok (unat (spec_nodes spec)) att (unat (spec_sources spec)) (g0, [], x)"
    using l(1) c(1) by (auto simp: spec_ok_def)
  then have "closed_ok (unat (spec_nodes spec)) att g0 g0 (unat (0 :: u32))"
    by (simp add: closed_ok_def grow_ok_def)
  from add_cycles_ok [OF c(4) this] l c(1)
  have closed: "closed_ok (unat (spec_nodes spec)) att g0 g1 (unat added)" "added \<le> spec_cycle_edges spec"
    by (simp_all add: spec_ok_def)
  obtain more where more: "sg_edges g1 = sg_edges g0 @ more" "length more = unat added"
    using closed(1) by (auto simp: closed_ok_def)
  have to: "map edge_to (sg_edges g0) = drop (unat (spec_sources spec)) (numbered (length (sg_resources g0)))"
    using grow by (simp add: grow_ok_def)
  from arg_cong [OF this, of length]
  have len: "length (sg_edges g0) = length (sg_resources g0) - unat (spec_sources spec)" by simp
  have same: "sg_resources g1 = sg_resources g0" "sg_origins g1 = sg_origins g0" "graph_ok (unat (spec_nodes spec)) att g1"
    using closed(1) by (auto simp: closed_ok_def)
  have "map edge_to (take (length (sg_edges g0)) (sg_edges g1)) = map edge_to (sg_edges g0)" by (simp add: more(1))
  then show ?thesis
    using grow to same len more(2) closed(2)
    by (auto simp: synthetic_ok_def Let_def c(2,5) grow_ok_def graph_ok_def ids_def more(1))
qed

lemma make_synthetic_graph_total:
  assumes "2 ^ 64 \<le> fuel"
  shows "\<exists>r. make_synthetic_graph fuel spec = Some r \<and> (isl r \<longleftrightarrow> \<not> spec_ok spec)"
proof (cases "spec_ok spec")
  case True
  then obtain att where a: "attenuation_for spec = Inr att"
    using attenuation_for_ok [of spec] by (cases "attenuation_for spec") (auto simp: spec_ok_def)
  have "spec_nodes spec \<noteq> 0" using True by (auto simp: spec_ok_def)
  then show ?thesis
    using True add_cycles_total [OF assms, of spec att]
    by (fastforce simp: make_synthetic_graph_def spec_ok_def a Let_def not_less split: prod.splits)
next
  case False
  then show ?thesis using attenuation_for_ok [of spec]
    by (cases "attenuation_for spec") (auto simp: make_synthetic_graph_def spec_ok_def not_less fail_def)
qed

section \<open>Accepted by the topology\<close>

lemma adjacent_duplicate_None: "distinct (map key xs) \<Longrightarrow> adjacent_duplicate key xs = None"
  by (induction key xs rule: adjacent_duplicate.induct) auto

lemma adjacent_duplicate_sorted:
  assumes "distinct (map key xs)" shows "adjacent_duplicate key (std_sort lt xs) = None"
proof (rule adjacent_duplicate_None)
  have "mset (map key (std_sort lt xs)) = mset (map key xs)" by simp
  then show "distinct (map key (std_sort lt xs))" using assms by (metis mset_eq_imp_distinct_iff)
qed

lemma incr_bounded: "\<forall>x \<in> set xs. x \<le> b \<Longrightarrow> \<forall>x \<in> set (incr xs i). x \<le> Suc b"
  using set_update_subset_insert [of xs i "xs ! i + 1"]
  by (cases "i < length xs") (fastforce simp: incr_def list_update_beyond)+

lemma count_degrees_bounded:
  "\<forall>x \<in> set outd. x \<le> b \<Longrightarrow> \<forall>x \<in> set ind. x \<le> b \<Longrightarrow> count_degrees idx es (outd, ind) = (outd', ind') \<Longrightarrow>
   (\<forall>x \<in> set outd'. x \<le> b + length es) \<and> (\<forall>x \<in> set ind'. x \<le> b + length es)"
proof (induction es arbitrary: outd ind b)
  case (Cons e es)
  from Cons.IH [OF incr_bounded [OF Cons.prems(1)] incr_bounded [OF Cons.prems(2)]] Cons.prems(3)
  show ?case by simp
qed auto

lemma degree_limits_ok:
  "(\<forall>(d, i) \<in> set ds. d \<le> lim_max_out_degree lim \<and> i \<le> lim_max_in_degree lim) \<Longrightarrow>
   \<exists>stats. degree_limits lim ds st = Inr stats"
  by (induction ds arbitrary: st) (auto simp: Let_def)

text \<open>Inputs that are valid, numbered without repetition and within the limits are accepted.\<close>

lemma build_accepts:
  assumes res: "\<forall>r \<in> set rs. status_ok (resource_validate r)" "distinct (map res_id rs)"
      "length rs \<le> lim_max_resources lim" "0 < lim_max_resources lim"
    and edges: "\<forall>e \<in> set es. status_ok (edge_validate e)" "distinct (map edge_id es)"
      "length es \<le> lim_max_edges lim" "0 < lim_max_edges lim"
    and ends: "\<forall>e \<in> set es. edge_from e \<in> res_id ` set rs \<and> edge_to e \<in> res_id ` set rs"
    and deg: "length es \<le> lim_max_out_degree lim" "length es \<le> lim_max_in_degree lim"
      "0 < lim_max_out_degree lim" "0 < lim_max_in_degree lim"
  shows "\<exists>t. build rs es lim True = Some (Inr t)"
proof -
  have "\<exists>c. build_canonical rs es lim = Inr c" using assms
    by (simp add: build_canonical_def adjacent_duplicate_sorted Let_def try_simps dom_index_from)
  then obtain rs' es' idx where c: "build_canonical rs es lim = Inr (rs', es', idx)" by auto
  have len: "length es' = length es"
    using build_canonical_ok(2) [OF c] by (metis size_mset)
  obtain outd ind where cd: "count_degrees idx es' (replicate (length rs') 0, replicate (length rs') 0) = (outd, ind)"
    by (rule prod.exhaust)
  have "(\<forall>x \<in> set outd. x \<le> 0 + length es') \<and> (\<forall>x \<in> set ind. x \<le> 0 + length es')"
    by (rule count_degrees_bounded [OF _ _ cd]) auto
  then have "\<forall>(d, i) \<in> set (zip outd ind). d \<le> lim_max_out_degree lim \<and> i \<le> lim_max_in_degree lim"
    using deg(1,2) len by (fastforce dest: set_zip_leftD set_zip_rightD)
  from degree_limits_ok [OF this, of topology_stats]
  obtain stats where "degree_limits lim (zip outd ind) topology_stats = Inr stats" by blast
  then have "\<exists>tables. build_tables rs' es' idx lim = Inr tables"
    by (simp add: build_tables_def Let_def cd try_simps case_prod_unfold)
  then obtain tables where t: "build_tables rs' es' idx lim = Inr tables" by blast
  obtain r where "build rs es lim True = Some r" using build_returns by blast
  then show ?thesis by (auto simp: build_def c t build_finish_def Let_def split: option.splits prod.splits)
qed

lemma synthetic_small:
  assumes "synthetic_ok spec g" and "unat (spec_nodes spec) + unat (spec_cycle_edges spec) \<le> 2 ^ 16"
  shows "length (sg_resources g) \<le> 2 ^ 16" and "length (sg_edges g) \<le> 2 ^ 16"
  using assms by (auto simp: synthetic_ok_def Let_def word_le_nat_alt)

lemma synthetic_builds:
  assumes "synthetic_ok spec g" and "unat (spec_nodes spec) + unat (spec_cycle_edges spec) \<le> 2 ^ 16"
  shows "\<exists>t. build (sg_resources g) (sg_edges g) bench_limits True = Some (Inr t)"
proof (rule build_accepts)
  let ?n = "length (sg_resources g)" and ?m = "length (sg_edges g)"
  have ok: "sg_resources g = map synthetic_resource (numbered ?n)" "map edge_id (sg_edges g) = numbered ?m"
    "\<forall>e \<in> set (sg_edges g). \<exists>att. e = synthetic_edge att (edge_id e) (edge_from e) (edge_to e) \<and>
       edge_from e \<in> ids g \<and> edge_to e \<in> ids g"
    using assms(1) unfolding synthetic_ok_def Let_def by blast+
  note n = synthetic_small [OF assms]
  have res_ids: "map res_id (sg_resources g) = numbered ?n"
    by (subst ok(1)) (simp add: synthetic_resource_def comp_def)
  have valid: "id_valid i" if "i \<in> set (numbered k)" "k \<le> 2 ^ 16" for i :: "'b StrongId" and k
    by (rule numbered_valid [OF that(1)]) (use that(2) in simp)
  show "\<forall>r \<in> set (sg_resources g). status_ok (resource_validate r)"
    by (subst ok(1)) (use valid n in \<open>auto simp: resource_validate_ok synthetic_resource_def kGenerated_def
        gen_initial_def gen_known_def gen_kUnknown_def\<close>)
  show "distinct (map res_id (sg_resources g))" "distinct (map edge_id (sg_edges g))"
    unfolding res_ids ok(2) using n by (auto intro!: distinct_numbered)
  have edge_ids: "edge_id e \<in> set (numbered ?m)" if "e \<in> set (sg_edges g)" for e
    using that unfolding ok(2) [symmetric] by simp
  show "\<forall>e \<in> set (sg_edges g). status_ok (edge_validate e)"
  proof
    fix e assume e: "e \<in> set (sg_edges g)"
    then obtain att where eq: "e = synthetic_edge att (edge_id e) (edge_from e) (edge_to e)"
      and ends: "edge_from e \<in> ids g" "edge_to e \<in> ids g" using ok(3) by blast
    have "id_valid (edge_id e)" "id_valid (edge_from e)" "id_valid (edge_to e)"
      using valid edge_ids [OF e] ends n by (auto simp: ids_def)
    then show "status_ok (edge_validate e)"
      by (subst (asm) (1 2 3) eq, subst eq) (simp add: edge_validate_ok synthetic_edge_def kGenerated_def
        gen_initial_def gen_known_def gen_kUnknown_def is_amplifying_def flag_simps flags_none_def)
  qed
  have "res_id ` set (sg_resources g) = ids g" by (metis ids_def res_ids set_map)
  then show "\<forall>e \<in> set (sg_edges g). edge_from e \<in> res_id ` set (sg_resources g) \<and> edge_to e \<in> res_id ` set (sg_resources g)"
    using ok(3) by blast
qed (use synthetic_small [OF assms] in \<open>simp_all add: bench_limits_def\<close>)

section \<open>Running the benchmark\<close>

text \<open>The policy that \<open>run_benchmark\<close> prepares is valid.\<close>

lemma bench_policy_valid:
  "\<exists>p. make_conservative_policy (StrongId 1) kGenerated = Inr p \<and> status_ok (policy_validate (bench_policy p))"
proof -
  have "case make_conservative_policy (StrongId 1) kGenerated of
      Inl _ \<Rightarrow> False | Inr p \<Rightarrow> status_ok (policy_validate (bench_policy p))" by code_simp
  then show ?thesis by (simp split: sum.splits)
qed

lemma bench_iterations_ok:
  assumes "topology_wf topo"
  shows "\<exists>failed r'. bench_iterations policy topo start_tick origins n iteration (ledger, r) = Some (failed, r') \<and>
    (failed \<longrightarrow> \<not> status_ok (br_status r')) \<and> (\<not> failed \<longrightarrow> br_iterations r' = br_iterations r + of_nat n) \<and>
    br_name r' = br_name r \<and> br_valid r' = br_valid r \<and> br_graph_nodes r' = br_graph_nodes r \<and>
    br_graph_edges r' = br_graph_edges r \<and> br_cycle_edges r' = br_cycle_edges r"
proof (induction n arbitrary: iteration ledger r)
  case (Suc n)
  let ?ctx = "\<lparr>ctx_topology = Some topo, ctx_policy = Some policy, ctx_ledger = ledger,
               ctx_fences = None, ctx_live_epoch = Epoch 1\<rparr>"
  obtain o1 l where p: "propagate ?ctx (bench_request policy topo start_tick iteration origins) = Some (o1, l)"
    using propagate_total [of ?ctx] assms by (metis EngineContext.select_convs(1) option.inject)
  show ?case
  proof (cases "status_ok (out_status o1)")
    case True
    then show ?thesis using Suc.IH [of "iteration + 1" l "count_iteration o1 r"]
      by (auto simp: p count_iteration_def Let_def)
  next
    case False
    then show ?thesis
      by (intro exI [of _ True] exI [of _ "r\<lparr>br_status := out_status o1\<rparr>"]) (simp add: p)
  qed
next
  case 0
  show ?case by (intro exI [of _ False] exI [of _ r]) simp
qed

lemma attenuation_for_error: "attenuation_for spec = Inl s \<Longrightarrow> \<not> status_ok s"
  by (auto simp: attenuation_for_def att_from_percent_milli_def q16_from_percent_milli_def
      bpfab_try_decl_def fail_def Let_def split: if_splits)

lemma make_synthetic_graph_error:
  assumes "make_synthetic_graph fuel spec = Some (Inl s)" shows "\<not> status_ok s"
proof (cases "attenuation_for spec")
  case (Inl t)
  with assms attenuation_for_error [OF this] show ?thesis
    by (auto simp: make_synthetic_graph_def fail_def split: if_splits)
next
  case (Inr att)
  obtain g levels where "synthetic_layers spec att = (g, levels)" by (rule prod.exhaust)
  with assms Inr show ?thesis by (auto simp: make_synthetic_graph_def fail_def Let_def split: if_splits)
qed

text \<open>
  What a case must report: its name; a status that is an error exactly when the result is not
  valid; the sizes of the graph generated for it, which has the promised shape; and, when its
  result is valid and the engine was run, every iteration asked for.
\<close>

definition case_reported :: "BenchConfig \<Rightarrow> BenchCase \<Rightarrow> BenchResult \<Rightarrow> bool" where
  "case_reported config c r \<longleftrightarrow>
     br_name r = bc_name c \<and> br_valid r = status_ok (br_status r) \<and>
     (br_valid r \<and> cfg_build_topology config \<longrightarrow> br_iterations r = ucast (bc_iterations c)) \<and>
     (if spec_ok (bc_spec c)
      then (\<exists>g. synthetic_ok (bc_spec c) g \<and> br_graph_nodes r = of_nat (length (sg_resources g)) \<and>
              br_graph_edges r = of_nat (length (sg_edges g)) \<and> br_cycle_edges r = sg_cycle_edges g)
      else \<not> br_valid r)"

definition small_spec :: "SyntheticGraphSpec \<Rightarrow> bool" where
  "small_spec spec \<longleftrightarrow> unat (spec_nodes spec) + unat (spec_cycle_edges spec) \<le> 2 ^ 16"

lemma run_case_ok:
  assumes "2 ^ 64 \<le> fuel" and "small_spec (bc_spec c)"
  shows "\<exists>r. run_case fuel policy config c = Some r \<and> case_reported config c r"
proof -
  obtain m where m: "make_synthetic_graph fuel (bc_spec c) = Some m" "isl m \<longleftrightarrow> \<not> spec_ok (bc_spec c)"
    using make_synthetic_graph_total [OF assms(1)] by blast
  show ?thesis
  proof (cases m)
    case (Inl s)
    then show ?thesis using m make_synthetic_graph_error
      by (auto simp: run_case_def case_reported_def bench_result_def)
  next
    case (Inr g)
    have ok: "spec_ok (bc_spec c)" "synthetic_ok (bc_spec c) g"
      using m Inr make_synthetic_graph_ok by auto
    obtain topo where b: "build (sg_resources g) (sg_edges g) bench_limits True = Some (Inr topo)"
      using synthetic_builds [OF ok(2)] assms(2) by (auto simp: small_spec_def)
    let ?r = "(bench_result (bc_name c))
                \<lparr>br_graph_nodes := of_nat (length (sg_resources g)),
                 br_graph_edges := of_nat (length (sg_edges g)), br_depth := sg_depth g,
                 br_fanout := sg_fanout g, br_sources := sg_sources g, br_cycle_edges := sg_cycle_edges g\<rparr>"
    obtain failed r1 where i: "bench_iterations policy topo (cfg_start_tick config) (sg_origins g)
        (unat (bc_iterations c)) 0 (Some (propagation_ledger (2 ^ 18) (2 ^ 18) (2 ^ 18)), ?r) = Some (failed, r1)"
      and r1: "failed \<longrightarrow> \<not> status_ok (br_status r1)"
      "\<not> failed \<longrightarrow> br_iterations r1 = br_iterations ?r + of_nat (unat (bc_iterations c))"
      "br_name r1 = br_name ?r" "br_valid r1 = br_valid ?r" "br_graph_nodes r1 = br_graph_nodes ?r"
      "br_graph_edges r1 = br_graph_edges ?r" "br_cycle_edges r1 = br_cycle_edges ?r"
      using bench_iterations_ok [OF build_wf [OF b], of policy "cfg_start_tick config" "sg_origins g"
        "unat (bc_iterations c)" 0 "Some (propagation_ledger (2 ^ 18) (2 ^ 18) (2 ^ 18))" ?r]
      by (elim exE conjE)
    show ?thesis
    proof (cases "cfg_build_topology config")
      case True
      have "run_case fuel policy config c =
          Some (if failed then r1 else r1\<lparr>br_status := status_success, br_valid := True\<rparr>)"
        using True i by (simp add: run_case_def m(1) Inr Let_def b)
      moreover have "case_reported config c (if failed then r1 else r1\<lparr>br_status := status_success, br_valid := True\<rparr>)"
        using ok r1 by (cases failed) (auto simp: case_reported_def bench_result_def)
      ultimately show ?thesis by blast
    next
      case False
      then show ?thesis using ok by (auto simp: run_case_def m(1) Inr Let_def case_reported_def bench_result_def)
    qed
  qed
qed

lemma run_cases_ok:
  assumes "2 ^ 64 \<le> fuel" and "\<forall>c \<in> set cs. small_spec (bc_spec c)"
  shows "\<exists>rs. run_cases fuel policy config cs = Some rs \<and> list_all2 (case_reported config) cs rs"
  using assms(2)
proof (induction cs)
  case (Cons c cs)
  then obtain rs where "run_cases fuel policy config cs = Some rs" "list_all2 (case_reported config) cs rs" by auto
  with run_case_ok [OF assms(1), of c policy config] Cons.prems show ?case by auto
qed simp

lemma default_cases_small: "\<forall>c \<in> set default_benchmark_cases. small_spec (bc_spec c) \<and> spec_ok (bc_spec c)"
  by (simp add: default_benchmark_cases_def bench_case_def synthetic_graph_spec_def small_spec_def spec_ok_def)

end
