(* ===== verification/Properties_Synthetic.thy ===== *)
theory Properties_Synthetic
  imports Synthetic_Facts
begin

text \<open>
  The properties of the synthetic benchmark: what its graphs are, and what it reports.
\<close>





end
