(* ===== verification/Spec2Isabelle.thy ===== *)
theory Spec2Isabelle
  imports ByteIO Properties_Model Properties_Engine Properties_Store Properties_Frame Properties_Fabric Properties_Host
    Properties_Synthetic
begin

text \<open>
  A verification library for Backpressure Fabric, a C++ library that propagates pressure
  signals over a graph of dependent resources under explicit policies, authority and fences,
  and keeps a durable record of what it has accepted. Paths are those of the repository.

  \<^bold>\<open>Parts of the program and how they interact.\<close>
  \<^item> The core (\<open>include/backpressure/core\<close>, \<open>src/core\<close>): errors as values, checked and fixed-point
    arithmetic, digests, identities, generators and byte codecs.
  \<^item> The model (\<open>include/backpressure/model\<close>, \<open>src/model\<close>): resources, edges, observations,
    authority, fences, policies, signals, and the topology that \<open>Topology::build\<close> canonicalises
    and indexes once.
  \<^item> The engine (\<open>src/engine\<close>): \<open>propagate\<close> runs a best-first traversal per signal, aggregates
    per resource and commits to a ledger; \<open>recover\<close> decays what a source has applied.
  \<^item> The store (\<open>src/store\<close>): an append-only journal of chained, checksummed records and the
    durable state that is replayed from it and compacted into it.
  \<^item> The runtime (\<open>src/runtime/fabric.cpp\<close>): the fabric, which owns topology, policy, ledger,
    fences, publishers and store; publishes by a dry run, a durable intent, a commit and the
    closing of the intent; and runs asynchronous publishes on a bounded worker pool.
  \<^item> The frame transport (\<open>src/ipc/frame.cpp\<close>) and the synthetic benchmark
    (\<open>src/bench/synthetic.cpp\<close>).

  \<^bold>\<open>Theories.\<close> Each theory with definitions models the files its opening text names.
  \<^item> \<open>Prelude\<close>: word abbreviations, shared lemmas on lists, options and words, the collections of
    simplification rules.
  \<^item> Core: \<open>Status\<close>, \<open>Checked\<close>, \<open>Fixed\<close>, \<open>Clock_Rng\<close>, \<open>Digest\<close>, \<open>Ids\<close>, \<open>Bytes\<close>, \<open>ByteIO\<close>.
  \<^item> Model: \<open>Generations\<close>, \<open>Resources\<close>, \<open>Dependency\<close>, \<open>Observation\<close>, \<open>Authority\<close>, \<open>Fence\<close>,
    \<open>Policy\<close>, \<open>Signal\<close>, \<open>Topology\<close>; lemmas in \<open>Topology_Build\<close>.
  \<^item> Engine: \<open>Explain\<close>, \<open>Ledger\<close>, \<open>Traversal\<close>, \<open>Engine\<close>; lemmas in \<open>Traversal_Facts\<close> (frames and
    the decreasing measure), \<open>Traversal_Inv\<close>, \<open>Traversal_Safety\<close> (hops, budgets, accounting,
    pressure), \<open>Engine_Facts\<close>, \<open>Engine_Safety\<close>; a small system in \<open>Demo\<close>.
  \<^item> Store: \<open>Journal\<close>, \<open>Durable\<close>; lemmas in \<open>Journal_Facts\<close> (chains, replay, damage, crashes),
    \<open>Durable_Facts\<close> (serialisation), \<open>Store_Facts\<close> (what each operation appends and syncs),
    \<open>Store_Run\<close> (sequences of operations, crashes, restarts), \<open>Compaction\<close>; a fresh store in
    \<open>Store_Demo\<close>.
  \<^item> Runtime: \<open>Pool\<close> (worker pool), \<open>Fabric\<close> (opening, installation, registry, fences,
    revalidation), \<open>Publish\<close> (publishing, recovery, flush, shutdown, sequences of calls),
    \<open>Tickets\<close> (asynchronous publishing); lemmas in \<open>Fabric_Engine\<close> (dry run against commit),
    \<open>Fabric_Facts\<close> (invariant, totality), \<open>Fabric_Boot\<close>, \<open>Fabric_Publish\<close>, \<open>Fabric_Restart\<close>
    (crash and restart), \<open>Fabric_Steps\<close> (what a call may change), \<open>Tickets_Facts\<close>; a small fabric
    in \<open>Fabric_Demo\<close>.
  \<^item> Transport: \<open>Frame\<close>, \<open>Frame_Facts\<close>. Benchmark: \<open>Synthetic\<close>, \<open>Synthetic_Facts\<close>.
  \<^item> Properties: \<open>Properties_Model\<close>, \<open>Properties_Engine\<close>, \<open>Properties_Store\<close>,
    \<open>Properties_Frame\<close>, \<open>Properties_Fabric\<close>, \<open>Properties_Host\<close>, \<open>Properties_Synthetic\<close>.

  \<^bold>\<open>How state and operations correspond to the code.\<close> A struct or class is a record with the
  members of the code, an enumeration a datatype, an integer a word of its width; vector sizes
  and indices are natural numbers. A \<open>Result\<close> or \<open>Status\<close> is a value of \<open>Status\<close>: every early
  return is a branch. A method that changes its object returns the new record. Hash maps are
  maps where only keys are looked up; where the code iterates one, or bounds its size, it is an
  association list with distinct keys and the iteration takes the order of the list. The ledger,
  which the engine reaches through a pointer, is returned with the outcome.

  A section of \<open>Fabric\<close> or \<open>WorkerPool\<close> that runs under one mutex is one function. What
  threads may do in any order is an inductive relation whose steps are those sections and the
  accesses to atomics between them: \<open>pool_run\<close> for the pool (its second component is a history
  for the statements, which the code does not keep) and \<open>host_step\<close> for fabric, pool and tickets
  together. A ticket's shared cancellation flag is named by the ticket's number, and numbers
  are assumed not to wrap; both invariants are proved by rule induction over those relations.

  The file behind the journal is its bytes, the number of them made durable, and a tape of
  outcomes for the coming calls of the C library, so a theorem holds whichever calls fail; a
  call with no outcome left succeeds. A crash keeps the durable bytes and any number of the later
  ones. Creating a file and renaming it are taken as durable, although the code never syncs the
  directory. The connection of the transport has such a tape for \<open>send\<close> and \<open>recv\<close>.

  \<^bold>\<open>What the groups of lemmas show.\<close> Core and model: exactness or overflow of every arithmetic
  operation, inverses of the codecs, detection of a changed byte by the checksum, invariants of
  the tables, and that a built topology is well formed and independent of input order. Engine:
  termination, every hop permitted and exact, no pressure gained without granted amplification,
  an account of every edge, exact admission, aggregation and recovery, and no effect of a replay.
  Store: an opened journal is a well-formed chain, synced records survive every crash, a restart
  reconstructs the acknowledged operations, and compaction keeps the state. Runtime: every
  sequence of calls returns and keeps the invariant, an effect only after every admission check,
  the plan is what commits, a published signal and a shutdown survive crash and restart, each
  pooled job starts at most once, a ticket cancelled in time is never committed. Transport:
  frames arrive whole or not at all. Benchmark: the generated graph has its shape and is accepted
  by the topology.

  \<^bold>\<open>Interfaces.\<close> Where one component relies on another, or several operations share a contract,
  the contract is a locale, interpreted on the definitions of the code: among them the
  comparators of the canonical order, the byte codecs, and the logging operations of the store.

  \<^bold>\<open>Bounds and fuel.\<close> The traversal gets one round per edge, the origin and the last test of the
  queue, and every round drains the queue or settles a node. The component search gets one round
  more than there are resources and edges. Both are shown to suffice on every well-formed
  topology, so publish and its kin are total under the fabric's invariant. The rejection loop of a
  generator gets \<open>2 ^ 64\<close> rounds, because its counter passes through every word. Everything else
  recurses structurally or on a decreasing counter.

  \<^bold>\<open>Not modelled.\<close> The steady clock (\<open>src/core/clock.cpp\<close>), process identity, creation and
  locking of the state directory (\<open>include/backpressure/store/fsutil.hpp\<close>) and creating,
  listening on and selecting sockets are calls of the operating system: their answers are
  parameters or left out. \<open>src/ipc/subprocess.cpp\<close> only makes such calls. The command-line tool
  (\<open>src/tools/bpfab_main.cpp\<close>) parses arguments and prints. The rates of the benchmark are
  floating-point readings of the clock, and its table is printed text. The umbrella headers have no
  behaviour.
\<close>

end
